(* ===== verification/Prelude.thy ===== *)
theory Prelude
  imports Main "HOL-Library.Word" "HOL-Library.Multiset" "HOL-Library.AList"
begin

text \<open>
  Shared vocabulary of the development: the machine integer types, byte strings and their
  little-endian encodings, writes into fixed-size buffers, and the generic facts on lists
  and maps that the component theories use. Bytes are \<open>8 word\<close>; a Go or C string that is
  only compared and joined is a \<open>string\<close> (one \<open>char\<close> per byte).
\<close>

unbundle bit_operations_syntax

section \<open>Types\<close>

type_synonym u8 = "8 word"
type_synonym u16 = "16 word"
type_synonym u32 = "32 word"
type_synonym s16 = "16 word"
type_synonym s32 = "32 word"
type_synonym u64 = "64 word"
type_synonym s64 = "64 word"
type_synonym bytes = "8 word list"

named_theorems layout_simps \<open>sizes and little-endian encodings of record fields\<close>
named_theorems handler_defs \<open>definitions a proof about a kernel handler unfolds\<close>

section \<open>Strings and bytes\<close>

definition byte_of_char :: "char \<Rightarrow> u8" where
  "byte_of_char c = of_char c"

definition char_of_byte :: "u8 \<Rightarrow> char" where
  "char_of_byte b = char_of (unat b)"

definition bytes_of :: "string \<Rightarrow> bytes" where
  "bytes_of s = map byte_of_char s"

definition str_of :: "bytes \<Rightarrow> string" where
  "str_of bs = map char_of_byte bs"

lemma char_of_byte_inverse [simp]: "char_of_byte (byte_of_char c) = c"
proof -
  have "(of_char c :: u8) = of_nat (of_char c :: nat)"
    by (rule of_nat_of_char [symmetric])
  then have "unat (of_char c :: u8) = (of_char c :: nat) mod 256"
    by (simp add: unat_of_nat)
  then show ?thesis by (simp add: char_of_byte_def byte_of_char_def)
qed

lemma byte_of_char_inverse [simp]: "byte_of_char (char_of_byte b) = b"
proof -
  have "unat b < 256" using unsigned_less [of b] by simp
  then have "(of_char (char_of (unat b)) :: nat) = unat b" by simp
  moreover have "(of_char (char_of (unat b)) :: u8) = of_nat (of_char (char_of (unat b)) :: nat)"
    by (rule of_nat_of_char [symmetric])
  ultimately show ?thesis by (simp add: char_of_byte_def byte_of_char_def)
qed

lemma str_of_bytes_of [simp]: "str_of (bytes_of s) = s"
  by (simp add: str_of_def bytes_of_def comp_def)

lemma bytes_of_str_of [simp]: "bytes_of (str_of bs) = bs"
  by (simp add: str_of_def bytes_of_def comp_def)

lemma bytes_of_inject [simp]: "bytes_of s = bytes_of t \<longleftrightarrow> s = t"
  by (metis str_of_bytes_of)

lemma length_bytes_of [simp]: "length (bytes_of s) = length s"
  by (simp add: bytes_of_def)

lemma length_str_of [simp]: "length (str_of bs) = length bs"
  by (simp add: str_of_def)

section \<open>Little-endian integers\<close>

fun le_enc :: "nat \<Rightarrow> nat \<Rightarrow> bytes" where
  "le_enc 0 x = []"
| "le_enc (Suc n) x = word_of_nat x # le_enc n (x div 256)"

fun le_dec :: "bytes \<Rightarrow> nat" where
  "le_dec [] = 0"
| "le_dec (b # bs) = unat b + 256 * le_dec bs"

lemma length_le_enc [simp, layout_simps]: "length (le_enc n x) = n"
  by (induction n arbitrary: x) auto

lemma le_dec_enc_mod: "le_dec (le_enc n x) = x mod 256 ^ n"
proof (induction n arbitrary: x)
  case 0
  then show ?case by simp
next
  case (Suc n)
  have "unat (word_of_nat x :: u8) = x mod 256"
    by (simp add: unat_of_nat)
  with Suc show ?case
    by (simp add: mod_mult2_eq mult.commute)
qed

lemma le_dec_enc: "x < 256 ^ n \<Longrightarrow> le_dec (le_enc n x) = x"
  by (simp add: le_dec_enc_mod)

lemma le_dec_bound: "le_dec bs < 256 ^ length bs"
proof (induction bs)
  case Nil
  then show ?case by simp
next
  case (Cons b bs)
  have "unat b < 256" using unsigned_less [of b] by simp
  with Cons show ?case by simp
qed

lemma le_dec_enc_u8 [simp]: "le_dec (le_enc 1 (unat (w :: u8))) = unat w"
  using unsigned_less [of w] by (intro le_dec_enc) simp

lemma le_dec_enc_u16 [simp]: "le_dec (le_enc 2 (unat (w :: u16))) = unat w"
  using unsigned_less [of w] by (intro le_dec_enc) simp

lemma le_dec_enc_u32 [simp]: "le_dec (le_enc 4 (unat (w :: u32))) = unat w"
  using unsigned_less [of w] by (intro le_dec_enc) simp

lemma le_dec_enc_u64 [simp]: "le_dec (le_enc 8 (unat (w :: u64))) = unat w"
  using unsigned_less [of w] by (intro le_dec_enc) simp

section \<open>Buffers\<close>

text \<open>\<open>put_at off src dst\<close> is the buffer \<open>dst\<close> after \<open>src\<close> was copied to offset \<open>off\<close>;
  \<open>seg off n xs\<close> are the \<open>n\<close> elements from \<open>off\<close> on.\<close>

definition put_at :: "nat \<Rightarrow> 'a list \<Rightarrow> 'a list \<Rightarrow> 'a list" where
  "put_at off src dst = take off dst @ src @ drop (off + length src) dst"

definition seg :: "nat \<Rightarrow> nat \<Rightarrow> 'a list \<Rightarrow> 'a list" where
  "seg off n xs = take n (drop off xs)"

lemma length_put_at: "off + length src \<le> length dst \<Longrightarrow> length (put_at off src dst) = length dst"
  by (simp add: put_at_def)

lemma take_put_at: "n \<le> off \<Longrightarrow> off \<le> length dst \<Longrightarrow> take n (put_at off src dst) = take n dst"
  by (simp add: put_at_def min_absorb1)

lemma seg_put_at: "off \<le> length dst \<Longrightarrow> n \<le> length src \<Longrightarrow>
    seg off n (put_at off src dst) = take n src"
  by (simp add: put_at_def seg_def min_absorb1)

lemma length_seg [simp]: "length (seg off n xs) = min n (length xs - off)"
  by (simp add: seg_def)

lemma take_put_at_ext: "off \<le> length dst \<Longrightarrow> n \<le> length src \<Longrightarrow>
    take (off + n) (put_at off src dst) = take off dst @ take n src"
  by (simp add: put_at_def min_absorb1)

section \<open>C strings\<close>

text \<open>The bytes of a buffer before its first NUL.\<close>

definition c_str :: "bytes \<Rightarrow> bytes" where
  "c_str bs = takeWhile (\<lambda>b. b \<noteq> 0) bs"

lemma c_str_append_nul [simp]: "0 \<notin> set s \<Longrightarrow> c_str (s @ 0 # t) = s"
  by (induction s) (auto simp: c_str_def)

lemma c_str_no_nul: "0 \<notin> set (c_str bs)"
  by (auto simp: c_str_def dest: set_takeWhileD)

section \<open>Lists and multisets\<close>

lemma list_update_map_fst:
  "i < length xs \<Longrightarrow> xs ! i = x \<Longrightarrow> f y = f x \<Longrightarrow> map f (xs[i := y]) = map f xs"
  by (auto simp: map_update list_update_same_conv)

lemma mset_filter_split: "mset xs = mset (filter P xs) + mset (filter (\<lambda>x. \<not> P x) xs)"
  by (induction xs) auto

end
