(* ===== verification/Models.thy ===== *)
theory Models
  imports Prelude
begin

text \<open>
  The shared data model (\<open>pkg/models\<close>): action types, trajectory entries and ground-truth
  events, their validation, and the canonical request target of \<open>nettarget.go\<close>.

  A Go \<open>string\<close> is a \<open>string\<close> (one \<open>char\<close> per byte), a pointer to an optional value is
  an \<open>option\<close>, \<open>int32\<close> is \<open>s32\<close>. A \<open>time.Time\<close> is the number of nanoseconds since
  Go's zero time (1 January of year 1, UTC) as an unbounded \<open>int\<close>; a \<open>time.Duration\<close> is
  a 64-bit word read as two's complement, so the saturation of \<open>Time.Sub\<close> and the
  wrap-around of a negation are those of the code. Timestamps read from JSON carry no
  monotonic clock reading.
\<close>

section \<open>Action types\<close>

type_synonym ActionType = string

definition FileOpen :: ActionType where "FileOpen = ''file_open''"
definition FileRead :: ActionType where "FileRead = ''file_read''"
definition FileWrite :: ActionType where "FileWrite = ''file_write''"
definition FileClose :: ActionType where "FileClose = ''file_close''"
definition FileRename :: ActionType where "FileRename = ''file_rename''"
definition FileDelete :: ActionType where "FileDelete = ''file_delete''"
definition NetRequest :: ActionType where "NetRequest = ''net_request''"
definition NetDNS :: ActionType where "NetDNS = ''net_dns''"
definition NetConnect :: ActionType where "NetConnect = ''net_connect''"
definition ProcessExec :: ActionType where "ProcessExec = ''process_exec''"
definition ProcessExit :: ActionType where "ProcessExit = ''process_exit''"
definition GitCommit :: ActionType where "GitCommit = ''git_commit''"

lemmas action_defs = FileOpen_def FileRead_def FileWrite_def FileClose_def FileRename_def
  FileDelete_def NetRequest_def NetDNS_def NetConnect_def ProcessExec_def ProcessExit_def
  GitCommit_def

definition validActionTypes :: "ActionType list" where
  "validActionTypes =
     [FileOpen, FileRead, FileWrite, FileClose, FileRename, FileDelete,
      NetRequest, NetDNS, NetConnect, ProcessExec, ProcessExit, GitCommit]"

definition IsValid :: "ActionType \<Rightarrow> bool" where
  "IsValid a = (a \<in> set validActionTypes)"

section \<open>Time\<close>

type_synonym Time = int
type_synonym Duration = "64 word"

definition MinDuration :: int where "MinDuration = - (2 ^ 63)"
definition MaxDuration :: int where "MaxDuration = 2 ^ 63 - 1"

definition IsZero :: "Time \<Rightarrow> bool" where
  "IsZero t = (t = 0)"

text \<open>\<open>time.Unix(0, ns)\<close>: the Unix epoch is 62135596800 seconds after the zero time.\<close>

definition time_Unix :: "64 word \<Rightarrow> Time" where
  "time_Unix ns = 62135596800 * 1000000000 + sint ns"

lemma time_Unix_nonzero: "time_Unix ns \<noteq> 0"
  using sint_ge [of ns] by (simp add: time_Unix_def)

text \<open>\<open>Time.Sub\<close> saturates at the ends of the range of a duration.\<close>

definition time_Sub :: "Time \<Rightarrow> Time \<Rightarrow> Duration" where
  "time_Sub t u = word_of_int (max MinDuration (min MaxDuration (t - u)))"

text \<open>
  The idiom \<open>diff := t.Sub(u); if diff < 0 { diff = -diff }\<close>, used by both \<open>Match\<close> and
  \<open>Verify\<close>. The negation is on a machine word: the smallest duration negates to itself.
\<close>

definition abs_diff :: "Time \<Rightarrow> Time \<Rightarrow> Duration" where
  "abs_diff t u = (let diff = time_Sub t u in if sint diff < 0 then - diff else diff)"

lemma sint_word_of_int_s64:
  "MinDuration \<le> x \<Longrightarrow> x \<le> MaxDuration \<Longrightarrow> sint (word_of_int x :: s64) = x"
  by (simp add: MinDuration_def MaxDuration_def sint_sbintrunc' signed_take_bit_int_eq_self)

lemma sint_uminus_s64: "sint d \<noteq> MinDuration \<Longrightarrow> sint (- d) = - sint (d :: s64)"
proof -
  assume "sint d \<noteq> MinDuration"
  moreover have "MinDuration \<le> sint d" "sint d \<le> MaxDuration"
    using sint_ge [of d] sint_lt [of d] by (simp_all add: MinDuration_def MaxDuration_def)
  ultimately have "sint (word_of_int (- sint d) :: s64) = - sint d"
    by (intro sint_word_of_int_s64) (simp_all add: MinDuration_def MaxDuration_def)
  then show ?thesis by simp
qed

lemma sint_time_Sub: "sint (time_Sub t u) = max MinDuration (min MaxDuration (t - u))"
  unfolding time_Sub_def
  by (rule sint_word_of_int_s64) (simp_all add: MinDuration_def MaxDuration_def)

lemma sint_abs_diff:
  assumes "t - u > MinDuration"
  shows "sint (abs_diff t u) = min MaxDuration \<bar>t - u\<bar>"
proof -
  have "sint (time_Sub t u) \<noteq> MinDuration"
    using assms by (simp add: sint_time_Sub MinDuration_def MaxDuration_def)
  then have "sint (abs_diff t u) = \<bar>sint (time_Sub t u)\<bar>"
    by (simp add: abs_diff_def Let_def sint_uminus_s64)
  then show ?thesis
    using assms by (simp add: sint_time_Sub MinDuration_def MaxDuration_def)
qed

lemma sint_abs_diff_saturated:
  assumes "t - u \<le> MinDuration"
  shows "sint (abs_diff t u) = MinDuration"
proof -
  have "time_Sub t u = word_of_int MinDuration"
    using assms by (simp add: time_Sub_def MinDuration_def MaxDuration_def)
  then show ?thesis by (simp add: abs_diff_def MinDuration_def)
qed

section \<open>Entries and events\<close>

record TrajectoryEntry =
  te_Timestamp :: Time
  te_ActionType :: ActionType
  te_Target :: string
  te_InputHash :: "string option"
  te_OutputHash :: "string option"
  te_ExitCode :: "s32 option"
  te_RequestHash :: "string option"

record GroundTruthEvent =
  ge_Timestamp :: Time
  ge_ActionType :: ActionType
  ge_Target :: string
  ge_InputHash :: "string option"
  ge_OutputHash :: "string option"
  ge_ExitCode :: "s32 option"
  ge_IsTopLevel :: "bool option"
  ge_PathIsAmbiguous :: bool
  ge_RequestHash :: "string option"

type_synonym Trajectory = "TrajectoryEntry list"
type_synonym GroundTruth = "GroundTruthEvent list"

text \<open>An error result is its message, \<open>None\<close> is Go's \<open>nil\<close>.\<close>

definition Validate_entry :: "TrajectoryEntry \<Rightarrow> string option" where
  "Validate_entry e =
     (if IsZero (te_Timestamp e) then Some ''timestamp is required''
      else if \<not> IsValid (te_ActionType e) then Some (''invalid action type: '' @ te_ActionType e)
      else if te_Target e = '''' then Some ''target is required''
      else None)"

definition Validate_event :: "GroundTruthEvent \<Rightarrow> string option" where
  "Validate_event e =
     (if IsZero (ge_Timestamp e) then Some ''timestamp is required''
      else if \<not> IsValid (ge_ActionType e) then Some (''invalid action type: '' @ ge_ActionType e)
      else if ge_Target e = '''' then Some ''target is required''
      else None)"

text \<open>
  The parsers decode JSON and then validate every element, returning the first error.
  The decoder of the standard library is the argument \<open>unmarshal\<close>.
\<close>

fun first_error :: "('a \<Rightarrow> string option) \<Rightarrow> 'a list \<Rightarrow> string option" where
  "first_error v [] = None"
| "first_error v (x # xs) = (case v x of Some e \<Rightarrow> Some e | None \<Rightarrow> first_error v xs)"

definition ParseTrajectory :: "(bytes \<Rightarrow> string + Trajectory) \<Rightarrow> bytes \<Rightarrow> string + Trajectory" where
  "ParseTrajectory unmarshal data =
     (case unmarshal data of
        Inl err \<Rightarrow> Inl err
      | Inr t \<Rightarrow> (case first_error Validate_entry t of Some err \<Rightarrow> Inl err | None \<Rightarrow> Inr t))"

definition ParseGroundTruth :: "(bytes \<Rightarrow> string + GroundTruth) \<Rightarrow> bytes \<Rightarrow> string + GroundTruth" where
  "ParseGroundTruth unmarshal data =
     (case unmarshal data of
        Inl err \<Rightarrow> Inl err
      | Inr g \<Rightarrow> (case first_error Validate_event g of Some err \<Rightarrow> Inl err | None \<Rightarrow> Inr g))"

lemma first_error_None: "first_error v xs = None \<longleftrightarrow> (\<forall>x \<in> set xs. v x = None)"
  by (induction xs) (auto split: option.splits)

lemma Validate_entry_None:
  "Validate_entry e = None \<longleftrightarrow>
     te_Timestamp e \<noteq> 0 \<and> te_ActionType e \<in> set validActionTypes \<and> te_Target e \<noteq> ''''"
  by (simp add: Validate_entry_def IsZero_def IsValid_def)

lemma Validate_event_None:
  "Validate_event e = None \<longleftrightarrow>
     ge_Timestamp e \<noteq> 0 \<and> ge_ActionType e \<in> set validActionTypes \<and> ge_Target e \<noteq> ''''"
  by (simp add: Validate_event_def IsZero_def IsValid_def)

section \<open>The canonical request target\<close>

text \<open>\<open>strings.ToLower\<close> on ASCII host names, and \<open>strconv.Itoa\<close>.\<close>

definition to_lower_char :: "char \<Rightarrow> char" where
  "to_lower_char c =
     (if 65 \<le> (of_char c :: nat) \<and> (of_char c :: nat) \<le> 90 then char_of ((of_char c :: nat) + 32) else c)"

definition ToLower :: "string \<Rightarrow> string" where
  "ToLower s = map to_lower_char s"

definition digit_char :: "nat \<Rightarrow> char" where
  "digit_char d = char_of (48 + d)"

fun itoa_nat :: "nat \<Rightarrow> string" where
  "itoa_nat n = (if n < 10 then [digit_char n] else itoa_nat (n div 10) @ [digit_char (n mod 10)])"

declare itoa_nat.simps [simp del]

definition Itoa :: "int \<Rightarrow> string" where
  "Itoa i = (if i < 0 then CHR ''-'' # itoa_nat (nat (- i)) else itoa_nat (nat i))"

definition CanonicalNetTarget :: "string \<Rightarrow> string \<Rightarrow> int \<Rightarrow> string \<Rightarrow> string \<Rightarrow> string" where
  "CanonicalNetTarget meth host port path query =
     meth @ '' https://'' @ ToLower host
       @ (if port > 0 \<and> port \<noteq> 443 then '':'' @ Itoa port else '''')
       @ path
       @ (if query \<noteq> '''' then ''?'' @ query else '''')"

end
