(* ===== verification/Matching.thy ===== *)
theory Matching
  imports Models
begin

text \<open>
  \<open>pkg/matching\<close>: when a trajectory entry and a ground-truth event describe the same
  action. The path functions \<open>filepath.Clean\<close> and \<open>filepath.Dir\<close> of Go's standard
  library (on Unix) are modelled on path components: \<open>Clean\<close> is idempotent, and two paths
  have the same \<open>Clean\<close> exactly when their normal components agree.
\<close>

section \<open>filepath.Clean and filepath.Dir\<close>

fun split_on :: "'a \<Rightarrow> 'a list \<Rightarrow> 'a list list" where
  "split_on sep [] = [[]]"
| "split_on sep (c # cs) =
     (if c = sep then [] # split_on sep cs
      else (case split_on sep cs of [] \<Rightarrow> [[c]] | w # ws \<Rightarrow> (c # w) # ws))"

fun join_with :: "'a list \<Rightarrow> 'a list list \<Rightarrow> 'a list" where
  "join_with sep [] = []"
| "join_with sep [w] = w"
| "join_with sep (w # ws) = w @ sep @ join_with sep ws"

text \<open>
  \<open>clean_comps rooted cs st\<close> walks the components left to right with the output kept as a
  stack: empty and \<open>.\<close> elements are skipped, \<open>..\<close> drops the element before it, is
  dropped itself at the root, and is kept at the front of a relative path.
\<close>

fun clean_comps :: "bool \<Rightarrow> string list \<Rightarrow> string list \<Rightarrow> string list" where
  "clean_comps rooted [] st = rev st"
| "clean_comps rooted (c # cs) st =
     (if c = '''' \<or> c = ''.'' then clean_comps rooted cs st
      else if c = ''..'' then
        (case st of
           [] \<Rightarrow> clean_comps rooted cs (if rooted then [] else [''..''])
         | t # ts \<Rightarrow> clean_comps rooted cs (if t = ''..'' then ''..'' # st else ts))
      else clean_comps rooted cs (c # st))"

definition is_rooted :: "string \<Rightarrow> bool" where
  "is_rooted p = (p \<noteq> '''' \<and> hd p = CHR ''/'')"

definition path_comps :: "string \<Rightarrow> string list" where
  "path_comps p = clean_comps (is_rooted p) (split_on (CHR ''/'') p) []"

definition render_path :: "bool \<Rightarrow> string list \<Rightarrow> string" where
  "render_path rooted cs =
     (if \<not> rooted \<and> cs = [] then ''.''
      else (if rooted then ''/'' else '''') @ join_with ''/'' cs)"

definition Clean :: "string \<Rightarrow> string" where
  "Clean p = render_path (is_rooted p) (path_comps p)"

text \<open>\<open>Dir\<close> cleans everything up to and including the last separator.\<close>

definition upto_last_slash :: "string \<Rightarrow> string" where
  "upto_last_slash p = rev (dropWhile (\<lambda>c. c \<noteq> CHR ''/'') (rev p))"

definition Dir :: "string \<Rightarrow> string" where
  "Dir p = Clean (upto_last_slash p)"

subsection \<open>Normal forms\<close>

definition comp_ok :: "string \<Rightarrow> bool" where
  "comp_ok c = (c \<noteq> '''' \<and> c \<noteq> ''.'' \<and> CHR ''/'' \<notin> set c)"

text \<open>A normal component list: proper components, \<open>..\<close> only in front and never when rooted.\<close>

fun dots_front :: "bool \<Rightarrow> string list \<Rightarrow> bool" where
  "dots_front rooted [] = True"
| "dots_front rooted (c # cs) =
     (if c = ''..'' then \<not> rooted \<and> dots_front rooted cs else ''..'' \<notin> set cs)"

definition normal_comps :: "bool \<Rightarrow> string list \<Rightarrow> bool" where
  "normal_comps rooted cs = ((\<forall>c \<in> set cs. comp_ok c) \<and> dots_front rooted cs)"

lemma dots_front_append_proper:
  "dots_front r cs \<Longrightarrow> c \<noteq> ''..'' \<Longrightarrow> dots_front r (cs @ [c])"
  by (induction cs) auto

lemma dots_front_append_dots:
  "\<not> r \<Longrightarrow> set cs \<subseteq> {''..''} \<Longrightarrow> dots_front r (cs @ [''..''])"
  by (induction cs) auto

lemma dots_front_butlast: "dots_front r (cs @ [c]) \<Longrightarrow> dots_front r cs"
  by (induction cs) (auto split: if_splits)

lemma dots_front_all_dots: "dots_front r (cs @ [''..'']) \<Longrightarrow> \<not> r \<and> set cs \<subseteq> {''..''}"
  by (induction cs) (auto split: if_splits)

lemma split_on_no_sep: "w \<in> set (split_on sep xs) \<Longrightarrow> sep \<notin> set w"
  by (induction xs arbitrary: w) (auto split: if_splits list.splits)

lemma split_on_nonempty: "split_on sep xs \<noteq> []"
  by (induction xs) (auto split: list.splits)

lemma split_on_word: "sep \<notin> set w \<Longrightarrow> split_on sep w = [w]"
  by (induction w) auto

lemma split_on_append_sep:
  "sep \<notin> set w \<Longrightarrow> split_on sep (w @ sep # xs) = w # split_on sep xs"
  by (induction w) auto

lemma split_on_join:
  "cs \<noteq> [] \<Longrightarrow> \<forall>c \<in> set cs. sep \<notin> set c \<Longrightarrow> split_on sep (join_with [sep] cs) = cs"
  by (induction cs rule: induct_list012) (auto simp: split_on_word split_on_append_sep)

lemma join_split_on: "join_with [sep] (split_on sep xs) = xs"
proof (induction xs)
  case Nil
  then show ?case by simp
next
  case (Cons x xs)
  obtain w ws where ws: "split_on sep xs = w # ws"
    using split_on_nonempty [of sep xs] by (cases "split_on sep xs") auto
  with Cons show ?case by (cases ws) auto
qed

lemma normal_comps_pop: "normal_comps r (cs @ [c]) \<Longrightarrow> normal_comps r cs"
  by (auto simp: normal_comps_def intro: dots_front_butlast)

lemma normal_comps_snoc:
  "normal_comps r cs \<Longrightarrow> comp_ok c \<Longrightarrow> c \<noteq> ''..'' \<Longrightarrow> normal_comps r (cs @ [c])"
  by (auto simp: normal_comps_def intro: dots_front_append_proper)

lemma normal_comps_snoc_dots:
  assumes "normal_comps r (cs @ [''..''])"
  shows "normal_comps r (cs @ [''..'', ''..''])"
proof -
  have d: "dots_front r (cs @ [''..''])" using assms by (simp add: normal_comps_def)
  from dots_front_all_dots [OF d] have "\<not> r" "set (cs @ [''..'']) \<subseteq> {''..''}" by auto
  then have "dots_front r ((cs @ [''..'']) @ [''..''])" by (rule dots_front_append_dots)
  with assms show ?thesis by (simp add: normal_comps_def)
qed

lemma normal_clean_comps:
  "\<forall>c \<in> set cs. CHR ''/'' \<notin> set c \<Longrightarrow> normal_comps r (rev st) \<Longrightarrow> normal_comps r (clean_comps r cs st)"
proof (induction cs arbitrary: st)
  case Nil
  then show ?case by simp
next
  case (Cons c cs)
  have IH: "\<And>st. normal_comps r (rev st) \<Longrightarrow> normal_comps r (clean_comps r cs st)"
    using Cons by simp
  consider (skip) "c = '''' \<or> c = ''.''" | (dd) "c = ''..''"
    | (push) "c \<noteq> ''''" "c \<noteq> ''.''" "c \<noteq> ''..''" by blast
  then show ?case
  proof cases
    case skip
    with Cons.prems IH show ?thesis by auto
  next
    case dd
    show ?thesis
    proof (cases st)
      case Nil
      have "normal_comps r (rev (if r then [] else [''..'']))"
        by (simp add: normal_comps_def comp_ok_def)
      from IH [OF this] dd Nil show ?thesis by simp
    next
      case (Cons t ts)
      have "normal_comps r (rev ts @ [t])" using Cons.prems(2) \<open>st = t # ts\<close> by simp
      then show ?thesis
        using dd \<open>st = t # ts\<close>
        by (auto intro!: IH intro: normal_comps_pop normal_comps_snoc_dots)
    qed
  next
    case push
    then have "comp_ok c" using Cons.prems(1) by (simp add: comp_ok_def)
    then show ?thesis
      using push Cons.prems(2) by (auto intro!: IH normal_comps_snoc)
  qed
qed

lemma dots_front_prefix: "dots_front r (xs @ ys) \<Longrightarrow> dots_front r xs"
  by (induction xs) (auto split: if_splits)

lemma clean_comps_normal:
  "normal_comps r (rev st @ cs) \<Longrightarrow> clean_comps r cs st = rev st @ cs"
proof (induction cs arbitrary: st)
  case Nil
  then show ?case by simp
next
  case (Cons c cs)
  have ok: "c \<noteq> ''''" "c \<noteq> ''.''"
    using Cons.prems by (auto simp: normal_comps_def comp_ok_def)
  have "clean_comps r (c # cs) st = clean_comps r cs (c # st)"
  proof (cases "c = ''..''")
    case True
    have "dots_front r ((rev st @ [''..'']) @ cs)"
      using Cons.prems True by (simp add: normal_comps_def)
    then have d: "\<not> r \<and> set (rev st) \<subseteq> {''..''}"
      by (rule dots_front_all_dots [OF dots_front_prefix])
    with True show ?thesis by (cases st) simp_all
  qed (use ok in simp)
  also have "\<dots> = rev (c # st) @ cs"
    using Cons.prems by (intro Cons.IH) simp
  finally show ?case by simp
qed

lemma path_comps_normal: "normal_comps (is_rooted p) (path_comps p)"
  unfolding path_comps_def
  by (rule normal_clean_comps) (auto simp: normal_comps_def dest: split_on_no_sep)

lemma join_with_Cons: "\<exists>rest. join_with sep (c # cs) = c @ rest"
  by (cases cs) auto

lemma join_with_nonempty:
  assumes "cs \<noteq> []" "\<forall>c \<in> set cs. comp_ok c"
  shows "join_with ''/'' cs \<noteq> '''' \<and> hd (join_with ''/'' cs) \<noteq> CHR ''/''"
proof -
  obtain c cs' where cs: "cs = c # cs'" using assms(1) by (cases cs) auto
  obtain x xs where c: "c = x # xs" "x \<noteq> CHR ''/''"
    using assms(2) cs by (cases c) (auto simp: comp_ok_def)
  obtain rest where "join_with ''/'' cs = c @ rest"
    using join_with_Cons cs by metis
  with c show ?thesis by simp
qed

lemma is_rooted_render:
  assumes "normal_comps r cs"
  shows "is_rooted (render_path r cs) = r"
proof (cases "cs = []")
  case True
  then show ?thesis by (simp add: is_rooted_def render_path_def)
next
  case False
  then show ?thesis
    using assms join_with_nonempty [of cs]
    by (simp add: is_rooted_def render_path_def normal_comps_def)
qed

lemma path_comps_render:
  assumes "normal_comps r cs"
  shows "path_comps (render_path r cs) = cs"
proof (cases "cs = []")
  case True
  then show ?thesis
    by (cases r) (simp_all add: path_comps_def render_path_def is_rooted_def)
next
  case False
  have "split_on (CHR ''/'') (join_with ''/'' cs) = cs"
    using assms False by (intro split_on_join) (auto simp: normal_comps_def comp_ok_def)
  then show ?thesis
    using assms False is_rooted_render [OF assms] clean_comps_normal [of r "[]" cs]
    by (cases r) (simp_all add: path_comps_def render_path_def)
qed

lemma Clean_idem: "Clean (Clean p) = Clean p"
  by (simp add: Clean_def is_rooted_render path_comps_render path_comps_normal)

lemma path_comps_Clean [simp]: "path_comps (Clean p) = path_comps p"
  by (simp add: Clean_def path_comps_render path_comps_normal)

lemma is_rooted_Clean [simp]: "is_rooted (Clean p) = is_rooted p"
  by (simp add: Clean_def is_rooted_render path_comps_normal)

lemma Clean_eq_iff:
  "Clean p = Clean q \<longleftrightarrow> is_rooted p = is_rooted q \<and> path_comps p = path_comps q"
proof
  assume e: "Clean p = Clean q"
  have "is_rooted (Clean p) = is_rooted (Clean q)" "path_comps (Clean p) = path_comps (Clean q)"
    using e by simp_all
  then show "is_rooted p = is_rooted q \<and> path_comps p = path_comps q" by simp
qed (simp add: Clean_def)

lemma join_with_snoc:
  "cs \<noteq> [] \<Longrightarrow> join_with sep (cs @ [c]) = join_with sep cs @ sep @ c"
  by (induction cs rule: induct_list012) auto

lemma upto_last_slash_join:
  assumes "CHR ''/'' \<notin> set c"
  shows "upto_last_slash (xs @ CHR ''/'' # c) = xs @ ''/''"
    and "upto_last_slash c = ''''"
  using assms by (auto simp: upto_last_slash_def dropWhile_append3 dropWhile_append2 dropWhile_eq_Nil_conv)

lemma split_join_trailing:
  assumes "cs \<noteq> []" "\<forall>c \<in> set cs. CHR ''/'' \<notin> set c"
  shows "split_on (CHR ''/'') (join_with ''/'' cs @ ''/'') = cs @ ['''']"
proof -
  have "join_with ''/'' cs @ ''/'' = join_with ''/'' (cs @ [''''])"
    using assms(1) by (simp add: join_with_snoc)
  moreover have "split_on (CHR ''/'') (join_with ''/'' (cs @ [''''])) = cs @ ['''']"
    using assms by (intro split_on_join) auto
  ultimately show ?thesis by simp
qed

lemma clean_comps_snoc_empty: "clean_comps r (cs @ ['''']) st = clean_comps r cs st"
  by (induction r cs st rule: clean_comps.induct) (auto split: list.splits)

text \<open>The directory of a cleaned path drops its last component.\<close>

lemma Clean_trailing_slash:
  assumes "normal_comps r cs" "cs \<noteq> []"
  shows "Clean (render_path r cs @ ''/'') = render_path r cs"
proof -
  have "split_on (CHR ''/'') (join_with ''/'' cs @ ''/'') = cs @ ['''']"
    using assms by (intro split_join_trailing) (auto simp: normal_comps_def comp_ok_def)
  moreover have "clean_comps r cs [] = cs"
    using clean_comps_normal [of r "[]" cs] assms by simp
  moreover have "is_rooted (render_path r cs @ ''/'') = r"
    using is_rooted_render [OF assms(1)] assms join_with_nonempty [of cs]
    by (simp add: is_rooted_def render_path_def normal_comps_def split: if_splits)
  ultimately show ?thesis
    using assms by (cases r) (simp_all add: Clean_def path_comps_def render_path_def clean_comps_snoc_empty)
qed

lemma Dir_render:
  assumes n: "normal_comps r cs"
  shows "Dir (render_path r cs) = render_path r (butlast cs)"
proof (cases cs rule: rev_cases)
  case Nil
  then show ?thesis
    by (simp add: Dir_def render_path_def upto_last_slash_def Clean_def path_comps_def is_rooted_def)
next
  case (snoc ds c)
  have c: "CHR ''/'' \<notin> set c" and nd: "normal_comps r ds"
    using n snoc by (auto simp: normal_comps_def comp_ok_def intro: dots_front_butlast)
  show ?thesis
  proof (cases "ds = []")
    case True
    then show ?thesis
      using c snoc upto_last_slash_join(1) [OF c, of "[]"] upto_last_slash_join(2) [OF c]
      by (cases r) (simp_all add: Dir_def render_path_def Clean_def path_comps_def is_rooted_def)
  next
    case False
    then have "render_path r cs = render_path r ds @ CHR ''/'' # c"
      using snoc by (simp add: render_path_def join_with_snoc)
    then have "Dir (render_path r cs) = Clean (render_path r ds @ ''/'')"
      by (simp add: Dir_def upto_last_slash_join(1) [OF c])
    also have "\<dots> = render_path r ds"
      by (rule Clean_trailing_slash [OF nd False])
    finally show ?thesis using snoc by simp
  qed
qed

lemma Dir_Clean: "Dir (Clean p) = render_path (is_rooted p) (butlast (path_comps p))"
  by (simp add: Clean_def Dir_render path_comps_normal)

lemma normal_comps_butlast: "normal_comps r cs \<Longrightarrow> normal_comps r (butlast cs)"
  by (cases cs rule: rev_cases) (auto dest: normal_comps_pop)

lemma Clean_eq_Dir_iff:
  "Clean q = Dir (Clean p) \<longleftrightarrow>
     is_rooted q = is_rooted p \<and> path_comps q = butlast (path_comps p)"
proof
  assume e: "Clean q = Dir (Clean p)"
  have n: "normal_comps (is_rooted p) (butlast (path_comps p))"
    by (simp add: normal_comps_butlast path_comps_normal)
  have "is_rooted (Clean q) = is_rooted p" "path_comps (Clean q) = butlast (path_comps p)"
    unfolding e Dir_Clean by (simp_all add: is_rooted_render path_comps_render n)
  then show "is_rooted q = is_rooted p \<and> path_comps q = butlast (path_comps p)" by simp
qed (simp add: Dir_Clean Clean_def [of q])

section \<open>Matching\<close>

record Config =
  Delta :: Duration

definition DefaultDelta :: Duration where
  "DefaultDelta = 1000000000"

definition DefaultConfig :: Config where
  "DefaultConfig = \<lparr>Delta = DefaultDelta\<rparr>"

definition isFileAction :: "ActionType \<Rightarrow> bool" where
  "isFileAction a =
     (a = FileOpen \<or> a = FileRead \<or> a = FileWrite \<or> a = FileClose \<or> a = FileRename \<or> a = FileDelete)"

definition targetsMatch :: "ActionType \<Rightarrow> string \<Rightarrow> string \<Rightarrow> bool \<Rightarrow> bool" where
  "targetsMatch actionType tTarget gTarget gPathIsAmbiguous =
     (if isFileAction actionType then
        (let normT = Clean tTarget; normG = Clean gTarget in
           if normT = normG then True
           else gPathIsAmbiguous \<and> normG = Dir normT)
      else tTarget = gTarget)"

definition Match :: "TrajectoryEntry \<Rightarrow> GroundTruthEvent \<Rightarrow> Config \<Rightarrow> bool" where
  "Match t g cfg =
     (if te_ActionType t \<noteq> ge_ActionType g then False
      else if \<not> targetsMatch (te_ActionType t) (te_Target t) (ge_Target g) (ge_PathIsAmbiguous g) then False
      else sint (abs_diff (te_Timestamp t) (ge_Timestamp g)) \<le> sint (Delta cfg))"

text \<open>What the two-sided window means as long as the difference fits in a duration.\<close>

definition within_window :: "Time \<Rightarrow> Time \<Rightarrow> Duration \<Rightarrow> bool" where
  "within_window t u d = (\<bar>t - u\<bar> \<le> sint d)"

lemma window_iff:
  assumes "t - u > MinDuration" "sint d < MaxDuration"
  shows "sint (abs_diff t u) \<le> sint d \<longleftrightarrow> within_window t u d"
  using assms by (auto simp: sint_abs_diff within_window_def)

lemma targetsMatch_file:
  "isFileAction a \<Longrightarrow> targetsMatch a t g amb \<longleftrightarrow>
     is_rooted t = is_rooted g \<and>
     (path_comps g = path_comps t \<or> amb \<and> path_comps g = butlast (path_comps t))"
  by (auto simp: targetsMatch_def Let_def Clean_eq_iff Clean_eq_Dir_iff)

lemma targetsMatch_strict: "\<not> isFileAction a \<Longrightarrow> targetsMatch a t g amb \<longleftrightarrow> t = g"
  by (simp add: targetsMatch_def)

lemma MatchD:
  assumes "Match t g cfg"
  shows "te_ActionType t = ge_ActionType g"
    and "targetsMatch (te_ActionType t) (te_Target t) (ge_Target g) (ge_PathIsAmbiguous g)"
    and "sint (abs_diff (te_Timestamp t) (ge_Timestamp g)) \<le> sint (Delta cfg)"
  using assms by (auto simp: Match_def split: if_splits)

lemma not_file_actions [simp]:
  "\<not> isFileAction ProcessExec" "\<not> isFileAction ProcessExit" "\<not> isFileAction NetRequest"
  "\<not> isFileAction NetConnect" "\<not> isFileAction NetDNS" "\<not> isFileAction GitCommit"
  by (simp_all add: isFileAction_def action_defs)


section \<open>Properties of matching\<close>

text \<open>
  The window: as long as the entry is less than 292 years (the range of a duration) before
  the event, \<open>Match\<close> holds exactly for equal actions, matching targets and a time difference
  of at most \<open>Delta\<close> in either direction.
\<close>

lemma match_time_window:
  assumes "te_Timestamp t - ge_Timestamp g > MinDuration" "sint (Delta cfg) < MaxDuration"
  shows "Match t g cfg \<longleftrightarrow>
     te_ActionType t = ge_ActionType g
     \<and> targetsMatch (te_ActionType t) (te_Target t) (ge_Target g) (ge_PathIsAmbiguous g)
     \<and> \<bar>te_Timestamp t - ge_Timestamp g\<bar> \<le> sint (Delta cfg)"
  using window_iff [OF assms] by (auto simp: Match_def within_window_def)

text \<open>
  C33. The window has a hole: when the entry's time is 2^63 ns or more before the event's,
  \<open>Time.Sub\<close> saturates at the smallest duration, whose negation is itself, so the "absolute"
  difference is negative and \<open>Match\<close> accepts the pair under every non-negative \<open>Delta\<close>.
\<close>

theorem match_accepts_distant_past:
  assumes "te_ActionType t = ge_ActionType g"
    and "targetsMatch (te_ActionType t) (te_Target t) (ge_Target g) (ge_PathIsAmbiguous g)"
    and "te_Timestamp t - ge_Timestamp g \<le> MinDuration" "0 \<le> sint (Delta cfg)"
  shows "Match t g cfg"
  using assms by (simp add: Match_def sint_abs_diff_saturated) (simp add: MinDuration_def)

text \<open>
  File targets are compared by their cleaned components: the same rooted-ness, and either
  the same components or, only for an ambiguous event, the event's are exactly the parent
  directory's. The leniency never reaches a second level or a sibling.
\<close>

lemma file_targets_match_iff_components:
  assumes "isFileAction a"
  shows "targetsMatch a t g amb \<longleftrightarrow>
     is_rooted t = is_rooted g \<and>
     (path_comps g = path_comps t \<or> amb \<and> path_comps g = butlast (path_comps t))"
  using assms by (rule targetsMatch_file)

subsection \<open>Witnesses\<close>

definition ex_entry :: TrajectoryEntry where
  "ex_entry = \<lparr>te_Timestamp = 63900000000000001000, te_ActionType = FileClose, te_Target = ''/w/./a'',
     te_InputHash = None, te_OutputHash = Some ''sha256:00'', te_ExitCode = None, te_RequestHash = None\<rparr>"

definition ex_event :: GroundTruthEvent where
  "ex_event = \<lparr>ge_Timestamp = 63900000000000001500, ge_ActionType = FileClose, ge_Target = ''/w/a'',
     ge_InputHash = None, ge_OutputHash = Some ''sha256:00'', ge_ExitCode = None, ge_IsTopLevel = None,
     ge_PathIsAmbiguous = False, ge_RequestHash = None\<rparr>"

lemma match_time_window_witness:
  "te_Timestamp ex_entry - ge_Timestamp ex_event > MinDuration \<and> sint (Delta DefaultConfig) < MaxDuration
     \<and> Match ex_entry ex_event DefaultConfig"
proof -
  have h: "te_Timestamp ex_entry - ge_Timestamp ex_event > MinDuration" "sint (Delta DefaultConfig) < MaxDuration"
    by code_simp+
  have "te_ActionType ex_entry = ge_ActionType ex_event
     \<and> targetsMatch (te_ActionType ex_entry) (te_Target ex_entry) (ge_Target ex_event) (ge_PathIsAmbiguous ex_event)
     \<and> \<bar>te_Timestamp ex_entry - ge_Timestamp ex_event\<bar> \<le> sint (Delta DefaultConfig)"
    by code_simp
  with match_time_window [OF h] h show ?thesis by blast
qed

text \<open>An entry of year 1 (one nanosecond after the zero time) "matches" an event of 2025.\<close>

theorem match_accepts_distant_past_witness:
  "Validate_entry (ex_entry\<lparr>te_Timestamp := 1\<rparr>) = None \<and> Match (ex_entry\<lparr>te_Timestamp := 1\<rparr>) ex_event DefaultConfig"
proof
  show "Validate_entry (ex_entry\<lparr>te_Timestamp := 1\<rparr>) = None" by code_simp
  have h: "te_ActionType (ex_entry\<lparr>te_Timestamp := 1\<rparr>) = ge_ActionType ex_event"
    "targetsMatch (te_ActionType (ex_entry\<lparr>te_Timestamp := 1\<rparr>)) (te_Target (ex_entry\<lparr>te_Timestamp := 1\<rparr>))
       (ge_Target ex_event) (ge_PathIsAmbiguous ex_event)"
    "te_Timestamp (ex_entry\<lparr>te_Timestamp := 1\<rparr>) - ge_Timestamp ex_event \<le> MinDuration"
    "0 \<le> sint (Delta DefaultConfig)"
    by code_simp+
  show "Match (ex_entry\<lparr>te_Timestamp := 1\<rparr>) ex_event DefaultConfig"
    by (rule match_accepts_distant_past [OF h])
qed

lemma file_targets_match_iff_components_witness:
  "isFileAction FileWrite \<and> targetsMatch FileWrite ''/w/src/./main.go'' ''/w/src/'' True
     \<and> \<not> targetsMatch FileWrite ''/w/src/main.go'' ''/w'' True"
proof -
  have h: "isFileAction FileWrite" by code_simp
  have "is_rooted ''/w/src/./main.go'' = is_rooted ''/w/src/''"
    "path_comps ''/w/src/'' = butlast (path_comps ''/w/src/./main.go'')"
    "path_comps ''/w'' \<noteq> path_comps ''/w/src/main.go''"
    "path_comps ''/w'' \<noteq> butlast (path_comps ''/w/src/main.go'')"
    by code_simp+
  with h show ?thesis by (simp add: file_targets_match_iff_components [OF h])
qed

end
