(* ===== verification/Verification.thy ===== *)
theory Verification
  imports Matching
begin

text \<open>
  \<open>pkg/verification\<close>: the comparison of a trajectory with a ground truth. The scan over the
  events (\<open>find_best\<close>), the comparison of the details (\<open>detailsAgree\<close>), the loop over the
  entries (\<open>verify_loop\<close>) and \<open>Verify\<close> itself follow the loops of the source. The locale
  \<open>one_to_one\<close> is the contract between the scan and the outer loop: the scan returns an
  eligible free index, or none when no eligible index is free. The facts about a greedy
  one-to-one assignment are proved once from that contract and interpreted on \<open>find_best\<close>.
\<close>

section \<open>Model\<close>

record MatchedPair =
  Entry :: TrajectoryEntry
  Event :: GroundTruthEvent

record Verdict =
  Faithful :: bool
  Corroborated :: "MatchedPair list"
  Unwitnessed :: "TrajectoryEntry list"
  Unrecorded :: "GroundTruthEvent list"
  Mismatched :: "MatchedPair list"

definition isTopLevel :: "GroundTruthEvent \<Rightarrow> bool" where
  "isTopLevel event = (case ge_IsTopLevel event of None \<Rightarrow> True | Some b \<Rightarrow> b)"

definition hashesAgree :: "string option \<Rightarrow> string option \<Rightarrow> bool" where
  "hashesAgree a b = (if a = None \<or> b = None then True else the a = the b)"

definition exitCodesAgree :: "s32 option \<Rightarrow> s32 option \<Rightarrow> bool" where
  "exitCodesAgree a b = (if a = None \<or> b = None then True else the a = the b)"

definition requestHashesAgree :: "string option \<Rightarrow> string option \<Rightarrow> bool" where
  "requestHashesAgree a b = (if a = None \<or> b = None then True else the a = the b)"

text \<open>
  The inner loop of \<open>Verify\<close>: \<open>j\<close> is the index of the next event; the loop variables
  \<open>bestIdx\<close> (\<open>None\<close> is the index -1) and \<open>bestDiff\<close> are passed along and returned.
\<close>

fun find_best :: "Config \<Rightarrow> TrajectoryEntry \<Rightarrow> GroundTruth \<Rightarrow> bool list \<Rightarrow> nat \<Rightarrow>
    nat option \<times> Duration \<Rightarrow> nat option \<times> Duration" where
  "find_best cfg entry (event # g) (m # matched) j (bestIdx, bestDiff) =
     (if m \<or> \<not> isTopLevel event then find_best cfg entry g matched (Suc j) (bestIdx, bestDiff)
      else if \<not> Match entry event cfg then find_best cfg entry g matched (Suc j) (bestIdx, bestDiff)
      else let diff = abs_diff (te_Timestamp entry) (ge_Timestamp event) in
        if sint diff < sint bestDiff then find_best cfg entry g matched (Suc j) (Some j, diff)
        else find_best cfg entry g matched (Suc j) (bestIdx, bestDiff))"
| "find_best cfg entry _ _ j best = best"

text \<open>The comparison of the four optional details, with the three overrides.\<close>

definition detailsAgree :: "TrajectoryEntry \<Rightarrow> GroundTruthEvent \<Rightarrow> bool" where
  "detailsAgree entry event =
     (let inputOK = hashesAgree (te_InputHash entry) (ge_InputHash event);
          outputOK = hashesAgree (te_OutputHash entry) (ge_OutputHash event);
          exitOK = exitCodesAgree (te_ExitCode entry) (ge_ExitCode event);
          requestOK = requestHashesAgree (te_RequestHash entry) (ge_RequestHash event);
          outputOK = (if te_ActionType entry = FileClose \<and> te_OutputHash entry = None
                        \<and> ge_OutputHash event \<noteq> None then False else outputOK);
          exitOK = (if te_ActionType entry = ProcessExit \<and> te_ExitCode entry = None
                      \<and> ge_ExitCode event \<noteq> None then False else exitOK);
          requestOK = (if te_ActionType entry = NetRequest \<and> te_RequestHash entry = None
                         \<and> ge_RequestHash event \<noteq> None then False else requestOK)
      in inputOK \<and> outputOK \<and> exitOK \<and> requestOK)"

definition initial_verdict :: Verdict where
  "initial_verdict = \<lparr>Faithful = False, Corroborated = [], Unwitnessed = [], Unrecorded = [], Mismatched = []\<rparr>"

definition MaxInt64 :: Duration where
  "MaxInt64 = 9223372036854775807"

fun verify_loop :: "Config \<Rightarrow> GroundTruth \<Rightarrow> Trajectory \<Rightarrow> bool list \<Rightarrow> Verdict \<Rightarrow> bool list \<times> Verdict" where
  "verify_loop cfg g [] matched v = (matched, v)"
| "verify_loop cfg g (entry # t) matched v =
     (case fst (find_best cfg entry g matched 0 (None, MaxInt64)) of
        None \<Rightarrow> verify_loop cfg g t matched (v\<lparr>Unwitnessed := Unwitnessed v @ [entry]\<rparr>)
      | Some bestIdx \<Rightarrow>
          (let pair = \<lparr>Entry = entry, Event = g ! bestIdx\<rparr> in
           verify_loop cfg g t (matched[bestIdx := True])
             (if detailsAgree entry (g ! bestIdx)
              then v\<lparr>Corroborated := Corroborated v @ [pair]\<rparr>
              else v\<lparr>Mismatched := Mismatched v @ [pair]\<rparr>)))"

definition unrecorded_events :: "GroundTruth \<Rightarrow> bool list \<Rightarrow> GroundTruth" where
  "unrecorded_events g matched =
     map fst (filter (\<lambda>(event, m). \<not> m \<and> isTopLevel event) (zip g matched))"

definition Verify :: "Trajectory \<Rightarrow> GroundTruth \<Rightarrow> Config \<Rightarrow> Verdict" where
  "Verify t g cfg =
     (let (matched, v) = verify_loop cfg g t (replicate (length g) False) initial_verdict;
          v = v\<lparr>Unrecorded := Unrecorded v @ unrecorded_events g matched\<rparr>
      in v\<lparr>Faithful := length (Unwitnessed v) = 0 \<and> length (Unrecorded v) = 0
                        \<and> length (Mismatched v) = 0\<rparr>)"

section \<open>The contract of the scan and the greedy assignment\<close>

text \<open>The abstract outer loop: which index each entry is assigned.\<close>

fun assign :: "('e \<Rightarrow> bool list \<Rightarrow> nat option) \<Rightarrow> 'e list \<Rightarrow> bool list \<Rightarrow> ('e \<times> nat option) list" where
  "assign pick [] ms = []"
| "assign pick (e # es) ms =
     (e, pick e ms) # assign pick es (case pick e ms of None \<Rightarrow> ms | Some i \<Rightarrow> ms[i := True])"

fun taken :: "('e \<times> nat option) list \<Rightarrow> nat list" where
  "taken [] = []"
| "taken ((e, None) # as) = taken as"
| "taken ((e, Some i) # as) = i # taken as"

lemma set_taken: "set (taken as) = {i. \<exists>e. (e, Some i) \<in> set as}"
  by (induction as rule: taken.induct) auto

lemma map_fst_assign: "map fst (assign pick es ms) = es"
  by (induction es arbitrary: ms) auto

locale one_to_one =
  fixes pick :: "'e \<Rightarrow> bool list \<Rightarrow> nat option"
    and n :: nat
    and elig :: "'e \<Rightarrow> nat \<Rightarrow> bool"
  assumes pick_Some: "length ms = n \<Longrightarrow> pick e ms = Some i \<Longrightarrow> i < n \<and> \<not> ms ! i \<and> elig e i"
    and pick_None: "length ms = n \<Longrightarrow> pick e ms = None \<Longrightarrow> i < n \<Longrightarrow> \<not> ms ! i \<Longrightarrow> \<not> elig e i"
begin

lemma assign_elig:
  assumes "length ms = n" "(e, Some i) \<in> set (assign pick es ms)"
  shows "i < n \<and> elig e i"
  using assms
proof (induction es arbitrary: ms)
  case Nil
  then show ?case by simp
next
  case (Cons x es)
  let ?ms = "case pick x ms of None \<Rightarrow> ms | Some i \<Rightarrow> ms[i := True]"
  have l: "length ?ms = n" using Cons.prems(1) by (simp split: option.split)
  have "(x = e \<and> pick x ms = Some i) \<or> (e, Some i) \<in> set (assign pick es ?ms)"
    using Cons.prems(2) by auto
  then show ?case
  proof
    assume "x = e \<and> pick x ms = Some i"
    with pick_Some [OF Cons.prems(1)] show ?thesis by blast
  qed (rule Cons.IH [OF l])
qed

lemma assign_free:
  "length ms = n \<Longrightarrow> i \<in> set (taken (assign pick es ms)) \<Longrightarrow> i < n \<and> \<not> ms ! i"
proof (induction es arbitrary: ms)
  case Nil
  then show ?case by simp
next
  case (Cons e es)
  show ?case
  proof (cases "pick e ms")
    case None
    with Cons show ?thesis by simp
  next
    case (Some k)
    have k: "k < n" "\<not> ms ! k" using pick_Some [OF Cons.prems(1) Some] by simp_all
    show ?thesis
    proof (cases "i = k")
      case False
      with Cons.prems Some have "i \<in> set (taken (assign pick es (ms[k := True])))" by simp
      with Cons.IH [of "ms[k := True]"] Cons.prems(1) have "i < n \<and> \<not> (ms[k := True]) ! i" by simp
      with False show ?thesis by (simp add: nth_list_update)
    qed (use k in simp)
  qed
qed

lemma assign_distinct: "length ms = n \<Longrightarrow> distinct (taken (assign pick es ms))"
proof (induction es arbitrary: ms)
  case Nil
  then show ?case by simp
next
  case (Cons e es)
  show ?case
  proof (cases "pick e ms")
    case None
    with Cons show ?thesis by simp
  next
    case (Some k)
    have "k < n" using pick_Some [OF Cons.prems Some] by simp
    then have "k \<notin> set (taken (assign pick es (ms[k := True])))"
      using assign_free [of "ms[k := True]" k es] Cons.prems by auto
    with Cons Some show ?thesis by simp
  qed
qed

text \<open>An entry left without an index had no eligible index that stayed free to the end.\<close>

lemma assign_None:
  assumes "length ms = n" "(e, None) \<in> set (assign pick es ms)" "i < n" "\<not> ms ! i"
    "i \<notin> set (taken (assign pick es ms))"
  shows "\<not> elig e i"
  using assms
proof (induction es arbitrary: ms)
  case Nil
  then show ?case by simp
next
  case (Cons x es)
  let ?ms = "case pick x ms of None \<Rightarrow> ms | Some i \<Rightarrow> ms[i := True]"
  have l: "length ?ms = n" using Cons.prems(1) by (simp split: option.split)
  have f: "\<not> ?ms ! i" "i \<notin> set (taken (assign pick es ?ms))"
    using Cons.prems(1,3,4,5) by (auto simp: nth_list_update split: option.splits)
  have "(x = e \<and> pick x ms = None) \<or> (e, None) \<in> set (assign pick es ?ms)"
    using Cons.prems(2) by auto
  then show ?case
  proof
    assume "x = e \<and> pick x ms = None"
    with pick_None [OF Cons.prems(1) _ Cons.prems(3,4)] show ?thesis by blast
  qed (rule Cons.IH [OF l _ Cons.prems(3) f])
qed

end

section \<open>The scan meets its contract\<close>

definition eligible :: "Config \<Rightarrow> TrajectoryEntry \<Rightarrow> GroundTruthEvent \<Rightarrow> bool" where
  "eligible cfg e ev \<longleftrightarrow> isTopLevel ev \<and> Match e ev cfg \<and>
     sint (abs_diff (te_Timestamp e) (ge_Timestamp ev)) < sint MaxInt64"

abbreviation dist :: "TrajectoryEntry \<Rightarrow> GroundTruthEvent \<Rightarrow> int" where
  "dist e ev \<equiv> sint (abs_diff (te_Timestamp e) (ge_Timestamp ev))"

text \<open>The events the scan may choose, by their index in the rest of the list.\<close>

definition candidate :: "Config \<Rightarrow> TrajectoryEntry \<Rightarrow> GroundTruth \<Rightarrow> bool list \<Rightarrow> nat \<Rightarrow> bool" where
  "candidate cfg e g ms k \<longleftrightarrow>
     k < length g \<and> k < length ms \<and> \<not> ms ! k \<and> isTopLevel (g ! k) \<and> Match e (g ! k) cfg"

lemma candidate_Nil [simp]: "\<not> candidate cfg e [] ms k" "\<not> candidate cfg e g [] k"
  by (simp_all add: candidate_def)

lemma candidate_Cons [simp]:
  "candidate cfg e (ev # g) (m # ms) k \<longleftrightarrow>
     (case k of 0 \<Rightarrow> \<not> m \<and> isTopLevel ev \<and> Match e ev cfg | Suc l \<Rightarrow> candidate cfg e g ms l)"
  by (auto simp: candidate_def split: nat.split)

lemma find_best_le: "sint (snd (find_best cfg e g ms j best)) \<le> sint (snd best)"
  by (induction cfg e g ms j best rule: find_best.induct) (auto simp: Let_def)

text \<open>The returned distance is a lower bound of every candidate's.\<close>

lemma find_best_min:
  "candidate cfg e g ms k \<Longrightarrow> sint (snd (find_best cfg e g ms j best)) \<le> dist e (g ! k)"
proof (induction cfg e g ms j best arbitrary: k rule: find_best.induct)
  case (1 cfg entry event g m matched j bi bd)
  show ?case
  proof (cases k)
    case 0
    with "1.prems" show ?thesis
      using find_best_le [of cfg entry g matched "Suc j"]
      by (auto simp: Let_def intro: order_trans [OF find_best_le])
  next
    case (Suc l)
    with 1 show ?thesis by (auto simp: Let_def)
  qed
qed simp_all

text \<open>The returned index is the incoming one or a candidate at the returned distance.\<close>

definition from_scan :: "Config \<Rightarrow> TrajectoryEntry \<Rightarrow> GroundTruth \<Rightarrow> bool list \<Rightarrow> nat \<Rightarrow> Duration \<Rightarrow>
    nat option \<times> Duration \<Rightarrow> bool" where
  "from_scan cfg e g ms j bd r \<longleftrightarrow>
     (\<exists>k. r = (Some (j + k), abs_diff (te_Timestamp e) (ge_Timestamp (g ! k)))
        \<and> candidate cfg e g ms k \<and> dist e (g ! k) < sint bd)"

lemma from_scan_here:
  "\<not> m \<Longrightarrow> isTopLevel ev \<Longrightarrow> Match e ev cfg \<Longrightarrow> dist e ev < sint bd \<Longrightarrow>
     from_scan cfg e (ev # g) (m # ms) j bd (Some j, abs_diff (te_Timestamp e) (ge_Timestamp ev))"
  unfolding from_scan_def by (rule exI [of _ 0]) simp

lemma from_scan_later:
  assumes "from_scan cfg e g ms (Suc j) bd' r" "sint bd' \<le> sint bd"
  shows "from_scan cfg e (ev # g) (m # ms) j bd r"
proof -
  obtain k where k: "r = (Some (Suc j + k), abs_diff (te_Timestamp e) (ge_Timestamp (g ! k)))"
    "candidate cfg e g ms k" "dist e (g ! k) < sint bd'"
    using assms(1) by (auto simp: from_scan_def)
  then show ?thesis
    unfolding from_scan_def using assms(2) by (intro exI [of _ "Suc k"]) simp
qed

lemma find_best_origin:
  "find_best cfg e g ms j best = best \<or> from_scan cfg e g ms j (snd best) (find_best cfg e g ms j best)"
proof (induction cfg e g ms j best rule: find_best.induct)
  case (1 cfg entry event g m matched j bi bd)
  let ?d = "abs_diff (te_Timestamp entry) (ge_Timestamp event)"
  consider (skip) "m \<or> \<not> isTopLevel event"
    | (no) "\<not> (m \<or> \<not> isTopLevel event)" "\<not> Match entry event cfg"
    | (better) "\<not> m" "isTopLevel event" "Match entry event cfg" "sint ?d < sint bd"
    | (worse) "\<not> m" "isTopLevel event" "Match entry event cfg" "\<not> sint ?d < sint bd"
    by blast
  then show ?case
  proof cases
    case skip
    with "1.IH"(1) show ?thesis by (auto intro: from_scan_later)
  next
    case no
    with "1.IH"(2) show ?thesis by (auto intro: from_scan_later)
  next
    case better
    with "1.IH"(3) [of ?d] show ?thesis
      by (auto simp: Let_def intro: from_scan_here from_scan_later)
  next
    case worse
    with "1.IH"(4) [of ?d] show ?thesis
      by (auto simp: Let_def intro: from_scan_later)
  qed
qed simp_all

text \<open>What one call from the outer loop returns.\<close>

definition pick :: "Config \<Rightarrow> GroundTruth \<Rightarrow> TrajectoryEntry \<Rightarrow> bool list \<Rightarrow> nat option" where
  "pick cfg g e ms = fst (find_best cfg e g ms 0 (None, MaxInt64))"

lemma pick_SomeD:
  assumes "pick cfg g e ms = Some i"
  shows "candidate cfg e g ms i" "dist e (g ! i) < sint MaxInt64"
    "\<And>k. candidate cfg e g ms k \<Longrightarrow> dist e (g ! i) \<le> dist e (g ! k)"
proof -
  let ?r = "find_best cfg e g ms 0 (None, MaxInt64)"
  have "?r \<noteq> (None, MaxInt64)" using assms by (auto simp: pick_def)
  with find_best_origin [of cfg e g ms 0 "(None, MaxInt64)"]
  have "from_scan cfg e g ms 0 MaxInt64 ?r" by simp
  then have r: "snd ?r = abs_diff (te_Timestamp e) (ge_Timestamp (g ! i))"
    "candidate cfg e g ms i" "dist e (g ! i) < sint MaxInt64"
    using assms by (auto simp: from_scan_def pick_def)
  show "candidate cfg e g ms i" "dist e (g ! i) < sint MaxInt64" by (fact r)+
  show "dist e (g ! i) \<le> dist e (g ! k)" if "candidate cfg e g ms k" for k
    using find_best_min [OF that, of 0 "(None, MaxInt64)"] r(1) by simp
qed

lemma pick_NoneD:
  assumes "pick cfg g e ms = None" "candidate cfg e g ms k"
  shows "\<not> dist e (g ! k) < sint MaxInt64"
proof -
  have "find_best cfg e g ms 0 (None, MaxInt64) = (None, MaxInt64)"
    using find_best_origin [of cfg e g ms 0 "(None, MaxInt64)"] assms(1)
    by (auto simp: from_scan_def pick_def)
  with find_best_min [OF assms(2), of 0 "(None, MaxInt64)"] show ?thesis by simp
qed

interpretation scan: one_to_one "pick cfg g" "length g" "\<lambda>e i. eligible cfg e (g ! i)" for cfg g
proof unfold_locales
  fix ms :: "bool list" and e i
  assume "length ms = length g" "pick cfg g e ms = Some i"
  then show "i < length g \<and> \<not> ms ! i \<and> eligible cfg e (g ! i)"
    using pick_SomeD [of cfg g e ms i] by (auto simp: candidate_def eligible_def)
next
  fix ms :: "bool list" and e i
  assume "length ms = length g" "pick cfg g e ms = None" "i < length g" "\<not> ms ! i"
  then show "\<not> eligible cfg e (g ! i)"
    using pick_NoneD [of cfg g e ms i] by (auto simp: candidate_def eligible_def)
qed

section \<open>Verify as a greedy assignment\<close>

fun pairs_of :: "GroundTruth \<Rightarrow> (TrajectoryEntry \<times> nat option) list \<Rightarrow> MatchedPair list" where
  "pairs_of g [] = []"
| "pairs_of g ((e, None) # as) = pairs_of g as"
| "pairs_of g ((e, Some i) # as) = \<lparr>Entry = e, Event = g ! i\<rparr> # pairs_of g as"

definition unwitnessed_of :: "(TrajectoryEntry \<times> nat option) list \<Rightarrow> TrajectoryEntry list" where
  "unwitnessed_of as = map fst (filter (\<lambda>(e, i). i = None) as)"

abbreviation pair_ok :: "MatchedPair \<Rightarrow> bool" where
  "pair_ok p \<equiv> detailsAgree (Entry p) (Event p)"

definition mark :: "nat list \<Rightarrow> bool list \<Rightarrow> bool list" where
  "mark is ms = fold (\<lambda>i ms. ms[i := True]) is ms"

lemma length_mark [simp]: "length (mark is ms) = length ms"
  unfolding mark_def by (induction "is" arbitrary: ms) auto

lemma mark_Cons: "mark (i # is) ms = mark is (ms[i := True])"
  by (simp add: mark_def)

lemma mark_Nil: "mark [] ms = ms"
  by (simp add: mark_def)

lemma nth_update_True: "i < length ms \<Longrightarrow> ms[a := True] ! i \<longleftrightarrow> ms ! i \<or> i = a"
  by (cases "i = a") auto

lemma nth_mark: "i < length ms \<Longrightarrow> mark is ms ! i \<longleftrightarrow> ms ! i \<or> i \<in> set is"
  by (induction "is" arbitrary: ms) (auto simp: mark_Nil mark_Cons nth_update_True)

lemma verify_loop_assign:
  "verify_loop cfg g t ms v =
     (let as = assign (pick cfg g) t ms in
      (mark (taken as) ms,
       v\<lparr>Unwitnessed := Unwitnessed v @ unwitnessed_of as,
         Corroborated := Corroborated v @ filter pair_ok (pairs_of g as),
         Mismatched := Mismatched v @ filter (\<lambda>p. \<not> pair_ok p) (pairs_of g as)\<rparr>))"
proof (induction t arbitrary: ms v)
  case Nil
  then show ?case by (simp add: unwitnessed_of_def mark_def)
next
  case (Cons e t)
  show ?case
  proof (cases "pick cfg g e ms")
    case None
    then show ?thesis
      by (simp add: Cons.IH Let_def unwitnessed_of_def pick_def [symmetric])
  next
    case (Some i)
    then show ?thesis
      by (simp add: Cons.IH Let_def unwitnessed_of_def pick_def [symmetric] mark_Cons)
  qed
qed

definition assignment :: "Config \<Rightarrow> GroundTruth \<Rightarrow> Trajectory \<Rightarrow> (TrajectoryEntry \<times> nat option) list" where
  "assignment cfg g t = assign (pick cfg g) t (replicate (length g) False)"

lemma unrecorded_events_eq:
  "length ms = length g \<Longrightarrow>
   unrecorded_events g ms = map ((!) g) (filter (\<lambda>j. \<not> ms ! j \<and> isTopLevel (g ! j)) [0..<length g])"
proof (induction g arbitrary: ms)
  case Nil
  then show ?case by (simp add: unrecorded_events_def)
next
  case (Cons ev g)
  then obtain m ms' where ms: "ms = m # ms'" "length ms' = length g" by (cases ms) auto
  have "[0..<length (ev # g)] = 0 # map Suc [0..<length g]"
    by (simp add: map_Suc_upt upt_conv_Cons del: upt_Suc)
  with ms Cons.IH [of ms'] show ?case
    by (simp add: unrecorded_events_def filter_map comp_def del: upt_Suc)
qed

lemma Verify_assignment:
  fixes t g cfg
  defines "v \<equiv> Verify t g cfg" and "as \<equiv> assignment cfg g t"
  shows "Corroborated v = filter pair_ok (pairs_of g as)"
    and "Mismatched v = filter (\<lambda>p. \<not> pair_ok p) (pairs_of g as)"
    and "Unwitnessed v = unwitnessed_of as"
    and "Unrecorded v = map ((!) g) (filter (\<lambda>j. j \<notin> set (taken as) \<and> isTopLevel (g ! j)) [0..<length g])"
    and "Faithful v \<longleftrightarrow> Unwitnessed v = [] \<and> Unrecorded v = [] \<and> Mismatched v = []"
proof -
  let ?ms = "mark (taken as) (replicate (length g) False)"
  have f: "filter (\<lambda>j. \<not> ?ms ! j \<and> isTopLevel (g ! j)) [0..<length g]
      = filter (\<lambda>j. j \<notin> set (taken as) \<and> isTopLevel (g ! j)) [0..<length g]"
    by (intro filter_cong) (auto simp: nth_mark)
  show "Corroborated v = filter pair_ok (pairs_of g as)"
    "Mismatched v = filter (\<lambda>p. \<not> pair_ok p) (pairs_of g as)"
    "Unwitnessed v = unwitnessed_of as"
    "Unrecorded v = map ((!) g) (filter (\<lambda>j. j \<notin> set (taken as) \<and> isTopLevel (g ! j)) [0..<length g])"
    "Faithful v \<longleftrightarrow> Unwitnessed v = [] \<and> Unrecorded v = [] \<and> Mismatched v = []"
    by (simp_all add: v_def as_def [unfolded assignment_def] Verify_def verify_loop_assign Let_def
        initial_verdict_def unrecorded_events_eq f [unfolded as_def [unfolded assignment_def]])
qed

subsection \<open>Facts about the assignment\<close>

lemma map_Event_pairs_of: "map Event (pairs_of g as) = map ((!) g) (taken as)"
  by (induction g as rule: pairs_of.induct) auto

lemma set_pairs_of: "set (pairs_of g as) = {\<lparr>Entry = e, Event = g ! i\<rparr> |e i. (e, Some i) \<in> set as}"
  by (induction g as rule: pairs_of.induct) auto

lemma mset_entries:
  "mset (map Entry (pairs_of g as)) + mset (unwitnessed_of as) = mset (map fst as)"
  by (induction g as rule: pairs_of.induct) (auto simp: unwitnessed_of_def)

lemma mset_map_filter_split:
  "mset (map f (filter P xs)) + mset (map f (filter (\<lambda>x. \<not> P x) xs)) = mset (map f xs)"
  by (induction xs) auto

lemma assignment_elig: "(e, Some i) \<in> set (assignment cfg g t) \<Longrightarrow> i < length g \<and> eligible cfg e (g ! i)"
  unfolding assignment_def by (rule scan.assign_elig) simp_all

lemma assignment_distinct: "distinct (taken (assignment cfg g t))"
  unfolding assignment_def by (rule scan.assign_distinct) simp

lemma assignment_None:
  "(e, None) \<in> set (assignment cfg g t) \<Longrightarrow> i < length g \<Longrightarrow> i \<notin> set (taken (assignment cfg g t)) \<Longrightarrow>
     \<not> eligible cfg e (g ! i)"
  unfolding assignment_def using scan.assign_None [of "replicate (length g) False" g e cfg t i] by simp

lemma taken_assignment:
  "i \<in> set (taken (assignment cfg g t)) \<Longrightarrow> i < length g \<and> isTopLevel (g ! i)"
  by (auto simp: set_taken eligible_def dest: assignment_elig)

lemma mset_taken:
  "mset (taken (assignment cfg g t))
     = mset (filter (\<lambda>j. j \<in> set (taken (assignment cfg g t))) [0..<length g])"
proof -
  have "set (taken (assignment cfg g t))
      = set (filter (\<lambda>j. j \<in> set (taken (assignment cfg g t))) [0..<length g])"
    by (auto dest: taken_assignment)
  moreover have "distinct (filter (\<lambda>j. j \<in> set (taken (assignment cfg g t))) [0..<length g])"
    by simp
  ultimately show ?thesis
    using assignment_distinct [of cfg g t] set_eq_iff_mset_eq_distinct by blast
qed

lemma mset_top_events:
  "mset (filter isTopLevel g) = mset (map ((!) g) (filter (\<lambda>j. isTopLevel (g ! j)) [0..<length g]))"
proof -
  have "filter isTopLevel g = filter isTopLevel (map ((!) g) [0..<length g])"
    by (simp add: map_nth)
  then show ?thesis by (simp add: filter_map comp_def)
qed

lemma events_partition:
  "mset (map Event (pairs_of g (assignment cfg g t))) + mset (Unrecorded (Verify t g cfg))
     = mset (filter isTopLevel g)"
proof -
  let ?T = "set (taken (assignment cfg g t))"
  let ?top = "filter (\<lambda>j. isTopLevel (g ! j)) [0..<length g]"
  have in_T: "filter (\<lambda>j. j \<in> ?T) [0..<length g] = filter (\<lambda>j. j \<in> ?T) ?top"
    by (auto intro: filter_cong dest: taken_assignment)
  have out_T: "filter (\<lambda>j. j \<notin> ?T \<and> isTopLevel (g ! j)) [0..<length g] = filter (\<lambda>j. j \<notin> ?T) ?top"
    by (auto intro: filter_cong)
  have "mset (map ((!) g) (taken (assignment cfg g t))) = mset (map ((!) g) (filter (\<lambda>j. j \<in> ?T) ?top))"
    by (simp only: mset_map mset_taken in_T)
  then show ?thesis
    by (simp only: map_Event_pairs_of Verify_assignment(4) out_T mset_top_events
        mset_map_filter_split)
qed

lemma pairs_perm:
  "mset (map f (Corroborated (Verify t g cfg))) + mset (map f (Mismatched (Verify t g cfg)))
     = mset (map f (pairs_of g (assignment cfg g t)))"
  by (simp only: Verify_assignment mset_map_filter_split)

lemma verdict_pairD:
  assumes "p \<in> set (Corroborated (Verify t g cfg)) \<union> set (Mismatched (Verify t g cfg))"
  obtains i where "(Entry p, Some i) \<in> set (assignment cfg g t)" "Event p = g ! i" "i < length g"
    "eligible cfg (Entry p) (Event p)"
proof -
  have "p \<in> set (pairs_of g (assignment cfg g t))"
    using assms by (auto simp: Verify_assignment)
  then show thesis
    using that assignment_elig by (force simp: set_pairs_of)
qed

section \<open>Properties of the verdict\<close>

text \<open>
  C13. Every trajectory entry lands in exactly one of Corroborated, Mismatched and
  Unwitnessed, with its multiplicity: nothing is dropped, invented or counted twice.
\<close>

theorem verify_partitions_entries:
  "mset (map Entry (Corroborated (Verify t g cfg))) + mset (map Entry (Mismatched (Verify t g cfg)))
     + mset (Unwitnessed (Verify t g cfg)) = mset t"
proof -
  have "mset (map fst (assignment cfg g t)) = mset t"
    by (simp only: assignment_def map_fst_assign)
  then show ?thesis
    by (simp only: pairs_perm Verify_assignment(3) mset_entries)
qed

text \<open>
  C14. Every top-level ground-truth event lands in exactly one of Corroborated, Mismatched and
  Unrecorded, and forensic (not top-level) events in none: an event can corroborate at most
  one entry.
\<close>

theorem verify_partitions_events:
  "mset (map Event (Corroborated (Verify t g cfg))) + mset (map Event (Mismatched (Verify t g cfg)))
     + mset (Unrecorded (Verify t g cfg)) = mset (filter isTopLevel g)"
  by (simp only: pairs_perm events_partition)

text \<open>
  A pair of the verdict is an entry of the trajectory and a top-level event of the ground
  truth with the same action, matching targets and a time difference inside the window; it is
  Corroborated when the optional details agree and Mismatched when they do not.
\<close>

lemma verify_pairs_sound:
  assumes "p \<in> set (Corroborated (Verify t g cfg)) \<or> p \<in> set (Mismatched (Verify t g cfg))"
  shows "Entry p \<in> set t \<and> Event p \<in> set g \<and> isTopLevel (Event p) \<and> Match (Entry p) (Event p) cfg
     \<and> (detailsAgree (Entry p) (Event p) \<longleftrightarrow> p \<in> set (Corroborated (Verify t g cfg)))"
proof -
  have "p \<in> set (Corroborated (Verify t g cfg)) \<union> set (Mismatched (Verify t g cfg))"
    using assms by simp
  then obtain i where i: "(Entry p, Some i) \<in> set (assignment cfg g t)" "Event p = g ! i" "i < length g"
    "eligible cfg (Entry p) (Event p)" by (rule verdict_pairD)
  have "Entry p \<in> set (map fst (assignment cfg g t))" using i(1) by force
  then have "Entry p \<in> set t" by (simp only: assignment_def map_fst_assign)
  moreover have "detailsAgree (Entry p) (Event p) \<longleftrightarrow> p \<in> set (Corroborated (Verify t g cfg))"
    using assms by (auto simp: Verify_assignment)
  ultimately show ?thesis using i by (simp add: eligible_def)
qed

text \<open>
  The greedy assignment leaves nothing on the table: an Unwitnessed entry and an
  Unrecorded event of the same verdict never match (as long as their time difference is below
  the largest duration).
\<close>

lemma verify_leftovers_unmatchable:
  assumes "e \<in> set (Unwitnessed (Verify t g cfg))" "ev \<in> set (Unrecorded (Verify t g cfg))"
    and "sint (abs_diff (te_Timestamp e) (ge_Timestamp ev)) < sint MaxInt64"
  shows "\<not> Match e ev cfg"
proof -
  have "(e, None) \<in> set (assignment cfg g t)"
    using assms(1) by (auto simp: Verify_assignment unwitnessed_of_def)
  moreover obtain i where "i < length g" "i \<notin> set (taken (assignment cfg g t))" "isTopLevel ev" "ev = g ! i"
    using assms(2) by (auto simp: Verify_assignment)
  ultimately have "\<not> eligible cfg e ev" using assignment_None by blast
  then show ?thesis using \<open>isTopLevel ev\<close> assms(3) by (simp add: eligible_def)
qed

text \<open>
  Fabrication is reported: an entry that matches no top-level event is Unwitnessed and the
  trajectory is not faithful, whatever the other entries and events are.
\<close>

lemma verify_detects_fabrication:
  assumes "e \<in> set t" "\<forall>ev \<in> set g. isTopLevel ev \<longrightarrow> \<not> Match e ev cfg"
  shows "e \<in> set (Unwitnessed (Verify t g cfg)) \<and> \<not> Faithful (Verify t g cfg)"
proof -
  have "e \<in> set (map fst (assignment cfg g t))"
    using assms(1) by (simp only: assignment_def map_fst_assign)
  then obtain r where r: "(e, r) \<in> set (assignment cfg g t)" by force
  have "r \<noteq> Some i" for i
    using r assms(2) assignment_elig [of e i cfg g t] nth_mem [of i g] by (auto simp: eligible_def)
  then have "r = None" by auto
  with r have "e \<in> set (Unwitnessed (Verify t g cfg))"
    by (force simp: Verify_assignment unwitnessed_of_def)
  then show ?thesis by (auto simp: Verify_assignment(5))
qed

text \<open>
  Omission is reported: a top-level event that no entry matches is Unrecorded and the
  trajectory is not faithful.
\<close>

lemma verify_detects_omission:
  assumes "ev \<in> set g" "isTopLevel ev" "\<forall>e \<in> set t. \<not> Match e ev cfg"
  shows "ev \<in> set (Unrecorded (Verify t g cfg)) \<and> \<not> Faithful (Verify t g cfg)"
proof -
  have "ev \<notin> set (map Event (pairs_of g (assignment cfg g t)))"
  proof
    assume "ev \<in> set (map Event (pairs_of g (assignment cfg g t)))"
    then obtain e i where a: "(e, Some i) \<in> set (assignment cfg g t)" "ev = g ! i"
      by (auto simp: set_pairs_of)
    moreover have "e \<in> set (map fst (assignment cfg g t))" using a(1) by force
    then have "e \<in> set t" by (simp only: assignment_def map_fst_assign)
    ultimately show False using assms(3) assignment_elig by (auto simp: eligible_def)
  qed
  moreover have "ev \<in># mset (map Event (pairs_of g (assignment cfg g t))) + mset (Unrecorded (Verify t g cfg))"
    unfolding events_partition using assms(1,2) by simp
  ultimately have "ev \<in> set (Unrecorded (Verify t g cfg))" by auto
  then show ?thesis by (auto simp: Verify_assignment(5))
qed

subsection \<open>Faithful verdicts and one-to-one correspondences\<close>

definition top_indices :: "GroundTruth \<Rightarrow> nat set" where
  "top_indices g = {j. j < length g \<and> isTopLevel (g ! j)}"

definition corresponds :: "Config \<Rightarrow> TrajectoryEntry \<Rightarrow> GroundTruthEvent \<Rightarrow> bool" where
  "corresponds cfg e ev \<longleftrightarrow> Match e ev cfg \<and> detailsAgree e ev"

lemma taken_all_assigned:
  "unwitnessed_of as = [] \<Longrightarrow> taken as = map (\<lambda>x. the (snd x)) as \<and> (\<forall>x \<in> set as. snd x \<noteq> None)"
  by (induction as rule: taken.induct) (auto simp: unwitnessed_of_def)

lemma length_assignment [simp]: "length (assignment cfg g t) = length t"
  using arg_cong [OF map_fst_assign, of length] by (simp add: assignment_def)

lemma fst_nth_assignment: "k < length t \<Longrightarrow> fst (assignment cfg g t ! k) = t ! k"
  using arg_cong [OF map_fst_assign [of "pick cfg g" t "replicate (length g) False"], of "\<lambda>xs. xs ! k"]
  by (simp flip: assignment_def)

lemma bijection:
  assumes "Faithful (Verify t g cfg)"
  shows "\<exists>f. bij_betw f {..<length t} (top_indices g)
     \<and> (\<forall>k < length t. corresponds cfg (t ! k) (g ! f k))"
proof -
  let ?as = "assignment cfg g t"
  define f where "f k = the (snd (?as ! k))" for k
  have v: "unwitnessed_of ?as = []" "\<forall>p \<in> set (pairs_of g ?as). pair_ok p"
    "\<forall>j < length g. isTopLevel (g ! j) \<longrightarrow> j \<in> set (taken ?as)"
    using assms by (auto simp: Verify_assignment filter_empty_conv)
  note all = taken_all_assigned [OF v(1)]
  have mem: "?as ! k \<in> set ?as" if "k < length t" for k using that by simp
  have nth: "?as ! k = (t ! k, Some (f k))" if "k < length t" for k
  proof -
    have "snd (?as ! k) \<noteq> None" using conjunct2 [OF all] mem [OF that] by blast
    then have "snd (?as ! k) = Some (f k)" by (simp add: f_def)
    with fst_nth_assignment [OF that] show ?thesis by (metis prod.collapse)
  qed
  have tk: "taken ?as = map f [0..<length t]"
    unfolding conjunct1 [OF all] by (rule nth_equalityI) (simp_all add: f_def)
  have "inj_on f {..<length t}"
    using assignment_distinct [of cfg g t] by (simp add: tk distinct_map atLeast0LessThan)
  moreover have "f ` {..<length t} = top_indices g"
  proof -
    have "f ` {..<length t} = set (taken ?as)" by (simp add: tk atLeast0LessThan)
    also have "\<dots> = top_indices g" using v(3) by (auto simp: top_indices_def dest: taken_assignment)
    finally show ?thesis .
  qed
  moreover have "corresponds cfg (t ! k) (g ! f k)" if "k < length t" for k
  proof -
    have m: "(t ! k, Some (f k)) \<in> set ?as" using nth [OF that] mem [OF that] by simp
    then have "\<lparr>Entry = t ! k, Event = g ! f k\<rparr> \<in> set (pairs_of g ?as)" by (auto simp: set_pairs_of)
    with v(2) m show ?thesis by (auto simp: corresponds_def eligible_def dest: assignment_elig)
  qed
  ultimately show ?thesis by (auto simp: bij_betw_def)
qed

text \<open>
  C3. Faithful means a perfect correspondence: there is a one-to-one map from the entries onto
  all top-level events under which every entry matches its event and agrees in every detail.
\<close>

theorem faithful_gives_correspondence:
  assumes "Faithful (Verify t g cfg)"
  shows "\<exists>f. bij_betw f {..<length t} (top_indices g)
     \<and> (\<forall>k < length t. corresponds cfg (t ! k) (g ! f k))"
  using bijection [OF assms] .

text \<open>An entry that repeats an event exactly: action, target, time and details.\<close>

definition mirrors :: "TrajectoryEntry \<Rightarrow> GroundTruthEvent \<Rightarrow> bool" where
  "mirrors e ev \<longleftrightarrow> te_ActionType e = ge_ActionType ev \<and> te_Target e = ge_Target ev
     \<and> te_Timestamp e = ge_Timestamp ev \<and> detailsAgree e ev"

lemma abs_diff_self [simp]: "abs_diff t t = 0"
  by (simp add: abs_diff_def time_Sub_def MinDuration_def MaxDuration_def)

lemma mirrors_Match: "mirrors e ev \<Longrightarrow> 0 \<le> sint (Delta cfg) \<Longrightarrow> Match e ev cfg"
  by (simp add: mirrors_def Match_def targetsMatch_def Let_def)

definition distinct_times :: "GroundTruth \<Rightarrow> bool" where
  "distinct_times g \<longleftrightarrow> (\<forall>i \<in> top_indices g. \<forall>j \<in> top_indices g.
     ge_Timestamp (g ! i) = ge_Timestamp (g ! j) \<longrightarrow> i = j)"

definition times_in_range :: "GroundTruth \<Rightarrow> bool" where
  "times_in_range g \<longleftrightarrow> (\<forall>i \<in> top_indices g. \<forall>j \<in> top_indices g.
     ge_Timestamp (g ! i) - ge_Timestamp (g ! j) > MinDuration)"

lemma pick_mirror:
  assumes "0 \<le> sint (Delta cfg)" "distinct_times g" "times_in_range g"
    and "length ms = length g" "i \<in> top_indices g" "\<not> ms ! i" "mirrors e (g ! i)"
  shows "pick cfg g e ms = Some i"
proof -
  have c: "candidate cfg e g ms i"
    using assms by (simp add: candidate_def top_indices_def mirrors_Match)
  have d: "dist e (g ! i) = 0" using assms(7) by (simp add: mirrors_def)
  obtain k where k: "pick cfg g e ms = Some k"
    using pick_NoneD [OF _ c] d by (cases "pick cfg g e ms") (auto simp: MaxInt64_def)
  have ki: "k \<in> top_indices g" using pick_SomeD(1) [OF k] by (simp add: candidate_def top_indices_def)
  have "dist e (g ! k) \<le> 0" using pick_SomeD(3) [OF k c] d by simp
  moreover have "ge_Timestamp (g ! i) - ge_Timestamp (g ! k) > MinDuration"
    using assms(3,5) ki by (simp add: times_in_range_def)
  ultimately have "ge_Timestamp (g ! k) = ge_Timestamp (g ! i)"
    using assms(7) by (simp add: mirrors_def sint_abs_diff MaxDuration_def)
  with assms(2,5) ki have "k = i" by (simp add: distinct_times_def)
  with k show ?thesis by simp
qed

lemma assign_mirrors:
  assumes "0 \<le> sint (Delta cfg)" "distinct_times g" "times_in_range g" "length ms = length g"
    and "distinct is" "set is \<subseteq> top_indices g" "\<forall>i \<in> set is. \<not> ms ! i"
    and "list_all2 (\<lambda>e i. mirrors e (g ! i)) es is"
  shows "assign (pick cfg g) es ms = zip es (map Some is)"
  using assms(4-)
proof (induction es arbitrary: "is" ms)
  case Nil
  then show ?case by simp
next
  case (Cons e es)
  obtain i is' where "is": "is = i # is'" using Cons.prems(5) by (cases "is") auto
  have p: "pick cfg g e ms = Some i"
    using Cons.prems "is" by (intro pick_mirror [OF assms(1-3)]) auto
  have "assign (pick cfg g) es (ms[i := True]) = zip es (map Some is')"
  proof (rule Cons.IH)
    show "\<forall>k \<in> set is'. \<not> ms[i := True] ! k"
      using Cons.prems "is" by (auto simp: nth_list_update top_indices_def)
  qed (use Cons.prems "is" in auto)
  with p "is" show ?case by simp
qed

lemma taken_zip_Some: "length es = length is \<Longrightarrow> taken (zip es (map Some is)) = is"
  by (induction es "is" rule: list_induct2) auto

lemma pairs_of_zip_Some:
  "length es = length is \<Longrightarrow>
   pairs_of g (zip es (map Some is)) = map2 (\<lambda>e i. \<lparr>Entry = e, Event = g ! i\<rparr>) es is"
  by (induction es "is" rule: list_induct2) auto

lemma mirrored_faithful:
  assumes "0 \<le> sint (Delta cfg)" "distinct_times g" "times_in_range g"
    and "distinct is" "set is = top_indices g"
    and "list_all2 (\<lambda>e i. mirrors e (g ! i)) t is"
  shows "Faithful (Verify t g cfg)"
proof -
  have len: "length t = length is" using assms(6) by (rule list_all2_lengthD)
  have as: "assignment cfg g t = zip t (map Some is)"
    unfolding assignment_def
    by (rule assign_mirrors [OF assms(1-3)]) (use assms in \<open>auto simp: top_indices_def\<close>)
  have "unwitnessed_of (zip t (map Some is)) = []"
    using len by (auto simp: unwitnessed_of_def filter_empty_conv dest!: set_zip_rightD)
  moreover have "filter (\<lambda>p. \<not> pair_ok p) (pairs_of g (zip t (map Some is))) = []"
    using assms(6) len
    by (auto simp: pairs_of_zip_Some filter_empty_conv set_zip list_all2_conv_all_nth mirrors_def)
  moreover have "filter (\<lambda>j. j \<notin> set is \<and> isTopLevel (g ! j)) [0..<length g] = []"
    by (auto simp: assms(5) filter_empty_conv top_indices_def)
  ultimately show ?thesis
    using len by (simp add: Verify_assignment as taken_zip_Some)
qed

text \<open>
  C12. Honest reports are faithful: when the entries are exact copies of the top-level events,
  in any order, the events have pairwise distinct times (closer than 292 years, the range of a
  duration), and the window is not negative, the verdict is Faithful.
\<close>

theorem honest_trajectory_is_faithful:
  assumes "0 \<le> sint (Delta cfg)" "distinct_times g" "times_in_range g"
    and "distinct is" "set is = top_indices g"
    and "list_all2 (\<lambda>e i. mirrors e (g ! i)) t is"
  shows "Faithful (Verify t g cfg)"
  using mirrored_faithful [OF assms] .

subsection \<open>The nearest event and the withheld details\<close>

lemma find_best_tie:
  "fst (find_best cfg e g ms j best) = Some (j + k) \<Longrightarrow> fst best \<noteq> Some (j + k) \<Longrightarrow> l < k \<Longrightarrow>
     candidate cfg e g ms l \<Longrightarrow> dist e (g ! k) < dist e (g ! l)"
proof (induction cfg e g ms j best arbitrary: k l rule: find_best.induct)
  case (1 cfg entry event g m matched j bi bd)
  let ?d = "abs_diff (te_Timestamp entry) (ge_Timestamp event)"
  obtain k' where k: "k = Suc k'" using "1.prems"(3) by (cases k) auto
  define best' where "best' = (if \<not> m \<and> isTopLevel event \<and> Match entry event cfg \<and> sint ?d < sint bd
    then (Some j, ?d) else (bi, bd))"
  have eq: "find_best cfg entry (event # g) (m # matched) j (bi, bd) = find_best cfg entry g matched (Suc j) best'"
    by (auto simp: best'_def Let_def)
  have r: "fst (find_best cfg entry g matched (Suc j) best') = Some (Suc j + k')"
    using "1.prems"(1) by (simp add: eq k del: find_best.simps)
  have ne: "fst best' \<noteq> Some (Suc j + k')" using "1.prems"(2) k by (auto simp: best'_def)
  show ?case
  proof (cases l)
    case 0
    have c: "\<not> m" "isTopLevel event" "Match entry event cfg" using "1.prems"(4) 0 by simp_all
    have "sint (snd best') \<le> sint ?d" using c by (auto simp: best'_def)
    moreover have "from_scan cfg entry g matched (Suc j) (snd best') (find_best cfg entry g matched (Suc j) best')"
      using find_best_origin [of cfg entry g matched "Suc j" best'] r ne by auto
    then have "dist entry (g ! k') < sint (snd best')" using r by (auto simp: from_scan_def)
    ultimately show ?thesis by (simp add: 0 k)
  next
    case (Suc l')
    have "dist entry (g ! k') < dist entry (g ! l')"
    proof -
      have cl: "candidate cfg entry g matched l'" "l' < k'" using "1.prems"(3,4) Suc k by simp_all
      consider "m \<or> \<not> isTopLevel event" | "\<not> (m \<or> \<not> isTopLevel event)" "\<not> Match entry event cfg"
        | "\<not> (m \<or> \<not> isTopLevel event)" "\<not> \<not> Match entry event cfg" "sint ?d < sint bd"
        | "\<not> (m \<or> \<not> isTopLevel event)" "\<not> \<not> Match entry event cfg" "\<not> sint ?d < sint bd" by blast
      then show ?thesis
        by cases (use "1.IH" r ne cl in \<open>auto simp: best'_def\<close>)
    qed
    then show ?thesis by (simp add: Suc k)
  qed
qed auto

text \<open>
  What the inner loop finds: index \<open>i\<close> exactly when event \<open>i\<close> is free, top-level and
  matches, no other such event is nearer in time, and none before it in the list is as near.
\<close>

lemma find_best_is_first_nearest:
  "fst (find_best cfg e g ms 0 (None, MaxInt64)) = Some i \<longleftrightarrow>
     candidate cfg e g ms i \<and> dist e (g ! i) < sint MaxInt64
     \<and> (\<forall>k. candidate cfg e g ms k \<longrightarrow> dist e (g ! i) \<le> dist e (g ! k))
     \<and> (\<forall>k < i. candidate cfg e g ms k \<longrightarrow> dist e (g ! i) < dist e (g ! k))"
    (is "?L \<longleftrightarrow> ?R i")
proof
  assume L: ?L
  then have p: "pick cfg g e ms = Some i" by (simp add: pick_def)
  show "?R i"
    using pick_SomeD [OF p] find_best_tie [of cfg e g ms 0 "(None, MaxInt64)" i] L by simp
next
  assume R: "?R i"
  obtain k where k: "pick cfg g e ms = Some k"
    using R pick_NoneD [of cfg g e ms i] by (cases "pick cfg g e ms") auto
  then have tie: "\<forall>l<k. candidate cfg e g ms l \<longrightarrow> dist e (g ! k) < dist e (g ! l)"
    using find_best_tie [of cfg e g ms 0 "(None, MaxInt64)" k] by (simp add: pick_def)
  have "dist e (g ! k) \<le> dist e (g ! i)" "dist e (g ! i) \<le> dist e (g ! k)"
    using pick_SomeD [OF k] R by auto
  then have "k = i"
    using pick_SomeD(1) [OF k] R tie by (metis linorder_neqE_nat not_le)
  with k show ?L by (simp add: pick_def)
qed

definition withholds :: "TrajectoryEntry \<Rightarrow> GroundTruthEvent \<Rightarrow> bool" where
  "withholds e ev \<longleftrightarrow>
     te_ActionType e = FileClose \<and> te_OutputHash e = None \<and> ge_OutputHash ev \<noteq> None
   \<or> te_ActionType e = ProcessExit \<and> te_ExitCode e = None \<and> ge_ExitCode ev \<noteq> None
   \<or> te_ActionType e = NetRequest \<and> te_RequestHash e = None \<and> ge_RequestHash ev \<noteq> None"

definition contradicts :: "TrajectoryEntry \<Rightarrow> GroundTruthEvent \<Rightarrow> bool" where
  "contradicts e ev \<longleftrightarrow>
     (\<exists>x y. te_InputHash e = Some x \<and> ge_InputHash ev = Some y \<and> x \<noteq> y)
   \<or> (\<exists>x y. te_OutputHash e = Some x \<and> ge_OutputHash ev = Some y \<and> x \<noteq> y)
   \<or> (\<exists>x y. te_ExitCode e = Some x \<and> ge_ExitCode ev = Some y \<and> x \<noteq> y)
   \<or> (\<exists>x y. te_RequestHash e = Some x \<and> ge_RequestHash ev = Some y \<and> x \<noteq> y)"

lemma detailsAgree_iff: "detailsAgree e ev \<longleftrightarrow> \<not> withholds e ev \<and> \<not> contradicts e ev"
  unfolding detailsAgree_def withholds_def contradicts_def Let_def
    hashesAgree_def exitCodesAgree_def requestHashesAgree_def
  by (cases "te_InputHash e"; cases "ge_InputHash ev"; cases "te_OutputHash e"; cases "ge_OutputHash ev")
    (auto split: if_splits)


subsection \<open>Witnesses\<close>

text \<open>A session of three events: a close, a forensic exec (not top-level) and an exit.\<close>

definition ex_forensic :: GroundTruthEvent where
  "ex_forensic = ex_event\<lparr>ge_Timestamp := 63900000000000002000, ge_ActionType := ProcessExec,
     ge_Target := ''/usr/bin/wc -l a'', ge_OutputHash := None, ge_IsTopLevel := Some False\<rparr>"

definition ex_exit :: GroundTruthEvent where
  "ex_exit = ex_event\<lparr>ge_Timestamp := 63900000000000003000, ge_ActionType := ProcessExit,
     ge_Target := ''/bin/ls'', ge_OutputHash := None, ge_ExitCode := Some 2, ge_IsTopLevel := Some True\<rparr>"

definition ex_exit_claim :: "s32 option \<Rightarrow> TrajectoryEntry" where
  "ex_exit_claim code = ex_entry\<lparr>te_Timestamp := 63900000000000003000, te_ActionType := ProcessExit,
     te_Target := ''/bin/ls'', te_OutputHash := None, te_ExitCode := code\<rparr>"

definition ex_truth :: GroundTruth where
  "ex_truth = [ex_event, ex_forensic, ex_exit]"

definition ex_fabricated :: TrajectoryEntry where
  "ex_fabricated = ex_exit_claim (Some 0)\<lparr>te_ActionType := ProcessExec, te_Target := ''/usr/bin/curl''\<rparr>"

lemma verify_pairs_sound_witness:
  "Match (ex_exit_claim None) ex_exit DefaultConfig \<and> isTopLevel ex_exit"
proof -
  have "\<lparr>Entry = ex_exit_claim None, Event = ex_exit\<rparr>
      \<in> set (Mismatched (Verify [ex_entry, ex_exit_claim None] ex_truth DefaultConfig))"
    by code_simp
  then show ?thesis
    using verify_pairs_sound [of "\<lparr>Entry = ex_exit_claim None, Event = ex_exit\<rparr>"
        "[ex_entry, ex_exit_claim None]" ex_truth DefaultConfig] by simp
qed

lemma verify_leftovers_unmatchable_witness:
  "\<not> Match ex_fabricated ex_exit DefaultConfig"
proof -
  have h: "ex_fabricated \<in> set (Unwitnessed (Verify [ex_fabricated] ex_truth DefaultConfig))"
    "ex_exit \<in> set (Unrecorded (Verify [ex_fabricated] ex_truth DefaultConfig))"
    "sint (abs_diff (te_Timestamp ex_fabricated) (ge_Timestamp ex_exit)) < sint MaxInt64"
    by code_simp+
  show ?thesis by (rule verify_leftovers_unmatchable [OF h])
qed

lemma verify_detects_fabrication_witness:
  "\<not> Faithful (Verify [ex_entry, ex_fabricated] ex_truth DefaultConfig)"
proof -
  have h: "ex_fabricated \<in> set [ex_entry, ex_fabricated]"
    "\<forall>ev \<in> set ex_truth. isTopLevel ev \<longrightarrow> \<not> Match ex_fabricated ev DefaultConfig"
    by code_simp+
  show ?thesis using verify_detects_fabrication [OF h] by simp
qed

lemma verify_detects_omission_witness:
  "ex_exit \<in> set (Unrecorded (Verify [ex_entry] ex_truth DefaultConfig))"
proof -
  have h: "ex_exit \<in> set ex_truth" "isTopLevel ex_exit" "\<forall>e \<in> set [ex_entry]. \<not> Match e ex_exit DefaultConfig"
    by code_simp+
  show ?thesis using verify_detects_omission [OF h] by simp
qed

theorem faithful_gives_correspondence_witness:
  "\<exists>f. bij_betw f {..<length [ex_exit_claim (Some 2), ex_entry]} (top_indices ex_truth)
     \<and> (\<forall>k < length [ex_exit_claim (Some 2), ex_entry].
          corresponds DefaultConfig ([ex_exit_claim (Some 2), ex_entry] ! k) (ex_truth ! f k))"
proof -
  have "Faithful (Verify [ex_exit_claim (Some 2), ex_entry] ex_truth DefaultConfig)"
    by code_simp
  then show ?thesis by (rule faithful_gives_correspondence)
qed

definition ex_copy :: TrajectoryEntry where
  "ex_copy = ex_entry\<lparr>te_Timestamp := ge_Timestamp ex_event, te_Target := ge_Target ex_event\<rparr>"

lemma top_indices_filter: "top_indices g = set (filter (\<lambda>j. isTopLevel (g ! j)) [0..<length g])"
  by (auto simp: top_indices_def)

lemma top_indices_ex_truth: "top_indices ex_truth = {0, 2}"
proof -
  have "filter (\<lambda>j. isTopLevel (ex_truth ! j)) [0..<length ex_truth] = [0, 2]" by code_simp
  then show ?thesis by (simp add: top_indices_filter)
qed

theorem honest_trajectory_is_faithful_witness:
  "Faithful (Verify [ex_exit_claim (Some 2), ex_copy] ex_truth DefaultConfig)"
proof (rule honest_trajectory_is_faithful)
  show "0 \<le> sint (Delta DefaultConfig)" by code_simp
  show "distinct_times ex_truth"
    by (auto simp: distinct_times_def top_indices_ex_truth)
      (simp_all add: ex_truth_def ex_event_def ex_exit_def)
  show "times_in_range ex_truth"
    by (auto simp: times_in_range_def top_indices_ex_truth)
      (simp_all add: ex_truth_def ex_event_def ex_exit_def MinDuration_def)
  show "distinct [2, 0 :: nat]" "set [2, 0] = top_indices ex_truth"
    by (auto simp: top_indices_ex_truth)
  have "mirrors (ex_exit_claim (Some 2)) (ex_truth ! 2)" "mirrors ex_copy (ex_truth ! 0)"
    by (code_simp)+
  then show "list_all2 (\<lambda>e i. mirrors e (ex_truth ! i)) [ex_exit_claim (Some 2), ex_copy] [2, 0]"
    by simp
qed


lemma find_best_is_first_nearest_witness:
  "candidate DefaultConfig ex_entry ex_truth [False, False, False] 0
     \<and> dist ex_entry (ex_truth ! 0) < sint MaxInt64"
proof -
  have "fst (find_best DefaultConfig ex_entry ex_truth [False, False, False] 0 (None, MaxInt64)) = Some 0"
    by code_simp
  then show ?thesis
    using find_best_is_first_nearest [of DefaultConfig ex_entry ex_truth "[False, False, False]" 0] by blast
qed

end
