(* ===== verification/Bpf.thy ===== *)
theory Bpf
  imports Prelude
begin

text \<open>
  The eBPF platform as the three kernel programs use it. Helper calls are the standard library
  of this dialect of C and follow their documentation (\<open>bpf-helpers(7)\<close>):

  \<^item> a hash map is an association list with distinct keys and a capacity: a lookup yields a
    value or NULL, an update with \<open>BPF_ANY\<close> overwrites or inserts and fails on a full map
    (the programs ignore the error), a delete removes;
  \<^item> a write through the pointer a lookup returned is \<open>map_store\<close>;
  \<^item> an array map is a list that is never resized;
  \<^item> everything that comes from the running kernel is a field of the argument \<open>bpf_env\<close> of a
    handler: the current task, the clock, the executing CPU (for per-CPU maps), whether the
    ring buffer has room, and the user memory behind \<open>bpf_probe_read_user\<close> and
    \<open>bpf_probe_read_user_str\<close>, both of which take the old contents of the destination.

  The locale \<open>bpf_hash\<close> is the contract of a hash map that the handler proofs rest on; each
  program interprets it for its own maps.
\<close>

section \<open>Hash maps\<close>

type_synonym ('k, 'v) bpf_map = "('k \<times> 'v) list"

definition map_lookup_elem :: "('k, 'v) bpf_map \<Rightarrow> 'k \<Rightarrow> 'v option" where
  "map_lookup_elem m k = map_of m k"

definition map_update_elem :: "nat \<Rightarrow> 'k \<Rightarrow> 'v \<Rightarrow> ('k, 'v) bpf_map \<Rightarrow> ('k, 'v) bpf_map" where
  "map_update_elem max_entries k v m =
     (if map_of m k \<noteq> None \<or> length m < max_entries then AList.update k v m else m)"

definition map_delete_elem :: "'k \<Rightarrow> ('k, 'v) bpf_map \<Rightarrow> ('k, 'v) bpf_map" where
  "map_delete_elem k m = AList.delete k m"

definition map_store :: "'k \<Rightarrow> 'v \<Rightarrow> ('k, 'v) bpf_map \<Rightarrow> ('k, 'v) bpf_map" where
  "map_store k v m = (if map_of m k \<noteq> None then AList.update k v m else m)"

definition map_ok :: "nat \<Rightarrow> ('k, 'v) bpf_map \<Rightarrow> bool" where
  "map_ok max_entries m \<longleftrightarrow> distinct (map fst m) \<and> length m \<le> max_entries"

definition map_full :: "nat \<Rightarrow> ('k, 'v) bpf_map \<Rightarrow> bool" where
  "map_full max_entries m \<longleftrightarrow> length m \<ge> max_entries"

subsection \<open>The contract\<close>

locale bpf_hash =
  fixes lookup :: "'m \<Rightarrow> 'k \<Rightarrow> 'v option"
    and update :: "'k \<Rightarrow> 'v \<Rightarrow> 'm \<Rightarrow> 'm"
    and delete :: "'k \<Rightarrow> 'm \<Rightarrow> 'm"
    and store :: "'k \<Rightarrow> 'v \<Rightarrow> 'm \<Rightarrow> 'm"
    and ok :: "'m \<Rightarrow> bool"
    and full :: "'m \<Rightarrow> bool"
  assumes lookup_update_full:
      "full m \<Longrightarrow> lookup m k = None \<Longrightarrow> update k v m = m"
    and lookup_update_room:
      "\<not> full m \<or> lookup m k \<noteq> None \<Longrightarrow> lookup (update k v m) = (lookup m)(k \<mapsto> v)"
    and lookup_delete: "lookup (delete k m) = (lookup m)(k := None)"
    and lookup_store: "lookup (store k v m) = (if lookup m k = None then lookup m else (lookup m)(k \<mapsto> v))"
    and ok_update: "ok m \<Longrightarrow> ok (update k v m)"
    and ok_delete: "ok m \<Longrightarrow> ok (delete k m)"
    and ok_store: "ok m \<Longrightarrow> ok (store k v m)"
begin

lemma lookup_update:
  "lookup (update k v m) = (if full m \<and> lookup m k = None then lookup m else (lookup m)(k \<mapsto> v))"
  using lookup_update_full lookup_update_room by auto

lemma lookup_update_other: "k \<noteq> k' \<Longrightarrow> lookup (update k v m) k' = lookup m k'"
  by (simp add: lookup_update)

lemma lookup_store_other: "k \<noteq> k' \<Longrightarrow> lookup (store k v m) k' = lookup m k'"
  by (simp add: lookup_store)

lemma dom_store: "dom (lookup (store k v m)) = dom (lookup m)"
  by (auto simp: lookup_store)

lemma dom_update: "dom (lookup (update k v m)) \<subseteq> insert k (dom (lookup m))"
  by (auto simp: lookup_update split: if_splits)

lemma dom_delete: "dom (lookup (delete k m)) = dom (lookup m) - {k}"
  by (auto simp: lookup_delete)

lemma lookup_updateD:
  "lookup (update k v m) k' = Some w \<Longrightarrow> (k' = k \<and> w = v) \<or> lookup m k' = Some w"
  by (auto simp: lookup_update split: if_splits)

lemma lookup_storeD:
  "lookup (store k v m) k' = Some w \<Longrightarrow> (k' = k \<and> w = v) \<or> lookup m k' = Some w"
  by (auto simp: lookup_store split: if_splits)

lemma lookup_deleteD: "lookup (delete k m) k' = Some w \<Longrightarrow> k' \<noteq> k \<and> lookup m k' = Some w"
  by (auto simp: lookup_delete split: if_splits)

end

lemma length_AList_update:
  "length (AList.update k v m) = (if map_of m k \<noteq> None then length m else Suc (length m))"
  by (induction m) auto

lemma bpf_hash_model:
  "bpf_hash map_lookup_elem (map_update_elem n) map_delete_elem map_store (map_ok n) (map_full n)"
proof unfold_locales
  fix m :: "('k, 'v) bpf_map" and k v
  show "map_ok n (map_update_elem n k v m)" if "map_ok n m"
    using that by (auto simp: map_ok_def map_update_elem_def distinct_update length_AList_update)
  show "map_ok n (map_delete_elem k m)" if "map_ok n m"
    using that length_delete_le [of k m] by (auto simp: map_ok_def map_delete_elem_def distinct_delete)
  show "map_ok n (map_store k v m)" if "map_ok n m"
    using that by (auto simp: map_ok_def map_store_def distinct_update length_AList_update)
qed (auto simp: map_lookup_elem_def map_update_elem_def map_delete_elem_def map_store_def
      map_full_def update_conv' delete_conv')

interpretation bpf_map: bpf_hash map_lookup_elem "map_update_elem n" map_delete_elem map_store
    "map_ok n" "map_full n" for n
  by (rule bpf_hash_model)

section \<open>Array maps\<close>

definition array_lookup_elem :: "'a list \<Rightarrow> nat \<Rightarrow> 'a option" where
  "array_lookup_elem a i = (if i < length a then Some (a ! i) else None)"

lemma array_lookup_single [simp]: "array_lookup_elem [x] 0 = Some x"
  by (simp add: array_lookup_elem_def)

section \<open>Tracepoint contexts\<close>

text \<open>The contexts of the two scheduler tracepoints, declared alike in all three programs.\<close>

record task_newtask_ctx =
  tc_pid :: s32
  tc_comm :: bytes
  tc_clone_flags :: u64
  tc_oom_score_adj :: s16

record sched_process_exit_ctx =
  xc_comm :: bytes
  xc_pid :: s32
  xc_prio :: s32

section \<open>The kernel's side of a handler call\<close>

record bpf_env =
  pid_tgid :: u64
  ktime :: u64
  cpu :: nat
  read_user :: "u64 \<Rightarrow> bytes \<Rightarrow> int \<times> bytes"
  read_user_str :: "u64 \<Rightarrow> bytes \<Rightarrow> int \<times> bytes"
  rb_room :: "nat \<Rightarrow> bool"

text \<open>\<open>bpf_get_current_pid_tgid() >> 32\<close> and its low half.\<close>

definition cur_tgid :: "bpf_env \<Rightarrow> u32" where
  "cur_tgid env = ucast (drop_bit 32 (pid_tgid env))"

definition cur_tid :: "bpf_env \<Rightarrow> u32" where
  "cur_tid env = ucast (pid_tgid env)"

text \<open>\<open>bpf_ringbuf_output\<close> appends the record when there is room; its error is ignored.\<close>

definition ringbuf_output :: "bpf_env \<Rightarrow> bytes \<Rightarrow> bytes list \<Rightarrow> bytes list" where
  "ringbuf_output env rec rb = (if rb_room env (length rec) then rb @ [rec] else rb)"

subsection \<open>What the helpers promise\<close>

text \<open>
  The documented behaviour of the two user-memory reads, over a user memory \<open>um\<close> (the bytes at
  an address, if mapped) and the strings in it, \<open>us\<close>: a read of fixed size returns 0 with the
  destination filled, or an error; a string read copies at most \<open>size - 1\<close> bytes, terminates
  them, and returns the number of bytes with the terminator, or an error that leaves the
  destination alone or zeroed. The rest of the destination after the terminator is unspecified.
\<close>

definition read_user_ok :: "bpf_env \<Rightarrow> (u64 \<Rightarrow> nat \<Rightarrow> bytes option) \<Rightarrow> bool" where
  "read_user_ok env um \<longleftrightarrow>
     (\<forall>a dst. case um a (length dst) of
        Some bs \<Rightarrow> read_user env a dst = (0, bs) \<and> length bs = length dst
      | None \<Rightarrow> fst (read_user env a dst) < 0 \<and> length (snd (read_user env a dst)) = length dst)"

definition read_user_str_ok :: "bpf_env \<Rightarrow> (u64 \<Rightarrow> bytes option) \<Rightarrow> bool" where
  "read_user_str_ok env us \<longleftrightarrow>
     (\<forall>a dst. length (snd (read_user_str env a dst)) = length dst \<and>
       (case us a of
          Some s \<Rightarrow> 0 \<notin> set s \<and> (dst \<noteq> [] \<longrightarrow>
            (let n = min (length s) (length dst - 1) in
              fst (read_user_str env a dst) = int n + 1 \<and>
              take (n + 1) (snd (read_user_str env a dst)) = take n s @ [0]))
        | None \<Rightarrow> fst (read_user_str env a dst) < 0 \<and>
            (snd (read_user_str env a dst) = dst \<or>
             snd (read_user_str env a dst) = replicate (length dst) 0)))"

lemma read_user_Some:
  "read_user_ok env um \<Longrightarrow> um a (length dst) = Some bs \<Longrightarrow>
    read_user env a dst = (0, bs) \<and> length bs = length dst"
  unfolding read_user_ok_def by (metis (mono_tags, lifting) option.simps(5))

lemma read_user_None:
  "read_user_ok env um \<Longrightarrow> um a (length dst) = None \<Longrightarrow>
    fst (read_user env a dst) < 0 \<and> length (snd (read_user env a dst)) = length dst"
  unfolding read_user_ok_def by (metis (mono_tags, lifting) option.simps(4))

lemma read_user_length:
  "read_user_ok env um \<Longrightarrow> length (snd (read_user env a dst)) = length dst"
  using read_user_Some [of env um a dst] read_user_None [of env um a dst]
  by (cases "um a (length dst)") auto

lemma read_user_str_length:
  "read_user_str_ok env us \<Longrightarrow> length (snd (read_user_str env a dst)) = length dst"
  by (simp add: read_user_str_ok_def)

lemma read_user_str_Some:
  assumes "read_user_str_ok env us" "us a = Some s" "dst \<noteq> []"
  shows "0 \<notin> set s"
    and "fst (read_user_str env a dst) = int (min (length s) (length dst - 1)) + 1"
    and "take (min (length s) (length dst - 1) + 1) (snd (read_user_str env a dst))
          = take (min (length s) (length dst - 1)) s @ [0]"
  using assms unfolding read_user_str_ok_def by (auto dest!: spec [of _ a] simp: Let_def)

lemma read_user_str_None:
  assumes "read_user_str_ok env us" "us a = None"
  shows "fst (read_user_str env a dst) < 0"
    and "snd (read_user_str env a dst) = dst \<or> snd (read_user_str env a dst) = replicate (length dst) 0"
  using assms unfolding read_user_str_ok_def by (auto dest!: spec [of _ a])

subsection \<open>A concrete environment\<close>

text \<open>
  An environment over a finite user memory, given as regions that are read from their start:
  it meets both contracts and serves the witnesses.
\<close>

definition region_read :: "(u64 \<times> bytes) list \<Rightarrow> u64 \<Rightarrow> nat \<Rightarrow> bytes option" where
  "region_read mem a n =
     (case map_of mem a of Some bs \<Rightarrow> if n \<le> length bs then Some (take n bs) else None | None \<Rightarrow> None)"

definition region_str :: "(u64 \<times> bytes) list \<Rightarrow> u64 \<Rightarrow> bytes option" where
  "region_str mem a =
     (case map_of mem a of Some bs \<Rightarrow> if 0 \<in> set bs then Some (c_str bs) else None | None \<Rightarrow> None)"

definition region_env :: "u64 \<Rightarrow> u64 \<Rightarrow> (u64 \<times> bytes) list \<Rightarrow> bpf_env" where
  "region_env who t mem = \<lparr>
     pid_tgid = who, ktime = t, cpu = 0,
     read_user = (\<lambda>a dst. case region_read mem a (length dst) of
        Some bs \<Rightarrow> (0, bs) | None \<Rightarrow> (-14, replicate (length dst) 0)),
     read_user_str = (\<lambda>a dst. case region_str mem a of
        Some s \<Rightarrow> (let n = min (length s) (length dst - 1) in
                    (int n + 1, if dst = [] then [] else put_at 0 (take n s @ [0]) dst))
      | None \<Rightarrow> (-14, replicate (length dst) 0)),
     rb_room = (\<lambda>_. True)\<rparr>"

lemma region_read_ok: "read_user_ok (region_env who t mem) (region_read mem)"
  by (auto simp: read_user_ok_def region_env_def region_read_def split: option.splits)

lemma region_str_ok: "read_user_str_ok (region_env who t mem) (region_str mem)"
proof -
  have a: "length (snd (read_user_str (region_env who t mem) a dst)) = length dst" for a dst
    by (auto simp: region_env_def Let_def put_at_def neq_Nil_conv min_def split: option.split)
  have b: "0 \<notin> set s" if "region_str mem a = Some s" for a s
    using that by (auto simp: region_str_def c_str_no_nul split: option.splits if_splits)
  show ?thesis
    unfolding read_user_str_ok_def
    by (auto simp: a split: option.split)
      (auto simp: region_env_def Let_def put_at_def dest: b)
qed

lemma region_env_read:
  "read_user (region_env who t mem) a dst =
     (case region_read mem a (length dst) of Some bs \<Rightarrow> (0, bs) | None \<Rightarrow> (-14, replicate (length dst) 0))"
  by (simp add: region_env_def)

lemma region_env_simps [simp]:
  "pid_tgid (region_env who t mem) = who" "ktime (region_env who t mem) = t"
  "cpu (region_env who t mem) = 0" "rb_room (region_env who t mem) n"
  by (simp_all add: region_env_def)

text \<open>Identities and contexts for concrete runs.\<close>

definition task :: "u32 \<Rightarrow> u32 \<Rightarrow> u64" where
  "task tgid tid = push_bit 32 (ucast tgid) OR ucast tid"

lemma task_simps [simp]:
  "cur_tgid (region_env (task a b) t mem) = a" "cur_tid (region_env (task a b) t mem) = b"
proof -
  have low: "bit b n \<Longrightarrow> n < 32" "bit a n \<Longrightarrow> n < 32" for n
    using bit_imp_le_length by force+
  show "cur_tgid (region_env (task a b) t mem) = a"
    by (rule bit_word_eqI)
      (auto simp: cur_tgid_def task_def bit_simps dest: low)
  show "cur_tid (region_env (task a b) t mem) = b"
    by (rule bit_word_eqI) (auto simp: cur_tid_def task_def bit_simps dest: low)
qed

abbreviation newtask :: "s32 \<Rightarrow> u64 \<Rightarrow> task_newtask_ctx" where
  "newtask pid flags \<equiv> \<lparr>tc_pid = pid, tc_comm = replicate 16 0, tc_clone_flags = flags, tc_oom_score_adj = 0\<rparr>"

abbreviation exiting :: "s32 \<Rightarrow> sched_process_exit_ctx" where
  "exiting pid \<equiv> \<lparr>xc_comm = replicate 16 0, xc_pid = pid, xc_prio = 120\<rparr>"

end
