(* ===== verification/Proc_Bpf.thy ===== *)
theory Proc_Bpf
  imports Bpf
begin

text \<open>
  The process probe \<open>pkg/probe/proc/proc.bpf.c\<close>: the programs attached to \<open>task_newtask\<close>,
  \<open>sys_enter_execve\<close>, \<open>sys_enter_exit_group\<close> and \<open>sched_process_exit\<close>, over the maps they share.
  A program is a function from the kernel environment, its tracepoint context and the state of
  the maps to the new state; early returns are the branches that give the state back as it is
  at that point. The scratch value \<open>e\<close> that a program builds in the per-CPU map \<open>heap\<close> is written
  back by \<open>put_heap\<close> wherever the code leaves it, so that what an abandoned run left there is
  in the model.
\<close>

section \<open>Data\<close>

definition MAX_ARGS :: nat where "MAX_ARGS = 64"
definition MAX_ARGS_BYTES :: nat where "MAX_ARGS_BYTES = 8192"
definition FILENAME_LEN :: nat where "FILENAME_LEN = 256"

definition KIND_EXEC :: u32 where "KIND_EXEC = 0"
definition KIND_EXIT :: u32 where "KIND_EXIT = 1"

text \<open>\<open>path_is\<close> compares \<open>sizeof(literal)\<close> bytes, the terminator of the literal included.\<close>

definition path_is :: "bytes \<Rightarrow> string \<Rightarrow> bool" where
  "path_is fn literal =
     (let lit = bytes_of literal @ [0] in list_all (\<lambda>i. fn ! i = lit ! i) [0..<length lit])"

definition filename_is_shell :: "bytes \<Rightarrow> bool" where
  "filename_is_shell fn \<longleftrightarrow>
     path_is fn ''/bin/sh'' \<or> path_is fn ''/usr/bin/sh'' \<or>
     path_is fn ''/bin/bash'' \<or> path_is fn ''/usr/bin/bash'' \<or>
     path_is fn ''/bin/dash'' \<or> path_is fn ''/usr/bin/dash'' \<or>
     path_is fn ''/bin/zsh'' \<or> path_is fn ''/usr/bin/zsh''"

record event_hdr =
  eh_pid :: u32
  eh_kind :: u32
  eh_nargs :: u32
  eh_ts_ns :: s64
  eh_exit_code :: s32
  eh_has_exit_code :: u8
  eh_is_toplevel :: u8
  eh_filename_len :: u32
  eh_args_size :: u32

record exec_scratch =
  hdr :: event_hdr
  es_filename :: bytes
  es_args :: bytes

record proc_info =
  is_shell :: u8
  is_toplevel :: u8

record sys_enter_execve_ctx =
  ec_syscall_nr :: s32
  ec_filename :: u64
  ec_argv :: u64
  ec_envp :: u64

record sys_enter_exit_group_ctx =
  gc_syscall_nr :: s32
  gc_error_code :: u64

subsection \<open>Layout\<close>

text \<open>The bytes of the structures as the C ABI lays them out: \<open>ts_ns\<close> is aligned to 8, and two
  padding bytes follow the flags. The programs never write the padding.\<close>

definition sizeof_event_hdr :: nat where "sizeof_event_hdr = 40"
definition sizeof_exec_scratch :: nat where "sizeof_exec_scratch = 40 + 256 + 16384"

definition event_hdr_bytes :: "event_hdr \<Rightarrow> bytes" where
  "event_hdr_bytes h =
     le_enc 4 (unat (eh_pid h)) @ le_enc 4 (unat (eh_kind h)) @ le_enc 4 (unat (eh_nargs h)) @
     replicate 4 0 @ le_enc 8 (unat (eh_ts_ns h)) @ le_enc 4 (unat (eh_exit_code h)) @
     [eh_has_exit_code h, eh_is_toplevel h] @ replicate 2 0 @
     le_enc 4 (unat (eh_filename_len h)) @ le_enc 4 (unat (eh_args_size h))"

definition exec_scratch_bytes :: "exec_scratch \<Rightarrow> bytes" where
  "exec_scratch_bytes e = event_hdr_bytes (hdr e) @ es_filename e @ es_args e"

definition scratch_ok :: "exec_scratch \<Rightarrow> bool" where
  "scratch_ok e \<longleftrightarrow> length (es_filename e) = FILENAME_LEN \<and> length (es_args e) = MAX_ARGS_BYTES * 2"

lemma length_event_hdr_bytes [simp]: "length (event_hdr_bytes h) = sizeof_event_hdr"
  by (simp add: event_hdr_bytes_def sizeof_event_hdr_def)

lemma length_exec_scratch_bytes: "scratch_ok e \<Longrightarrow> length (exec_scratch_bytes e) = sizeof_exec_scratch"
  by (simp add: exec_scratch_bytes_def scratch_ok_def sizeof_event_hdr_def sizeof_exec_scratch_def
      FILENAME_LEN_def MAX_ARGS_BYTES_def)

subsection \<open>Maps\<close>

definition tracked_pids_max :: nat where "tracked_pids_max = 16384"
definition execs_max :: nat where "execs_max = 4096"

record proc_state =
  tracked_pids :: "(u32, proc_info) bpf_map"
  config_map :: "u8 list"
  root_pid_map :: "u32 list"
  events :: "bytes list"
  heap :: "nat \<Rightarrow> exec_scratch list"
  execs :: "(u32, exec_scratch) bpf_map"

definition get_use_pid_filter :: "proc_state \<Rightarrow> u8" where
  "get_use_pid_filter s = (case array_lookup_elem (config_map s) 0 of Some v \<Rightarrow> v | None \<Rightarrow> 0)"

definition get_root_pid :: "proc_state \<Rightarrow> u32" where
  "get_root_pid s = (case array_lookup_elem (root_pid_map s) 0 of Some v \<Rightarrow> v | None \<Rightarrow> 0)"

definition put_heap :: "bpf_env \<Rightarrow> exec_scratch \<Rightarrow> proc_state \<Rightarrow> proc_state" where
  "put_heap env e s = s\<lparr>heap := (heap s)(cpu env := (heap s (cpu env))[0 := e])\<rparr>"

section \<open>The programs\<close>

definition handle_fork :: "bpf_env \<Rightarrow> task_newtask_ctx \<Rightarrow> proc_state \<Rightarrow> proc_state" where
  "handle_fork env ctx s =
     (if get_use_pid_filter s = 0 then s
      else
        let parent_pid = cur_tgid env;
            child_pid = tc_pid ctx
        in case map_lookup_elem (tracked_pids s) parent_pid of
             None \<Rightarrow> s
           | Some p \<Rightarrow>
               let child = \<lparr>is_shell = 0,
                            is_toplevel = (if is_shell p \<noteq> 0 \<and> is_toplevel p \<noteq> 0 then 1 else 0)\<rparr>
               in s\<lparr>tracked_pids := map_update_elem tracked_pids_max child_pid child (tracked_pids s)\<rparr>)"

text \<open>The argument loop: \<open>fuel\<close> is the bound \<open>MAX_ARGS - i\<close> of the \<open>for\<close> statement. Addresses of
  \<open>argv\<close> wrap as 64-bit words, \<open>args_size\<close> as a 32-bit word.\<close>

fun read_args ::
  "bpf_env \<Rightarrow> u64 \<Rightarrow> nat \<Rightarrow> nat \<Rightarrow> bytes \<Rightarrow> u32 \<Rightarrow> u32 \<Rightarrow> bytes \<times> u32 \<times> u32" where
  "read_args env argv i 0 args args_size nargs = (args, args_size, nargs)"
| "read_args env argv i (Suc fuel) args args_size nargs =
     (let r = read_user env (argv + 8 * of_nat i) (replicate 8 0);
          argp = (of_nat (le_dec (snd r)) :: u64)
      in if fst r \<noteq> 0 \<or> argp = 0 then (args, args_size, nargs)
         else
           let offset = unat (args_size AND (of_nat MAX_ARGS_BYTES - 1));
               q = read_user_str env argp (seg offset MAX_ARGS_BYTES args);
               n = fst q;
               args' = put_at offset (snd q) args
           in if n \<le> 0 then (args', args_size, nargs)
              else
                let args_size' = args_size + of_int n;
                    nargs' = nargs + 1
                in if args_size' \<ge> of_nat MAX_ARGS_BYTES then (args', args_size', nargs')
                   else read_args env argv (Suc i) fuel args' args_size' nargs')"

text \<open>\<open>out_size\<close> with its clamp, and the record a program sends.\<close>

definition out_size :: "u32 \<Rightarrow> u32" where
  "out_size args_size =
     (let n = of_nat sizeof_event_hdr + of_nat FILENAME_LEN + args_size
      in if n > of_nat sizeof_exec_scratch then of_nat sizeof_exec_scratch else n)"

definition output_scratch :: "bpf_env \<Rightarrow> exec_scratch \<Rightarrow> u32 \<Rightarrow> proc_state \<Rightarrow> proc_state" where
  "output_scratch env e sz s =
     s\<lparr>events := ringbuf_output env (take (unat sz) (exec_scratch_bytes e)) (events s)\<rparr>"

definition begin_exec :: "bpf_env \<Rightarrow> sys_enter_execve_ctx \<Rightarrow> exec_scratch \<Rightarrow> exec_scratch" where
  "begin_exec env ctx e =
     (let fn0 = (es_filename e)[0 := 0];
          r = read_user_str env (ec_filename ctx) fn0
      in e\<lparr>hdr := (hdr e)\<lparr>eh_pid := cur_tgid env, eh_kind := KIND_EXEC, eh_ts_ns := ktime env,
                          eh_exit_code := 0, eh_has_exit_code := 0, eh_args_size := 0, eh_nargs := 0,
                          eh_filename_len := (if fst r > 0 then of_int (fst r) else 0)\<rparr>,
           es_filename := snd r\<rparr>)"

definition fill_args :: "bpf_env \<Rightarrow> sys_enter_execve_ctx \<Rightarrow> exec_scratch \<Rightarrow> exec_scratch" where
  "fill_args env ctx e =
     (case read_args env (ec_argv ctx) 0 MAX_ARGS (es_args e) 0 0 of
        (args, args_size, nargs) \<Rightarrow>
          e\<lparr>es_args := args, hdr := (hdr e)\<lparr>eh_args_size := args_size, eh_nargs := nargs\<rparr>\<rparr>)"

definition finish_exec ::
  "bpf_env \<Rightarrow> sys_enter_execve_ctx \<Rightarrow> exec_scratch \<Rightarrow> proc_state \<Rightarrow> proc_state" where
  "finish_exec env ctx e s =
     (let e' = fill_args env ctx e;
          s1 = put_heap env e' s;
          s2 = s1\<lparr>execs := map_update_elem execs_max (cur_tgid env) e' (execs s1)\<rparr>
      in output_scratch env e' (out_size (eh_args_size (hdr e'))) s2)"

definition handle_execve :: "bpf_env \<Rightarrow> sys_enter_execve_ctx \<Rightarrow> proc_state \<Rightarrow> proc_state" where
  "handle_execve env ctx s =
     (let pid = cur_tgid env
      in case array_lookup_elem (heap s (cpu env)) 0 of
           None \<Rightarrow> s
         | Some e0 \<Rightarrow>
             let e = begin_exec env ctx e0
             in if get_use_pid_filter s \<noteq> 0 then
                  case map_lookup_elem (tracked_pids s) pid of
                    None \<Rightarrow> put_heap env e s
                  | Some p \<Rightarrow>
                      let e' = e\<lparr>hdr := (hdr e)\<lparr>eh_is_toplevel := is_toplevel p\<rparr>\<rparr>;
                          root = get_root_pid s;
                          s' = (if root \<noteq> 0 \<and> pid \<noteq> root
                                then s\<lparr>tracked_pids := map_store pid
                                  (p\<lparr>is_shell := if filename_is_shell (es_filename e') then 1 else 0\<rparr>)
                                  (tracked_pids s)\<rparr>
                                else s)
                      in finish_exec env ctx e' s'
                else finish_exec env ctx (e\<lparr>hdr := (hdr e)\<lparr>eh_is_toplevel := 1\<rparr>\<rparr>) s)"

definition handle_exit_group :: "bpf_env \<Rightarrow> sys_enter_exit_group_ctx \<Rightarrow> proc_state \<Rightarrow> proc_state" where
  "handle_exit_group env ctx s =
     (let tgid = cur_tgid env
      in case map_lookup_elem (execs s) tgid of
           None \<Rightarrow> s
         | Some cached \<Rightarrow>
             s\<lparr>execs := map_store tgid
                 (cached\<lparr>hdr := (hdr cached)\<lparr>eh_exit_code := ucast (gc_error_code ctx),
                                              eh_has_exit_code := 1\<rparr>\<rparr>) (execs s)\<rparr>)"

definition handle_exit :: "bpf_env \<Rightarrow> sched_process_exit_ctx \<Rightarrow> proc_state \<Rightarrow> proc_state" where
  "handle_exit env ctx s =
     (let tgid = cur_tgid env; tid = cur_tid env
      in if tgid \<noteq> tid then s
         else case map_lookup_elem (execs s) tgid of
           None \<Rightarrow> s
         | Some cached \<Rightarrow>
             let s1 = (case array_lookup_elem (heap s (cpu env)) 0 of
                         None \<Rightarrow> s
                       | Some _ \<Rightarrow>
                           let e = cached\<lparr>hdr := (hdr cached)\<lparr>eh_kind := KIND_EXIT,
                                                               eh_ts_ns := ktime env\<rparr>\<rparr>
                           in output_scratch env e (out_size (eh_args_size (hdr e)))
                                (put_heap env e s));
                 s2 = s1\<lparr>execs := map_delete_elem tgid (execs s1)\<rparr>
             in if get_use_pid_filter s2 \<noteq> 0
                then s2\<lparr>tracked_pids := map_delete_elem tgid (tracked_pids s2)\<rparr>
                else s2)"

section \<open>Runs\<close>

datatype proc_call =
    Fork bpf_env task_newtask_ctx
  | Execve bpf_env sys_enter_execve_ctx
  | ExitGroup bpf_env sys_enter_exit_group_ctx
  | Exit bpf_env sched_process_exit_ctx

fun call_env :: "proc_call \<Rightarrow> bpf_env" where
  "call_env (Fork env _) = env"
| "call_env (Execve env _) = env"
| "call_env (ExitGroup env _) = env"
| "call_env (Exit env _) = env"

fun proc_step :: "proc_call \<Rightarrow> proc_state \<Rightarrow> proc_state" where
  "proc_step (Fork env ctx) s = handle_fork env ctx s"
| "proc_step (Execve env ctx) s = handle_execve env ctx s"
| "proc_step (ExitGroup env ctx) s = handle_exit_group env ctx s"
| "proc_step (Exit env ctx) s = handle_exit env ctx s"

definition proc_run :: "proc_call list \<Rightarrow> proc_state \<Rightarrow> proc_state" where
  "proc_run calls s = fold proc_step calls s"

section \<open>Maps and scratch values\<close>

lemmas buf_defs = MAX_ARGS_BYTES_def FILENAME_LEN_def MAX_ARGS_def
  sizeof_event_hdr_def sizeof_exec_scratch_def

lemma get_root_pid_singleton: "root_pid_map s = [r] \<Longrightarrow> get_root_pid s = r"
  by (simp add: get_root_pid_def)

lemma get_use_pid_filter_singleton: "config_map s = [f] \<Longrightarrow> get_use_pid_filter s = f"
  by (simp add: get_use_pid_filter_def)

lemma put_heap_simps [simp]:
  "tracked_pids (put_heap env e s) = tracked_pids s" "config_map (put_heap env e s) = config_map s"
  "root_pid_map (put_heap env e s) = root_pid_map s" "events (put_heap env e s) = events s"
  "execs (put_heap env e s) = execs s"
  by (simp_all add: put_heap_def)

lemma output_scratch_simps [simp]:
  "tracked_pids (output_scratch env e n s) = tracked_pids s"
  "config_map (output_scratch env e n s) = config_map s"
  "root_pid_map (output_scratch env e n s) = root_pid_map s"
  "heap (output_scratch env e n s) = heap s"
  "execs (output_scratch env e n s) = execs s"
  by (simp_all add: output_scratch_def)

section \<open>The argument loop\<close>

lemma args_offset: "unat (sz :: u32) < MAX_ARGS_BYTES \<Longrightarrow>
    unat (sz AND (of_nat MAX_ARGS_BYTES - 1)) = unat sz"
proof -
  assume "unat sz < MAX_ARGS_BYTES"
  moreover have "(of_nat MAX_ARGS_BYTES - 1 :: u32) = mask 13"
    by (simp add: MAX_ARGS_BYTES_def mask_numeral)
  moreover have "unat (sz AND mask 13) = unat sz mod 2 ^ 13"
    unfolding take_bit_eq_mask [symmetric] unsigned_take_bit_eq by (rule take_bit_eq_mod)
  ultimately show ?thesis by (simp add: MAX_ARGS_BYTES_def)
qed

text \<open>What the loop is meant to collect: the argument vector in user memory, up to a bound on
  the number of slots, cut where the copied bytes reach \<open>MAX_ARGS_BYTES\<close>, each string cut to the
  \<open>MAX_ARGS_BYTES - 1\<close> bytes one read copies.\<close>

fun user_argv ::
  "(u64 \<Rightarrow> nat \<Rightarrow> bytes option) \<Rightarrow> (u64 \<Rightarrow> bytes option) \<Rightarrow> u64 \<Rightarrow> nat \<Rightarrow> nat \<Rightarrow> bytes list" where
  "user_argv um us argv i 0 = []"
| "user_argv um us argv i (Suc k) =
     (case um (argv + 8 * of_nat i) 8 of
        None \<Rightarrow> []
      | Some p \<Rightarrow>
          if (of_nat (le_dec p) :: u64) = 0 then []
          else case us (of_nat (le_dec p)) of
                 None \<Rightarrow> []
               | Some s \<Rightarrow> s # user_argv um us argv (Suc i) k)"

fun arg_budget :: "nat \<Rightarrow> bytes list \<Rightarrow> bytes list" where
  "arg_budget used [] = []"
| "arg_budget used (s # ss) =
     (let t = take (MAX_ARGS_BYTES - 1) s; used' = used + length t + 1
      in t # (if used' \<ge> MAX_ARGS_BYTES then [] else arg_budget used' ss))"

definition slots :: "bytes list \<Rightarrow> bytes" where
  "slots ss = concat (map (\<lambda>s. s @ [0]) ss)"

lemma slots_simps [simp]: "slots [] = []" "slots (s # ss) = s @ 0 # slots ss"
  by (simp_all add: slots_def)

lemma arg_budget_bound: "used < MAX_ARGS_BYTES \<Longrightarrow>
    used + length (slots (arg_budget used ss)) \<le> MAX_ARGS_BYTES * 2 - 1"
proof (induction used ss rule: arg_budget.induct)
  case (2 used s ss)
  then show ?case by (cases "used + length (take (MAX_ARGS_BYTES - 1) s) + 1 \<ge> MAX_ARGS_BYTES")
      (auto simp: Let_def add.assoc)
qed (simp add: MAX_ARGS_BYTES_def)

lemma arg_budget_all: "used + length (slots ss) < MAX_ARGS_BYTES \<Longrightarrow> arg_budget used ss = ss"
  by (induction used ss rule: arg_budget.induct) (auto simp: Let_def)

lemma length_arg_budget: "length (arg_budget used ss) \<le> length ss"
  by (induction used ss rule: arg_budget.induct) (auto simp: Let_def)

lemma length_user_argv: "length (user_argv um us argv i k) \<le> k"
  by (induction um us argv i k rule: user_argv.induct) (auto split: option.splits)

lemma read_args_spec:
  assumes um: "read_user_ok env um" and us: "read_user_str_ok env us"
    and "unat sz < MAX_ARGS_BYTES" "length args = MAX_ARGS_BYTES * 2"
    and "read_args env argv i k args sz n = (args', sz', n')"
  shows "length args' = MAX_ARGS_BYTES * 2 \<and>
    n' = n + of_nat (length (arg_budget (unat sz) (user_argv um us argv i k))) \<and>
    unat sz' = unat sz + length (slots (arg_budget (unat sz) (user_argv um us argv i k))) \<and>
    take (unat sz') args' =
      take (unat sz) args @ slots (arg_budget (unat sz) (user_argv um us argv i k))"
  using assms(3-5)
proof (induction k arbitrary: i args sz n)
  case 0
  then show ?case by simp
next
  case (Suc k)
  let ?a = "argv + 8 * of_nat i"
  let ?r = "read_user env ?a (replicate 8 0)"
  let ?p = "of_nat (le_dec (snd ?r)) :: u64"
  let ?d = "seg (unat sz) MAX_ARGS_BYTES args"
  let ?q = "read_user_str env ?p ?d"
  let ?args = "put_at (unat sz) (snd ?q) args"
  have off: "unat (sz AND (of_nat MAX_ARGS_BYTES - 1)) = unat sz"
    by (rule args_offset) fact
  have ld: "length ?d = MAX_ARGS_BYTES" using Suc.prems by simp
  have lq: "length (snd ?q) = MAX_ARGS_BYTES"
    using read_user_str_length [OF us, of ?p ?d] ld by simp
  have la: "length ?args = MAX_ARGS_BYTES * 2"
    using Suc.prems lq by (simp add: length_put_at)
  have keep: "take (unat sz) ?args = take (unat sz) args"
    using Suc.prems by (simp add: take_put_at)
  have run: "read_args env argv i (Suc k) args sz n = (args', sz', n')" by fact
  show ?case
  proof (cases "um ?a 8")
    case None
    then have "fst ?r < 0" using um by (auto simp: read_user_ok_def dest!: spec [of _ ?a] spec [of _ "replicate 8 0"])
    with None run Suc.prems show ?thesis by (auto simp: Let_def)
  next
    case (Some p)
    then have r: "?r = (0, p)"
      using um by (auto simp: read_user_ok_def dest!: spec [of _ ?a] spec [of _ "replicate 8 0"])
    show ?thesis
    proof (cases "(of_nat (le_dec p) :: u64) = 0")
      case True
      with Some r run Suc.prems show ?thesis by (auto simp: Let_def)
    next
      case nz: False
      show ?thesis
      proof (cases "us ?p")
        case None
        then have "fst ?q < 0" by (rule read_user_str_None [OF us])
        moreover have "read_args env argv i (Suc k) args sz n =
            (if fst ?q \<le> 0 then (?args, sz, n) else read_args env argv i (Suc k) args sz n)"
          using nz r off by (auto simp: Let_def)
        ultimately show ?thesis using run None Some nz r la keep by auto
      next
        case us_s: (Some s)
        define m where "m = min (length s) (MAX_ARGS_BYTES - 1)"
        let ?t = "take (MAX_ARGS_BYTES - 1) s"
        have "?d \<noteq> []" using ld by (metis MAX_ARGS_BYTES_def list.size(3) zero_neq_numeral)
        note q = read_user_str_Some [OF us us_s this, unfolded ld, folded m_def]
        have m_le: "m + 1 \<le> MAX_ARGS_BYTES" by (simp add: m_def MAX_ARGS_BYTES_def)
        have mt: "take m s = ?t" "length ?t = m" by (auto simp: m_def min_def)
        have sz1: "unat (sz + of_int (fst ?q)) = unat sz + m + 1"
        proof -
          have "(of_int (fst ?q) :: u32) = of_nat (m + 1)" using q(2) by simp
          then show ?thesis using Suc.prems(1) m_le
            by (simp only:) (auto simp: unat_word_ariths unat_of_nat MAX_ARGS_BYTES_def)
        qed
        have tk: "take (unat sz + m + 1) ?args = take (unat sz) args @ ?t @ [0]"
          using take_put_at_ext [of "unat sz" args "m + 1" "snd ?q"] Suc.prems lq m_le q(3) mt
          by (simp add: add.assoc)
        have stop: "(sz + of_int (fst ?q) \<ge> of_nat MAX_ARGS_BYTES) \<longleftrightarrow>
            unat sz + m + 1 \<ge> MAX_ARGS_BYTES"
          using sz1 by (simp add: word_le_nat_alt unat_of_nat MAX_ARGS_BYTES_def)
        have unf: "read_args env argv i (Suc k) args sz n =
            (if unat sz + m + 1 \<ge> MAX_ARGS_BYTES then (?args, sz + of_int (fst ?q), n + 1)
             else read_args env argv (Suc i) k ?args (sz + of_int (fst ?q)) (n + 1))"
          using nz r off q(2) stop by (simp add: Let_def)
        have ref: "user_argv um us argv i (Suc k) = s # user_argv um us argv (Suc i) k"
          using Some r nz us_s by simp
        let ?B = "arg_budget (unat sz + m + 1) (user_argv um us argv (Suc i) k)"
        note step = trans [OF unf [symmetric] run]
        show ?thesis
        proof (cases "unat sz + m + 1 \<ge> MAX_ARGS_BYTES")
          case True
          then have res: "args' = ?args" "sz' = sz + of_int (fst ?q)" "n' = n + 1"
            using step by auto
          from True show ?thesis
            unfolding res ref using la sz1 tk mt by (simp add: Let_def)
        next
          case False
          have "read_args env argv (Suc i) k ?args (sz + of_int (fst ?q)) (n + 1) = (args', sz', n')"
            using step False by simp
          note step' = this
          have "unat (sz + of_int (fst ?q)) < MAX_ARGS_BYTES" using sz1 False by simp
          note ih = Suc.IH [OF this la step', unfolded sz1 tk]
          have budget: "arg_budget (unat sz) (user_argv um us argv i (Suc k)) = ?t # ?B"
            unfolding ref arg_budget.simps Let_def mt(2) using False by (simp only: if_False)
          have "take (unat sz') args' = take (unat sz) args @ slots (?t # ?B)"
            using ih [THEN conjunct2, THEN conjunct2, THEN conjunct2] by simp
          moreover have "min (length s) (MAX_ARGS_BYTES - Suc 0) = m" by (simp add: m_def)
          ultimately show ?thesis unfolding budget using ih by (intro conjI) simp_all
        qed
      qed
    qed
  qed
qed


section \<open>Records\<close>

text \<open>What every scratch value that leaves a program satisfies: the buffers have their size, the
  file name is terminated, and the arguments are \<open>nargs\<close> terminated slots of \<open>args_size\<close> bytes
  that stay inside the buffer.\<close>

definition payload_ok :: "exec_scratch \<Rightarrow> bool" where
  "payload_ok e \<longleftrightarrow> scratch_ok e \<and> 0 \<in> set (es_filename e) \<and>
     unat (eh_filename_len (hdr e)) \<le> FILENAME_LEN \<and>
     unat (eh_args_size (hdr e)) < MAX_ARGS_BYTES * 2 \<and> unat (eh_nargs (hdr e)) \<le> MAX_ARGS \<and>
     (\<exists>ss. length ss = unat (eh_nargs (hdr e)) \<and> (\<forall>t\<in>set ss. 0 \<notin> set t) \<and>
        take (unat (eh_args_size (hdr e))) (es_args e) = slots ss)"

definition record_of :: "exec_scratch \<Rightarrow> bytes" where
  "record_of e = event_hdr_bytes (hdr e) @ es_filename e @
     take (unat (eh_args_size (hdr e))) (es_args e)"

lemma out_size_unclamped: "unat n < MAX_ARGS_BYTES * 2 \<Longrightarrow>
    unat (out_size n) = sizeof_event_hdr + FILENAME_LEN + unat n"
proof -
  assume "unat n < MAX_ARGS_BYTES * 2"
  then have "unat (296 + n) = 296 + unat n"
    by (simp add: unat_word_ariths MAX_ARGS_BYTES_def)
  with \<open>unat n < _\<close> show ?thesis
    by (simp add: out_size_def buf_defs Let_def word_less_nat_alt)
qed

lemma output_scratch_record:
  "payload_ok e \<Longrightarrow> events (output_scratch env e (out_size (eh_args_size (hdr e))) s)
     = ringbuf_output env (record_of e) (events s)"
  by (simp add: output_scratch_def payload_ok_def out_size_unclamped exec_scratch_bytes_def
      scratch_ok_def record_of_def)

lemma length_record_of: "payload_ok e \<Longrightarrow>
    length (record_of e) = sizeof_event_hdr + FILENAME_LEN + unat (eh_args_size (hdr e))"
  by (simp add: record_of_def payload_ok_def scratch_ok_def)

lemma user_argv_no_nul: "read_user_str_ok env us \<Longrightarrow> t \<in> set (user_argv um us argv i k) \<Longrightarrow> 0 \<notin> set t"
  by (induction um us argv i k rule: user_argv.induct)
    (fastforce simp: read_user_str_ok_def split: option.splits if_splits)+

lemma arg_budget_elem: "t \<in> set (arg_budget used ss) \<Longrightarrow> \<exists>s\<in>set ss. set t \<subseteq> set s"
proof (induction ss arbitrary: used)
  case Nil
  then show ?case by simp
next
  case (Cons s ss)
  have "set (take (MAX_ARGS_BYTES - 1) s) \<subseteq> set s" by (rule set_take_subset)
  with Cons show ?case by (simp add: Let_def split: if_splits) blast
qed

text \<open>The strings the argument loop collects for a call.\<close>

abbreviation collected ::
  "(u64 \<Rightarrow> nat \<Rightarrow> bytes option) \<Rightarrow> (u64 \<Rightarrow> bytes option) \<Rightarrow> u64 \<Rightarrow> bytes list" where
  "collected um us argv \<equiv> arg_budget 0 (user_argv um us argv 0 MAX_ARGS)"

lemma read_args_collected:
  assumes "read_user_ok env um" "read_user_str_ok env us" "length args = MAX_ARGS_BYTES * 2"
    and "read_args env argv 0 MAX_ARGS args 0 0 = (args', sz, n)"
  shows "length args' = MAX_ARGS_BYTES * 2" "unat n = length (collected um us argv)"
    "unat sz = length (slots (collected um us argv))" "unat sz < MAX_ARGS_BYTES * 2"
    "take (unat sz) args' = slots (collected um us argv)"
    "unat n \<le> MAX_ARGS" "\<forall>t\<in>set (collected um us argv). 0 \<notin> set t"
proof -
  let ?ss = "collected um us argv"
  have len: "length ?ss \<le> MAX_ARGS"
    using length_arg_budget length_user_argv le_trans by blast
  have z: "unat (0 :: u32) < MAX_ARGS_BYTES" by (simp add: MAX_ARGS_BYTES_def)
  note spec = read_args_spec [OF assms(1,2) z assms(3,4)]
  have b: "length (slots ?ss) \<le> MAX_ARGS_BYTES * 2 - 1"
    using arg_budget_bound [of 0 "user_argv um us argv 0 MAX_ARGS"] by (simp add: MAX_ARGS_BYTES_def)
  have "unat (of_nat (length ?ss) :: u32) = length ?ss"
    using len by (simp add: unat_of_nat MAX_ARGS_def)
  then show n: "unat n = length ?ss" using spec by simp
  show "length args' = MAX_ARGS_BYTES * 2" "unat sz = length (slots ?ss)"
    "take (unat sz) args' = slots ?ss" using spec by auto
  then show "unat sz < MAX_ARGS_BYTES * 2" using b by (simp add: MAX_ARGS_BYTES_def)
  show "unat n \<le> MAX_ARGS" using n len by simp
  show "\<forall>t\<in>set ?ss. 0 \<notin> set t"
    using arg_budget_elem user_argv_no_nul [OF assms(2)] by blast
qed

lemma begin_exec_hdr [simp]:
  "eh_pid (hdr (begin_exec env ctx e)) = cur_tgid env"
  "eh_kind (hdr (begin_exec env ctx e)) = KIND_EXEC"
  "eh_ts_ns (hdr (begin_exec env ctx e)) = ktime env"
  "eh_exit_code (hdr (begin_exec env ctx e)) = 0"
  "eh_has_exit_code (hdr (begin_exec env ctx e)) = 0"
  "es_args (begin_exec env ctx e) = es_args e"
  by (simp_all add: begin_exec_def Let_def)

lemma fill_args_hdr [simp]:
  "eh_pid (hdr (fill_args env ctx e)) = eh_pid (hdr e)"
  "eh_kind (hdr (fill_args env ctx e)) = eh_kind (hdr e)"
  "eh_ts_ns (hdr (fill_args env ctx e)) = eh_ts_ns (hdr e)"
  "eh_exit_code (hdr (fill_args env ctx e)) = eh_exit_code (hdr e)"
  "eh_has_exit_code (hdr (fill_args env ctx e)) = eh_has_exit_code (hdr e)"
  "eh_is_toplevel (hdr (fill_args env ctx e)) = eh_is_toplevel (hdr e)"
  "eh_filename_len (hdr (fill_args env ctx e)) = eh_filename_len (hdr e)"
  "es_filename (fill_args env ctx e) = es_filename e"
  by (simp_all add: fill_args_def split: prod.split)

lemma begin_exec_filename:
  assumes us: "read_user_str_ok env us" and "scratch_ok e"
  shows "length (es_filename (begin_exec env ctx e)) = FILENAME_LEN"
    "0 \<in> set (es_filename (begin_exec env ctx e))"
    "c_str (es_filename (begin_exec env ctx e)) =
       (case us (ec_filename ctx) of Some s \<Rightarrow> take (FILENAME_LEN - 1) s | None \<Rightarrow> [])"
    "unat (eh_filename_len (hdr (begin_exec env ctx e))) =
       (case us (ec_filename ctx) of Some s \<Rightarrow> min (length s) (FILENAME_LEN - 1) + 1 | None \<Rightarrow> 0)"
proof -
  define fn0 where "fn0 = (es_filename e)[0 := 0]"
  let ?r = "read_user_str env (ec_filename ctx) fn0"
  have fn: "es_filename (begin_exec env ctx e) = snd ?r"
    "eh_filename_len (hdr (begin_exec env ctx e)) = (if fst ?r > 0 then of_int (fst ?r) else 0)"
    by (simp_all add: begin_exec_def fn0_def Let_def)
  have l0: "length fn0 = FILENAME_LEN" using assms(2) by (simp add: fn0_def scratch_ok_def)
  then have ne: "fn0 \<noteq> []" by (metis FILENAME_LEN_def list.size(3) zero_neq_numeral)
  show l: "length (es_filename (begin_exec env ctx e)) = FILENAME_LEN"
    using read_user_str_length [OF us] l0 by (simp add: fn)
  have main: "0 \<in> set (snd ?r) \<and> c_str (snd ?r) =
       (case us (ec_filename ctx) of Some s \<Rightarrow> take (FILENAME_LEN - 1) s | None \<Rightarrow> []) \<and>
     unat (if fst ?r > 0 then of_int (fst ?r) else (0 :: u32)) =
       (case us (ec_filename ctx) of Some s \<Rightarrow> min (length s) (FILENAME_LEN - 1) + 1 | None \<Rightarrow> 0)"
  proof (cases "us (ec_filename ctx)")
    case None
    have "\<exists>t. snd ?r = 0 # t"
      using read_user_str_None(2) [OF us None, of fn0] l0 ne
      by (cases "es_filename e") (auto simp: fn0_def FILENAME_LEN_def Cons_replicate_eq intro: exI [of _ "replicate 255 0"])
    moreover have "fst ?r < 0" by (rule read_user_str_None(1) [OF us None])
    ultimately show ?thesis using None by (auto simp: c_str_def)
  next
    case (Some s)
    note q = read_user_str_Some [OF us Some ne, unfolded l0]
    let ?m = "min (length s) (FILENAME_LEN - 1)"
    have split: "snd ?r = take ?m s @ 0 # drop (?m + 1) (snd ?r)"
      using q(3) append_take_drop_id [of "?m + 1" "snd ?r"] by simp
    have "0 \<notin> set (take ?m s)" using q(1) by (auto dest: in_set_takeD)
    then have "c_str (snd ?r) = take ?m s" by (subst split) simp
    moreover have "take ?m s = take (FILENAME_LEN - 1) s" by (simp add: min_def)
    moreover have "0 \<in> set (snd ?r)" by (subst split) simp
    moreover have "unat (of_int (fst ?r) :: u32) = ?m + 1"
    proof -
      have "(of_int (fst ?r) :: u32) = of_nat (?m + 1)" using q(2) by simp
      then show ?thesis by (simp only: unat_of_nat) (simp add: FILENAME_LEN_def min_def)
    qed
    ultimately show ?thesis using Some q(2) by simp
  qed
  then show "0 \<in> set (es_filename (begin_exec env ctx e))"
    "c_str (es_filename (begin_exec env ctx e)) =
       (case us (ec_filename ctx) of Some s \<Rightarrow> take (FILENAME_LEN - 1) s | None \<Rightarrow> [])"
    "unat (eh_filename_len (hdr (begin_exec env ctx e))) =
       (case us (ec_filename ctx) of Some s \<Rightarrow> min (length s) (FILENAME_LEN - 1) + 1 | None \<Rightarrow> 0)"
    by (simp_all add: fn)
qed

end
