(* ===== verification/Proc_Safety.thy ===== *)
theory Proc_Safety
  imports Proc_Bpf
begin

text \<open>
  What the process probe guarantees over whole runs: every record it sends is well formed, comes
  from the process tree of the root, and is flagged top-level only when a chain of shells leads
  from the root to it; an exit record repeats the exec record of the process with the exit code
  it asked for.
\<close>

section \<open>The shape of a call\<close>

lemma payload_fill_args:
  assumes "read_user_ok env um" "read_user_str_ok env us"
    and "scratch_ok e" "0 \<in> set (es_filename e)" "unat (eh_filename_len (hdr e)) \<le> FILENAME_LEN"
  shows "payload_ok (fill_args env ctx e)"
    "unat (eh_nargs (hdr (fill_args env ctx e))) = length (collected um us (ec_argv ctx))"
    "take (unat (eh_args_size (hdr (fill_args env ctx e)))) (es_args (fill_args env ctx e))
       = slots (collected um us (ec_argv ctx))"
proof -
  obtain args sz n where r: "read_args env (ec_argv ctx) 0 MAX_ARGS (es_args e) 0 0 = (args, sz, n)"
    by (metis prod_cases3)
  have "length (es_args e) = MAX_ARGS_BYTES * 2" using assms(3) by (simp add: scratch_ok_def)
  note c = read_args_collected [OF assms(1,2) this r]
  have fa: "fill_args env ctx e =
      e\<lparr>es_args := args, hdr := (hdr e)\<lparr>eh_args_size := sz, eh_nargs := n\<rparr>\<rparr>"
    by (simp add: fill_args_def r)
  show "payload_ok (fill_args env ctx e)"
    unfolding payload_ok_def fa using assms(3-5) c
    by (auto simp: scratch_ok_def intro!: exI [of _ "collected um us (ec_argv ctx)"])
  show "unat (eh_nargs (hdr (fill_args env ctx e))) = length (collected um us (ec_argv ctx))"
    "take (unat (eh_args_size (hdr (fill_args env ctx e)))) (es_args (fill_args env ctx e))
       = slots (collected um us (ec_argv ctx))"
    using c by (simp_all add: fa)
qed

text \<open>The scratch value \<open>handle_execve\<close> sends, given the flag it decides.\<close>

definition exec_value :: "bpf_env \<Rightarrow> sys_enter_execve_ctx \<Rightarrow> u8 \<Rightarrow> exec_scratch \<Rightarrow> exec_scratch" where
  "exec_value env ctx flag e0 =
     fill_args env ctx (let e = begin_exec env ctx e0 in e\<lparr>hdr := (hdr e)\<lparr>eh_is_toplevel := flag\<rparr>\<rparr>)"

lemma exec_value_hdr [simp]:
  "eh_pid (hdr (exec_value env ctx flag e)) = cur_tgid env"
  "eh_kind (hdr (exec_value env ctx flag e)) = KIND_EXEC"
  "eh_ts_ns (hdr (exec_value env ctx flag e)) = ktime env"
  "eh_exit_code (hdr (exec_value env ctx flag e)) = 0"
  "eh_has_exit_code (hdr (exec_value env ctx flag e)) = 0"
  "eh_is_toplevel (hdr (exec_value env ctx flag e)) = flag"
  "es_filename (exec_value env ctx flag e) = es_filename (begin_exec env ctx e)"
  by (simp_all add: exec_value_def Let_def)

lemma exec_value_payload:
  assumes "read_user_ok env um" "read_user_str_ok env us" "scratch_ok e"
  shows "payload_ok (exec_value env ctx flag e)"
    "unat (eh_nargs (hdr (exec_value env ctx flag e))) = length (collected um us (ec_argv ctx))"
    "take (unat (eh_args_size (hdr (exec_value env ctx flag e)))) (es_args (exec_value env ctx flag e))
       = slots (collected um us (ec_argv ctx))"
proof -
  note b = begin_exec_filename [OF assms(2,3), of ctx]
  have "unat (eh_filename_len (hdr (begin_exec env ctx e))) \<le> FILENAME_LEN"
    unfolding b(4) by (simp add: FILENAME_LEN_def split: option.split)
  then have *: "scratch_ok (begin_exec env ctx e)" "0 \<in> set (es_filename (begin_exec env ctx e))"
    "unat (eh_filename_len (hdr (begin_exec env ctx e))) \<le> FILENAME_LEN"
    using b assms(3) by (simp_all add: scratch_ok_def)
  let ?e = "(begin_exec env ctx e)\<lparr>hdr := (hdr (begin_exec env ctx e))\<lparr>eh_is_toplevel := flag\<rparr>\<rparr>"
  have "scratch_ok ?e" "0 \<in> set (es_filename ?e)" "unat (eh_filename_len (hdr ?e)) \<le> FILENAME_LEN"
    using * by (simp_all add: scratch_ok_def)
  note f = payload_fill_args [OF assms(1,2) this, of ctx]
  show "payload_ok (exec_value env ctx flag e)"
    "unat (eh_nargs (hdr (exec_value env ctx flag e))) = length (collected um us (ec_argv ctx))"
    "take (unat (eh_args_size (hdr (exec_value env ctx flag e)))) (es_args (exec_value env ctx flag e))
       = slots (collected um us (ec_argv ctx))"
    using f by (simp_all add: exec_value_def Let_def)
qed

text \<open>The flag of a call and what it does to \<open>tracked_pids\<close>; \<open>None\<close> when the call is dropped.\<close>

definition exec_flag :: "bpf_env \<Rightarrow> proc_state \<Rightarrow> u8 option" where
  "exec_flag env s =
     (if get_use_pid_filter s = 0 then Some 1
      else map_option is_toplevel (map_lookup_elem (tracked_pids s) (cur_tgid env)))"

definition exec_tracked :: "bpf_env \<Rightarrow> bytes \<Rightarrow> proc_state \<Rightarrow> (u32, proc_info) bpf_map" where
  "exec_tracked env fn s =
     (case map_lookup_elem (tracked_pids s) (cur_tgid env) of
        Some p \<Rightarrow>
          if get_use_pid_filter s \<noteq> 0 \<and> get_root_pid s \<noteq> 0 \<and> cur_tgid env \<noteq> get_root_pid s
          then map_store (cur_tgid env) (p\<lparr>is_shell := if filename_is_shell fn then 1 else 0\<rparr>)
                 (tracked_pids s)
          else tracked_pids s
      | None \<Rightarrow> tracked_pids s)"

lemma handle_execve_no_slot:
  "array_lookup_elem (heap s (cpu env)) 0 = None \<Longrightarrow> handle_execve env ctx s = s"
  by (simp add: handle_execve_def)

lemma handle_execve_dropped:
  assumes "array_lookup_elem (heap s (cpu env)) 0 = Some e" "exec_flag env s = None"
  shows "handle_execve env ctx s = put_heap env (begin_exec env ctx e) s"
  using assms by (auto simp: handle_execve_def exec_flag_def Let_def split: if_splits)

lemma handle_execve_sends:
  assumes "array_lookup_elem (heap s (cpu env)) 0 = Some e" "exec_flag env s = Some flag"
    and "read_user_ok env um" "read_user_str_ok env us" "scratch_ok e"
  shows "handle_execve env ctx s =
    (put_heap env (exec_value env ctx flag e) s)
      \<lparr>tracked_pids := exec_tracked env (es_filename (begin_exec env ctx e)) s,
       execs := map_update_elem execs_max (cur_tgid env) (exec_value env ctx flag e) (execs s),
       events := ringbuf_output env (record_of (exec_value env ctx flag e)) (events s)\<rparr>"
proof -
  let ?v = "exec_value env ctx flag e"
  let ?b = "begin_exec env ctx e"
  have fin: "finish_exec env ctx (?b\<lparr>hdr := (hdr ?b)\<lparr>eh_is_toplevel := flag\<rparr>\<rparr>) s' =
      (put_heap env ?v s')
        \<lparr>execs := map_update_elem execs_max (cur_tgid env) ?v (execs s'),
         events := ringbuf_output env (record_of ?v) (events s')\<rparr>" for s'
  proof -
    have "exec_value env ctx flag e = fill_args env ctx (?b\<lparr>hdr := (hdr ?b)\<lparr>eh_is_toplevel := flag\<rparr>\<rparr>)"
      by (simp add: exec_value_def Let_def)
    then show ?thesis
      using output_scratch_record [OF exec_value_payload(1) [OF assms(3-5)], of env ctx flag]
      by (simp add: finish_exec_def Let_def output_scratch_def put_heap_def)
  qed
  have top_cases: "(get_use_pid_filter s = 0 \<and> flag = 1) \<or>
     (\<exists>p. get_use_pid_filter s \<noteq> 0 \<and> map_lookup_elem (tracked_pids s) (cur_tgid env) = Some p \<and>
        flag = is_toplevel p)"
    using assms(2) by (auto simp: exec_flag_def split: if_splits)
  then show ?thesis
    using assms(1) fin
    by (elim disjE exE conjE)
      (simp_all add: handle_execve_def exec_tracked_def Let_def put_heap_def split: option.split)
qed

lemma handle_exit_skips:
  "cur_tgid env \<noteq> cur_tid env \<or> map_lookup_elem (execs s) (cur_tgid env) = None \<Longrightarrow>
    handle_exit env ctx s = s"
  by (auto simp: handle_exit_def Let_def)

definition exit_value :: "bpf_env \<Rightarrow> exec_scratch \<Rightarrow> exec_scratch" where
  "exit_value env c = c\<lparr>hdr := (hdr c)\<lparr>eh_kind := KIND_EXIT, eh_ts_ns := ktime env\<rparr>\<rparr>"

lemma exit_value_payload: "payload_ok c \<Longrightarrow> payload_ok (exit_value env c)"
  by (simp add: payload_ok_def exit_value_def scratch_ok_def)

lemma handle_exit_sends:
  assumes "cur_tgid env = cur_tid env" "map_lookup_elem (execs s) (cur_tgid env) = Some c"
    and "payload_ok c"
  shows "handle_exit env ctx s =
    (case array_lookup_elem (heap s (cpu env)) 0 of
       None \<Rightarrow> s | Some _ \<Rightarrow> put_heap env (exit_value env c) s)
      \<lparr>execs := map_delete_elem (cur_tgid env) (execs s),
       events := (case array_lookup_elem (heap s (cpu env)) 0 of
          None \<Rightarrow> events s | Some _ \<Rightarrow> ringbuf_output env (record_of (exit_value env c)) (events s)),
       tracked_pids := (if get_use_pid_filter s \<noteq> 0 then map_delete_elem (cur_tgid env) (tracked_pids s)
          else tracked_pids s)\<rparr>"
proof -
  note p = exit_value_payload [OF assms(3), of env]
  note rec = output_scratch_record [OF p, of env "put_heap env (exit_value env c) s"]
  show ?thesis
    using assms(1,2) rec
    by (cases "array_lookup_elem (heap s (cpu env)) 0")
      (simp_all add: handle_exit_def exit_value_def [symmetric] get_use_pid_filter_def Let_def
        put_heap_def output_scratch_def)
qed


section \<open>Shell paths\<close>

definition shell_paths :: "string list" where
  "shell_paths = [''/bin/sh'', ''/usr/bin/sh'', ''/bin/bash'', ''/usr/bin/bash'',
     ''/bin/dash'', ''/usr/bin/dash'', ''/bin/zsh'', ''/usr/bin/zsh'']"

lemma list_all_nth_eq_take:
  "length xs \<le> length ys \<Longrightarrow> list_all (\<lambda>i. ys ! i = xs ! i) [0..<length xs] \<longleftrightarrow> take (length xs) ys = xs"
proof (induction xs arbitrary: ys)
  case (Cons x xs)
  then obtain y zs where ys: "ys = y # zs" "length xs \<le> length zs" by (cases ys) auto
  have "list_all (\<lambda>i. ys ! i = (x # xs) ! i) [0..<length (x # xs)] \<longleftrightarrow>
      y = x \<and> list_all (\<lambda>i. zs ! i = xs ! i) [0..<length xs]"
    unfolding ys(1) length_Cons upt_conv_Cons [OF zero_less_Suc] map_Suc_upt [symmetric]
    by (simp add: list.pred_map comp_def)
  then show ?case using Cons.IH [OF ys(2)] ys(1) by auto
qed simp

lemma path_is_iff:
  assumes "length lit < length fn" "0 \<notin> set (bytes_of lit)"
  shows "path_is fn lit \<longleftrightarrow> c_str fn = bytes_of lit"
proof -
  have "path_is fn lit \<longleftrightarrow> take (Suc (length lit)) fn = bytes_of lit @ [0]"
    using list_all_nth_eq_take [of "bytes_of lit @ [0]" fn] assms(1)
    unfolding path_is_def Let_def by simp
  also have "\<dots> \<longleftrightarrow> c_str fn = bytes_of lit"
  proof
    assume t: "take (Suc (length lit)) fn = bytes_of lit @ [0]"
    have "fn = bytes_of lit @ 0 # drop (Suc (length lit)) fn"
      using append_take_drop_id [of "Suc (length lit)" fn] t by simp
    then show "c_str fn = bytes_of lit" using assms(2) by (metis c_str_append_nul)
  next
    assume c: "c_str fn = bytes_of lit"
    let ?r = "dropWhile (\<lambda>b. b \<noteq> 0) fn"
    have f: "fn = bytes_of lit @ ?r" using c by (metis c_str_def takeWhile_dropWhile_id)
    then have "length fn = length lit + length ?r" by (metis length_append length_bytes_of)
    then have "?r \<noteq> []" using assms(1) by auto
    then have "?r = 0 # tl ?r" using hd_dropWhile [of "\<lambda>b. b \<noteq> 0" fn] by (cases ?r) auto
    then have "take (Suc (length lit)) (bytes_of lit @ ?r) = bytes_of lit @ [0]"
      by (cases ?r) auto
    then show "take (Suc (length lit)) fn = bytes_of lit @ [0]" using f by simp
  qed
  finally show ?thesis .
qed

lemma shell_paths_ok: "list_all (\<lambda>p. length p < 255 \<and> 0 \<notin> set (bytes_of p)) shell_paths"
  by code_simp

lemma filename_is_shell_iff:
  assumes "length fn = FILENAME_LEN"
  shows "filename_is_shell fn \<longleftrightarrow> str_of (c_str fn) \<in> set shell_paths"
proof -
  have "path_is fn p \<longleftrightarrow> str_of (c_str fn) = p" if "p \<in> set shell_paths" for p
  proof -
    have "length p < length fn \<and> 0 \<notin> set (bytes_of p)"
      using that shell_paths_ok assms by (auto simp: list_all_iff FILENAME_LEN_def)
    then show ?thesis using path_is_iff [of p fn] by (metis bytes_of_str_of str_of_bytes_of)
  qed
  moreover have "filename_is_shell fn \<longleftrightarrow> (\<exists>p\<in>set shell_paths. path_is fn p)"
    by (simp add: filename_is_shell_def shell_paths_def)
  ultimately show ?thesis by auto
qed

lemma shell_captured_iff:
  assumes "read_user_str_ok env us" "scratch_ok e"
  shows "filename_is_shell (es_filename (begin_exec env ctx e)) \<longleftrightarrow>
    (\<exists>s. us (ec_filename ctx) = Some s \<and> str_of s \<in> set shell_paths)"
proof -
  note b = begin_exec_filename [OF assms, of ctx]
  have long: "str_of (take (FILENAME_LEN - 1) s) \<in> set shell_paths \<longleftrightarrow> str_of s \<in> set shell_paths" for s
  proof (cases "length s \<le> 255")
    case False
    then have "length (str_of (take (FILENAME_LEN - 1) s)) = 255" "length (str_of s) > 255"
      by (simp_all add: FILENAME_LEN_def)
    then show ?thesis using shell_paths_ok by (fastforce simp: list_all_iff)
  qed (simp add: FILENAME_LEN_def)
  have "str_of [] \<notin> set shell_paths" by (simp add: str_of_def shell_paths_def)
  then show ?thesis
    unfolding filename_is_shell_iff [OF b(1)] b(3) using long by (auto split: option.split)
qed

section \<open>The invariant of a run\<close>

definition call_ok :: "proc_call \<Rightarrow> bool" where
  "call_ok c \<longleftrightarrow> (\<exists>um us. read_user_ok (call_env c) um \<and> read_user_str_ok (call_env c) us)"

definition record_pid :: "bytes \<Rightarrow> u32" where
  "record_pid r = of_nat (le_dec (take 4 r))"

definition record_toplevel :: "bytes \<Rightarrow> bool" where
  "record_toplevel r \<longleftrightarrow> r ! 29 \<noteq> 0"

lemma le_dec_u32 [simp]: "of_nat (le_dec (le_enc 4 (unat (w :: u32)))) = w"
  by simp

lemma record_of_fields [simp]:
  "record_pid (record_of e) = eh_pid (hdr e)"
  "record_toplevel (record_of e) \<longleftrightarrow> eh_is_toplevel (hdr e) \<noteq> 0"
proof -
  show "record_pid (record_of e) = eh_pid (hdr e)"
    by (simp add: record_pid_def record_of_def event_hdr_bytes_def del: le_enc.simps)
  have "event_hdr_bytes (hdr e) ! 29 = eh_is_toplevel (hdr e)"
    by (simp add: event_hdr_bytes_def nth_append del: le_enc.simps)
  then show "record_toplevel (record_of e) \<longleftrightarrow> eh_is_toplevel (hdr e) \<noteq> 0"
    by (simp add: record_toplevel_def record_of_def nth_append sizeof_event_hdr_def)
qed

subsection \<open>Who descends from whom\<close>

text \<open>Over a set of calls: the children a task announced, the processes that run a shell, the
  process tree of the root, and the part of it that a chain of shells connects to the root.\<close>

definition forked :: "proc_call set \<Rightarrow> u32 \<Rightarrow> u32 \<Rightarrow> bool" where
  "forked C p c \<longleftrightarrow> (\<exists>env ctx. Fork env ctx \<in> C \<and> cur_tgid env = p \<and> tc_pid ctx = c)"

definition ran_shell :: "proc_call set \<Rightarrow> u32 \<Rightarrow> bool" where
  "ran_shell C p \<longleftrightarrow> (\<exists>env ctx us s. Execve env ctx \<in> C \<and> cur_tgid env = p \<and>
     read_user_str_ok env us \<and> us (ec_filename ctx) = Some s \<and> str_of s \<in> set shell_paths)"

inductive in_tree :: "proc_call set \<Rightarrow> u32 \<Rightarrow> u32 \<Rightarrow> bool" for C root where
  tree_root: "in_tree C root root"
| tree_child: "in_tree C root p \<Longrightarrow> forked C p c \<Longrightarrow> in_tree C root c"

inductive on_chain :: "proc_call set \<Rightarrow> u32 \<Rightarrow> u32 \<Rightarrow> bool" for C root where
  chain_root: "on_chain C root root"
| chain_child: "on_chain C root p \<Longrightarrow> p = root \<or> ran_shell C p \<Longrightarrow> forked C p c \<Longrightarrow> on_chain C root c"

inductive_cases in_treeE: "in_tree C root c"
inductive_cases on_chainE: "on_chain C root c"

lemma chain_in_tree: "on_chain C root p \<Longrightarrow> in_tree C root p"
  by (induction rule: on_chain.induct) (auto intro: in_tree.intros)

subsection \<open>The invariant\<close>

definition seeded :: "u32 \<Rightarrow> proc_state \<Rightarrow> bool" where
  "seeded root s \<longleftrightarrow> root \<noteq> 0 \<and> get_use_pid_filter s \<noteq> 0 \<and> get_root_pid s = root \<and>
     tracked_pids s = [(root, \<lparr>is_shell = 1, is_toplevel = 1\<rparr>)] \<and> execs s = [] \<and> events s = [] \<and>
     (\<forall>c. list_all scratch_ok (heap s c))"

definition value_inv :: "proc_call set \<Rightarrow> u32 \<Rightarrow> exec_scratch \<Rightarrow> bool" where
  "value_inv C root e \<longleftrightarrow> payload_ok e \<and> in_tree C root (eh_pid (hdr e)) \<and>
     (eh_is_toplevel (hdr e) \<noteq> 0 \<longrightarrow> on_chain C root (eh_pid (hdr e)))"

definition info_inv :: "proc_call set \<Rightarrow> u32 \<Rightarrow> u32 \<Rightarrow> proc_info \<Rightarrow> bool" where
  "info_inv C root pid p \<longleftrightarrow> in_tree C root pid \<and> (is_toplevel p \<noteq> 0 \<longrightarrow> on_chain C root pid) \<and>
     (is_shell p \<noteq> 0 \<longrightarrow> pid = root \<or> ran_shell C pid)"

definition run_inv :: "proc_call set \<Rightarrow> u32 \<Rightarrow> proc_state \<Rightarrow> bool" where
  "run_inv C root s \<longleftrightarrow> root \<noteq> 0 \<and> get_use_pid_filter s \<noteq> 0 \<and> get_root_pid s = root \<and>
     map_ok tracked_pids_max (tracked_pids s) \<and> map_ok execs_max (execs s) \<and>
     (\<forall>c. list_all scratch_ok (heap s c)) \<and>
     (\<forall>pid p. map_lookup_elem (tracked_pids s) pid = Some p \<longrightarrow> info_inv C root pid p) \<and>
     (\<forall>pid e. map_lookup_elem (execs s) pid = Some e \<longrightarrow>
        value_inv C root e \<and> eh_pid (hdr e) = pid \<and> eh_kind (hdr e) = KIND_EXEC) \<and>
     (\<forall>r\<in>set (events s). \<exists>e. value_inv C root e \<and> r = record_of e)"

lemma run_invD:
  assumes "run_inv C root s"
  shows "root \<noteq> 0" "get_use_pid_filter s \<noteq> 0" "get_root_pid s = root"
    "map_ok tracked_pids_max (tracked_pids s)" "map_ok execs_max (execs s)"
    "list_all scratch_ok (heap s c)"
    "map_lookup_elem (tracked_pids s) pid = Some p \<Longrightarrow> info_inv C root pid p"
    "map_lookup_elem (execs s) pid = Some e \<Longrightarrow>
       value_inv C root e \<and> eh_pid (hdr e) = pid \<and> eh_kind (hdr e) = KIND_EXEC"
    "r \<in> set (events s) \<Longrightarrow> \<exists>e. value_inv C root e \<and> r = record_of e"
  using assms unfolding run_inv_def by auto

lemma seeded_run_inv: "seeded root s \<Longrightarrow> run_inv C root s"
  by (auto simp: seeded_def run_inv_def info_inv_def map_ok_def tracked_pids_max_def execs_max_def
      map_lookup_elem_def intro: in_tree.intros on_chain.intros split: if_splits)

lemma ringbuf_output_set: "set (ringbuf_output env r rb) \<subseteq> insert r (set rb)"
  by (auto simp: ringbuf_output_def)

lemma array_lookup_elemD: "array_lookup_elem a i = Some x \<Longrightarrow> i < length a \<and> x \<in> set a"
  by (auto simp: array_lookup_elem_def split: if_splits)

lemma put_heap_ok:
  "(\<forall>c. list_all scratch_ok (heap s c)) \<Longrightarrow> scratch_ok e \<Longrightarrow>
    list_all scratch_ok (heap (put_heap env e s) c)"
  using set_update_subset_insert [of "heap s (cpu env)" 0 e]
  by (auto simp: put_heap_def list_all_iff)


subsection \<open>Every call keeps it\<close>

lemma run_inv_fork:
  assumes inv: "run_inv C root s" and "Fork env ctx \<in> C"
  shows "run_inv C root (handle_fork env ctx s)"
proof (cases "map_lookup_elem (tracked_pids s) (cur_tgid env)")
  case None
  then show ?thesis using inv by (simp add: handle_fork_def Let_def)
next
  case (Some p)
  let ?c = "tc_pid ctx"
  let ?child = "\<lparr>is_shell = 0, is_toplevel = (if is_shell p \<noteq> 0 \<and> is_toplevel p \<noteq> 0 then 1 else 0)\<rparr>"
  have f: "forked C (cur_tgid env) ?c" using assms(2) by (auto simp: forked_def)
  have p: "info_inv C root (cur_tgid env) p" by (rule run_invD(7) [OF inv Some])
  have child: "info_inv C root ?c ?child"
    using p f by (auto simp: info_inv_def intro: tree_child chain_child)
  have eq: "handle_fork env ctx s =
      s\<lparr>tracked_pids := map_update_elem tracked_pids_max ?c ?child (tracked_pids s)\<rparr>"
    using Some run_invD(2) [OF inv] by (simp add: handle_fork_def Let_def)
  show ?thesis
    using inv child unfolding eq run_inv_def
    by (auto simp: bpf_map.ok_update get_use_pid_filter_def get_root_pid_def dest!: bpf_map.lookup_updateD)
qed

lemma run_inv_exit_group:
  assumes inv: "run_inv C root s"
  shows "run_inv C root (handle_exit_group env ctx s)"
proof (cases "map_lookup_elem (execs s) (cur_tgid env)")
  case None
  then show ?thesis using inv by (simp add: handle_exit_group_def Let_def)
next
  case (Some c)
  let ?v = "c\<lparr>hdr := (hdr c)\<lparr>eh_exit_code := ucast (gc_error_code ctx), eh_has_exit_code := 1\<rparr>\<rparr>"
  have "value_inv C root ?v \<and> eh_pid (hdr ?v) = cur_tgid env \<and> eh_kind (hdr ?v) = KIND_EXEC"
    using run_invD(8) [OF inv Some] by (auto simp: value_inv_def payload_ok_def scratch_ok_def)
  moreover have "handle_exit_group env ctx s = s\<lparr>execs := map_store (cur_tgid env) ?v (execs s)\<rparr>"
    using Some by (simp add: handle_exit_group_def Let_def)
  ultimately show ?thesis
    using inv unfolding run_inv_def
    by (auto simp: bpf_map.ok_store get_use_pid_filter_def get_root_pid_def dest!: bpf_map.lookup_storeD)
qed

lemma run_inv_exit:
  assumes inv: "run_inv C root s"
  shows "run_inv C root (handle_exit env ctx s)"
proof (cases "cur_tgid env = cur_tid env \<and> map_lookup_elem (execs s) (cur_tgid env) \<noteq> None")
  case False
  then show ?thesis using inv handle_exit_skips by metis
next
  case True
  then obtain c where c: "map_lookup_elem (execs s) (cur_tgid env) = Some c" by auto
  note v = run_invD(8) [OF inv c]
  have pay: "payload_ok c" using v by (simp add: value_inv_def)
  have v': "value_inv C root (exit_value env c)"
    using v exit_value_payload [OF pay, of env] by (auto simp: value_inv_def exit_value_def)
  then have sc: "scratch_ok (exit_value env c)" by (simp add: value_inv_def payload_ok_def)
  have heaps: "\<forall>k. list_all scratch_ok (heap s k)" using run_invD(6) [OF inv] by simp
  show ?thesis
    unfolding handle_exit_sends [OF conjunct1 [OF True] c pay] run_inv_def
    using inv v' heaps put_heap_ok [OF heaps sc, of env]
    by (auto simp: run_inv_def bpf_map.ok_delete bpf_map.ok_delete get_use_pid_filter_def get_root_pid_def
        dest!: bpf_map.lookup_deleteD bpf_map.lookup_deleteD subsetD [OF ringbuf_output_set] split: option.splits)
qed

lemma exec_tracked_inv:
  assumes inv: "run_inv C root s" and ok: "read_user_str_ok env us" and "scratch_ok e"
    and "Execve env ctx \<in> C"
    and "map_lookup_elem (exec_tracked env (es_filename (begin_exec env ctx e)) s) pid = Some p"
  shows "info_inv C root pid p"
proof -
  let ?pid = "cur_tgid env"
  let ?sh = "filename_is_shell (es_filename (begin_exec env ctx e))"
  have "info_inv C root ?pid (q\<lparr>is_shell := if ?sh then 1 else 0\<rparr>)"
    if q: "map_lookup_elem (tracked_pids s) ?pid = Some q" for q
  proof -
    have "?sh \<Longrightarrow> ran_shell C ?pid"
      using shell_captured_iff [OF ok assms(3)] ok assms(4) unfolding ran_shell_def by blast
    then show ?thesis using run_invD(7) [OF inv q] by (simp add: info_inv_def)
  qed
  then show ?thesis
    using assms(5) run_invD(7) [OF inv]
    by (auto simp: exec_tracked_def dest!: bpf_map.lookup_storeD split: option.splits if_splits)
qed

lemma run_inv_execve:
  assumes inv: "run_inv C root s" and "call_ok (Execve env ctx)" and C: "Execve env ctx \<in> C"
  shows "run_inv C root (handle_execve env ctx s)"
proof (cases "array_lookup_elem (heap s (cpu env)) 0")
  case None
  then show ?thesis using inv handle_execve_no_slot by metis
next
  case (Some e)
  obtain um us where ok: "read_user_ok env um" "read_user_str_ok env us"
    using assms(2) by (auto simp: call_ok_def)
  have heaps: "\<forall>k. list_all scratch_ok (heap s k)" using run_invD(6) [OF inv] by simp
  then have sc: "scratch_ok e" using Some by (auto simp: list_all_iff dest!: array_lookup_elemD)
  show ?thesis
  proof (cases "exec_flag env s")
    case None
    have "scratch_ok (begin_exec env ctx e)"
      using begin_exec_filename(1) [OF ok(2) sc] sc by (simp add: scratch_ok_def)
    then show ?thesis
      unfolding handle_execve_dropped [OF Some None] using inv put_heap_ok [OF heaps]
      by (simp add: run_inv_def get_use_pid_filter_def get_root_pid_def)
  next
    case flag: (Some flag)
    let ?v = "exec_value env ctx flag e"
    note pay = exec_value_payload(1) [OF ok sc, of ctx flag]
    obtain q where q: "map_lookup_elem (tracked_pids s) (cur_tgid env) = Some q" "is_toplevel q = flag"
      using flag run_invD(2) [OF inv] by (auto simp: exec_flag_def)
    have v: "value_inv C root ?v"
      using pay run_invD(7) [OF inv q(1)] q(2) by (simp add: value_inv_def info_inv_def)
    have "scratch_ok ?v" using pay by (simp add: payload_ok_def)
    note h = put_heap_ok [OF heaps this, of env]
    have t: "map_ok tracked_pids_max (exec_tracked env fn s)" for fn
      using run_invD(4) [OF inv] by (auto simp: exec_tracked_def bpf_map.ok_store split: option.split)
    show ?thesis
      unfolding handle_execve_sends [OF Some flag ok sc] run_inv_def
      using inv v h t exec_tracked_inv [OF inv ok(2) sc C]
      by (auto simp: run_inv_def bpf_map.ok_update get_use_pid_filter_def get_root_pid_def
          dest!: bpf_map.lookup_updateD subsetD [OF ringbuf_output_set])
  qed
qed

lemma run_inv_step: "run_inv C root s \<Longrightarrow> call_ok c \<Longrightarrow> c \<in> C \<Longrightarrow> run_inv C root (proc_step c s)"
  by (cases c) (auto intro: run_inv_fork run_inv_execve run_inv_exit_group run_inv_exit)

lemma run_inv_run:
  assumes "seeded root s" "\<forall>c\<in>set calls. call_ok c"
  shows "run_inv (set calls) root (proc_run calls s)"
  unfolding proc_run_def
  by (rule fold_invariant [where Q = "\<lambda>c. c \<in> set calls \<and> call_ok c"])
    (use assms seeded_run_inv in \<open>auto intro: run_inv_step\<close>)

lemma run_record:
  assumes "seeded root s" "\<forall>c\<in>set calls. call_ok c" "r \<in> set (events (proc_run calls s))"
  obtains e where "value_inv (set calls) root e" "r = record_of e"
  using run_invD(9) [OF run_inv_run [OF assms(1,2)] assms(3)] by blast


section \<open>A concrete run\<close>

text \<open>The root 100 forks 101, which executes \<open>/bin/ls -l\<close>.\<close>

definition zero_hdr :: event_hdr where
  "zero_hdr = \<lparr>eh_pid = 0, eh_kind = 0, eh_nargs = 0, eh_ts_ns = 0, eh_exit_code = 0,
     eh_has_exit_code = 0, eh_is_toplevel = 0, eh_filename_len = 0, eh_args_size = 0\<rparr>"

definition zero_scratch :: exec_scratch where
  "zero_scratch = \<lparr>hdr = zero_hdr, es_filename = replicate FILENAME_LEN 0,
     es_args = replicate (MAX_ARGS_BYTES * 2) 0\<rparr>"

definition ex_mem :: "(u64 \<times> bytes) list" where
  "ex_mem = [(1, bytes_of ''/bin/ls'' @ [0]), (2, bytes_of ''ls'' @ [0]), (3, bytes_of ''-l'' @ [0]),
     (16, [2, 0, 0, 0, 0, 0, 0, 0]), (24, [3, 0, 0, 0, 0, 0, 0, 0]), (32, [0, 0, 0, 0, 0, 0, 0, 0])]"

abbreviation exit_group :: "u64 \<Rightarrow> sys_enter_exit_group_ctx" where
  "exit_group code \<equiv> \<lparr>gc_syscall_nr = 231, gc_error_code = code\<rparr>"

definition ex_fork :: proc_call where
  "ex_fork = Fork (region_env (task 100 100) 5 []) (newtask 101 0)"

definition ex_env :: bpf_env where
  "ex_env = region_env (task 101 101) 9 ex_mem"

definition ex_ctx :: sys_enter_execve_ctx where
  "ex_ctx = \<lparr>ec_syscall_nr = 59, ec_filename = 1, ec_argv = 16, ec_envp = 0\<rparr>"

definition ex_start :: proc_state where
  "ex_start = \<lparr>tracked_pids = [(100, \<lparr>is_shell = 1, is_toplevel = 1\<rparr>)], config_map = [1],
     root_pid_map = [100], events = [], heap = (\<lambda>_. [zero_scratch]), execs = []\<rparr>"

definition ex_calls :: "proc_call list" where
  "ex_calls = [ex_fork, Execve ex_env ex_ctx]"

lemma zero_scratch_ok [simp]: "scratch_ok zero_scratch"
  by (simp add: zero_scratch_def scratch_ok_def)

lemma ex_seeded: "seeded 100 ex_start"
  by (simp add: seeded_def ex_start_def get_use_pid_filter_def get_root_pid_def)

lemma region_call_ok:
  "call_env c = region_env w t mem \<Longrightarrow> call_ok c"
  unfolding call_ok_def using region_read_ok region_str_ok by metis

lemma ex_calls_ok: "\<forall>c\<in>set ex_calls. call_ok c"
  by (auto simp: ex_calls_def ex_fork_def ex_env_def intro!: region_call_ok)

text \<open>Forking and then executing: the record of a child of a tracked process.\<close>

definition child_info :: "proc_info \<Rightarrow> proc_info" where
  "child_info p = \<lparr>is_shell = 0, is_toplevel = (if is_shell p \<noteq> 0 \<and> is_toplevel p \<noteq> 0 then 1 else 0)\<rparr>"

lemma handle_fork_tracked:
  assumes "get_use_pid_filter s \<noteq> 0" "map_lookup_elem (tracked_pids s) (cur_tgid env) = Some p"
  shows "handle_fork env ctx s =
    s\<lparr>tracked_pids := map_update_elem tracked_pids_max (tc_pid ctx) (child_info p) (tracked_pids s)\<rparr>"
  using assms by (simp add: handle_fork_def child_info_def Let_def)

lemma exec_of_tracked:
  assumes "get_use_pid_filter s \<noteq> 0" "map_lookup_elem (tracked_pids s) (cur_tgid env) = Some p"
    and "heap s (cpu env) = [e]" "scratch_ok e" "call_ok (Execve env ctx)"
    and "rb_room env (length (record_of (exec_value env ctx (is_toplevel p) e)))"
  shows "events (handle_execve env ctx s) = events s @ [record_of (exec_value env ctx (is_toplevel p) e)]"
proof -
  obtain um us where ok: "read_user_ok env um" "read_user_str_ok env us"
    using assms(5) by (auto simp: call_ok_def)
  have "exec_flag env s = Some (is_toplevel p)" using assms by (simp add: exec_flag_def)
  then show ?thesis
    using handle_execve_sends [OF _ _ ok assms(4)] assms(3,6) by (simp add: ringbuf_output_def)
qed

lemma ex_events:
  "events (proc_run ex_calls ex_start) = [record_of (exec_value ex_env ex_ctx 1 zero_scratch)]"
proof -
  let ?p = "\<lparr>is_shell = 1, is_toplevel = 1\<rparr> :: proc_info"
  define s where "s = proc_step ex_fork ex_start"
  have s: "s = ex_start\<lparr>tracked_pids := [(100, ?p), (101, child_info ?p)]\<rparr>"
    using handle_fork_tracked [of ex_start "region_env (task 100 100) 5 []" ?p]
    by (simp add: s_def ex_fork_def ex_start_def get_use_pid_filter_def map_lookup_elem_def
        map_update_elem_def tracked_pids_max_def)
  have "call_ok (Execve ex_env ex_ctx)" using ex_calls_ok by (simp add: ex_calls_def)
  moreover have "map_lookup_elem (tracked_pids s) (cur_tgid ex_env) = Some (child_info ?p)"
    by (simp add: s ex_env_def map_lookup_elem_def)
  ultimately have "events (handle_execve ex_env ex_ctx s) =
      [record_of (exec_value ex_env ex_ctx (is_toplevel (child_info ?p)) zero_scratch)]"
    using exec_of_tracked [of s ex_env "child_info ?p" zero_scratch ex_ctx]
    by (simp add: s ex_start_def get_use_pid_filter_def ex_env_def)
  then show ?thesis by (simp add: proc_run_def ex_calls_def s_def child_info_def)
qed

section \<open>Properties\<close>

text \<open>
  C17. Every record the process probe ever sends is well formed: it is the header, the terminated
  file name and exactly the \<open>args_size\<close> bytes of \<open>nargs\<close> terminated arguments of one scratch
  value, it is shorter than the scratch buffer, and so the clamp on \<open>out_size\<close> never cuts it.
\<close>

theorem records_well_formed:
  assumes "seeded root s" "\<forall>c\<in>set calls. call_ok c" "r \<in> set (events (proc_run calls s))"
  shows "\<exists>e. payload_ok e \<and> r = record_of e \<and>
    length r = sizeof_event_hdr + FILENAME_LEN + unat (eh_args_size (hdr e)) \<and>
    length r < sizeof_exec_scratch"
proof -
  obtain e where e: "value_inv (set calls) root e" "r = record_of e"
    by (rule run_record [OF assms])
  then have p: "payload_ok e" by (simp add: value_inv_def)
  then have "unat (eh_args_size (hdr e)) < 16384" by (simp add: payload_ok_def MAX_ARGS_BYTES_def)
  then show ?thesis using p e(2) length_record_of [OF p]
    by (intro exI [of _ e]) (simp add: buf_defs)
qed

theorem records_well_formed_witness:
  "\<exists>e. payload_ok e \<and> hd (events (proc_run ex_calls ex_start)) = record_of e \<and>
    length (hd (events (proc_run ex_calls ex_start))) =
      sizeof_event_hdr + FILENAME_LEN + unat (eh_args_size (hdr e)) \<and>
    length (hd (events (proc_run ex_calls ex_start))) < sizeof_exec_scratch"
  by (rule records_well_formed [OF ex_seeded ex_calls_ok]) (simp add: ex_events)

text \<open>
  Ancestry scoping: whatever calls happen on the host, in whatever order, every record the
  probe sends once it is seeded with a root names a process that a chain of announced forks
  connects to that root.
\<close>

lemma records_from_process_tree:
  assumes "seeded root s" "\<forall>c\<in>set calls. call_ok c" "r \<in> set (events (proc_run calls s))"
  shows "in_tree (set calls) root (record_pid r)"
  by (rule run_record [OF assms]) (simp add: value_inv_def)

text \<open>
  A record is flagged top-level only for a process that is the root or whose every ancestor
  below the root executed one of the known shell paths: a descendant of anything that is not a
  shell stays forensic.
\<close>

lemma toplevel_only_through_shells:
  assumes "seeded root s" "\<forall>c\<in>set calls. call_ok c" "r \<in> set (events (proc_run calls s))"
    and "record_toplevel r"
  shows "record_pid r = root \<or>
    (\<exists>parent. forked (set calls) parent (record_pid r) \<and> on_chain (set calls) root parent \<and>
       (parent = root \<or> ran_shell (set calls) parent))"
proof -
  obtain e where e: "value_inv (set calls) root e" "r = record_of e"
    by (rule run_record [OF assms(1-3)])
  then have "on_chain (set calls) root (record_pid r)"
    using assms(4) by (simp add: value_inv_def)
  then show ?thesis by (auto elim: on_chainE)
qed

lemma toplevel_only_through_shells_witness:
  "record_toplevel (hd (events (proc_run ex_calls ex_start))) \<and>
   (record_pid (hd (events (proc_run ex_calls ex_start))) = 100 \<or>
    (\<exists>parent. forked (set ex_calls) parent (record_pid (hd (events (proc_run ex_calls ex_start)))) \<and>
       on_chain (set ex_calls) 100 parent \<and> (parent = 100 \<or> ran_shell (set ex_calls) parent)))"
proof -
  have top: "record_toplevel (hd (events (proc_run ex_calls ex_start)))"
    by (simp add: ex_events)
  moreover have "hd (events (proc_run ex_calls ex_start)) \<in> set (events (proc_run ex_calls ex_start))"
    by (simp add: ex_events)
  ultimately show ?thesis
    using toplevel_only_through_shells [OF ex_seeded ex_calls_ok _ top] by blast
qed


subsection \<open>What a record says\<close>

text \<open>\<open>ss\<close> is the argument vector at address \<open>a\<close>: its pointers lead to its strings, and a null
  pointer follows them.\<close>

definition argv_at ::
  "(u64 \<Rightarrow> nat \<Rightarrow> bytes option) \<Rightarrow> (u64 \<Rightarrow> bytes option) \<Rightarrow> u64 \<Rightarrow> bytes list \<Rightarrow> bool" where
  "argv_at um us a ss \<longleftrightarrow>
     list_all (\<lambda>i. case um (a + 8 * of_nat i) 8 of
         None \<Rightarrow> False
       | Some p \<Rightarrow> (of_nat (le_dec p) :: u64) \<noteq> 0 \<and> us (of_nat (le_dec p)) = Some (ss ! i))
       [0..<length ss] \<and>
     (case um (a + 8 * of_nat (length ss)) 8 of
        None \<Rightarrow> False | Some p \<Rightarrow> (of_nat (le_dec p) :: u64) = 0)"

lemma user_argv_at:
  assumes "argv_at um us a ss" "i \<le> length ss"
  shows "user_argv um us a i k = take k (drop i ss)"
  using assms(2)
proof (induction k arbitrary: i)
  case 0
  then show ?case by simp
next
  case (Suc k)
  show ?case
  proof (cases "i = length ss")
    case True
    then show ?thesis using assms(1) by (auto simp: argv_at_def split: option.splits)
  next
    case False
    then have i: "i < length ss" using Suc.prems by simp
    have "case um (a + 8 * of_nat i) 8 of None \<Rightarrow> False
       | Some p \<Rightarrow> (of_nat (le_dec p) :: u64) \<noteq> 0 \<and> us (of_nat (le_dec p)) = Some (ss ! i)"
      using assms(1) i by (simp add: argv_at_def list_all_iff)
    then obtain p where "um (a + 8 * of_nat i) 8 = Some p" "(of_nat (le_dec p) :: u64) \<noteq> 0"
      "us (of_nat (le_dec p)) = Some (ss ! i)"
      by (auto split: option.splits)
    then show ?thesis using Suc.IH [of "Suc i"] i by (simp add: Cons_nth_drop_Suc [symmetric])
  qed
qed

lemma collected_argv:
  assumes "argv_at um us a ss" "length ss \<le> MAX_ARGS" "length (slots ss) < MAX_ARGS_BYTES"
  shows "collected um us a = ss"
  using user_argv_at [OF assms(1), of 0 MAX_ARGS] assms(2,3) by (simp add: arg_budget_all)

text \<open>
  The record of an execve call the probe does not drop: one record is sent, its header holds
  the process, the clock, the flag of the process and no exit code, its file name is the path
  the kernel was given (cut at 255 bytes), and its arguments are the argument vector up to the
  slot and byte budgets. Nothing a previous use left in the scratch buffer reaches it.
\<close>

lemma execve_record:
  assumes "array_lookup_elem (heap s (cpu env)) 0 = Some e0" "scratch_ok e0"
    and "exec_flag env s = Some flag"
    and "read_user_ok env um" "read_user_str_ok env us" "us (ec_filename ctx) = Some path"
    and "rb_room env (FILENAME_LEN + sizeof_event_hdr + length (slots (collected um us (ec_argv ctx))))"
  shows "\<exists>e. events (handle_execve env ctx s) = events s @ [record_of e] \<and> payload_ok e \<and>
    hdr e = \<lparr>eh_pid = cur_tgid env, eh_kind = KIND_EXEC,
      eh_nargs = of_nat (length (collected um us (ec_argv ctx))), eh_ts_ns = ktime env,
      eh_exit_code = 0, eh_has_exit_code = 0, eh_is_toplevel = flag,
      eh_filename_len = of_nat (min (length path) (FILENAME_LEN - 1) + 1),
      eh_args_size = of_nat (length (slots (collected um us (ec_argv ctx))))\<rparr> \<and>
    length (es_filename e) = FILENAME_LEN \<and> c_str (es_filename e) = take (FILENAME_LEN - 1) path \<and>
    unat (eh_nargs (hdr e)) = length (collected um us (ec_argv ctx)) \<and>
    take (unat (eh_args_size (hdr e))) (es_args e) = slots (collected um us (ec_argv ctx))"
proof -
  let ?v = "exec_value env ctx flag e0"
  let ?ss = "collected um us (ec_argv ctx)"
  note pay = exec_value_payload [OF assms(4,5,2), of ctx flag]
  note b = begin_exec_filename [OF assms(5,2), of ctx, unfolded assms(6) option.case]
  have sz: "unat (eh_args_size (hdr ?v)) = length (slots ?ss)"
    using arg_cong [OF pay(3), of length] pay(1) by (simp add: payload_ok_def scratch_ok_def)
  have fl: "eh_filename_len (hdr ?v) = eh_filename_len (hdr (begin_exec env ctx e0))"
    by (simp add: exec_value_def Let_def)
  have word: "w = of_nat n" if "unat w = n" for w :: u32 and n
    using that by auto
  have len: "length (record_of ?v) = FILENAME_LEN + sizeof_event_hdr + length (slots ?ss)"
    using length_record_of [OF pay(1)] sz by simp
  have ev: "events (handle_execve env ctx s) = events s @ [record_of ?v]"
    using handle_execve_sends [OF assms(1,3,4,5,2)] assms(7) len by (simp add: ringbuf_output_def)
  have "hdr ?v = \<lparr>eh_pid = cur_tgid env, eh_kind = KIND_EXEC,
      eh_nargs = of_nat (length ?ss), eh_ts_ns = ktime env,
      eh_exit_code = 0, eh_has_exit_code = 0, eh_is_toplevel = flag,
      eh_filename_len = of_nat (min (length path) (FILENAME_LEN - 1) + 1),
      eh_args_size = of_nat (length (slots ?ss))\<rparr>"
    using word [OF pay(2)] word [OF sz] word [OF b(4)] fl
    by (intro event_hdr.equality) simp_all
  then show ?thesis using ev b(1,3) pay by (intro exI [of _ ?v]) simp
qed

lemma ex_argv: "argv_at (region_read ex_mem) (region_str ex_mem) 16 [bytes_of ''ls'', bytes_of ''-l'']"
  by code_simp

lemma ex_collected: "collected (region_read ex_mem) (region_str ex_mem) 16 = [bytes_of ''ls'', bytes_of ''-l'']"
  by (rule collected_argv [OF ex_argv]) (simp_all add: MAX_ARGS_def MAX_ARGS_BYTES_def)

text \<open>
  Nothing is missed in a process tree with room: when a tracked process forks and its child
  executes a program, the child's record is sent, and it is top-level exactly when the parent
  is a top-level shell.
\<close>

lemma child_exec_recorded:
  assumes "get_use_pid_filter s \<noteq> 0"
    and "map_lookup_elem (tracked_pids s) (cur_tgid fenv) = Some p"
    and "\<not> map_full tracked_pids_max (tracked_pids s) \<or>
      map_lookup_elem (tracked_pids s) (tc_pid fctx) \<noteq> None"
    and "cur_tgid env = tc_pid fctx" "heap s (cpu env) = [e0]" "scratch_ok e0"
    and "call_ok (Execve env ctx)" "\<And>n. rb_room env n"
  shows "\<exists>r. events (proc_run [Fork fenv fctx, Execve env ctx] s) = events s @ [r] \<and>
    record_pid r = tc_pid fctx \<and>
    (record_toplevel r \<longleftrightarrow> is_shell p \<noteq> 0 \<and> is_toplevel p \<noteq> 0)"
proof -
  define s1 where "s1 = handle_fork fenv fctx s"
  have s1: "s1 = s\<lparr>tracked_pids :=
      map_update_elem tracked_pids_max (tc_pid fctx) (child_info p) (tracked_pids s)\<rparr>"
    unfolding s1_def by (rule handle_fork_tracked [OF assms(1,2)])
  have look: "map_lookup_elem (tracked_pids s1) (cur_tgid env) = Some (child_info p)"
    using assms(3,4) by (simp add: s1 bpf_map.lookup_update)
  have f: "get_use_pid_filter s1 \<noteq> 0" using assms(1) by (simp add: s1 get_use_pid_filter_def)
  have h: "heap s1 (cpu env) = [e0]" using assms(5) by (simp add: s1)
  note ev = exec_of_tracked [OF f look h assms(6,7) assms(8)]
  let ?r = "record_of (exec_value env ctx (is_toplevel (child_info p)) e0)"
  have "events (proc_run [Fork fenv fctx, Execve env ctx] s) = events s @ [?r]"
    using ev by (simp add: proc_run_def s1_def [symmetric]) (simp add: s1)
  moreover have "record_pid ?r = tc_pid fctx" using assms(4) by simp
  moreover have "record_toplevel ?r \<longleftrightarrow> is_shell p \<noteq> 0 \<and> is_toplevel p \<noteq> 0"
    by (simp add: child_info_def)
  ultimately show ?thesis by blast
qed

lemma child_exec_recorded_witness:
  "\<exists>r. events (proc_run ex_calls ex_start) = [r] \<and> record_pid r = 101 \<and> record_toplevel r"
proof -
  let ?p = "\<lparr>is_shell = 1, is_toplevel = 1\<rparr> :: proc_info"
  have "call_ok (Execve ex_env ex_ctx)" using ex_calls_ok by (simp add: ex_calls_def)
  from child_exec_recorded [of ex_start "region_env (task 100 100) 5 []" ?p
      "(newtask 101 0)" ex_env zero_scratch ex_ctx, OF _ _ _ _ _ _ this]
  show ?thesis
    by (simp add: ex_calls_def ex_fork_def ex_start_def get_use_pid_filter_def
        map_lookup_elem_def map_full_def tracked_pids_max_def ex_env_def)
qed


subsection \<open>Exits\<close>

text \<open>
  Exits: when a process whose exec is cached asks to exit and its leader exits, one record is
  sent; it repeats the cached exec record (path and arguments) as an exit record with the time of
  the exit and the low 32 bits of the exit code it asked for, and the process leaves both maps,
  so a later exit of the same pid sends nothing.
\<close>

lemma exit_repeats_exec_record:
  assumes "get_use_pid_filter s \<noteq> 0" "map_lookup_elem (execs s) (cur_tgid genv) = Some c" "payload_ok c"
    and "cur_tgid env = cur_tgid genv" "cur_tid env = cur_tgid genv"
    and "heap s (cpu env) = [e0]" "\<And>n. rb_room env n"
  shows "\<exists>x s'. proc_run [ExitGroup genv gctx, Exit env xctx] s = s' \<and>
    events s' = events s @ [record_of x] \<and>
    hdr x = (hdr c)\<lparr>eh_kind := KIND_EXIT, eh_ts_ns := ktime env,
      eh_exit_code := ucast (gc_error_code gctx), eh_has_exit_code := 1\<rparr> \<and>
    es_filename x = es_filename c \<and> es_args x = es_args c \<and>
    map_lookup_elem (execs s') (cur_tgid genv) = None \<and>
    map_lookup_elem (tracked_pids s') (cur_tgid genv) = None \<and>
    handle_exit env xctx s' = s'"
proof -
  define c' where "c' = c\<lparr>hdr := (hdr c)\<lparr>eh_exit_code := ucast (gc_error_code gctx), eh_has_exit_code := 1\<rparr>\<rparr>"
  define s1 where "s1 = handle_exit_group genv gctx s"
  define s2 where "s2 = handle_exit env xctx s1"
  have s1: "s1 = s\<lparr>execs := map_store (cur_tgid genv) c' (execs s)\<rparr>"
    using assms(2) by (simp add: s1_def c'_def handle_exit_group_def Let_def)
  have pay: "payload_ok c'" using assms(3) by (simp add: c'_def payload_ok_def scratch_ok_def)
  have look: "map_lookup_elem (execs s1) (cur_tgid env) = Some c'"
    using assms(2,4) by (simp add: s1 bpf_map.lookup_store)
  have same: "cur_tgid env = cur_tid env" using assms(4,5) by simp
  have s2: "s2 = (put_heap env (exit_value env c') s1)
      \<lparr>execs := map_delete_elem (cur_tgid env) (execs s1),
       events := events s @ [record_of (exit_value env c')],
       tracked_pids := map_delete_elem (cur_tgid env) (tracked_pids s)\<rparr>"
    using handle_exit_sends [OF same look pay, of xctx] assms(1,6,7)
    by (simp add: s2_def s1 get_use_pid_filter_def ringbuf_output_def)
  have gone: "map_lookup_elem (execs s2) (cur_tgid env) = None"
    by (simp add: s2 bpf_map.lookup_delete)
  then have "handle_exit env xctx s2 = s2" by (intro handle_exit_skips) simp
  moreover have "proc_run [ExitGroup genv gctx, Exit env xctx] s = s2"
    by (simp add: proc_run_def s1_def s2_def)
  ultimately show ?thesis
    using gone assms(4)
    by (intro exI [of _ "exit_value env c'"] exI [of _ s2])
      (simp add: s2 exit_value_def c'_def bpf_map.lookup_delete)
qed

definition ex_cached :: exec_scratch where
  "ex_cached = exec_value ex_env ex_ctx 1 zero_scratch"

definition ex_running :: proc_state where
  "ex_running = ex_start\<lparr>tracked_pids := [(101, \<lparr>is_shell = 0, is_toplevel = 1\<rparr>)], execs := [(101, ex_cached)]\<rparr>"

lemma ex_cached_ok: "payload_ok ex_cached"
  unfolding ex_cached_def ex_env_def
  by (rule exec_value_payload(1) [OF region_read_ok region_str_ok zero_scratch_ok])

subsection \<open>Where the tracking table leaks\<close>

text \<open>
  A tracked child that exits without having executed anything keeps its entry, because the
  exit handler returns before it releases the pid. When the kernel gives the pid to an unrelated
  process, forked by a process that is not tracked, that process is recorded, with the flag the
  first child had.
\<close>

lemma reused_pid_is_recorded:
  assumes "get_use_pid_filter s \<noteq> 0" "map_lookup_elem (tracked_pids s) (cur_tgid fenv) = Some p"
    and "\<not> map_full tracked_pids_max (tracked_pids s)"
    and "map_lookup_elem (execs s) (tc_pid fctx) = None" "cur_tgid xenv = tc_pid fctx"
    and "map_lookup_elem (tracked_pids s) (cur_tgid genv) = None" "cur_tgid genv \<noteq> tc_pid fctx"
    and "cur_tgid env = tc_pid fctx" "heap s (cpu env) = [e0]" "scratch_ok e0"
    and "call_ok (Execve env ctx)" "\<And>n. rb_room env n"
  shows "\<exists>r. events (proc_run [Fork fenv fctx, Exit xenv xctx, Fork genv gctx, Execve env ctx] s)
      = events s @ [r] \<and> record_pid r = tc_pid fctx \<and>
    (record_toplevel r \<longleftrightarrow> is_shell p \<noteq> 0 \<and> is_toplevel p \<noteq> 0)"
proof -
  define s1 where "s1 = handle_fork fenv fctx s"
  have s1: "s1 = s\<lparr>tracked_pids :=
      map_update_elem tracked_pids_max (tc_pid fctx) (child_info p) (tracked_pids s)\<rparr>"
    unfolding s1_def by (rule handle_fork_tracked [OF assms(1,2)])
  have look: "map_lookup_elem (tracked_pids s1) (cur_tgid env) = Some (child_info p)"
    "map_lookup_elem (tracked_pids s1) (cur_tgid genv) = None"
    using assms(3,6,7,8) by (simp_all add: s1 bpf_map.lookup_update)
  have f: "get_use_pid_filter s1 \<noteq> 0" using assms(1) by (simp add: s1 get_use_pid_filter_def)
  have h: "heap s1 (cpu env) = [e0]" using assms(9) by (simp add: s1)
  have "handle_exit xenv xctx s1 = s1" using assms(4,5) by (intro handle_exit_skips) (simp add: s1)
  moreover have "handle_fork genv gctx s1 = s1"
    using look(2) by (simp add: handle_fork_def Let_def)
  ultimately have "events (proc_run [Fork fenv fctx, Exit xenv xctx, Fork genv gctx, Execve env ctx] s)
      = events s @ [record_of (exec_value env ctx (is_toplevel (child_info p)) e0)]"
    using exec_of_tracked [OF f look(1) h assms(10,11) assms(12)]
    by (simp add: proc_run_def s1_def [symmetric]) (simp add: s1)
  then show ?thesis using assms(8) by (auto simp: child_info_def)
qed

lemma reused_pid_is_recorded_witness:
  "\<exists>r. events (proc_run [ex_fork, Exit (region_env (task 101 101) 6 []) (exiting 101),
      Fork (region_env (task 555 555) 7 []) (newtask 101 0),
      Execve ex_env ex_ctx] ex_start) = [r] \<and> record_pid r = 101 \<and> record_toplevel r"
proof -
  let ?p = "\<lparr>is_shell = 1, is_toplevel = 1\<rparr> :: proc_info"
  have "call_ok (Execve ex_env ex_ctx)" using ex_calls_ok by (simp add: ex_calls_def)
  from reused_pid_is_recorded [of ex_start "region_env (task 100 100) 5 []" ?p
      "(newtask 101 0)" "region_env (task 101 101) 6 []"
      "region_env (task 555 555) 7 []" ex_env zero_scratch ex_ctx, OF _ _ _ _ _ _ _ _ _ _ this]
  show ?thesis
    by (simp add: ex_fork_def ex_start_def get_use_pid_filter_def
        map_lookup_elem_def map_full_def tracked_pids_max_def ex_env_def)
qed

text \<open>
  A thread of a tracked process is announced through the same tracepoint, whatever its clone
  flags are: its thread id enters the table as if it were a process, and the exit of the thread
  does not release it.
\<close>

lemma thread_ids_stay_tracked:
  assumes "get_use_pid_filter s \<noteq> 0" "map_lookup_elem (tracked_pids s) (cur_tgid fenv) = Some p"
    and "\<not> map_full tracked_pids_max (tracked_pids s)"
    and "cur_tgid xenv = cur_tgid fenv" "cur_tid xenv = tc_pid fctx" "tc_pid fctx \<noteq> cur_tgid fenv"
  shows "map_lookup_elem (tracked_pids (proc_run [Fork fenv fctx, Exit xenv xctx] s)) (tc_pid fctx)
    = Some (child_info p)"
proof -
  have "handle_exit xenv xctx s' = s'" for s' using assms(4-6) by (intro handle_exit_skips) simp
  then show ?thesis
    using handle_fork_tracked [OF assms(1,2), of fctx] assms(3)
    by (simp add: proc_run_def bpf_map.lookup_update)
qed

lemma thread_ids_stay_tracked_witness:
  "map_lookup_elem (tracked_pids (proc_run
      [Fork (region_env (task 100 100) 5 []) (newtask 102 0x10000),
       Exit (region_env (task 100 102) 6 []) (exiting 102)] ex_start)) 102
    = Some \<lparr>is_shell = 0, is_toplevel = 1\<rparr>"
  using thread_ids_stay_tracked [of ex_start "region_env (task 100 100) 5 []"
      "\<lparr>is_shell = 1, is_toplevel = 1\<rparr>" "region_env (task 100 102) 6 []"
      "(newtask 102 0x10000)" "(exiting 102)"]
  by (simp add: ex_start_def get_use_pid_filter_def map_lookup_elem_def map_full_def
      tracked_pids_max_def child_info_def)

text \<open>
  Once the table is full, and entries that are never released can fill it, the children a
  tracked process forks are lost: a new child's exec sends nothing.
\<close>

lemma full_table_loses_children:
  assumes "get_use_pid_filter s \<noteq> 0" "map_full tracked_pids_max (tracked_pids s)"
    and "map_lookup_elem (tracked_pids s) (tc_pid fctx) = None" "cur_tgid env = tc_pid fctx"
  shows "events (proc_run [Fork fenv fctx, Execve env ctx] s) = events s"
proof -
  have "handle_fork fenv fctx s = s"
    using assms(2,3) by (simp add: handle_fork_def Let_def bpf_map.lookup_update_full split: option.split)
  moreover have "exec_flag env s = None" using assms(1,3,4) by (simp add: exec_flag_def)
  ultimately show ?thesis
    by (cases "array_lookup_elem (heap s (cpu env)) 0")
      (simp_all add: proc_run_def handle_execve_no_slot handle_execve_dropped)
qed

definition full_table :: "(u32, proc_info) bpf_map" where
  "full_table = map (\<lambda>i. (of_nat (200 + i), \<lparr>is_shell = 0, is_toplevel = 1\<rparr>)) [0..<tracked_pids_max]"

lemma full_table_loses_children_witness:
  "events (proc_run ex_calls (ex_start\<lparr>tracked_pids := full_table\<rparr>)) = []"
proof -
  have "(of_nat (200 + i) :: u32) \<noteq> 101" if "i < tracked_pids_max" for i
  proof -
    have "unat (of_nat (200 + i) :: u32) = 200 + i"
      using that by (simp only: unat_of_nat) (simp add: tracked_pids_max_def)
    moreover have "unat (101 :: u32) = 101" by simp
    ultimately show ?thesis by (auto simp del: of_nat_add unsigned_of_nat)
  qed
  then have "map_lookup_elem full_table 101 = None"
    by (auto simp: map_lookup_elem_def full_table_def map_of_eq_None_iff)
  moreover have "map_full tracked_pids_max full_table" by (simp add: map_full_def full_table_def)
  ultimately show ?thesis
    using full_table_loses_children [of "ex_start\<lparr>tracked_pids := full_table\<rparr>"
        "(newtask 101 0)" ex_env "region_env (task 100 100) 5 []" ex_ctx]
    by (simp add: ex_calls_def ex_fork_def ex_start_def get_use_pid_filter_def ex_env_def)
qed

end
