(* ===== verification/Probe_Interface.thy ===== *)
theory Probe_Interface
  imports Models
begin

text \<open>
  The interface of a probe, \<open>pkg/probe/probe.go\<close>: \<open>Start\<close> begins to emit events, \<open>Stop\<close> ends it, \<open>Events\<close> is what was
  emitted in between. A run of a probe is abstract here: whatever its observer was given between the
  two. The contract its consumers rely on is that every event delivered passes the validation of the
  ground truth, so that a recording of any of them loads; the observers interpret it.
\<close>

locale ground_truth_probe =
  fixes runs :: "'r \<Rightarrow> bool" and delivers :: "'r \<Rightarrow> GroundTruth"
  assumes delivers_valid: "runs r \<Longrightarrow> list_all (\<lambda>ev. Validate_event ev = None) (delivers r)"
begin

lemma delivered_valid: "runs r \<Longrightarrow> ev \<in> set (delivers r) \<Longrightarrow> Validate_event ev = None"
  using delivers_valid by (auto simp: list_all_iff)

lemma recording_parses:
  assumes "runs r" "set g \<subseteq> set (delivers r)" "unmarshal data = Inr g"
  shows "ParseGroundTruth unmarshal data = Inr g"
proof -
  have "first_error Validate_event g = None"
    using assms(1,2) delivered_valid by (auto simp: first_error_None)
  then show ?thesis by (simp add: ParseGroundTruth_def assms(3))
qed

end

text \<open>Two probes side by side, as the recorder runs them, are a probe again.\<close>

locale probe_pair =
  first_probe: ground_truth_probe runs1 delivers1 + second_probe: ground_truth_probe runs2 delivers2
  for runs1 :: "'r \<Rightarrow> bool" and delivers1 :: "'r \<Rightarrow> GroundTruth"
    and runs2 :: "'s \<Rightarrow> bool" and delivers2 :: "'s \<Rightarrow> GroundTruth"

sublocale probe_pair \<subseteq> both: ground_truth_probe "\<lambda>(r, s). runs1 r \<and> runs2 s" "\<lambda>(r, s). delivers1 r @ delivers2 s"
  by unfold_locales (auto simp: list_all_iff dest: first_probe.delivered_valid second_probe.delivered_valid)

end
