(* ===== verification/Proc_Observer.thy ===== *)
theory Proc_Observer
  imports Proc_Safety Matching Probe_Interface
begin

text \<open>
  The user-space side of the process probe, \<open>pkg/probe/proc/observer.go\<close>: how \<open>New\<close> and
  \<open>SetRootPID\<close> seed the maps the kernel programs read, and how \<open>readLoop\<close> turns ring buffer
  records into ground-truth events. The errors of \<open>New\<close>, the links it attaches and the
  goroutines are in \<open>Proc_Life\<close>; here every call succeeds, and the map updates and the ring buffer
  reader are used as documented. The last section composes both sides.
\<close>

section \<open>Configuration and seeding\<close>

definition kindExec :: u32 where "kindExec = 0"
definition kindExit :: u32 where "kindExit = 1"

record Config_proc =
  PIDFilter :: s32
  CommandFilter :: string
  DeferRootPID :: bool

text \<open>The maps as the kernel creates them: arrays zeroed, hash maps empty.\<close>

definition loaded_maps :: proc_state where
  "loaded_maps = \<lparr>tracked_pids = [], config_map = [0], root_pid_map = [0], events = [],
     heap = (\<lambda>_. [zero_scratch]), execs = []\<rparr>"

definition seed_root :: "u32 \<Rightarrow> proc_state \<Rightarrow> proc_state" where
  "seed_root pid s =
     s\<lparr>root_pid_map := (root_pid_map s)[0 := pid],
       tracked_pids := map_update_elem tracked_pids_max pid \<lparr>is_shell = 1, is_toplevel = 1\<rparr> (tracked_pids s)\<rparr>"

definition New_maps :: "Config_proc \<Rightarrow> proc_state" where
  "New_maps cfg =
     (let s0 = loaded_maps;
          s1 = (if 0 <s PIDFilter cfg \<or> DeferRootPID cfg
                then s0\<lparr>config_map := (config_map s0)[0 := 1]\<rparr> else s0)
      in if 0 <s PIDFilter cfg then seed_root (PIDFilter cfg) s1 else s1)"

definition SetRootPID :: "s32 \<Rightarrow> Config_proc \<times> proc_state \<Rightarrow> Config_proc \<times> proc_state" where
  "SetRootPID pid o1 =
     (let s1 = (snd o1)\<lparr>config_map := (config_map (snd o1))[0 := 1]\<rparr>
      in ((fst o1)\<lparr>PIDFilter := pid, CommandFilter := ''''\<rparr>, seed_root pid s1))"

section \<open>Decoding\<close>

text \<open>\<open>binary.Read\<close> into the generated \<open>bpfEventHdr\<close>, whose blank fields cover the padding.\<close>

definition hdrSize :: nat where "hdrSize = 40"
definition filenameLen :: nat where "filenameLen = 256"

definition read_u32 :: "nat \<Rightarrow> bytes \<Rightarrow> u32" where
  "read_u32 off raw = of_nat (le_dec (seg off 4 raw))"

definition read_u64 :: "nat \<Rightarrow> bytes \<Rightarrow> u64" where
  "read_u64 off raw = of_nat (le_dec (seg off 8 raw))"

definition binary_Read_hdr :: "bytes \<Rightarrow> event_hdr" where
  "binary_Read_hdr raw =
     \<lparr>eh_pid = read_u32 0 raw, eh_kind = read_u32 4 raw, eh_nargs = read_u32 8 raw,
      eh_ts_ns = read_u64 16 raw, eh_exit_code = read_u32 24 raw,
      eh_has_exit_code = raw ! 28, eh_is_toplevel = raw ! 29,
      eh_filename_len = read_u32 32 raw, eh_args_size = read_u32 36 raw\<rparr>"

definition cString :: "bytes \<Rightarrow> string" where
  "cString b = str_of (c_str b)"

text \<open>The loop of \<open>commandLine\<close>: \<open>args\<close> is what lies beyond \<open>start\<close>.\<close>

fun split_args :: "nat \<Rightarrow> bytes \<Rightarrow> string list" where
  "split_args 0 args = []"
| "split_args (Suc n) args =
     (if args = [] then []
      else str_of (takeWhile (\<lambda>b. b \<noteq> 0) args) #
           split_args n (drop 1 (dropWhile (\<lambda>b. b \<noteq> 0) args)))"

definition commandLine :: "string \<Rightarrow> bytes \<Rightarrow> u32 \<Rightarrow> string" where
  "commandLine filename args nargs =
     (let argv = split_args (unat nargs) args
      in if filename = '''' then
           (case argv of [] \<Rightarrow> '''' | cmd # rest \<Rightarrow> join_with '' '' (cmd # rest))
         else
           (let rest = (case argv of [] \<Rightarrow> argv | _ # rest \<Rightarrow> rest)
            in join_with '' '' (filename # rest)))"

section \<open>The read loop\<close>

definition read_record :: "Config_proc \<Rightarrow> s64 \<Rightarrow> bytes \<Rightarrow> GroundTruthEvent option" where
  "read_record cfg bootOffsetNs raw =
     (if length raw < hdrSize then None
      else
        let h = binary_Read_hdr raw
        in if 0 <s PIDFilter cfg \<and> eh_pid h = PIDFilter cfg then None
           else if eh_kind h \<noteq> kindExec \<and> eh_kind h \<noteq> kindExit then None
           else
             let actionType = (if eh_kind h = kindExec then ProcessExec else ProcessExit);
                 whole = hdrSize + filenameLen \<le> length raw;
                 fnBytes = (if whole then seg hdrSize filenameLen raw else []);
                 argsStart = hdrSize + filenameLen;
                 argsEnd = min (argsStart + unat (eh_args_size h)) (length raw);
                 argsBytes = (if whole \<and> argsStart < argsEnd
                              then seg argsStart (argsEnd - argsStart) raw else []);
                 target = commandLine (cString fnBytes) argsBytes (eh_nargs h)
             in if target = '''' then None
                else if CommandFilter cfg \<noteq> '''' \<and>
                        take (length (CommandFilter cfg)) target \<noteq> CommandFilter cfg then None
                else Some \<lparr>ge_Timestamp = time_Unix (eh_ts_ns h + bootOffsetNs),
                           ge_ActionType = actionType, ge_Target = target,
                           ge_InputHash = None, ge_OutputHash = None,
                           ge_ExitCode = (if eh_has_exit_code h \<noteq> 0 then Some (eh_exit_code h) else None),
                           ge_IsTopLevel = Some (eh_is_toplevel h = 1),
                           ge_PathIsAmbiguous = False, ge_RequestHash = None\<rparr>)"

text \<open>
  The loop over the records of the ring buffer, in order. A record comes with what the
  non-blocking send met: whether the events channel had room. The state is what was sent and
  the dropped counter.
\<close>

fun readLoop :: "Config_proc \<Rightarrow> s64 \<Rightarrow> (bytes \<times> bool) list \<Rightarrow> GroundTruthEvent list \<times> u64 \<Rightarrow>
    GroundTruthEvent list \<times> u64" where
  "readLoop cfg boot [] st = st"
| "readLoop cfg boot ((raw, has_room) # rs) (sent, dropped) =
     (case read_record cfg boot raw of
        None \<Rightarrow> readLoop cfg boot rs (sent, dropped)
      | Some event \<Rightarrow>
          if has_room then readLoop cfg boot rs (sent @ [event], dropped)
          else readLoop cfg boot rs (sent, dropped + 1))"

section \<open>Decoding inverts the kernel's encoding\<close>

lemma seg_append_left: "off + n \<le> length xs \<Longrightarrow> seg off n (xs @ ys) = seg off n xs"
  by (simp add: seg_def)

lemma seg_append_right: "length xs \<le> off \<Longrightarrow> seg off n (xs @ ys) = seg (off - length xs) n ys"
  by (simp add: seg_def)

lemma binary_Read_hdr_bytes: "binary_Read_hdr (event_hdr_bytes h @ rest) = h"
  by (simp add: binary_Read_hdr_def event_hdr_bytes_def read_u32_def read_u64_def seg_def
      nth_append del: le_enc.simps)

lemma split_args_slots:
  "\<forall>t\<in>set ss. 0 \<notin> set t \<Longrightarrow> split_args (length ss) (slots ss) = map str_of ss"
proof (induction ss)
  case (Cons t ss)
  then have "takeWhile (\<lambda>b. b \<noteq> 0) (t @ 0 # slots ss) = t"
    "dropWhile (\<lambda>b. b \<noteq> 0) (t @ 0 # slots ss) = 0 # slots ss"
    by (auto simp: takeWhile_append dropWhile_append)
  with Cons show ?case by simp
qed simp

text \<open>The command line the observer reports for a path and an argument vector.\<close>

definition command_of :: "bytes \<Rightarrow> bytes list \<Rightarrow> string" where
  "command_of path ss = join_with '' '' (str_of path # map str_of (drop 1 ss))"

lemma commandLine_slots:
  assumes "path \<noteq> []" "\<forall>t\<in>set ss. 0 \<notin> set t" "unat n = length ss"
  shows "commandLine (str_of path) (slots ss) n = command_of path ss"
proof -
  have "str_of path \<noteq> []" using assms(1) by (simp add: str_of_def)
  then show ?thesis
    unfolding commandLine_def assms(3) split_args_slots [OF assms(2)] command_of_def
    by (cases ss) (simp_all add: Let_def)
qed

text \<open>Decoding a record gives back what the scratch value held.\<close>

definition event_of :: "s64 \<Rightarrow> event_hdr \<Rightarrow> string \<Rightarrow> GroundTruthEvent" where
  "event_of boot h target = \<lparr>ge_Timestamp = time_Unix (eh_ts_ns h + boot),
     ge_ActionType = (if eh_kind h = KIND_EXEC then ProcessExec else ProcessExit), ge_Target = target,
     ge_InputHash = None, ge_OutputHash = None,
     ge_ExitCode = (if eh_has_exit_code h \<noteq> 0 then Some (eh_exit_code h) else None),
     ge_IsTopLevel = Some (eh_is_toplevel h = 1), ge_PathIsAmbiguous = False, ge_RequestHash = None\<rparr>"

lemma read_record_header:
  assumes "read_record cfg boot (event_hdr_bytes h @ rest) = Some ev"
  shows "\<exists>target. ev = event_of boot h target \<and> target \<noteq> ''''"
    "\<not> (0 <s PIDFilter cfg \<and> eh_pid h = PIDFilter cfg)"
    "eh_kind h = KIND_EXEC \<or> eh_kind h = KIND_EXIT"
  using assms
  by (auto simp: read_record_def binary_Read_hdr_bytes Let_def event_of_def kindExec_def kindExit_def
      KIND_EXEC_def KIND_EXIT_def split: if_splits)

lemma read_record_of:
  assumes "payload_ok e" "take (unat (eh_args_size (hdr e))) (es_args e) = slots ss"
    and "length ss = unat (eh_nargs (hdr e))" "\<forall>t\<in>set ss. 0 \<notin> set t"
    and "c_str (es_filename e) \<noteq> []" "eh_kind (hdr e) = KIND_EXEC \<or> eh_kind (hdr e) = KIND_EXIT"
    and "\<not> (0 <s PIDFilter cfg \<and> eh_pid (hdr e) = PIDFilter cfg)" "CommandFilter cfg = ''''"
  shows "read_record cfg boot (record_of e) =
    Some (event_of boot (hdr e) (command_of (c_str (es_filename e)) ss))"
proof -
  let ?r = "record_of e"
  have r: "?r = event_hdr_bytes (hdr e) @ es_filename e @ slots ss"
    using assms(2) by (simp add: record_of_def)
  have lf: "length (es_filename e) = 256"
    using assms(1) by (simp add: payload_ok_def scratch_ok_def FILENAME_LEN_def)
  have lh: "length (event_hdr_bytes (hdr e)) = 40" by (simp add: sizeof_event_hdr_def)
  have ls: "unat (eh_args_size (hdr e)) = length (slots ss)"
    using arg_cong [OF assms(2), of length] assms(1) by (simp add: payload_ok_def scratch_ok_def)
  have lr: "length ?r = 296 + length (slots ss)" using r lf lh by simp
  have hd: "binary_Read_hdr ?r = hdr e" unfolding r by (rule binary_Read_hdr_bytes)
  have fn: "seg 40 256 ?r = es_filename e" using r lf lh by (simp add: seg_def)
  have ar: "seg 296 (length (slots ss)) ?r = slots ss" using r lf lh by (simp add: seg_def)
  have cmd: "commandLine (cString (es_filename e)) (slots ss) (eh_nargs (hdr e)) =
      command_of (c_str (es_filename e)) ss"
    using commandLine_slots [OF assms(5,4)] assms(3) by (simp add: cString_def)
  have ne: "command_of (c_str (es_filename e)) ss \<noteq> ''''"
    using assms(5) by (cases "drop 1 ss") (auto simp: command_of_def str_of_def)
  have args: "(if hdrSize + filenameLen \<le> length ?r \<and>
        hdrSize + filenameLen < min (hdrSize + filenameLen + unat (eh_args_size (hdr e))) (length ?r)
      then seg (hdrSize + filenameLen)
        (min (hdrSize + filenameLen + unat (eh_args_size (hdr e))) (length ?r) - (hdrSize + filenameLen)) ?r
      else []) = slots ss"
    using ar lr ls by (simp add: hdrSize_def filenameLen_def)
  have kinds: "kindExec = KIND_EXEC" "kindExit = KIND_EXIT"
    by (simp_all add: kindExec_def kindExit_def KIND_EXEC_def KIND_EXIT_def)
  show ?thesis
    unfolding read_record_def Let_def hd args kinds
    using assms(6-8) lr fn cmd ne
    by (auto simp: hdrSize_def filenameLen_def event_of_def)
qed

section \<open>Properties\<close>

text \<open>
  C5. Kernel and user space together: the execve of a tracked process reaches the consumer as one
  \<open>ProcessExec\<close> event whose target is the path given to the kernel followed by the arguments
  after \<open>argv[0]\<close>, whatever the scratch buffer held before; the name the process chose for
  itself in \<open>argv[0]\<close> does not appear.
\<close>

theorem observed_exec:
  assumes "array_lookup_elem (heap s (cpu env)) 0 = Some e0" "scratch_ok e0"
    and "exec_flag env s = Some flag"
    and "read_user_ok env um" "read_user_str_ok env us" "us (ec_filename ctx) = Some path"
    and "path \<noteq> []" "length path < FILENAME_LEN"
    and "argv_at um us (ec_argv ctx) ss" "length ss \<le> MAX_ARGS" "length (slots ss) < MAX_ARGS_BYTES"
    and "rb_room env (FILENAME_LEN + sizeof_event_hdr + length (slots ss))"
    and "\<not> (0 <s PIDFilter cfg \<and> cur_tgid env = PIDFilter cfg)" "CommandFilter cfg = ''''"
  shows "\<exists>r. events (handle_execve env ctx s) = events s @ [r] \<and>
    read_record cfg boot r = Some \<lparr>ge_Timestamp = time_Unix (ktime env + boot),
      ge_ActionType = ProcessExec, ge_Target = command_of path ss,
      ge_InputHash = None, ge_OutputHash = None, ge_ExitCode = None,
      ge_IsTopLevel = Some (flag = 1), ge_PathIsAmbiguous = False, ge_RequestHash = None\<rparr>"
proof -
  have ss: "collected um us (ec_argv ctx) = ss" by (rule collected_argv [OF assms(9-11)])
  have nul: "\<forall>t\<in>set ss. 0 \<notin> set t"
    using user_argv_at [OF assms(9), of 0 MAX_ARGS] assms(10) user_argv_no_nul [OF assms(5)]
    by (metis drop0 le0 take_all)
  obtain e where ev: "events (handle_execve env ctx s) = events s @ [record_of e]"
    and e: "payload_ok e" "c_str (es_filename e) = path" "length ss = unat (eh_nargs (hdr e))"
      "take (unat (eh_args_size (hdr e))) (es_args e) = slots ss"
    and h: "eh_pid (hdr e) = cur_tgid env" "eh_kind (hdr e) = KIND_EXEC" "eh_ts_ns (hdr e) = ktime env"
      "eh_has_exit_code (hdr e) = 0" "eh_is_toplevel (hdr e) = flag"
    using execve_record [OF assms(1-6), unfolded ss, OF assms(12)] assms(8) by auto
  have "read_record cfg boot (record_of e) = Some (event_of boot (hdr e) (command_of path ss))"
    using read_record_of [OF e(1,4,3) nul _ _ _ assms(14)] e(2) h(1,2) assms(7,13) by simp
  then show ?thesis using ev by (intro exI [of _ "record_of e"]) (simp add: event_of_def h)
qed

definition ex_cfg :: Config_proc where
  "ex_cfg = \<lparr>PIDFilter = 100, CommandFilter = '''', DeferRootPID = False\<rparr>"

theorem observed_exec_witness:
  "\<exists>r. events (handle_execve ex_env ex_ctx
      (ex_start\<lparr>tracked_pids := [(101, \<lparr>is_shell = 0, is_toplevel = 1\<rparr>)]\<rparr>)) = [r] \<and>
    read_record ex_cfg 1000 r = Some \<lparr>ge_Timestamp = time_Unix 1009,
      ge_ActionType = ProcessExec, ge_Target = ''/bin/ls -l'',
      ge_InputHash = None, ge_OutputHash = None, ge_ExitCode = None,
      ge_IsTopLevel = Some True, ge_PathIsAmbiguous = False, ge_RequestHash = None\<rparr>"
proof -
  let ?s = "ex_start\<lparr>tracked_pids := [(101, \<lparr>is_shell = 0, is_toplevel = 1\<rparr>)]\<rparr>"
  let ?ss = "[bytes_of ''ls'', bytes_of ''-l'']"
  have 1: "array_lookup_elem (heap ?s (cpu ex_env)) 0 = Some zero_scratch"
    by (simp add: ex_start_def)
  have 2: "exec_flag ex_env ?s = Some 1"
    by (simp add: exec_flag_def ex_start_def get_use_pid_filter_def map_lookup_elem_def ex_env_def)
  have 3: "region_str ex_mem (ec_filename ex_ctx) = Some (bytes_of ''/bin/ls'')" by code_simp
  have 4: "argv_at (region_read ex_mem) (region_str ex_mem) (ec_argv ex_ctx) ?ss"
    using ex_argv by (simp add: ex_ctx_def)
  have 5: "read_user_ok ex_env (region_read ex_mem)" "read_user_str_ok ex_env (region_str ex_mem)"
    by (simp_all add: ex_env_def region_read_ok region_str_ok)
  have 6: "events ?s = []" "cur_tgid ex_env = 101" "ktime ex_env = 9" "rb_room ex_env n" for n
    by (simp_all add: ex_start_def ex_env_def)
  have 7: "command_of (bytes_of ''/bin/ls'') ?ss = ''/bin/ls -l''" by (simp add: command_of_def)
  have 8: "bytes_of ''/bin/ls'' \<noteq> []" "length (bytes_of ''/bin/ls'') < FILENAME_LEN"
    "length ?ss \<le> MAX_ARGS" "length (slots ?ss) < MAX_ARGS_BYTES"
    by (simp_all add: bytes_of_def buf_defs)
  have 9: "\<not> (0 <s PIDFilter ex_cfg \<and> cur_tgid ex_env = PIDFilter ex_cfg)" "CommandFilter ex_cfg = ''''"
    by (simp_all add: ex_cfg_def 6)
  show ?thesis
    using observed_exec [OF 1 zero_scratch_ok 2 5 3 8(1,2) 4 8(3,4) 6(4) 9, of 1000]
    by (simp add: 6 7)
qed

text \<open>
  C34. The exit of a process whose exec was recorded reaches the consumer as one \<open>ProcessExit\<close>
  event with the same target and the argument of \<open>exit_group\<close> as its exit code, all 32 bits of
  it: the code is not reduced to the status (its low 8 bits) that a parent can observe.
\<close>

theorem observed_exit:
  assumes "get_use_pid_filter s \<noteq> 0" "map_lookup_elem (execs s) (cur_tgid genv) = Some c" "payload_ok c"
    and "take (unat (eh_args_size (hdr c))) (es_args c) = slots ss"
    and "length ss = unat (eh_nargs (hdr c))" "list_all (\<lambda>t. 0 \<notin> set t) ss"
    and "c_str (es_filename c) = path" "path \<noteq> []"
    and "cur_tgid env = cur_tgid genv" "cur_tid env = cur_tgid genv"
    and "heap s (cpu env) = [e0]" "\<And>n. rb_room env n"
    and "\<not> (0 <s PIDFilter cfg \<and> eh_pid (hdr c) = PIDFilter cfg)" "CommandFilter cfg = ''''"
  shows "\<exists>r. events (proc_run [ExitGroup genv gctx, Exit env xctx] s) = events s @ [r] \<and>
    read_record cfg boot r = Some \<lparr>ge_Timestamp = time_Unix (ktime env + boot),
      ge_ActionType = ProcessExit, ge_Target = command_of path ss,
      ge_InputHash = None, ge_OutputHash = None, ge_ExitCode = Some (ucast (gc_error_code gctx)),
      ge_IsTopLevel = Some (eh_is_toplevel (hdr c) = 1), ge_PathIsAmbiguous = False,
      ge_RequestHash = None\<rparr>"
proof -
  obtain x where ev: "events (proc_run [ExitGroup genv gctx, Exit env xctx] s) = events s @ [record_of x]"
    and h: "hdr x = (hdr c)\<lparr>eh_kind := KIND_EXIT, eh_ts_ns := ktime env,
      eh_exit_code := ucast (gc_error_code gctx), eh_has_exit_code := 1\<rparr>"
    and b: "es_filename x = es_filename c" "es_args x = es_args c"
    using exit_repeats_exec_record [OF assms(1-3,9-12)] by blast
  have pay: "payload_ok x" using assms(3) by (simp add: h b payload_ok_def scratch_ok_def)
  have "read_record cfg boot (record_of x) = Some (event_of boot (hdr x) (command_of (c_str (es_filename x)) ss))"
    by (rule read_record_of [OF pay]) (use assms(4-8,13,14) in \<open>simp_all add: h b list_all_iff\<close>)
  then show ?thesis using ev assms(7)
    by (intro exI [of _ "record_of x"]) (simp add: event_of_def h b KIND_EXEC_def KIND_EXIT_def)
qed

lemma ex_cached_slots:
  "take (unat (eh_args_size (hdr ex_cached))) (es_args ex_cached) = slots [bytes_of ''ls'', bytes_of ''-l'']"
  "unat (eh_nargs (hdr ex_cached)) = 2" "c_str (es_filename ex_cached) = bytes_of ''/bin/ls''"
proof -
  have ok: "read_user_ok ex_env (region_read ex_mem)" "read_user_str_ok ex_env (region_str ex_mem)"
    by (simp_all add: ex_env_def region_read_ok region_str_ok)
  have a: "ec_argv ex_ctx = 16" by (simp add: ex_ctx_def)
  have f: "region_str ex_mem (ec_filename ex_ctx) = Some (bytes_of ''/bin/ls'')" by code_simp
  note v = exec_value_payload [OF ok zero_scratch_ok, of ex_ctx 1, unfolded a ex_collected]
  show "take (unat (eh_args_size (hdr ex_cached))) (es_args ex_cached) = slots [bytes_of ''ls'', bytes_of ''-l'']"
    "unat (eh_nargs (hdr ex_cached)) = 2"
    using v(2,3) by (simp_all add: ex_cached_def)
  show "c_str (es_filename ex_cached) = bytes_of ''/bin/ls''"
    using begin_exec_filename(3) [OF ok(2) zero_scratch_ok, of ex_ctx] f
    by (simp add: ex_cached_def FILENAME_LEN_def bytes_of_def)
qed

text \<open>The witness is a process that calls \<open>exit(-1)\<close>: the event carries \<open>-1\<close>, its parent sees 255.\<close>

theorem observed_exit_witness:
  "\<exists>r. events (proc_run [ExitGroup (region_env (task 101 101) 20 []) (exit_group 0xFFFFFFFFFFFFFFFF),
        Exit (region_env (task 101 101) 21 []) (exiting 101)] ex_running) = [r] \<and>
    map_option ge_ExitCode (read_record ex_cfg 1000 r) = Some (Some (-1)) \<and>
    map_option ge_Target (read_record ex_cfg 1000 r) = Some ''/bin/ls -l''"
proof -
  let ?g = "region_env (task 101 101) 20 []" and ?x = "region_env (task 101 101) 21 []"
  have 1: "get_use_pid_filter ex_running \<noteq> 0" "events ex_running = []"
    "map_lookup_elem (execs ex_running) (cur_tgid ?g) = Some ex_cached" "heap ex_running (cpu ?x) = [zero_scratch]"
    by (simp_all add: ex_running_def ex_start_def get_use_pid_filter_def map_lookup_elem_def)
  have 2: "length [bytes_of ''ls'', bytes_of ''-l''] = unat (eh_nargs (hdr ex_cached))"
    using ex_cached_slots(2) by simp
  have 3: "list_all (\<lambda>t. 0 \<notin> set t) [bytes_of ''ls'', bytes_of ''-l'']" by code_simp
  have 4: "bytes_of ''/bin/ls'' \<noteq> []" by (simp add: bytes_of_def)
  have 5: "eh_pid (hdr ex_cached) = 101" by (simp add: ex_cached_def ex_env_def)
  have 6: "\<not> (0 <s PIDFilter ex_cfg \<and> eh_pid (hdr ex_cached) = PIDFilter ex_cfg)" "CommandFilter ex_cfg = ''''"
    by (simp_all add: 5 ex_cfg_def)
  have 7: "command_of (bytes_of ''/bin/ls'') [bytes_of ''ls'', bytes_of ''-l''] = ''/bin/ls -l''"
    by (simp add: command_of_def)
  have 8: "cur_tgid ?x = cur_tgid ?g" "cur_tid ?x = cur_tgid ?g" "rb_room ?x n" for n by simp_all
  show ?thesis
    using observed_exit [OF 1(1,3) ex_cached_ok ex_cached_slots(1) 2 3 ex_cached_slots(3) 4 8(1,2) 1(4) 8(3) 6,
        of "(exit_group 0xFFFFFFFFFFFFFFFF)" "(exiting 101)" 1000]
    by (auto simp: 1(2) 7)
qed

subsection \<open>Seeding\<close>

lemma New_seeds: "0 <s PIDFilter cfg \<Longrightarrow> seeded (PIDFilter cfg) (New_maps cfg)"
  by (auto simp: seeded_def New_maps_def loaded_maps_def seed_root_def Let_def
      get_use_pid_filter_def get_root_pid_def map_update_elem_def tracked_pids_max_def)

lemma sless_100 [simp]: "(0 :: s32) <s 100"
  by code_simp

lemma ex_New_maps: "New_maps ex_cfg = ex_start"
  by (simp add: New_maps_def ex_cfg_def loaded_maps_def seed_root_def ex_start_def
      map_update_elem_def tracked_pids_max_def)

text \<open>The state of a deferred probe: filtering, nothing tracked, nothing cached, nothing sent.\<close>

definition silent :: "proc_state \<Rightarrow> bool" where
  "silent s \<longleftrightarrow> get_use_pid_filter s \<noteq> 0 \<and> tracked_pids s = [] \<and> execs s = [] \<and> events s = [] \<and>
     length (root_pid_map s) = 1 \<and> length (config_map s) = 1 \<and> (\<forall>c. list_all scratch_ok (heap s c))"

lemma silent_step:
  assumes "silent s" "call_ok c"
  shows "silent (proc_step c s)"
proof (cases c)
  case (Execve env ctx)
  obtain um us where ok: "read_user_str_ok env us" using assms(2) by (auto simp: call_ok_def Execve)
  show ?thesis
  proof (cases "array_lookup_elem (heap s (cpu env)) 0")
    case None
    then show ?thesis using assms(1) Execve by (simp add: handle_execve_no_slot)
  next
    case (Some e)
    have heaps: "\<forall>k. list_all scratch_ok (heap s k)" using assms(1) by (simp add: silent_def)
    then have "scratch_ok e" using Some by (auto simp: list_all_iff dest!: array_lookup_elemD)
    then have "scratch_ok (begin_exec env ctx e)"
      using begin_exec_filename(1) [OF ok] by (simp add: scratch_ok_def)
    moreover have "exec_flag env s = None"
      using assms(1) by (simp add: exec_flag_def silent_def map_lookup_elem_def)
    ultimately show ?thesis
      using assms(1) put_heap_ok [OF heaps] Execve handle_execve_dropped [OF Some]
      by (simp add: silent_def get_use_pid_filter_def)
  qed
qed (use assms in \<open>auto simp: silent_def handle_fork_def handle_exit_group_def handle_exit_def
    map_lookup_elem_def Let_def\<close>)

text \<open>
  A probe created with \<open>DeferRootPID\<close> sends nothing at all until \<open>SetRootPID\<close> names the
  root, and from then on only records of that root's process tree: there is no window in which
  unrelated host activity is recorded.
\<close>

lemma deferred_probe_has_no_window:
  assumes "DeferRootPID cfg" "\<not> 0 <s PIDFilter cfg" "pid \<noteq> 0"
    and "\<forall>c\<in>set before. call_ok c" "\<forall>c\<in>set calls. call_ok c"
  shows "events (proc_run before (New_maps cfg)) = [] \<and>
    (\<forall>r\<in>set (events (proc_run calls (snd (SetRootPID pid (cfg, proc_run before (New_maps cfg)))))).
       in_tree (set calls) pid (record_pid r))"
proof -
  have "silent (New_maps cfg)"
    using assms(1,2) by (simp add: silent_def New_maps_def loaded_maps_def Let_def get_use_pid_filter_def)
  then have s: "silent (proc_run before (New_maps cfg))"
    unfolding proc_run_def
    by (intro fold_invariant [where Q = call_ok and P = silent]) (use assms(4) in \<open>auto intro: silent_step\<close>)
  let ?s = "snd (SetRootPID pid (cfg, proc_run before (New_maps cfg)))"
  obtain f r where "config_map (proc_run before (New_maps cfg)) = [f]"
    "root_pid_map (proc_run before (New_maps cfg)) = [r]"
    using s unfolding silent_def by (metis One_nat_def length_0_conv length_Suc_conv)
  then have "seeded pid ?s"
    using s assms(3)
    by (simp add: seeded_def silent_def SetRootPID_def seed_root_def Let_def get_use_pid_filter_def
        get_root_pid_def map_update_elem_def tracked_pids_max_def)
  then have "in_tree (set calls) pid (record_pid r)" if "r \<in> set (events (proc_run calls ?s))" for r
    using records_from_process_tree [OF _ assms(5) that] by simp
  then show ?thesis using s by (simp add: silent_def)
qed

definition ex_deferred :: Config_proc where
  "ex_deferred = \<lparr>PIDFilter = 0, CommandFilter = '''', DeferRootPID = True\<rparr>"

lemma deferred_probe_has_no_window_witness:
  "events (proc_run ex_calls (New_maps ex_deferred)) = [] \<and>
   in_tree (set ex_calls) 100 (record_pid (hd (events (proc_run ex_calls
     (snd (SetRootPID 100 (ex_deferred, proc_run [] (New_maps ex_deferred))))))))"
proof -
  have d: "DeferRootPID ex_deferred" "\<not> 0 <s PIDFilter ex_deferred" "(100 :: u32) \<noteq> 0"
    by (simp_all add: ex_deferred_def)
  have s: "snd (SetRootPID 100 (ex_deferred, proc_run [] (New_maps ex_deferred))) = ex_start"
    by (simp add: SetRootPID_def proc_run_def New_maps_def ex_deferred_def loaded_maps_def
        seed_root_def ex_start_def map_update_elem_def tracked_pids_max_def Let_def)
  show ?thesis
    using deferred_probe_has_no_window [OF d ex_calls_ok ex_calls_ok]
      deferred_probe_has_no_window [OF d _ ex_calls_ok, of "[]"]
    unfolding s by (simp add: ex_events)
qed

subsection \<open>The read loop\<close>

lemma readLoop_append:
  "readLoop cfg boot (xs @ ys) st = readLoop cfg boot ys (readLoop cfg boot xs st)"
  by (induction cfg boot xs st rule: readLoop.induct) (auto split: option.split)

text \<open>
  The read loop accounts for every record: what it delivers is, in order, the events of the
  records that decode and met a channel with room, and the dropped counter grows by the number of
  the others.
\<close>

lemma readLoop_accounts:
  "readLoop cfg boot rs (sent, dropped) =
     (sent @ List.map_filter (\<lambda>(raw, has_room). if has_room then read_record cfg boot raw else None) rs,
      dropped + of_nat (length (filter (\<lambda>(raw, has_room). \<not> has_room \<and> read_record cfg boot raw \<noteq> None) rs)))"
  by (induction cfg boot rs "(sent, dropped)" arbitrary: sent dropped rule: readLoop.induct)
    (auto simp: map_filter_simps split: option.split)

lemma readLoop_sent:
  "ev \<in> set (fst (readLoop cfg boot rs ([], d))) \<Longrightarrow> \<exists>raw. (raw, True) \<in> set rs \<and> read_record cfg boot raw = Some ev"
  unfolding readLoop_accounts by (force simp: List.map_filter_def split: if_splits)



section \<open>The probe contract\<close>

text \<open>
  The observer is a probe: every event it delivers passes the validation of the ground truth. A run is
  the configuration, the boot time and the records read, each with whether the channel had room.
\<close>

lemma process_actions_valid: "ProcessExec \<in> set validActionTypes" "ProcessExit \<in> set validActionTypes"
  by (simp_all add: validActionTypes_def)

lemma proc_reports_valid: "read_record cfg boot raw = Some ev \<Longrightarrow> Validate_event ev = None"
  unfolding read_record_def Let_def Validate_event_None
  using time_Unix_nonzero process_actions_valid by (simp split: if_splits) auto

lemma readLoop_valid_events:
  "list_all (\<lambda>ev. Validate_event ev = None) (fst st) \<Longrightarrow>
   list_all (\<lambda>ev. Validate_event ev = None) (fst (readLoop cfg boot rs st))"
  by (induction cfg boot rs st rule: readLoop.induct) (auto simp: proc_reports_valid split: option.split)

definition proc_delivers :: "Config_proc \<times> s64 \<times> (bytes \<times> bool) list \<Rightarrow> GroundTruth" where
  "proc_delivers r = fst (readLoop (fst r) (fst (snd r)) (snd (snd r)) ([], 0))"

interpretation proc_probe: ground_truth_probe "\<lambda>_. True" proc_delivers
  by unfold_locales (simp add: proc_delivers_def readLoop_valid_events)

end
