(* ===== verification/Net_Bpf.thy ===== *)
theory Net_Bpf
  imports Bpf
begin

text \<open>
  The kernel side of the network probe, \<open>pkg/probe/net/net.bpf.c\<close>: the programs on
  \<open>sys_enter_connect\<close>, \<open>sys_enter_write\<close>, \<open>sys_enter_sendto\<close>, \<open>sys_enter_sendmsg\<close>,
  \<open>sys_enter_close\<close>, \<open>task_newtask\<close> and \<open>sched_process_exit\<close>. A connection is a key
  \<open>(tgid, fd)\<close> of the map \<open>conns\<close>; the first write on it is captured once.
\<close>

section \<open>Data\<close>

definition AF_INET :: u16 where "AF_INET = 2"
definition AF_INET6 :: u16 where "AF_INET6 = 10"
definition HELLO_CAP_LEN :: nat where "HELLO_CAP_LEN = 1024"

definition NET_CONNECT :: u8 where "NET_CONNECT = 1"
definition NET_HELLO :: u8 where "NET_HELLO = 2"
definition NET_BIND :: u8 where "NET_BIND = 3"
definition NET_CLOSE :: u8 where "NET_CLOSE = 4"

record net_event_hdr =
  nh_type :: u8
  nh_family :: u8
  nh_port :: u16
  nh_tgid :: u32
  nh_tid :: u32
  nh_fd :: u32
  nh_ts_ns :: u64
  nh_addr :: bytes
  nh_seq :: u64
  nh_payload_len :: u32

record net_event =
  ne_hdr :: net_event_hdr
  ne_payload :: bytes

record conn_key =
  ck_tgid :: u32
  ck_fd :: u32

record conn_state =
  cs_family :: u8
  cs_addr :: bytes
  cs_port :: u16
  cs_hello_captured :: u8
  cs_open_ts_ns :: u64

record sys_enter_connect_ctx =
  cc_fd :: u64
  cc_uservaddr :: u64
  cc_addrlen :: u64

record sys_enter_write_ctx =
  wc_fd :: u64
  wc_buf :: u64
  wc_count :: u64

record sys_enter_sendto_ctx =
  sc_fd :: u64
  sc_buff :: u64
  sc_len :: u64
  sc_flags :: u64
  sc_addr :: u64
  sc_addr_len :: u64

record sys_enter_sendmsg_ctx =
  mc_fd :: u64
  mc_msg :: u64
  mc_flags :: u64

record sys_enter_close_ctx =
  lc_fd :: u64

record msghdr_bpf =
  mh_msg_name :: u64
  mh_msg_namelen :: u32
  mh_msg_iov :: u64
  mh_msg_iovlen :: u64
  mh_msg_control :: u64
  mh_msg_controllen :: u64
  mh_msg_flags :: u32

record iovec_bpf =
  iov_base :: u64
  iov_len :: u64

subsection \<open>Layout\<close>

text \<open>The header is 56 bytes: \<open>payload_len\<close> is followed by four bytes of padding.\<close>

definition sizeof_net_event_hdr :: nat where "sizeof_net_event_hdr = 56"

definition net_event_hdr_bytes :: "net_event_hdr \<Rightarrow> bytes" where
  "net_event_hdr_bytes h =
     [nh_type h, nh_family h] @ le_enc 2 (unat (nh_port h)) @ le_enc 4 (unat (nh_tgid h)) @
     le_enc 4 (unat (nh_tid h)) @ le_enc 4 (unat (nh_fd h)) @ le_enc 8 (unat (nh_ts_ns h)) @
     nh_addr h @ le_enc 8 (unat (nh_seq h)) @ le_enc 4 (unat (nh_payload_len h)) @ replicate 4 0"

definition net_event_bytes :: "net_event \<Rightarrow> bytes" where
  "net_event_bytes e = net_event_hdr_bytes (ne_hdr e) @ ne_payload e"

text \<open>Reading the two user-space structures out of the bytes a \<open>bpf_probe_read_user\<close> filled in.\<close>

definition get_u64 :: "nat \<Rightarrow> bytes \<Rightarrow> u64" where
  "get_u64 off b = of_nat (le_dec (seg off 8 b))"

definition get_u32 :: "nat \<Rightarrow> bytes \<Rightarrow> u32" where
  "get_u32 off b = of_nat (le_dec (seg off 4 b))"

definition get_u16 :: "nat \<Rightarrow> bytes \<Rightarrow> u16" where
  "get_u16 off b = of_nat (le_dec (seg off 2 b))"

definition sizeof_msghdr_bpf :: nat where "sizeof_msghdr_bpf = 56"
definition sizeof_iovec_bpf :: nat where "sizeof_iovec_bpf = 16"

definition msghdr_of_bytes :: "bytes \<Rightarrow> msghdr_bpf" where
  "msghdr_of_bytes b =
     \<lparr>mh_msg_name = get_u64 0 b, mh_msg_namelen = get_u32 8 b, mh_msg_iov = get_u64 16 b,
      mh_msg_iovlen = get_u64 24 b, mh_msg_control = get_u64 32 b,
      mh_msg_controllen = get_u64 40 b, mh_msg_flags = get_u32 48 b\<rparr>"

definition iovec_of_bytes :: "bytes \<Rightarrow> iovec_bpf" where
  "iovec_of_bytes b = \<lparr>iov_base = get_u64 0 b, iov_len = get_u64 8 b\<rparr>"

subsection \<open>Maps\<close>

definition conns_max :: nat where "conns_max = 8192"
definition net_tracked_pids_max :: nat where "net_tracked_pids_max = 4096"

record net_state =
  conns :: "(conn_key, conn_state) bpf_map"
  net_tracked_pids :: "(u32, u8) bpf_map"
  net_events :: "bytes list"
  net_heap :: "nat \<Rightarrow> net_event list"

definition is_tracked :: "net_state \<Rightarrow> u32 \<Rightarrow> bool" where
  "is_tracked s tgid \<longleftrightarrow> map_lookup_elem (net_tracked_pids s) tgid \<noteq> None"

definition reserve_event :: "bpf_env \<Rightarrow> net_state \<Rightarrow> net_event option" where
  "reserve_event env s = array_lookup_elem (net_heap s (cpu env)) 0"

definition put_event :: "bpf_env \<Rightarrow> net_event \<Rightarrow> net_state \<Rightarrow> net_state" where
  "put_event env e s = s\<lparr>net_heap := (net_heap s)(cpu env := (net_heap s (cpu env))[0 := e])\<rparr>"

definition fill_common :: "bpf_env \<Rightarrow> u8 \<Rightarrow> u32 \<Rightarrow> u32 \<Rightarrow> net_event_hdr \<Rightarrow> net_event_hdr" where
  "fill_common env ty tgid fd h =
     h\<lparr>nh_type := ty, nh_tgid := tgid, nh_tid := cur_tid env, nh_fd := fd,
       nh_ts_ns := ktime env, nh_seq := 0, nh_payload_len := 0\<rparr>"

text \<open>The three assignments that copy the peer of a connection into a header.\<close>

definition fill_peer :: "conn_state \<Rightarrow> net_event_hdr \<Rightarrow> net_event_hdr" where
  "fill_peer cs h = h\<lparr>nh_family := cs_family cs, nh_port := cs_port cs, nh_addr := cs_addr cs\<rparr>"

definition output_net :: "bpf_env \<Rightarrow> net_event \<Rightarrow> nat \<Rightarrow> net_state \<Rightarrow> net_state" where
  "output_net env e sz s =
     s\<lparr>net_events := ringbuf_output env (take sz (net_event_bytes e)) (net_events s)\<rparr>"

section \<open>The programs\<close>

text \<open>The first half of \<open>trace_connect\<close>: the two reads of the socket address and the connection
  state built from it; \<open>None\<close> where the program returns early. The port is in network order.\<close>

definition read_conn_state :: "bpf_env \<Rightarrow> u64 \<Rightarrow> conn_state option" where
  "read_conn_state env uservaddr =
     (let f = read_user env uservaddr (replicate 2 0);
          family = get_u16 0 (snd f)
      in if fst f \<noteq> 0 then None
         else if family \<noteq> AF_INET \<and> family \<noteq> AF_INET6 then None
         else
           let sa0 = replicate 28 0 :: bytes;
               n = (if family = AF_INET then 16 else 28);
               r = read_user env uservaddr (take n sa0);
               sa = put_at 0 (snd r) sa0
           in if fst r \<noteq> 0 then None
              else
                let port_be = get_u16 2 sa;
                    port = push_bit 8 (port_be AND 0xff) OR drop_bit 8 port_be;
                    addr0 = replicate 16 0 :: bytes
                in Some \<lparr>cs_family = ucast family,
                         cs_addr = (if family = AF_INET then put_at 0 (seg 4 4 sa) addr0
                                    else put_at 0 (seg 8 16 sa) addr0),
                         cs_port = port, cs_hello_captured = 0, cs_open_ts_ns = ktime env\<rparr>)"

definition trace_connect :: "bpf_env \<Rightarrow> sys_enter_connect_ctx \<Rightarrow> net_state \<Rightarrow> net_state" where
  "trace_connect env ctx s =
     (let tgid = cur_tgid env
      in if \<not> is_tracked s tgid then s
         else case read_conn_state env (cc_uservaddr ctx) of
           None \<Rightarrow> s
         | Some state \<Rightarrow>
             let key = \<lparr>ck_tgid = tgid, ck_fd = ucast (cc_fd ctx)\<rparr>;
                 s1 = s\<lparr>conns := map_update_elem conns_max key state (conns s)\<rparr>
             in case reserve_event env s1 of
                  None \<Rightarrow> s1
                | Some e0 \<Rightarrow>
                    let e = e0\<lparr>ne_hdr := fill_peer state
                                (fill_common env NET_CONNECT tgid (ck_fd key) (ne_hdr e0))\<rparr>
                    in output_net env e sizeof_net_event_hdr (put_event env e s1))"

definition capture_hello :: "bpf_env \<Rightarrow> u32 \<Rightarrow> u32 \<Rightarrow> u64 \<Rightarrow> u32 \<Rightarrow> net_state \<Rightarrow> net_state" where
  "capture_hello env tgid fd buf len0 s =
     (let key = \<lparr>ck_tgid = tgid, ck_fd = fd\<rparr>
      in case map_lookup_elem (conns s) key of
           None \<Rightarrow> s
         | Some cs \<Rightarrow>
             if cs_hello_captured cs \<noteq> 0 then s
             else
               let len = (if len0 > of_nat HELLO_CAP_LEN then of_nat HELLO_CAP_LEN else len0)
               in case reserve_event env s of
                    None \<Rightarrow> s
                  | Some e0 \<Rightarrow>
                      let r = read_user env buf (take (unat len) (ne_payload e0));
                          e1 = (if len > 0 then e0\<lparr>ne_payload := put_at 0 (snd r) (ne_payload e0)\<rparr> else e0)
                      in if len > 0 \<and> fst r \<noteq> 0 then put_event env e1 s
                         else
                           let h = fill_peer cs (fill_common env NET_HELLO tgid fd (ne_hdr e1));
                               e = e1\<lparr>ne_hdr := h\<lparr>nh_payload_len := len\<rparr>\<rparr>;
                               s1 = output_net env e (sizeof_net_event_hdr + unat len) (put_event env e s)
                           in s1\<lparr>conns := map_store key (cs\<lparr>cs_hello_captured := 1\<rparr>) (conns s1)\<rparr>)"

definition trace_write :: "bpf_env \<Rightarrow> sys_enter_write_ctx \<Rightarrow> net_state \<Rightarrow> net_state" where
  "trace_write env ctx s =
     (let tgid = cur_tgid env
      in if \<not> is_tracked s tgid then s
         else capture_hello env tgid (ucast (wc_fd ctx)) (wc_buf ctx) (ucast (wc_count ctx)) s)"

definition trace_sendto :: "bpf_env \<Rightarrow> sys_enter_sendto_ctx \<Rightarrow> net_state \<Rightarrow> net_state" where
  "trace_sendto env ctx s =
     (let tgid = cur_tgid env
      in if \<not> is_tracked s tgid then s
         else capture_hello env tgid (ucast (sc_fd ctx)) (sc_buff ctx) (ucast (sc_len ctx)) s)"

definition trace_sendmsg :: "bpf_env \<Rightarrow> sys_enter_sendmsg_ctx \<Rightarrow> net_state \<Rightarrow> net_state" where
  "trace_sendmsg env ctx s =
     (let tgid = cur_tgid env
      in if \<not> is_tracked s tgid then s
         else
           let r = read_user env (mc_msg ctx) (replicate sizeof_msghdr_bpf 0);
               mh = msghdr_of_bytes (snd r)
           in if fst r \<noteq> 0 then s
              else if mh_msg_iovlen mh = 0 then s
              else
                let q = read_user env (mh_msg_iov mh) (replicate sizeof_iovec_bpf 0);
                    iov = iovec_of_bytes (snd q)
                in if fst q \<noteq> 0 then s
                   else capture_hello env tgid (ucast (mc_fd ctx)) (iov_base iov) (ucast (iov_len iov)) s)"

definition trace_close :: "bpf_env \<Rightarrow> sys_enter_close_ctx \<Rightarrow> net_state \<Rightarrow> net_state" where
  "trace_close env ctx s =
     (let tgid = cur_tgid env
      in if \<not> is_tracked s tgid then s
         else
           let key = \<lparr>ck_tgid = tgid, ck_fd = ucast (lc_fd ctx)\<rparr>
           in case map_lookup_elem (conns s) key of
                None \<Rightarrow> s
              | Some cs \<Rightarrow>
                  let s1 = (case reserve_event env s of
                              None \<Rightarrow> s
                            | Some e0 \<Rightarrow>
                                let e = e0\<lparr>ne_hdr := fill_peer cs
                                            (fill_common env NET_CLOSE tgid (ck_fd key) (ne_hdr e0))\<rparr>
                                in output_net env e sizeof_net_event_hdr (put_event env e s))
                  in s1\<lparr>conns := map_delete_elem key (conns s1)\<rparr>)"

definition net_handle_fork :: "bpf_env \<Rightarrow> task_newtask_ctx \<Rightarrow> net_state \<Rightarrow> net_state" where
  "net_handle_fork env ctx s =
     (let parent_pid = cur_tgid env; child_pid = tc_pid ctx
      in case map_lookup_elem (net_tracked_pids s) parent_pid of
           None \<Rightarrow> s
         | Some _ \<Rightarrow> s\<lparr>net_tracked_pids :=
             map_update_elem net_tracked_pids_max child_pid 1 (net_tracked_pids s)\<rparr>)"

definition net_handle_exit :: "bpf_env \<Rightarrow> sched_process_exit_ctx \<Rightarrow> net_state \<Rightarrow> net_state" where
  "net_handle_exit env ctx s =
     (let tgid = cur_tgid env; tid = cur_tid env
      in if tgid \<noteq> tid then s
         else s\<lparr>net_tracked_pids := map_delete_elem tgid (net_tracked_pids s)\<rparr>)"

section \<open>Runs\<close>

datatype net_call =
    NConnect bpf_env sys_enter_connect_ctx
  | NWrite bpf_env sys_enter_write_ctx
  | NSendto bpf_env sys_enter_sendto_ctx
  | NSendmsg bpf_env sys_enter_sendmsg_ctx
  | NClose bpf_env sys_enter_close_ctx
  | NFork bpf_env task_newtask_ctx
  | NExit bpf_env sched_process_exit_ctx

fun net_call_env :: "net_call \<Rightarrow> bpf_env" where
  "net_call_env (NConnect env _) = env"
| "net_call_env (NWrite env _) = env"
| "net_call_env (NSendto env _) = env"
| "net_call_env (NSendmsg env _) = env"
| "net_call_env (NClose env _) = env"
| "net_call_env (NFork env _) = env"
| "net_call_env (NExit env _) = env"

fun net_step :: "net_call \<Rightarrow> net_state \<Rightarrow> net_state" where
  "net_step (NConnect env ctx) s = trace_connect env ctx s"
| "net_step (NWrite env ctx) s = trace_write env ctx s"
| "net_step (NSendto env ctx) s = trace_sendto env ctx s"
| "net_step (NSendmsg env ctx) s = trace_sendmsg env ctx s"
| "net_step (NClose env ctx) s = trace_close env ctx s"
| "net_step (NFork env ctx) s = net_handle_fork env ctx s"
| "net_step (NExit env ctx) s = net_handle_exit env ctx s"

definition net_run :: "net_call list \<Rightarrow> net_state \<Rightarrow> net_state" where
  "net_run calls s = fold net_step calls s"

end
