(* ===== verification/Net_Safety.thy ===== *)
theory Net_Safety
  imports Net_Bpf
begin

text \<open>
  What the kernel side of the network probe guarantees: the records of one connection follow a
  protocol (connect, at most one capture, close, always with the same peer), every record is well
  formed and belongs to a tracked process, the first write is captured exactly and once, and what
  happens when the first write is empty.
\<close>

section \<open>Records and their decoding\<close>

definition net_hdr_of_bytes :: "bytes \<Rightarrow> net_event_hdr" where
  "net_hdr_of_bytes b =
     \<lparr>nh_type = b ! 0, nh_family = b ! 1, nh_port = get_u16 2 b, nh_tgid = get_u32 4 b,
      nh_tid = get_u32 8 b, nh_fd = get_u32 12 b, nh_ts_ns = get_u64 16 b, nh_addr = seg 24 16 b,
      nh_seq = get_u64 40 b, nh_payload_len = get_u32 48 b\<rparr>"

definition hdr_ok :: "net_event_hdr \<Rightarrow> bool" where
  "hdr_ok h \<longleftrightarrow> length (nh_addr h) = 16"

lemma net_hdr_of_bytes_inverse:
  "hdr_ok h \<Longrightarrow> net_hdr_of_bytes (net_event_hdr_bytes h @ p) = h"
  by (simp add: net_hdr_of_bytes_def net_event_hdr_bytes_def hdr_ok_def get_u16_def get_u32_def
      get_u64_def seg_def nth_append del: le_enc.simps)

lemma length_net_event_hdr_bytes [simp]:
  "hdr_ok h \<Longrightarrow> length (net_event_hdr_bytes h) = sizeof_net_event_hdr"
  by (simp add: net_event_hdr_bytes_def hdr_ok_def sizeof_net_event_hdr_def)

definition event_ok :: "net_event \<Rightarrow> bool" where
  "event_ok e \<longleftrightarrow> hdr_ok (ne_hdr e) \<and> length (ne_payload e) = HELLO_CAP_LEN"

definition conn_ok :: "conn_state \<Rightarrow> bool" where
  "conn_ok cs \<longleftrightarrow> length (cs_addr cs) = 16 \<and> cs_family cs \<in> {2, 10}"

definition heap_ok :: "net_state \<Rightarrow> bool" where
  "heap_ok s \<longleftrightarrow> (\<forall>c. \<exists>e. net_heap s c = [e] \<and> event_ok e)"

lemma heap_okD: "heap_ok s \<Longrightarrow> \<exists>e. reserve_event env s = Some e \<and> event_ok e \<and> net_heap s (cpu env) = [e]"
  unfolding heap_ok_def reserve_event_def by (metis array_lookup_single)

lemma heap_ok_put: "heap_ok s \<Longrightarrow> event_ok e \<Longrightarrow> heap_ok (put_event env e s)"
  unfolding heap_ok_def put_event_def by (auto simp: fun_upd_def) (metis list_update_code(2))

lemma put_event_simps [simp]:
  "conns (put_event env e s) = conns s" "net_tracked_pids (put_event env e s) = net_tracked_pids s"
  "net_events (put_event env e s) = net_events s"
  by (simp_all add: put_event_def)

lemma output_net_simps [simp]:
  "conns (output_net env e n s) = conns s" "net_tracked_pids (output_net env e n s) = net_tracked_pids s"
  "net_heap (output_net env e n s) = net_heap s"
  by (simp_all add: output_net_def)

lemma output_net_header:
  "event_ok e \<Longrightarrow> net_events (output_net env e sizeof_net_event_hdr s) =
     ringbuf_output env (net_event_hdr_bytes (ne_hdr e)) (net_events s)"
  by (simp add: output_net_def net_event_bytes_def event_ok_def)

lemma output_net_payload:
  "event_ok e \<Longrightarrow> net_events (output_net env e (sizeof_net_event_hdr + n) s) =
     ringbuf_output env (net_event_hdr_bytes (ne_hdr e) @ take n (ne_payload e)) (net_events s)"
  by (simp add: output_net_def net_event_bytes_def event_ok_def)

section \<open>The effect of each program\<close>

definition hdr_key :: "net_event_hdr \<Rightarrow> conn_key" where
  "hdr_key h = \<lparr>ck_tgid = nh_tgid h, ck_fd = nh_fd h\<rparr>"

type_synonym peer = "u8 \<times> u16 \<times> bytes"

definition hdr_peer :: "net_event_hdr \<Rightarrow> peer" where
  "hdr_peer h = (nh_family h, nh_port h, nh_addr h)"

definition conn_peer :: "conn_state \<Rightarrow> peer" where
  "conn_peer cs = (cs_family cs, cs_port cs, cs_addr cs)"

text \<open>The header of a record about connection \<open>cs\<close>.\<close>

definition peer_hdr :: "bpf_env \<Rightarrow> u8 \<Rightarrow> u32 \<Rightarrow> conn_state \<Rightarrow> u32 \<Rightarrow> net_event_hdr" where
  "peer_hdr env ty fd cs len =
     \<lparr>nh_type = ty, nh_family = cs_family cs, nh_port = cs_port cs, nh_tgid = cur_tgid env,
      nh_tid = cur_tid env, nh_fd = fd, nh_ts_ns = ktime env, nh_addr = cs_addr cs,
      nh_seq = 0, nh_payload_len = len\<rparr>"

lemma fill_is_peer_hdr:
  "fill_peer cs (fill_common env ty (cur_tgid env) fd h) = peer_hdr env ty fd cs 0"
  "(fill_peer cs (fill_common env ty (cur_tgid env) fd h))\<lparr>nh_payload_len := len\<rparr> = peer_hdr env ty fd cs len"
  by (simp_all add: fill_peer_def fill_common_def peer_hdr_def)

lemma peer_hdr_simps [simp]:
  "nh_type (peer_hdr env ty fd cs len) = ty" "nh_payload_len (peer_hdr env ty fd cs len) = len"
  "hdr_key (peer_hdr env ty fd cs len) = \<lparr>ck_tgid = cur_tgid env, ck_fd = fd\<rparr>"
  "hdr_peer (peer_hdr env ty fd cs len) = conn_peer cs"
  "conn_ok cs \<Longrightarrow> hdr_ok (peer_hdr env ty fd cs len)" "nh_family (peer_hdr env ty fd cs len) = cs_family cs"
  by (simp_all add: peer_hdr_def hdr_key_def hdr_peer_def conn_peer_def hdr_ok_def conn_ok_def)

lemma read_conn_state_ok:
  assumes "read_user_ok env um" "read_conn_state env a = Some cs"
  shows "conn_ok cs" "cs_hello_captured cs = 0"
proof -
  have l: "length (put_at 0 (snd (read_user env a (replicate 16 0))) (replicate 28 0 :: bytes)) = 28"
    "length (put_at 0 (snd (read_user env a (replicate 28 0))) (replicate 28 0 :: bytes)) = 28"
    by (simp_all add: length_put_at read_user_length [OF assms(1)])
  show "conn_ok cs" "cs_hello_captured cs = 0"
    using assms(2) l
    by (auto simp: read_conn_state_def Let_def conn_ok_def length_put_at AF_INET_def AF_INET6_def split: if_splits)
qed

lemma trace_connect_skips:
  "\<not> is_tracked s (cur_tgid env) \<or> read_conn_state env (cc_uservaddr ctx) = None \<Longrightarrow> trace_connect env ctx s = s"
  by (auto simp: trace_connect_def Let_def)

lemma trace_connect_effect:
  assumes "is_tracked s (cur_tgid env)" "read_conn_state env (cc_uservaddr ctx) = Some cs"
    and "read_user_ok env um" "heap_ok s"
  defines "fd \<equiv> ucast (cc_fd ctx)"
  shows "conns (trace_connect env ctx s) =
      map_update_elem conns_max \<lparr>ck_tgid = cur_tgid env, ck_fd = fd\<rparr> cs (conns s)"
    "net_events (trace_connect env ctx s) =
      ringbuf_output env (net_event_hdr_bytes (peer_hdr env NET_CONNECT fd cs 0)) (net_events s)"
    "net_tracked_pids (trace_connect env ctx s) = net_tracked_pids s"
    "heap_ok (trace_connect env ctx s)"
proof -
  let ?key = "\<lparr>ck_tgid = cur_tgid env, ck_fd = fd\<rparr>"
  define s1 where "s1 = s\<lparr>conns := map_update_elem conns_max ?key cs (conns s)\<rparr>"
  have h1: "heap_ok s1" using assms(4) by (simp add: s1_def heap_ok_def)
  obtain e0 where e0: "reserve_event env s1 = Some e0" "event_ok e0" using heap_okD [OF h1] by blast
  define e where "e = e0\<lparr>ne_hdr := peer_hdr env NET_CONNECT fd cs 0\<rparr>"
  have ok: "event_ok e" using e0(2) read_conn_state_ok(1) [OF assms(3,2)] by (simp add: e_def event_ok_def)
  have "trace_connect env ctx s = output_net env e sizeof_net_event_hdr (put_event env e s1)"
    using assms(1,2) e0(1) unfolding s1_def e_def fd_def trace_connect_def Let_def
    by (simp only: not_True_eq_False if_False option.case conn_key.simps fill_is_peer_hdr(1))
  then show "conns (trace_connect env ctx s) = map_update_elem conns_max ?key cs (conns s)"
    "net_events (trace_connect env ctx s) =
      ringbuf_output env (net_event_hdr_bytes (peer_hdr env NET_CONNECT fd cs 0)) (net_events s)"
    "net_tracked_pids (trace_connect env ctx s) = net_tracked_pids s"
    "heap_ok (trace_connect env ctx s)"
    using output_net_header [OF ok] heap_ok_put [OF h1 ok]
    by (simp_all add: s1_def e_def heap_ok_def)
qed

text \<open>The number of bytes a capture takes.\<close>

definition cap_len :: "u32 \<Rightarrow> u32" where
  "cap_len len = (if len > of_nat HELLO_CAP_LEN then of_nat HELLO_CAP_LEN else len)"

lemma cap_len_bound: "unat (cap_len len) \<le> HELLO_CAP_LEN"
  by (auto simp: cap_len_def HELLO_CAP_LEN_def word_less_nat_alt not_less)

lemma unat_cap_len: "unat (cap_len len) = min (unat len) HELLO_CAP_LEN"
  by (auto simp: cap_len_def HELLO_CAP_LEN_def word_less_nat_alt not_less)

definition captured_bytes :: "(u64 \<Rightarrow> nat \<Rightarrow> bytes option) \<Rightarrow> u64 \<Rightarrow> u32 \<Rightarrow> bytes option" where
  "captured_bytes um buf len = (if cap_len len = 0 then Some [] else um buf (unat (cap_len len)))"

lemma capture_hello_skips:
  "(case map_lookup_elem (conns s) \<lparr>ck_tgid = tgid, ck_fd = fd\<rparr> of
      None \<Rightarrow> True | Some cs \<Rightarrow> cs_hello_captured cs \<noteq> 0) \<Longrightarrow> capture_hello env tgid fd buf len s = s"
  by (auto simp: capture_hello_def Let_def split: option.splits)

lemma trace_write_skips:
  "(case map_lookup_elem (conns s) \<lparr>ck_tgid = cur_tgid env, ck_fd = ucast (wc_fd ctx)\<rparr> of
      None \<Rightarrow> True | Some cs \<Rightarrow> cs_hello_captured cs \<noteq> 0) \<Longrightarrow> trace_write env ctx s = s"
  using capture_hello_skips by (auto simp: trace_write_def Let_def)

lemma capture_hello_effect:
  fixes buf :: u64 and len fd :: u32
  assumes "map_lookup_elem (conns s) \<lparr>ck_tgid = cur_tgid env, ck_fd = fd\<rparr> = Some cs"
    and "cs_hello_captured cs = 0" "conn_ok cs" "read_user_ok env um" "heap_ok s"
  defines "s' \<equiv> capture_hello env (cur_tgid env) fd buf len s"
  shows "heap_ok s'" "net_tracked_pids s' = net_tracked_pids s"
    "captured_bytes um buf len = None \<Longrightarrow> conns s' = conns s \<and> net_events s' = net_events s"
    "captured_bytes um buf len = Some bs \<Longrightarrow>
       length bs = unat (cap_len len) \<and>
       conns s' = map_store \<lparr>ck_tgid = cur_tgid env, ck_fd = fd\<rparr> (cs\<lparr>cs_hello_captured := 1\<rparr>) (conns s) \<and>
       net_events s' = ringbuf_output env
         (net_event_hdr_bytes (peer_hdr env NET_HELLO fd cs (cap_len len)) @ bs) (net_events s)"
proof -
  let ?key = "\<lparr>ck_tgid = cur_tgid env, ck_fd = fd\<rparr>"
  let ?n = "unat (cap_len len)"
  obtain e0 where e0: "reserve_event env s = Some e0" "event_ok e0" using heap_okD [OF assms(5)] by blast
  let ?dst = "take ?n (ne_payload e0)"
  have ld: "length ?dst = ?n" using e0(2) cap_len_bound [of len] by (simp add: event_ok_def min_absorb2)
  let ?r = "read_user env buf ?dst"
  have lr: "length (snd ?r) = ?n" using read_user_length [OF assms(4)] ld by simp
  define e1 where "e1 = (if cap_len len > 0 then e0\<lparr>ne_payload := put_at 0 (snd ?r) (ne_payload e0)\<rparr> else e0)"
  have pl: "length (ne_payload e1) = HELLO_CAP_LEN"
    using e0(2) lr cap_len_bound by (simp add: e1_def event_ok_def length_put_at)
  then have ok1: "event_ok e1" using e0(2) by (simp add: event_ok_def e1_def)
  define e where "e = e1\<lparr>ne_hdr := peer_hdr env NET_HELLO fd cs (cap_len len)\<rparr>"
  have ok: "event_ok e" using ok1 assms(3) by (simp add: e_def event_ok_def)
  let ?s1 = "output_net env e (sizeof_net_event_hdr + ?n) (put_event env e s)"
  have unf: "s' = (if cap_len len > 0 \<and> fst ?r \<noteq> 0 then put_event env e1 s
      else ?s1\<lparr>conns := map_store ?key (cs\<lparr>cs_hello_captured := 1\<rparr>) (conns s)\<rparr>)"
    using assms(1,2) e0(1) fill_is_peer_hdr(2) [where cs = cs and env = env]
    unfolding s'_def capture_hello_def Let_def cap_len_def [symmetric] by (simp add: e_def e1_def)
  show "heap_ok s'"
    using heap_ok_put [OF assms(5) ok] heap_ok_put [OF assms(5) ok1] by (simp add: unf heap_ok_def)
  show "net_tracked_pids s' = net_tracked_pids s" by (simp add: unf)
  show "conns s' = conns s \<and> net_events s' = net_events s" if "captured_bytes um buf len = None"
  proof -
    have "cap_len len > 0" "um buf ?n = None"
      using that by (auto simp: captured_bytes_def word_gt_0 split: if_splits)
    then have "fst ?r < 0" using read_user_None [OF assms(4), of buf ?dst] unfolding ld by simp
    then show ?thesis using \<open>cap_len len > 0\<close> by (simp add: unf)
  qed
  show "length bs = ?n \<and> conns s' = map_store ?key (cs\<lparr>cs_hello_captured := 1\<rparr>) (conns s) \<and>
       net_events s' = ringbuf_output env
         (net_event_hdr_bytes (peer_hdr env NET_HELLO fd cs (cap_len len)) @ bs) (net_events s)"
    if c: "captured_bytes um buf len = Some bs"
  proof -
    have go: "\<not> (cap_len len > 0 \<and> fst ?r \<noteq> 0) \<and> length bs = ?n \<and> take ?n (ne_payload e1) = bs"
    proof (cases "cap_len len = 0")
      case True
      then show ?thesis using c by (simp add: captured_bytes_def)
    next
      case False
      then have "um buf ?n = Some bs" using c by (simp add: captured_bytes_def)
      then have r: "?r = (0, bs)" "length bs = ?n" 
        using read_user_Some [OF assms(4), of buf ?dst bs] unfolding ld by auto
      have "cap_len len > 0" using False by (simp add: word_gt_0)
      then show ?thesis using r by (simp add: e1_def put_at_def)
    qed
    have "take ?n (ne_payload e) = bs" using go by (simp add: e_def)
    then show ?thesis
      using output_net_payload [OF ok, of env ?n "put_event env e s"] go by (auto simp: unf e_def)
  qed
qed

lemma trace_close_skips:
  "\<not> is_tracked s (cur_tgid env) \<or>
     map_lookup_elem (conns s) \<lparr>ck_tgid = cur_tgid env, ck_fd = ucast (lc_fd ctx)\<rparr> = None \<Longrightarrow>
   trace_close env ctx s = s"
  by (auto simp: trace_close_def Let_def)

lemma trace_close_effect:
  assumes "is_tracked s (cur_tgid env)" "conn_ok cs" "heap_ok s"
    and "map_lookup_elem (conns s) \<lparr>ck_tgid = cur_tgid env, ck_fd = ucast (lc_fd ctx)\<rparr> = Some cs"
  defines "fd \<equiv> ucast (lc_fd ctx)"
  shows "conns (trace_close env ctx s) = map_delete_elem \<lparr>ck_tgid = cur_tgid env, ck_fd = fd\<rparr> (conns s)"
    "net_events (trace_close env ctx s) =
      ringbuf_output env (net_event_hdr_bytes (peer_hdr env NET_CLOSE fd cs 0)) (net_events s)"
    "net_tracked_pids (trace_close env ctx s) = net_tracked_pids s"
    "heap_ok (trace_close env ctx s)"
proof -
  let ?key = "\<lparr>ck_tgid = cur_tgid env, ck_fd = fd\<rparr>"
  obtain e0 where e0: "reserve_event env s = Some e0" "event_ok e0" using heap_okD [OF assms(3)] by blast
  define e where "e = e0\<lparr>ne_hdr := peer_hdr env NET_CLOSE fd cs 0\<rparr>"
  have ok: "event_ok e" using e0(2) assms(2) by (simp add: e_def event_ok_def)
  have "trace_close env ctx s =
      (output_net env e sizeof_net_event_hdr (put_event env e s))\<lparr>conns := map_delete_elem ?key (conns s)\<rparr>"
    using assms(1,4) e0(1)
    by (simp add: trace_close_def Let_def e_def fd_def fill_is_peer_hdr)
  then show "conns (trace_close env ctx s) = map_delete_elem ?key (conns s)"
    "net_events (trace_close env ctx s) =
      ringbuf_output env (net_event_hdr_bytes (peer_hdr env NET_CLOSE fd cs 0)) (net_events s)"
    "net_tracked_pids (trace_close env ctx s) = net_tracked_pids s"
    "heap_ok (trace_close env ctx s)"
    using output_net_header [OF ok] heap_ok_put [OF assms(3) ok]
    by (simp_all add: e_def heap_ok_def)
qed

section \<open>The protocol of a connection\<close>

text \<open>The state machine the records of one connection follow: a phase with the peer announced
  last; \<open>None\<close> where a record does not fit.\<close>

datatype conn_phase = NoConn | Opened peer | Captured peer

fun phase_step :: "net_event_hdr \<Rightarrow> conn_phase \<Rightarrow> conn_phase option" where
  "phase_step h ph =
     (if nh_type h = NET_CONNECT then Some (Opened (hdr_peer h))
      else if nh_type h = NET_HELLO then
        (case ph of Opened p \<Rightarrow> if hdr_peer h = p then Some (Captured p) else None | _ \<Rightarrow> None)
      else if nh_type h = NET_CLOSE then
        (case ph of NoConn \<Rightarrow> None
         | Opened p \<Rightarrow> if hdr_peer h = p then Some NoConn else None
         | Captured p \<Rightarrow> if hdr_peer h = p then Some NoConn else None)
      else None)"

fun phase_run :: "net_event_hdr list \<Rightarrow> conn_phase \<Rightarrow> conn_phase option" where
  "phase_run [] ph = Some ph"
| "phase_run (h # hs) ph = Option.bind (phase_step h ph) (phase_run hs)"

lemma phase_run_snoc: "phase_run (hs @ [h]) ph = Option.bind (phase_run hs ph) (phase_step h)"
  by (induction hs arbitrary: ph) (auto split: bind_splits)

text \<open>The headers of the records sent about one connection, in order.\<close>

definition key_hdrs :: "conn_key \<Rightarrow> net_state \<Rightarrow> net_event_hdr list" where
  "key_hdrs key s = filter (\<lambda>h. hdr_key h = key) (map net_hdr_of_bytes (net_events s))"

definition key_inv :: "net_state \<Rightarrow> conn_key \<Rightarrow> bool" where
  "key_inv s key \<longleftrightarrow>
     (\<exists>ph. phase_run (key_hdrs key s) NoConn = Some ph \<and>
        (case map_lookup_elem (conns s) key of
           None \<Rightarrow> True
         | Some cs \<Rightarrow> conn_ok cs \<and>
             ph = (if cs_hello_captured cs = 0 then Opened else Captured) (conn_peer cs)))"

text \<open>A record is well formed when its header announces exactly the payload it carries, only a
  capture has one, the address is of one of the two families, and it was sent for a process of \<open>P\<close>.\<close>

definition record_ok :: "(u32 \<Rightarrow> bool) \<Rightarrow> bytes \<Rightarrow> bool" where
  "record_ok P r \<longleftrightarrow>
     (let h = net_hdr_of_bytes r in
        length r = sizeof_net_event_hdr + unat (nh_payload_len h) \<and>
        nh_type h \<in> {NET_CONNECT, NET_HELLO, NET_CLOSE} \<and>
        (nh_type h \<noteq> NET_HELLO \<longrightarrow> nh_payload_len h = 0) \<and> nh_family h \<in> {2, 10} \<and>
        unat (nh_payload_len h) \<le> HELLO_CAP_LEN \<and> P (nh_tgid h))"

definition net_inv :: "(u32 \<Rightarrow> bool) \<Rightarrow> net_state \<Rightarrow> bool" where
  "net_inv P s \<longleftrightarrow> heap_ok s \<and> map_ok conns_max (conns s) \<and>
     map_ok net_tracked_pids_max (net_tracked_pids s) \<and>
     (\<forall>pid. is_tracked s pid \<longrightarrow> P pid) \<and>
     (\<forall>key. key_inv s key) \<and> (\<forall>r\<in>set (net_events s). record_ok P r)"

definition net_call_ok :: "net_call \<Rightarrow> bool" where
  "net_call_ok c \<longleftrightarrow> (\<exists>um. read_user_ok (net_call_env c) um) \<and> (\<forall>n. rb_room (net_call_env c) n)"

lemma net_call_okD:
  "net_call_ok c \<Longrightarrow> net_call_env c = env \<Longrightarrow>
    (\<exists>um. read_user_ok env um) \<and> ringbuf_output env r rb = rb @ [r]"
  by (auto simp: net_call_ok_def ringbuf_output_def)

text \<open>Sending one record about a connection.\<close>

lemma peer_record:
  assumes "conn_ok cs"
  shows "net_hdr_of_bytes (net_event_hdr_bytes (peer_hdr env ty fd cs len) @ p) = peer_hdr env ty fd cs len"
  using net_hdr_of_bytes_inverse [of "peer_hdr env ty fd cs len" p] assms by simp

lemma peer_record0:
  "conn_ok cs \<Longrightarrow> net_hdr_of_bytes (net_event_hdr_bytes (peer_hdr env ty fd cs len)) = peer_hdr env ty fd cs len"
  using peer_record [of cs env ty fd len "[]"] by simp

lemma record_ok_peer:
  assumes "conn_ok cs" "P (cur_tgid env)" "length p = unat len" "unat len \<le> HELLO_CAP_LEN"
    and "ty = NET_HELLO \<or> (ty \<in> {NET_CONNECT, NET_CLOSE} \<and> len = 0)"
  shows "record_ok P (net_event_hdr_bytes (peer_hdr env ty fd cs len) @ p)"
  unfolding record_ok_def Let_def peer_record [OF assms(1)]
  using assms by (auto simp: peer_hdr_def conn_ok_def net_event_hdr_bytes_def sizeof_net_event_hdr_def)

lemma key_hdrs_snoc:
  "conn_ok cs \<Longrightarrow> net_events s' = net_events s @ [net_event_hdr_bytes (peer_hdr env ty fd cs len) @ p] \<Longrightarrow>
    key_hdrs key s' = (if key = \<lparr>ck_tgid = cur_tgid env, ck_fd = fd\<rparr>
      then key_hdrs key s @ [peer_hdr env ty fd cs len] else key_hdrs key s)"
  by (auto simp: key_hdrs_def peer_record)

lemma net_types_distinct [simp]:
  "NET_CONNECT \<noteq> NET_HELLO" "NET_HELLO \<noteq> NET_CONNECT" "NET_CLOSE \<noteq> NET_CONNECT"
  "NET_CONNECT \<noteq> NET_CLOSE" "NET_CLOSE \<noteq> NET_HELLO" "NET_HELLO \<noteq> NET_CLOSE"
  by (simp_all add: NET_CONNECT_def NET_HELLO_def NET_CLOSE_def)

lemma net_inv_send:
  assumes inv: "net_inv P s" and "conn_ok cs" "is_tracked s (cur_tgid env)"
    and "length p = unat len" "unat len \<le> HELLO_CAP_LEN"
    and "ty = NET_HELLO \<or> (ty \<in> {NET_CONNECT, NET_CLOSE} \<and> len = 0)"
    and ev: "net_events s' = net_events s @ [net_event_hdr_bytes (peer_hdr env ty fd cs len) @ p]"
    and "net_tracked_pids s' = net_tracked_pids s" "heap_ok s'" "map_ok conns_max (conns s')"
    and own: "\<And>ph. phase_run (key_hdrs \<lparr>ck_tgid = cur_tgid env, ck_fd = fd\<rparr> s) NoConn = Some ph \<Longrightarrow>
       (case map_lookup_elem (conns s) \<lparr>ck_tgid = cur_tgid env, ck_fd = fd\<rparr> of None \<Rightarrow> True
        | Some cs \<Rightarrow> conn_ok cs \<and> ph = (if cs_hello_captured cs = 0 then Opened else Captured) (conn_peer cs)) \<Longrightarrow>
       \<exists>ph'. phase_step (peer_hdr env ty fd cs len) ph = Some ph' \<and>
         (case map_lookup_elem (conns s') \<lparr>ck_tgid = cur_tgid env, ck_fd = fd\<rparr> of None \<Rightarrow> True
          | Some cs \<Rightarrow> conn_ok cs \<and> ph' = (if cs_hello_captured cs = 0 then Opened else Captured) (conn_peer cs))"
    and other: "\<And>key. key \<noteq> \<lparr>ck_tgid = cur_tgid env, ck_fd = fd\<rparr> \<Longrightarrow>
       map_lookup_elem (conns s') key = map_lookup_elem (conns s) key"
  shows "net_inv P s'"
proof -
  let ?key = "\<lparr>ck_tgid = cur_tgid env, ck_fd = fd\<rparr>"
  have P: "P (cur_tgid env)" using inv assms(3) by (simp add: net_inv_def)
  have "key_inv s' key" for key
  proof (cases "key = ?key")
    case False
    then show ?thesis
      using inv key_hdrs_snoc [OF assms(2) ev, of key] other [OF False]
      by (simp add: net_inv_def key_inv_def)
  next
    case True
    have "key_inv s ?key" using inv by (simp add: net_inv_def)
    then obtain ph where ph: "phase_run (key_hdrs ?key s) NoConn = Some ph"
      "case map_lookup_elem (conns s) ?key of None \<Rightarrow> True
        | Some cs \<Rightarrow> conn_ok cs \<and> ph = (if cs_hello_captured cs = 0 then Opened else Captured) (conn_peer cs)"
      unfolding key_inv_def by blast
    obtain ph' where ph': "phase_step (peer_hdr env ty fd cs len) ph = Some ph'"
      "case map_lookup_elem (conns s') ?key of None \<Rightarrow> True
        | Some cs \<Rightarrow> conn_ok cs \<and> ph' = (if cs_hello_captured cs = 0 then Opened else Captured) (conn_peer cs)"
      using own [OF ph] by blast
    have "phase_run (key_hdrs ?key s') NoConn = Some ph'"
      using key_hdrs_snoc [OF assms(2) ev, of ?key] ph(1) ph'(1) by (simp add: phase_run_snoc)
    then show ?thesis using ph'(2) True unfolding key_inv_def by blast
  qed
  moreover have "record_ok P (net_event_hdr_bytes (peer_hdr env ty fd cs len) @ p)"
    using record_ok_peer [of cs P env p len] assms(2,4-6) P by blast
  ultimately show ?thesis using inv assms(8-10) ev by (simp add: net_inv_def is_tracked_def)
qed

text \<open>Each program keeps the invariant.\<close>

lemma net_inv_key:
  assumes "net_inv P s" "map_lookup_elem (conns s) key = Some cs"
  shows "conn_ok cs"
proof -
  have "key_inv s key" using assms(1) by (simp add: net_inv_def)
  then show ?thesis using assms(2) by (auto simp: key_inv_def)
qed

lemma net_inv_quiet:
  "net_inv P s \<Longrightarrow> heap_ok s' \<Longrightarrow> conns s' = conns s \<Longrightarrow> net_events s' = net_events s \<Longrightarrow>
    net_tracked_pids s' = net_tracked_pids s \<Longrightarrow> net_inv P s'"
  by (simp add: net_inv_def key_inv_def key_hdrs_def is_tracked_def)

lemma net_inv_connect:
  assumes inv: "net_inv P s" and ok: "net_call_ok (NConnect env ctx)"
  shows "net_inv P (trace_connect env ctx s)"
proof (cases "is_tracked s (cur_tgid env) \<and> read_conn_state env (cc_uservaddr ctx) \<noteq> None")
  case False
  then show ?thesis using inv trace_connect_skips by metis
next
  case True
  then obtain cs where cs: "read_conn_state env (cc_uservaddr ctx) = Some cs" by auto
  obtain um where um: "read_user_ok env um" using ok by (auto simp: net_call_ok_def)
  note c = read_conn_state_ok [OF um cs]
  have h: "heap_ok s" "map_ok conns_max (conns s)" using inv by (simp_all add: net_inv_def)
  note eff = trace_connect_effect [OF conjunct1 [OF True] cs um h(1)]
  have ev: "net_events (trace_connect env ctx s) =
      net_events s @ [net_event_hdr_bytes (peer_hdr env NET_CONNECT (ucast (cc_fd ctx)) cs 0) @ []]"
    using eff(2) ok by (simp add: net_call_okD [OF ok])
  show ?thesis
  proof (rule net_inv_send [OF inv c(1) conjunct1 [OF True] _ _ _ ev eff(3,4)])
    show "map_ok conns_max (conns (trace_connect env ctx s))"
      unfolding eff(1) by (rule bpf_map.ok_update [OF h(2)])
    fix key assume "key \<noteq> \<lparr>ck_tgid = cur_tgid env, ck_fd = ucast (cc_fd ctx)\<rparr>"
    then show "map_lookup_elem (conns (trace_connect env ctx s)) key = map_lookup_elem (conns s) key"
      unfolding eff(1) by (intro bpf_map.lookup_update_other) auto
  qed (use c in \<open>auto simp: eff(1) bpf_map.lookup_update split: option.splits\<close>)
qed

lemma net_inv_capture:
  assumes inv: "net_inv P s" and um: "read_user_ok env um" and room: "\<And>n. rb_room env n"
    and t: "is_tracked s (cur_tgid env)"
  shows "net_inv P (capture_hello env (cur_tgid env) fd buf len s)"
proof (cases "map_lookup_elem (conns s) \<lparr>ck_tgid = cur_tgid env, ck_fd = fd\<rparr>")
  case None
  then show ?thesis using inv capture_hello_skips [of s "cur_tgid env" fd env buf len] by simp
next
  case (Some cs)
  let ?key = "\<lparr>ck_tgid = cur_tgid env, ck_fd = fd\<rparr>"
  let ?s' = "capture_hello env (cur_tgid env) fd buf len s"
  have c: "conn_ok cs" by (rule net_inv_key [OF inv Some])
  have h: "heap_ok s" "map_ok conns_max (conns s)" using inv by (simp_all add: net_inv_def)
  show ?thesis
  proof (cases "cs_hello_captured cs = 0")
    case False
    then show ?thesis using inv Some capture_hello_skips [of s "cur_tgid env" fd env buf len] by simp
  next
    case True
    note eff = capture_hello_effect [OF Some True c um h(1), of buf len]
    show ?thesis
    proof (cases "captured_bytes um buf len")
      case None
      then show ?thesis using net_inv_quiet [OF inv eff(1)] eff(2,3) by simp
    next
      case (Some bs)
      note e = eff(4) [OF Some]
      have ev: "net_events ?s' = net_events s @ [net_event_hdr_bytes (peer_hdr env NET_HELLO fd cs (cap_len len)) @ bs]"
        using e room by (simp add: ringbuf_output_def)
      show ?thesis
      proof (rule net_inv_send [OF inv c t _ cap_len_bound _ ev eff(2,1)])
        show "length bs = unat (cap_len len)" using e by simp
        show "map_ok conns_max (conns ?s')" using e bpf_map.ok_store [OF h(2)] by simp
        fix key assume "key \<noteq> ?key"
        then show "map_lookup_elem (conns ?s') key = map_lookup_elem (conns s) key"
          using e by (simp add: bpf_map.lookup_store_other)
      next
        fix ph
        assume "case map_lookup_elem (conns s) ?key of None \<Rightarrow> True
          | Some cs \<Rightarrow> conn_ok cs \<and> ph = (if cs_hello_captured cs = 0 then Opened else Captured) (conn_peer cs)"
        then have "ph = Opened (conn_peer cs)" using \<open>map_lookup_elem (conns s) ?key = Some cs\<close> True by simp
        then show "\<exists>ph'. phase_step (peer_hdr env NET_HELLO fd cs (cap_len len)) ph = Some ph' \<and>
            (case map_lookup_elem (conns ?s') ?key of None \<Rightarrow> True
             | Some cs \<Rightarrow> conn_ok cs \<and> ph' = (if cs_hello_captured cs = 0 then Opened else Captured) (conn_peer cs))"
          using e \<open>map_lookup_elem (conns s) ?key = Some cs\<close> c
          by (simp add: bpf_map.lookup_store conn_ok_def conn_peer_def)
      qed simp
    qed
  qed
qed

lemma net_inv_close:
  assumes inv: "net_inv P s" and ok: "net_call_ok (NClose env ctx)"
  shows "net_inv P (trace_close env ctx s)"
proof (cases "is_tracked s (cur_tgid env) \<and>
    map_lookup_elem (conns s) \<lparr>ck_tgid = cur_tgid env, ck_fd = ucast (lc_fd ctx)\<rparr> \<noteq> None")
  case False
  then show ?thesis using inv trace_close_skips by metis
next
  case True
  let ?key = "\<lparr>ck_tgid = cur_tgid env, ck_fd = ucast (lc_fd ctx)\<rparr>"
  obtain cs where cs: "map_lookup_elem (conns s) ?key = Some cs" using True by auto
  note c = net_inv_key [OF inv cs]
  have h: "heap_ok s" "map_ok conns_max (conns s)" using inv by (simp_all add: net_inv_def)
  note eff = trace_close_effect [OF conjunct1 [OF True] c h(1) cs]
  have ev: "net_events (trace_close env ctx s) =
      net_events s @ [net_event_hdr_bytes (peer_hdr env NET_CLOSE (ucast (lc_fd ctx)) cs 0) @ []]"
    using eff(2) by (simp add: net_call_okD [OF ok])
  show ?thesis
  proof (rule net_inv_send [OF inv c conjunct1 [OF True] _ _ _ ev eff(3,4)])
    show "map_ok conns_max (conns (trace_close env ctx s))"
      unfolding eff(1) by (rule bpf_map.ok_delete [OF h(2)])
  qed (use cs in \<open>auto simp: eff(1) bpf_map.lookup_delete\<close>)
qed

lemma net_inv_step:
  assumes inv: "net_inv P s" and ok: "net_call_ok c"
    and closed: "\<And>env ctx. c = NFork env ctx \<Longrightarrow> P (cur_tgid env) \<Longrightarrow> P (tc_pid ctx)"
  shows "net_inv P (net_step c s)"
proof (cases c)
  case (NConnect env ctx)
  then show ?thesis using net_inv_connect [OF inv] ok by simp
next
  case (NWrite env ctx)
  obtain um where "read_user_ok env um" "\<And>n. rb_room env n" using ok NWrite by (auto simp: net_call_ok_def)
  then show ?thesis using net_inv_capture [OF inv] inv NWrite by (simp add: trace_write_def Let_def)
next
  case (NSendto env ctx)
  obtain um where "read_user_ok env um" "\<And>n. rb_room env n" using ok NSendto by (auto simp: net_call_ok_def)
  then show ?thesis using net_inv_capture [OF inv] inv NSendto by (simp add: trace_sendto_def Let_def)
next
  case (NSendmsg env ctx)
  obtain um where "read_user_ok env um" "\<And>n. rb_room env n" using ok NSendmsg by (auto simp: net_call_ok_def)
  then show ?thesis using net_inv_capture [OF inv] inv NSendmsg by (simp add: trace_sendmsg_def Let_def)
next
  case (NClose env ctx)
  then show ?thesis using net_inv_close [OF inv] ok by simp
next
  case (NFork env ctx)
  show ?thesis
  proof (cases "is_tracked s (cur_tgid env)")
    case False
    then have "net_step c s = s" by (simp add: NFork net_handle_fork_def is_tracked_def Let_def)
    then show ?thesis using inv by simp
  next
    case True
    then have eq: "net_step c s = s\<lparr>net_tracked_pids :=
        map_update_elem net_tracked_pids_max (tc_pid ctx) 1 (net_tracked_pids s)\<rparr>"
      by (auto simp: NFork net_handle_fork_def is_tracked_def Let_def)
    have "P (tc_pid ctx)" using closed [OF NFork] inv True by (simp add: net_inv_def)
    then show ?thesis
      using inv unfolding eq net_inv_def
      by (auto simp: is_tracked_def bpf_map.ok_update key_inv_def key_hdrs_def heap_ok_def
          dest!: bpf_map.lookup_updateD)
  qed
next
  case (NExit env ctx)
  then show ?thesis
    using inv
    by (auto simp: net_handle_exit_def Let_def net_inv_def is_tracked_def bpf_map.ok_delete
        key_inv_def key_hdrs_def heap_ok_def dest!: bpf_map.lookup_deleteD)
qed

section \<open>Runs\<close>

definition net_forked :: "net_call set \<Rightarrow> u32 \<Rightarrow> u32 \<Rightarrow> bool" where
  "net_forked C p c \<longleftrightarrow> (\<exists>env ctx. NFork env ctx \<in> C \<and> cur_tgid env = p \<and> tc_pid ctx = c)"

definition net_tree :: "net_call set \<Rightarrow> u32 set \<Rightarrow> u32 \<Rightarrow> bool" where
  "net_tree C roots pid \<longleftrightarrow> (\<exists>root\<in>roots. (net_forked C)\<^sup>*\<^sup>* root pid)"

definition net_start :: "u32 set \<Rightarrow> net_state \<Rightarrow> bool" where
  "net_start roots s \<longleftrightarrow> conns s = [] \<and> net_events s = [] \<and> heap_ok s \<and>
     map_ok net_tracked_pids_max (net_tracked_pids s) \<and> {pid. is_tracked s pid} \<subseteq> roots"

lemma net_tree_fork:
  "NFork env ctx \<in> C \<Longrightarrow> net_tree C roots (cur_tgid env) \<Longrightarrow> net_tree C roots (tc_pid ctx)"
  unfolding net_tree_def net_forked_def by (metis (mono_tags, lifting) rtranclp.rtrancl_into_rtrancl)

lemma net_start_inv: "net_start roots s \<Longrightarrow> net_inv (net_tree C roots) s"
  by (auto simp: net_start_def net_inv_def net_tree_def map_ok_def key_inv_def key_hdrs_def
      map_lookup_elem_def)

lemma net_inv_run:
  assumes "net_start roots s" "\<forall>c\<in>set calls. net_call_ok c"
  shows "net_inv (net_tree (set calls) roots) (net_run calls s)"
  unfolding net_run_def
proof (rule fold_invariant [where Q = "\<lambda>c. c \<in> set calls \<and> net_call_ok c"])
  show "net_inv (net_tree (set calls) roots) s" by (rule net_start_inv [OF assms(1)])
  fix c s' assume "c \<in> set calls \<and> net_call_ok c" "net_inv (net_tree (set calls) roots) s'"
  then show "net_inv (net_tree (set calls) roots) (net_step c s')"
    using net_tree_fork by (intro net_inv_step) auto
qed (use assms(2) in auto)

section \<open>A concrete run\<close>

text \<open>Process 100 connects descriptor 5 to 93.184.216.34:443, writes five bytes and closes.\<close>

definition zero_net_event :: net_event where
  "zero_net_event = \<lparr>ne_hdr = \<lparr>nh_type = 0, nh_family = 0, nh_port = 0, nh_tgid = 0, nh_tid = 0,
     nh_fd = 0, nh_ts_ns = 0, nh_addr = replicate 16 0, nh_seq = 0, nh_payload_len = 0\<rparr>,
     ne_payload = replicate HELLO_CAP_LEN 0\<rparr>"

definition ex_net_start :: net_state where
  "ex_net_start = \<lparr>conns = [], net_tracked_pids = [(100, 1)], net_events = [],
     net_heap = (\<lambda>_. [zero_net_event])\<rparr>"

definition ex_net_mem :: "(u64 \<times> bytes) list" where
  "ex_net_mem = [(8, [2, 0, 1, 187, 93, 184, 216, 34, 0, 0, 0, 0, 0, 0, 0, 0]), (40, bytes_of ''hello'')]"

definition ex_net_env :: bpf_env where
  "ex_net_env = region_env (task 100 100) 7 ex_net_mem"

definition ex_connect :: sys_enter_connect_ctx where
  "ex_connect = \<lparr>cc_fd = 5, cc_uservaddr = 8, cc_addrlen = 16\<rparr>"

definition ex_write :: sys_enter_write_ctx where
  "ex_write = \<lparr>wc_fd = 5, wc_buf = 40, wc_count = 5\<rparr>"

definition ex_empty_write :: sys_enter_write_ctx where
  "ex_empty_write = \<lparr>wc_fd = 5, wc_buf = 40, wc_count = 0\<rparr>"

definition ex_net_calls :: "net_call list" where
  "ex_net_calls = [NConnect ex_net_env ex_connect, NWrite ex_net_env ex_write, NClose ex_net_env \<lparr>lc_fd = 5\<rparr>]"

definition ex_conn :: conn_state where
  "ex_conn = \<lparr>cs_family = 2, cs_addr = [93, 184, 216, 34] @ replicate 12 0, cs_port = 443,
     cs_hello_captured = 0, cs_open_ts_ns = 7\<rparr>"

lemma ex_net_start_ok: "net_start {100} ex_net_start"
  by (auto simp: net_start_def ex_net_start_def heap_ok_def event_ok_def hdr_ok_def zero_net_event_def
      map_ok_def net_tracked_pids_max_def is_tracked_def map_lookup_elem_def split: if_splits)

lemma ex_net_env_ok: "read_user_ok ex_net_env (region_read ex_net_mem)" "rb_room ex_net_env n"
  by (simp_all add: ex_net_env_def region_read_ok)

lemma ex_net_calls_ok: "\<forall>c\<in>set ex_net_calls. net_call_ok c"
  using ex_net_env_ok by (auto simp: ex_net_calls_def net_call_ok_def)

lemma ex_read_conn_state: "read_conn_state ex_net_env 8 = Some ex_conn"
  by (simp add: read_conn_state_def ex_net_env_def region_env_def region_read_def ex_net_mem_def
      get_u16_def seg_def put_at_def AF_INET_def AF_INET6_def ex_conn_def Let_def)

section \<open>Properties\<close>



text \<open>
  Every record of the network probe is well formed (its length is the header plus the payload
  it announces, at most 1024 bytes, and only a capture carries one) and belongs to a process that
  a chain of announced forks connects to a tracked root.
\<close>

lemma net_records_well_formed:
  assumes "net_start roots s" "\<forall>c\<in>set calls. net_call_ok c" "r \<in> set (net_events (net_run calls s))"
  shows "record_ok (net_tree (set calls) roots) r"
  using net_inv_run [OF assms(1,2)] assms(3) by (simp add: net_inv_def)

lemma ex_net_first: "net_events (net_run [NConnect ex_net_env ex_connect] ex_net_start) =
    [net_event_hdr_bytes (peer_hdr ex_net_env NET_CONNECT 5 ex_conn 0)]"
proof -
  have t: "is_tracked ex_net_start (cur_tgid ex_net_env)"
    by (simp add: is_tracked_def ex_net_start_def ex_net_env_def map_lookup_elem_def)
  have c: "read_conn_state ex_net_env (cc_uservaddr ex_connect) = Some ex_conn"
    by (simp add: ex_connect_def ex_read_conn_state)
  have h: "heap_ok ex_net_start" using ex_net_start_ok by (simp add: net_start_def)
  show ?thesis
    using trace_connect_effect(2) [OF t c ex_net_env_ok(1) h] ex_net_env_ok(2)
    by (simp add: net_run_def ringbuf_output_def ex_connect_def ex_net_start_def)
qed

lemma net_records_well_formed_witness:
  "record_ok (net_tree (set [NConnect ex_net_env ex_connect]) {100})
     (net_event_hdr_bytes (peer_hdr ex_net_env NET_CONNECT 5 ex_conn 0))"
proof (rule net_records_well_formed [OF ex_net_start_ok])
  show "\<forall>c\<in>set [NConnect ex_net_env ex_connect]. net_call_ok c"
    using ex_net_calls_ok by (simp add: ex_net_calls_def)
qed (simp add: ex_net_first)

text \<open>
  The first write on a tracked connection is captured exactly and once: one record with the
  identity of the writer, the peer of the connection and the first 1024 bytes of the buffer at
  most, nothing of what the scratch buffer held before, and then no write on that connection is
  captured again.
\<close>

lemma first_write_captured_once:
  assumes "heap_ok s" "read_user_ok env um" "rb_room env (sizeof_net_event_hdr + length bs)"
    and "is_tracked s (cur_tgid env)"
    and "map_lookup_elem (conns s) \<lparr>ck_tgid = cur_tgid env, ck_fd = ucast (wc_fd ctx)\<rparr> = Some cs"
    and "conn_ok cs" "cs_hello_captured cs = 0"
    and "captured_bytes um (wc_buf ctx) (ucast (wc_count ctx)) = Some bs"
    and "cur_tgid env' = cur_tgid env" "ucast (wc_fd ctx') = (ucast (wc_fd ctx) :: u32)"
  shows "\<exists>r. net_events (trace_write env ctx s) = net_events s @ [r] \<and>
    net_hdr_of_bytes r = peer_hdr env NET_HELLO (ucast (wc_fd ctx)) cs (of_nat (length bs)) \<and>
    drop sizeof_net_event_hdr r = bs \<and>
    trace_write env' ctx' (trace_write env ctx s) = trace_write env ctx s"
proof -
  let ?fd = "ucast (wc_fd ctx) :: u32"
  let ?key = "\<lparr>ck_tgid = cur_tgid env, ck_fd = ?fd\<rparr>"
  let ?s' = "trace_write env ctx s"
  let ?len = "cap_len (ucast (wc_count ctx))"
  have s': "?s' = capture_hello env (cur_tgid env) ?fd (wc_buf ctx) (ucast (wc_count ctx)) s"
    using assms(4) by (simp add: trace_write_def Let_def)
  note eff = capture_hello_effect [OF assms(5,7,6,2,1), of "wc_buf ctx" "ucast (wc_count ctx)", folded s']
  note e = eff(4) [OF assms(8)]
  have len: "?len = of_nat (length bs)" using e by simp
  let ?r = "net_event_hdr_bytes (peer_hdr env NET_HELLO ?fd cs ?len) @ bs"
  have lr: "length (net_event_hdr_bytes (peer_hdr env NET_HELLO ?fd cs ?len)) = sizeof_net_event_hdr"
    using assms(6) by simp
  have ev: "net_events ?s' = net_events s @ [?r]"
    using e assms(3) lr by (simp add: ringbuf_output_def)
  have "map_lookup_elem (conns ?s') ?key = Some (cs\<lparr>cs_hello_captured := 1\<rparr>)"
    using e assms(5) by (simp add: bpf_map.lookup_store)
  then have "trace_write env' ctx' ?s' = ?s'"
    using assms(9,10) by (intro trace_write_skips) simp
  then show ?thesis
    using ev lr peer_record [OF assms(6)] by (intro exI [of _ ?r]) (simp add: len)
qed

definition ex_net_open :: net_state where
  "ex_net_open = ex_net_start\<lparr>conns := [(\<lparr>ck_tgid = 100, ck_fd = 5\<rparr>, ex_conn)]\<rparr>"

lemma ex_net_open_facts:
  "heap_ok ex_net_open" "is_tracked ex_net_open (cur_tgid ex_net_env)" "conn_ok ex_conn"
  "map_lookup_elem (conns ex_net_open) \<lparr>ck_tgid = cur_tgid ex_net_env, ck_fd = 5\<rparr> = Some ex_conn"
  "cs_hello_captured ex_conn = 0" "net_events ex_net_open = []"
  using ex_net_start_ok
  by (simp_all add: ex_net_open_def net_start_def heap_ok_def is_tracked_def ex_net_start_def
      ex_net_env_def map_lookup_elem_def conn_ok_def ex_conn_def)

lemma first_write_captured_once_witness:
  "\<exists>r. net_events (trace_write ex_net_env ex_write ex_net_open) = [r] \<and>
    drop sizeof_net_event_hdr r = bytes_of ''hello''"
proof -
  have w: "ucast (wc_fd ex_write) = (5 :: u32)" "wc_buf ex_write = 40" "wc_count ex_write = 5"
    by (simp_all add: ex_write_def)
  have b: "captured_bytes (region_read ex_net_mem) (wc_buf ex_write) (ucast (wc_count ex_write)) = Some (bytes_of ''hello'')"
    by code_simp
  show ?thesis
    using first_write_captured_once [OF ex_net_open_facts(1) ex_net_env_ok ex_net_open_facts(2)
        _ ex_net_open_facts(3,5) b refl refl] ex_net_open_facts(4,6) w(1)
    by auto
qed

text \<open>
  A first write that is empty uses the capture up: it is recorded with no payload, and no
  later write on the connection, however much it carries, is captured. A server name sent with
  the second write is never seen.
\<close>

lemma empty_write_uses_up_capture:
  assumes "heap_ok s" "read_user_ok env um" "\<And>n. rb_room env n" "is_tracked s (cur_tgid env)"
    and "map_lookup_elem (conns s) \<lparr>ck_tgid = cur_tgid env, ck_fd = ucast (wc_fd ctx)\<rparr> = Some cs"
    and "conn_ok cs" "cs_hello_captured cs = 0" "ucast (wc_count ctx) = (0 :: u32)"
    and "cur_tgid env' = cur_tgid env" "ucast (wc_fd ctx') = (ucast (wc_fd ctx) :: u32)"
  shows "\<exists>r. net_events (net_run [NWrite env ctx, NWrite env' ctx'] s) = net_events s @ [r] \<and>
    length r = sizeof_net_event_hdr \<and> nh_type (net_hdr_of_bytes r) = NET_HELLO"
proof -
  have b: "captured_bytes um (wc_buf ctx) (ucast (wc_count ctx)) = Some []"
    by (simp add: assms(8) captured_bytes_def cap_len_def HELLO_CAP_LEN_def)
  let ?fd = "ucast (wc_fd ctx) :: u32"
  let ?s' = "capture_hello env (cur_tgid env) ?fd (wc_buf ctx) (ucast (wc_count ctx)) s"
  note e = capture_hello_effect(4) [OF assms(5,7,6,2,1) b]
  have w: "trace_write env ctx s = ?s'" using assms(4) by (simp add: trace_write_def Let_def)
  have "map_lookup_elem (conns ?s') \<lparr>ck_tgid = cur_tgid env, ck_fd = ?fd\<rparr> = Some (cs\<lparr>cs_hello_captured := 1\<rparr>)"
    using e assms(5) by (simp add: bpf_map.lookup_store)
  then have "trace_write env' ctx' ?s' = ?s'"
    using assms(9,10) by (intro trace_write_skips) simp
  then have "net_events (net_run [NWrite env ctx, NWrite env' ctx'] s) =
      net_events s @ [net_event_hdr_bytes (peer_hdr env NET_HELLO ?fd cs (cap_len (ucast (wc_count ctx))))]"
    using e assms(3) by (simp add: net_run_def w ringbuf_output_def)
  then show ?thesis using assms(6) peer_record0 [OF assms(6)] by auto
qed

lemma empty_write_uses_up_capture_witness:
  "\<exists>r. net_events (net_run [NWrite ex_net_env ex_empty_write, NWrite ex_net_env ex_write] ex_net_open) = [r] \<and>
    length r = sizeof_net_event_hdr"
proof -
  have w: "ucast (wc_fd ex_empty_write) = (5 :: u32)" "ucast (wc_count ex_empty_write) = (0 :: u32)"
    "ucast (wc_fd ex_write) = (5 :: u32)"
    by (simp_all add: ex_write_def ex_empty_write_def)
  show ?thesis
    using empty_write_uses_up_capture [OF ex_net_open_facts(1) ex_net_env_ok ex_net_open_facts(2),
        of ex_empty_write ex_conn ex_net_env ex_write] ex_net_open_facts(3-6)
    by (auto simp: w)
qed

end
