(* ===== verification/Tls_Bpf.thy ===== *)
theory Tls_Bpf
  imports Bpf
begin

text \<open>
  The content half of the network probe, \<open>pkg/probe/net/tls.bpf.c\<close>: a probe at the entry of
  \<open>SSL_write\<close> that sends the plaintext of every write of a tracked process as a frame, or counts
  the write as faulted. Its copies of \<open>task_newtask\<close> and \<open>sched_process_exit\<close> maintain its own
  table of tracked processes.
\<close>

section \<open>Data\<close>

definition SSL_CAP_LEN :: nat where "SSL_CAP_LEN = 16384"

record ssl_frame_hdr =
  sh_tgid :: u32
  sh_tid :: u32
  sh_ts_ns :: u64
  sh_len :: u32

record ssl_frame =
  sf_hdr :: ssl_frame_hdr
  sf_payload :: bytes

text \<open>What the program reads of the registers of the probed call: the second and the third
  argument, through the macros of the tracing library.\<close>

record pt_regs_parms =
  PT_REGS_PARM2 :: u64
  PT_REGS_PARM3 :: u64

text \<open>The header is 24 bytes, the last four of them padding.\<close>

definition sizeof_ssl_frame_hdr :: nat where "sizeof_ssl_frame_hdr = 24"

definition ssl_frame_hdr_bytes :: "ssl_frame_hdr \<Rightarrow> bytes" where
  "ssl_frame_hdr_bytes h =
     le_enc 4 (unat (sh_tgid h)) @ le_enc 4 (unat (sh_tid h)) @ le_enc 8 (unat (sh_ts_ns h)) @
     le_enc 4 (unat (sh_len h)) @ replicate 4 0"

definition ssl_frame_bytes :: "ssl_frame \<Rightarrow> bytes" where
  "ssl_frame_bytes e = ssl_frame_hdr_bytes (sf_hdr e) @ sf_payload e"

definition ssl_tracked_pids_max :: nat where "ssl_tracked_pids_max = 4096"

record ssl_state =
  ssl_tracked_pids :: "(u32, u8) bpf_map"
  ssl_events :: "bytes list"
  ssl_heap :: "nat \<Rightarrow> ssl_frame list"
  faulted_reads :: "nat \<Rightarrow> u64 list"

definition ssl_is_tracked :: "ssl_state \<Rightarrow> u32 \<Rightarrow> bool" where
  "ssl_is_tracked s tgid \<longleftrightarrow> map_lookup_elem (ssl_tracked_pids s) tgid \<noteq> None"

definition put_frame :: "bpf_env \<Rightarrow> ssl_frame \<Rightarrow> ssl_state \<Rightarrow> ssl_state" where
  "put_frame env e s = s\<lparr>ssl_heap := (ssl_heap s)(cpu env := (ssl_heap s (cpu env))[0 := e])\<rparr>"

definition count_fault :: "bpf_env \<Rightarrow> ssl_state \<Rightarrow> ssl_state" where
  "count_fault env s =
     (case array_lookup_elem (faulted_reads s (cpu env)) 0 of
        None \<Rightarrow> s
      | Some cnt \<Rightarrow> s\<lparr>faulted_reads :=
          (faulted_reads s)(cpu env := (faulted_reads s (cpu env))[0 := cnt + 1])\<rparr>)"

section \<open>The programs\<close>

definition probe_ssl_write :: "bpf_env \<Rightarrow> pt_regs_parms \<Rightarrow> ssl_state \<Rightarrow> ssl_state" where
  "probe_ssl_write env ctx s =
     (let tgid = cur_tgid env
      in if \<not> ssl_is_tracked s tgid then s
         else
           let buf = PT_REGS_PARM2 ctx;
               num = ucast (PT_REGS_PARM3 ctx) :: u32
           in if num = 0 then s
              else case array_lookup_elem (ssl_heap s (cpu env)) 0 of
                None \<Rightarrow> s
              | Some e0 \<Rightarrow>
                  let len = (if num > of_nat SSL_CAP_LEN then of_nat SSL_CAP_LEN else num);
                      r = read_user env buf (take (unat len) (sf_payload e0));
                      e1 = e0\<lparr>sf_payload := put_at 0 (snd r) (sf_payload e0)\<rparr>
                  in if fst r \<noteq> 0 then count_fault env (put_frame env e1 s)
                     else
                       let h = \<lparr>sh_tgid = tgid, sh_tid = cur_tid env, sh_ts_ns = ktime env, sh_len = len\<rparr>;
                           e = e1\<lparr>sf_hdr := h\<rparr>;
                           s1 = put_frame env e s
                       in s1\<lparr>ssl_events := ringbuf_output env
                               (take (sizeof_ssl_frame_hdr + unat len) (ssl_frame_bytes e)) (ssl_events s1)\<rparr>)"

definition ssl_handle_fork :: "bpf_env \<Rightarrow> task_newtask_ctx \<Rightarrow> ssl_state \<Rightarrow> ssl_state" where
  "ssl_handle_fork env ctx s =
     (let parent_pid = cur_tgid env; child_pid = tc_pid ctx
      in case map_lookup_elem (ssl_tracked_pids s) parent_pid of
           None \<Rightarrow> s
         | Some _ \<Rightarrow> s\<lparr>ssl_tracked_pids :=
             map_update_elem ssl_tracked_pids_max child_pid 1 (ssl_tracked_pids s)\<rparr>)"

definition ssl_handle_exit :: "bpf_env \<Rightarrow> sched_process_exit_ctx \<Rightarrow> ssl_state \<Rightarrow> ssl_state" where
  "ssl_handle_exit env ctx s =
     (let tgid = cur_tgid env; tid = cur_tid env
      in if tgid \<noteq> tid then s
         else s\<lparr>ssl_tracked_pids := map_delete_elem tgid (ssl_tracked_pids s)\<rparr>)"

datatype ssl_call =
    SslWrite bpf_env pt_regs_parms
  | SslFork bpf_env task_newtask_ctx
  | SslExit bpf_env sched_process_exit_ctx

fun ssl_step :: "ssl_call \<Rightarrow> ssl_state \<Rightarrow> ssl_state" where
  "ssl_step (SslWrite env ctx) s = probe_ssl_write env ctx s"
| "ssl_step (SslFork env ctx) s = ssl_handle_fork env ctx s"
| "ssl_step (SslExit env ctx) s = ssl_handle_exit env ctx s"

definition ssl_run :: "ssl_call list \<Rightarrow> ssl_state \<Rightarrow> ssl_state" where
  "ssl_run calls s = fold ssl_step calls s"

text \<open>What user space reads as \<open>FaultedReads\<close>: the sum over the CPUs.\<close>

definition total_faults :: "nat \<Rightarrow> ssl_state \<Rightarrow> u64" where
  "total_faults ncpu s = sum_list (map (\<lambda>c. sum_list (faulted_reads s c)) [0..<ncpu])"

section \<open>The abstract probe\<close>

text \<open>
  What the probe promises, without scratch buffers, CPUs or bytes: a table of tracked processes,
  the plaintext frames sent so far and the number of writes that could not be read. A write of a
  tracked process either adds a frame with its first 16384 bytes or counts as a fault; an empty
  write is ignored.
\<close>

record frame =
  fr_tgid :: u32
  fr_tid :: u32
  fr_ts :: u64
  fr_data :: bytes

record ssl_spec =
  spec_tracked :: "(u32, u8) bpf_map"
  spec_frames :: "frame list"
  spec_faults :: u64

definition spec_write :: "bpf_env \<Rightarrow> pt_regs_parms \<Rightarrow> ssl_spec \<Rightarrow> ssl_spec" where
  "spec_write env ctx a =
     (let n = min (unat (ucast (PT_REGS_PARM3 ctx) :: u32)) SSL_CAP_LEN;
          r = read_user env (PT_REGS_PARM2 ctx) (replicate n 0)
      in if map_lookup_elem (spec_tracked a) (cur_tgid env) = None \<or> n = 0 then a
         else if fst r = 0
         then a\<lparr>spec_frames := spec_frames a @
                 [\<lparr>fr_tgid = cur_tgid env, fr_tid = cur_tid env, fr_ts = ktime env, fr_data = snd r\<rparr>]\<rparr>
         else a\<lparr>spec_faults := spec_faults a + 1\<rparr>)"

fun spec_step :: "ssl_call \<Rightarrow> ssl_spec \<Rightarrow> ssl_spec" where
  "spec_step (SslWrite env ctx) a = spec_write env ctx a"
| "spec_step (SslFork env ctx) a =
     (if map_lookup_elem (spec_tracked a) (cur_tgid env) = None then a
      else a\<lparr>spec_tracked := map_update_elem ssl_tracked_pids_max (tc_pid ctx) 1 (spec_tracked a)\<rparr>)"
| "spec_step (SslExit env ctx) a =
     (if cur_tgid env \<noteq> cur_tid env then a
      else a\<lparr>spec_tracked := map_delete_elem (cur_tgid env) (spec_tracked a)\<rparr>)"

text \<open>The frame user space decodes from a record.\<close>

definition frame_of_bytes :: "bytes \<Rightarrow> frame" where
  "frame_of_bytes b =
     \<lparr>fr_tgid = of_nat (le_dec (seg 0 4 b)), fr_tid = of_nat (le_dec (seg 4 4 b)),
      fr_ts = of_nat (le_dec (seg 8 8 b)),
      fr_data = seg 24 (unat (of_nat (le_dec (seg 16 4 b)) :: u32)) b\<rparr>"

definition ssl_abs :: "nat \<Rightarrow> ssl_state \<Rightarrow> ssl_spec" where
  "ssl_abs ncpu s = \<lparr>spec_tracked = ssl_tracked_pids s,
     spec_frames = map frame_of_bytes (ssl_events s), spec_faults = total_faults ncpu s\<rparr>"

definition ssl_inv :: "ssl_state \<Rightarrow> bool" where
  "ssl_inv s \<longleftrightarrow> (\<forall>c. (\<exists>e. ssl_heap s c = [e] \<and> length (sf_payload e) = SSL_CAP_LEN) \<and>
     (\<exists>x. faulted_reads s c = [x]))"

definition ssl_call_ok :: "nat \<Rightarrow> ssl_call \<Rightarrow> bool" where
  "ssl_call_ok ncpu c \<longleftrightarrow>
     (case c of SslWrite env _ \<Rightarrow>
        cpu env < ncpu \<and> (\<exists>um. read_user_ok env um) \<and> (\<forall>n. rb_room env n) | _ \<Rightarrow> True)"

lemma frame_of_bytes_inverse:
  "length p = unat (sh_len h) \<Longrightarrow> frame_of_bytes (ssl_frame_hdr_bytes h @ p @ rest) =
    \<lparr>fr_tgid = sh_tgid h, fr_tid = sh_tid h, fr_ts = sh_ts_ns h, fr_data = p\<rparr>"
  by (simp add: frame_of_bytes_def ssl_frame_hdr_bytes_def seg_def del: le_enc.simps)

lemma length_ssl_frame_hdr_bytes [simp]: "length (ssl_frame_hdr_bytes h) = sizeof_ssl_frame_hdr"
  by (simp add: ssl_frame_hdr_bytes_def sizeof_ssl_frame_hdr_def)

lemma read_user_same:
  assumes "read_user_ok env um" "length d = length d'"
  shows "(fst (read_user env a d) = 0) = (fst (read_user env a d') = 0)"
    "fst (read_user env a d) = 0 \<Longrightarrow> snd (read_user env a d) = snd (read_user env a d')"
proof -
  have "(fst (read_user env a d) = 0 \<longleftrightarrow> fst (read_user env a d') = 0) \<and>
    (fst (read_user env a d) = 0 \<longrightarrow> snd (read_user env a d) = snd (read_user env a d'))"
  proof (cases "um a (length d)")
    case None
    have "fst (read_user env a d) < 0" "fst (read_user env a d') < 0"
      using read_user_None [OF assms(1)] None assms(2) by metis+
    then show ?thesis by simp
  next
    case (Some bs)
    have "read_user env a d = (0, bs)" "read_user env a d' = (0, bs)"
      using read_user_Some [OF assms(1)] Some assms(2) by metis+
    then show ?thesis by simp
  qed
  then show "(fst (read_user env a d) = 0) = (fst (read_user env a d') = 0)"
    "fst (read_user env a d) = 0 \<Longrightarrow> snd (read_user env a d) = snd (read_user env a d')" by simp_all
qed

lemma sum_list_update_one:
  "i < n \<Longrightarrow> sum_list (map (f(i := f i + 1)) [0..<n]) = sum_list (map f [0..<n]) + (1 :: u64)"
proof (induction n)
  case (Suc n)
  then show ?case
    by (cases "i = n") (auto simp: less_Suc_eq add_ac intro!: arg_cong [of _ _ sum_list])
qed simp

lemma total_faults_count:
  assumes "ssl_inv s" "cpu env < ncpu"
  shows "total_faults ncpu (count_fault env s) = total_faults ncpu s + 1"
proof -
  obtain x where x: "faulted_reads s (cpu env) = [x]" using assms(1) by (auto simp: ssl_inv_def)
  let ?f = "\<lambda>c. sum_list (faulted_reads s c)"
  have "total_faults ncpu (count_fault env s) = sum_list (map (?f(cpu env := ?f (cpu env) + 1)) [0..<ncpu])"
    unfolding total_faults_def using x
    by (intro arg_cong [of _ _ sum_list] map_cong) (auto simp: count_fault_def)
  then show ?thesis using sum_list_update_one [OF assms(2), of ?f] by (simp add: total_faults_def)
qed

lemma ssl_inv_put: "ssl_inv s \<Longrightarrow> length (sf_payload e) = SSL_CAP_LEN \<Longrightarrow> ssl_inv (put_frame env e s)"
  unfolding ssl_inv_def put_frame_def by (auto simp: fun_upd_def) (metis list_update_code(2))

lemma ssl_inv_count: "ssl_inv s \<Longrightarrow> ssl_inv (count_fault env s)"
  unfolding ssl_inv_def count_fault_def
  by (auto simp: fun_upd_def split: option.split) (metis list_update_code(2))

lemma frame_simps [simp]:
  "ssl_tracked_pids (put_frame env e s) = ssl_tracked_pids s" "ssl_events (put_frame env e s) = ssl_events s"
  "total_faults n (put_frame env e s) = total_faults n s"
  "ssl_tracked_pids (count_fault env s) = ssl_tracked_pids s" "ssl_events (count_fault env s) = ssl_events s"
  by (auto simp: put_frame_def count_fault_def total_faults_def split: option.split)

lemma ssl_write_refines:
  assumes inv: "ssl_inv s" and ok: "ssl_call_ok ncpu (SslWrite env ctx)"
  shows "ssl_abs ncpu (probe_ssl_write env ctx s) = spec_write env ctx (ssl_abs ncpu s) \<and>
    ssl_inv (probe_ssl_write env ctx s)"
proof -
  let ?num = "ucast (PT_REGS_PARM3 ctx) :: u32"
  let ?len = "if ?num > of_nat SSL_CAP_LEN then of_nat SSL_CAP_LEN else ?num"
  let ?n = "min (unat ?num) SSL_CAP_LEN"
  have n: "unat ?len = ?n"
    by (auto simp: SSL_CAP_LEN_def word_less_nat_alt not_less)
  obtain e0 where e0: "ssl_heap s (cpu env) = [e0]" "length (sf_payload e0) = SSL_CAP_LEN"
    using inv by (auto simp: ssl_inv_def)
  obtain um where um: "read_user_ok env um" using ok by (auto simp: ssl_call_ok_def)
  let ?d = "take ?n (sf_payload e0)"
  have ld: "length ?d = ?n" using e0(2) by simp
  let ?r = "read_user env (PT_REGS_PARM2 ctx) ?d"
  let ?z = "read_user env (PT_REGS_PARM2 ctx) (replicate ?n 0)"
  have lr: "length (snd ?r) = ?n" using read_user_length [OF um] ld by simp
  have rz: "fst ?r = 0 \<longleftrightarrow> fst ?z = 0" "fst ?r = 0 \<Longrightarrow> snd ?r = snd ?z"
    using read_user_same [OF um, of ?d "replicate ?n 0" "PT_REGS_PARM2 ctx"] ld by simp_all
  show ?thesis
  proof (cases "ssl_is_tracked s (cur_tgid env) \<and> ?num \<noteq> 0")
    case False
    then have "probe_ssl_write env ctx s = s" by (auto simp: probe_ssl_write_def Let_def)
    moreover have "spec_write env ctx (ssl_abs ncpu s) = ssl_abs ncpu s"
      using False by (auto simp: spec_write_def ssl_abs_def ssl_is_tracked_def Let_def)
    ultimately show ?thesis using inv by simp
  next
    case True
    then have nz: "?n \<noteq> 0" by (auto simp: SSL_CAP_LEN_def unat_gt_0 min_def)
    define e1 where "e1 = e0\<lparr>sf_payload := put_at 0 (snd ?r) (sf_payload e0)\<rparr>"
    have pl: "length (sf_payload e1) = SSL_CAP_LEN"
      using e0(2) lr by (simp add: e1_def length_put_at)
    define h where "h = \<lparr>sh_tgid = cur_tgid env, sh_tid = cur_tid env, sh_ts_ns = ktime env, sh_len = ?len\<rparr>"
    define s1 where "s1 = put_frame env (e1\<lparr>sf_hdr := h\<rparr>) s"
    have unf: "probe_ssl_write env ctx s =
      (if fst ?r \<noteq> 0 then count_fault env (put_frame env e1 s)
       else s1\<lparr>ssl_events := ringbuf_output env
         (take (sizeof_ssl_frame_hdr + ?n) (ssl_frame_bytes (e1\<lparr>sf_hdr := h\<rparr>))) (ssl_events s1)\<rparr>)"
      using True e0(1) unfolding probe_ssl_write_def Let_def n by (simp add: e1_def h_def s1_def)
    have look: "map_lookup_elem (ssl_tracked_pids s) (cur_tgid env) \<noteq> None"
      using True by (simp add: ssl_is_tracked_def)
    show ?thesis
    proof (cases "fst ?r = 0")
      case False
      have i1: "ssl_inv (put_frame env e1 s)" by (rule ssl_inv_put [OF inv pl])
      have "cpu env < ncpu" using ok by (simp add: ssl_call_ok_def)
      note c = total_faults_count [OF i1 this]
      show ?thesis
        using False nz look rz(1) c ssl_inv_count [OF i1, of env]
        by (auto simp: unf ssl_abs_def spec_write_def Let_def)
    next
      case z: True
      let ?rec = "take (sizeof_ssl_frame_hdr + ?n) (ssl_frame_bytes (e1\<lparr>sf_hdr := h\<rparr>))"
      have "take ?n (sf_payload e1) = snd ?r" using lr by (simp add: e1_def put_at_def)
      then have rec: "?rec = ssl_frame_hdr_bytes h @ snd ?z @ []"
        using rz(2) [OF z] by (simp add: ssl_frame_bytes_def)
      have "length (snd ?z) = unat (sh_len h)" using n rz(2) [OF z] lr by (simp add: h_def)
      note f = frame_of_bytes_inverse [OF this, of "[]"]
      have "rb_room env k" for k using ok by (simp add: ssl_call_ok_def)
      then have "ssl_events (probe_ssl_write env ctx s) = ssl_events s @ [?rec]"
        using z by (simp add: unf s1_def ringbuf_output_def)
      moreover have "ssl_inv (probe_ssl_write env ctx s)"
        using z ssl_inv_put [OF inv, of "e1\<lparr>sf_hdr := h\<rparr>" env] pl
        by (simp add: unf s1_def ssl_inv_def)
      moreover have "ssl_tracked_pids (probe_ssl_write env ctx s) = ssl_tracked_pids s"
        "total_faults ncpu (probe_ssl_write env ctx s) = total_faults ncpu s"
        using z by (simp_all add: unf s1_def total_faults_def put_frame_def)
      moreover have "frame_of_bytes ?rec =
          \<lparr>fr_tgid = cur_tgid env, fr_tid = cur_tid env, fr_ts = ktime env, fr_data = snd ?z\<rparr>"
        unfolding rec using f by (simp add: h_def)
      ultimately show ?thesis
        using nz look rz(1) z by (simp add: ssl_abs_def spec_write_def Let_def)
    qed
  qed
qed

lemma ssl_step_refines:
  "ssl_inv s \<Longrightarrow> ssl_call_ok ncpu c \<Longrightarrow>
    ssl_abs ncpu (ssl_step c s) = spec_step c (ssl_abs ncpu s) \<and> ssl_inv (ssl_step c s)"
proof (cases c)
  case (SslWrite env ctx)
  then show "ssl_inv s \<Longrightarrow> ssl_call_ok ncpu c \<Longrightarrow> ?thesis" using ssl_write_refines by simp
qed (auto simp: ssl_handle_fork_def ssl_handle_exit_def ssl_abs_def ssl_inv_def total_faults_def
    Let_def split: option.split)

lemma ssl_run_refines:
  assumes "ssl_inv s" "\<forall>c\<in>set calls. ssl_call_ok ncpu c"
  shows "ssl_abs ncpu (ssl_run calls s) = fold spec_step calls (ssl_abs ncpu s)"
proof -
  have "ssl_abs ncpu (fold ssl_step calls s) = fold spec_step calls (ssl_abs ncpu s) \<and>
      ssl_inv (fold ssl_step calls s)"
    using assms
  proof (induction calls arbitrary: s)
    case (Cons c calls)
    then have "ssl_abs ncpu (ssl_step c s) = spec_step c (ssl_abs ncpu s)" "ssl_inv (ssl_step c s)"
      using ssl_step_refines by auto
    then show ?case using Cons.IH [of "ssl_step c s"] Cons.prems(2) by simp
  qed simp
  then show ?thesis by (simp add: ssl_run_def)
qed

section \<open>Properties\<close>


definition ex_ssl_start :: ssl_state where
  "ex_ssl_start = \<lparr>ssl_tracked_pids = [(100, 1)], ssl_events = [],
     ssl_heap = (\<lambda>_. [\<lparr>sf_hdr = \<lparr>sh_tgid = 0, sh_tid = 0, sh_ts_ns = 0, sh_len = 0\<rparr>,
                        sf_payload = replicate SSL_CAP_LEN 0\<rparr>]),
     faulted_reads = (\<lambda>_. [0])\<rparr>"

definition ex_ssl_env :: bpf_env where
  "ex_ssl_env = region_env (task 100 101) 7 [(64, bytes_of ''GET /'')]"

definition ex_ssl_calls :: "ssl_call list" where
  "ex_ssl_calls = [SslWrite ex_ssl_env \<lparr>PT_REGS_PARM2 = 64, PT_REGS_PARM3 = 5\<rparr>, SslWrite ex_ssl_env \<lparr>PT_REGS_PARM2 = 99, PT_REGS_PARM3 = 5\<rparr>]"


text \<open>
  Every frame the probe sends carries the process that wrote it, and that process is connected
  to a tracked root by a chain of announced forks.
\<close>

lemma ssl_frames_scoped:
  assumes "ssl_inv s" "\<forall>c\<in>set calls. ssl_call_ok ncpu c" "ssl_events s = []"
    and "f \<in> set (spec_frames (ssl_abs ncpu (ssl_run calls s)))"
  shows "\<exists>root. ssl_is_tracked s root \<and>
    (\<lambda>p c. \<exists>env ctx. SslFork env ctx \<in> set calls \<and> cur_tgid env = p \<and> tc_pid ctx = c)\<^sup>*\<^sup>* root (fr_tgid f)"
proof -
  let ?fork = "\<lambda>p c. \<exists>env ctx. SslFork env ctx \<in> set calls \<and> cur_tgid env = p \<and> tc_pid ctx = c"
  let ?P = "\<lambda>pid. \<exists>root. ssl_is_tracked s root \<and> ?fork\<^sup>*\<^sup>* root pid"
  let ?I = "\<lambda>a. (\<forall>pid. map_lookup_elem (spec_tracked a) pid \<noteq> None \<longrightarrow> ?P pid) \<and>
    (\<forall>f\<in>set (spec_frames a). ?P (fr_tgid f))"
  have start: "?I (ssl_abs ncpu s)"
    using assms(3) by (auto simp: ssl_abs_def ssl_is_tracked_def intro: rtranclp.rtrancl_refl)
  have step: "?I (spec_step c a)" if c: "c \<in> set calls" and a: "?I a" for c a
  proof (cases c)
    case (SslWrite env ctx)
    then show ?thesis using a by (auto simp: spec_write_def Let_def)
  next
    case (SslFork env ctx)
    have "?P (tc_pid ctx)" if "?P (cur_tgid env)"
      using that c unfolding SslFork by (metis (mono_tags, lifting) rtranclp.rtrancl_into_rtrancl)
    then show ?thesis using a SslFork by (auto dest!: bpf_map.lookup_updateD)
  next
    case (SslExit env ctx)
    then show ?thesis using a by (auto dest!: bpf_map.lookup_deleteD)
  qed
  have "?I (fold spec_step calls (ssl_abs ncpu s))"
    by (rule fold_invariant [where Q = "\<lambda>c. c \<in> set calls" and P = ?I, OF _ start step])
  then show ?thesis using assms(4) unfolding ssl_run_refines [OF assms(1,2)] by blast
qed

end
