(* ===== verification/Client_Hello.thy ===== *)
theory Client_Hello
  imports Prelude
begin

text \<open>
  The TLS ClientHello parser \<open>pkg/tlsparse/clienthello.go\<close>, which the network observer runs on
  the first bytes of a connection. A \<open>cursor\<close> read returns the bytes and the advanced cursor, or
  \<open>None\<close> for \<open>errShortRead\<close>; the parser's two errors are values.
\<close>

section \<open>The cursor\<close>

record cursor =
  cur_buf :: bytes
  cur_pos :: nat

definition cur_remaining :: "cursor \<Rightarrow> int" where
  "cur_remaining c = int (length (cur_buf c)) - int (cur_pos c)"

definition cur_bytes :: "int \<Rightarrow> cursor \<Rightarrow> (bytes \<times> cursor) option" where
  "cur_bytes n c =
     (if n < 0 \<or> cur_remaining c < n then None
      else Some (seg (cur_pos c) (nat n) (cur_buf c), c\<lparr>cur_pos := cur_pos c + nat n\<rparr>))"

definition cur_u8 :: "cursor \<Rightarrow> (u8 \<times> cursor) option" where
  "cur_u8 c = (case cur_bytes 1 c of None \<Rightarrow> None | Some (b, c') \<Rightarrow> Some (b ! 0, c'))"

definition cur_u16 :: "cursor \<Rightarrow> (u16 \<times> cursor) option" where
  "cur_u16 c = (case cur_bytes 2 c of None \<Rightarrow> None
     | Some (b, c') \<Rightarrow> Some (push_bit 8 (ucast (b ! 0)) OR ucast (b ! 1), c'))"

definition cur_u24 :: "cursor \<Rightarrow> (u32 \<times> cursor) option" where
  "cur_u24 c = (case cur_bytes 3 c of None \<Rightarrow> None
     | Some (b, c') \<Rightarrow>
         Some (push_bit 16 (ucast (b ! 0)) OR push_bit 8 (ucast (b ! 1)) OR ucast (b ! 2), c'))"

section \<open>The parser\<close>

datatype tls_error = ErrNotClientHello | ErrTruncated

record ClientHello =
  ServerName :: string
  ALPN :: "string list"

definition recordTypeHandshake :: u8 where "recordTypeHandshake = 0x16"
definition handshakeTypeClientHello :: u8 where "handshakeTypeClientHello = 0x01"
definition extTypeSNI :: u16 where "extTypeSNI = 0x0000"
definition extTypeALPN :: u16 where "extTypeALPN = 0x0010"
definition sniNameTypeHostName :: u8 where "sniNameTypeHostName = 0x00"

lemma cur_bytes_advances:
  "cur_bytes n c = Some (b, c') \<Longrightarrow>
    cur_buf c' = cur_buf c \<and> cur_pos c' = cur_pos c + nat n \<and> cur_pos c' \<le> length (cur_buf c)"
  by (auto simp: cur_bytes_def cur_remaining_def split: if_splits)

lemma cur_u8_advances:
  "cur_u8 c = Some (b, c') \<Longrightarrow>
    cur_buf c' = cur_buf c \<and> cur_pos c' = cur_pos c + 1 \<and> cur_pos c' \<le> length (cur_buf c)"
  by (auto simp: cur_u8_def dest!: cur_bytes_advances split: option.splits)

lemma cur_u16_advances:
  "cur_u16 c = Some (b, c') \<Longrightarrow>
    cur_buf c' = cur_buf c \<and> cur_pos c' = cur_pos c + 2 \<and> cur_pos c' \<le> length (cur_buf c)"
  by (auto simp: cur_u16_def dest!: cur_bytes_advances split: option.splits)

text \<open>The loop of \<open>parseSNIExtension\<close>, up to the first host name.\<close>

function sni_loop :: "nat \<Rightarrow> cursor \<Rightarrow> string option" where
  "sni_loop stop c =
     (if \<not> cur_pos c < stop then None
      else case cur_u8 c of
        None \<Rightarrow> None
      | Some (nameType, c1) \<Rightarrow>
          (case cur_u16 c1 of
             None \<Rightarrow> None
           | Some (nameLen, c2) \<Rightarrow>
               (case cur_bytes (uint nameLen) c2 of
                  None \<Rightarrow> None
                | Some (name, c3) \<Rightarrow>
                    if nameType = sniNameTypeHostName then Some (str_of name)
                    else sni_loop stop c3)))"
  by pat_completeness auto
termination
  by (relation "measure (\<lambda>(stop, c). length (cur_buf c) - cur_pos c)")
    (auto dest!: cur_u8_advances cur_u16_advances cur_bytes_advances)

definition parseSNIExtension :: "bytes \<Rightarrow> string option" where
  "parseSNIExtension data =
     (case cur_u16 \<lparr>cur_buf = data, cur_pos = 0\<rparr> of
        None \<Rightarrow> None
      | Some (listLen, c) \<Rightarrow>
          let stop = (if unat listLen > length data - 2 then length data - 2 else unat listLen)
          in sni_loop (2 + stop) c)"

function alpn_loop :: "cursor \<Rightarrow> string list \<Rightarrow> string list" where
  "alpn_loop c protos =
     (if \<not> cur_remaining c > 0 then protos
      else case cur_u8 c of
        None \<Rightarrow> protos
      | Some (n, c1) \<Rightarrow>
          (case cur_bytes (uint n) c1 of
             None \<Rightarrow> protos
           | Some (name, c2) \<Rightarrow> alpn_loop c2 (protos @ [str_of name])))"
  by pat_completeness auto
termination
  by (relation "measure (\<lambda>(c, protos). length (cur_buf c) - cur_pos c)")
    (auto dest!: cur_u8_advances cur_bytes_advances)

definition parseALPNExtension :: "bytes \<Rightarrow> string list" where
  "parseALPNExtension data =
     (case cur_u16 \<lparr>cur_buf = data, cur_pos = 0\<rparr> of
        None \<Rightarrow> []
      | Some (_, c) \<Rightarrow> alpn_loop c [])"

definition handle_extension :: "u16 \<Rightarrow> bytes \<Rightarrow> ClientHello \<Rightarrow> ClientHello" where
  "handle_extension extType extData hello =
     (if extType = extTypeSNI then
        (case parseSNIExtension extData of
           Some name \<Rightarrow> hello\<lparr>ServerName := name\<rparr> | None \<Rightarrow> hello)
      else if extType = extTypeALPN then hello\<lparr>ALPN := parseALPNExtension extData\<rparr>
      else hello)"

function extensions_loop :: "int \<Rightarrow> cursor \<Rightarrow> ClientHello \<Rightarrow> ClientHello" where
  "extensions_loop remaining c hello =
     (if \<not> (remaining \<ge> 4 \<and> cur_remaining c \<ge> 4) then hello
      else case cur_u16 c of
        None \<Rightarrow> hello
      | Some (extType, c1) \<Rightarrow>
          (case cur_u16 c1 of
             None \<Rightarrow> hello
           | Some (extLen, c2) \<Rightarrow>
               (case cur_bytes (uint extLen) c2 of
                  None \<Rightarrow> hello
                | Some (extData, c3) \<Rightarrow>
                    extensions_loop (remaining - 4 - uint extLen) c3
                      (handle_extension extType extData hello))))"
  by pat_completeness auto
termination
  by (relation "measure (\<lambda>(r, c, hello). length (cur_buf c) - cur_pos c)")
    (auto dest!: cur_u16_advances cur_bytes_advances)

declare sni_loop.simps [simp del] alpn_loop.simps [simp del] extensions_loop.simps [simp del]

text \<open>\<open>need r k\<close> continues with what a read returned, or ends with \<open>ErrTruncated\<close>.\<close>

definition need :: "'a option \<Rightarrow> ('a \<Rightarrow> tls_error + 'b) \<Rightarrow> tls_error + 'b" where
  "need r k = (case r of None \<Rightarrow> Inl ErrTruncated | Some x \<Rightarrow> k x)"

definition ParseClientHello :: "bytes \<Rightarrow> tls_error + ClientHello" where
  "ParseClientHello data =
     need (cur_u8 \<lparr>cur_buf = data, cur_pos = 0\<rparr>) (\<lambda>(contentType, c1).
     if contentType \<noteq> recordTypeHandshake then Inl ErrNotClientHello else
     need (cur_u16 c1) (\<lambda>(ver, c2).
     if drop_bit 8 ver \<noteq> 3 then Inl ErrNotClientHello else
     need (cur_u16 c2) (\<lambda>(_, c3).
     need (cur_u8 c3) (\<lambda>(msgType, c4).
     if msgType \<noteq> handshakeTypeClientHello then Inl ErrNotClientHello else
     need (cur_u24 c4) (\<lambda>(_, c5).
     need (cur_u16 c5) (\<lambda>(_, c6).
     need (cur_bytes 32 c6) (\<lambda>(_, c7).
     need (cur_u8 c7) (\<lambda>(sessionIDLen, c8).
     need (cur_bytes (uint sessionIDLen) c8) (\<lambda>(_, c9).
     need (cur_u16 c9) (\<lambda>(cipherSuitesLen, c10).
     need (cur_bytes (uint cipherSuitesLen) c10) (\<lambda>(_, c11).
     need (cur_u8 c11) (\<lambda>(compressionLen, c12).
     need (cur_bytes (uint compressionLen) c12) (\<lambda>(_, c13).
     let hello = \<lparr>ServerName = '''', ALPN = []\<rparr> in
     case cur_u16 c13 of
       None \<Rightarrow> Inr hello
     | Some (extensionsLen, c14) \<Rightarrow> Inr (extensions_loop (uint extensionsLen) c14 hello))))))))))))))"

section \<open>Reading from a position\<close>

text \<open>\<open>at c xs\<close>: the bytes from the position of the cursor on are \<open>xs\<close>.\<close>

definition at :: "cursor \<Rightarrow> bytes \<Rightarrow> bool" where
  "at c xs \<longleftrightarrow> cur_pos c \<le> length (cur_buf c) \<and> drop (cur_pos c) (cur_buf c) = xs"

lemma at_start [simp]: "at \<lparr>cur_buf = xs, cur_pos = 0\<rparr> xs"
  by (simp add: at_def)

lemma at_remaining: "at c xs \<Longrightarrow> cur_remaining c = int (length xs)"
  by (auto simp: at_def cur_remaining_def)

lemma at_bytes:
  assumes "at c xs"
  shows "cur_bytes (int n) c =
    (if length xs < n then None else Some (take n xs, c\<lparr>cur_pos := cur_pos c + n\<rparr>))"
    "n \<le> length xs \<Longrightarrow> at (c\<lparr>cur_pos := cur_pos c + n\<rparr>) (drop n xs)"
  using assms at_remaining [OF assms] by (auto simp: cur_bytes_def seg_def at_def add.commute)

lemma at_bytes_append:
  "at c (d @ xs) \<Longrightarrow> k = int (length d) \<Longrightarrow> \<exists>c'. cur_bytes k c = Some (d, c') \<and> at c' xs"
  using at_bytes [of c "d @ xs" "length d"] by auto

lemma at_bytes_short: "at c xs \<Longrightarrow> int (length xs) < k \<Longrightarrow> cur_bytes k c = None"
  using at_remaining [of c xs] by (simp add: cur_bytes_def)

lemma at_u8: "at c (b # xs) \<Longrightarrow> \<exists>c'. cur_u8 c = Some (b, c') \<and> at c' xs"
  using at_bytes_append [of c "[b]" xs 1] by (auto simp: cur_u8_def)

lemma at_u8_short: "at c [] \<Longrightarrow> cur_u8 c = None"
  by (simp add: cur_u8_def at_bytes_short)

definition be_u16 :: "u8 \<Rightarrow> u8 \<Rightarrow> u16" where
  "be_u16 a b = push_bit 8 (ucast a) OR ucast b"

lemma at_u16: "at c (a # b # xs) \<Longrightarrow> \<exists>c'. cur_u16 c = Some (be_u16 a b, c') \<and> at c' xs"
  using at_bytes_append [of c "[a, b]" xs 2] by (auto simp: cur_u16_def be_u16_def)

lemma at_u16_short: "at c xs \<Longrightarrow> length xs < 2 \<Longrightarrow> cur_u16 c = None"
  by (simp add: cur_u16_def at_bytes_short)

lemma at_u24: "at c (a # b # d # xs) \<Longrightarrow> \<exists>v c'. cur_u24 c = Some (v, c') \<and> at c' xs"
  using at_bytes_append [of c "[a, b, d]" xs 3] by (auto simp: cur_u24_def)

lemma at_u24_short: "at c xs \<Longrightarrow> length xs < 3 \<Longrightarrow> cur_u24 c = None"
  by (simp add: cur_u24_def at_bytes_short)

text \<open>Big-endian lengths.\<close>

definition be16 :: "nat \<Rightarrow> bytes" where
  "be16 n = [of_nat (n div 256), of_nat n]"

lemma length_be16 [simp]: "length (be16 n) = 2"
  by (simp add: be16_def)

lemma unat_be_u16: "unat (be_u16 a b) = 256 * unat a + unat b"
proof -
  have d: "push_bit 8 (ucast a :: u16) AND ucast b = 0"
    by (rule bit_word_eqI) (auto simp: bit_simps dest: bit_imp_le_length)
  have "unat a < 256" "unat b < 256" using unsigned_less [of a] unsigned_less [of b] by simp_all
  moreover have "be_u16 a b = push_bit 8 (ucast a) + ucast b"
    unfolding be_u16_def using d by (simp add: disjunctive_add_eq_or)
  ultimately show ?thesis
    by (simp add: push_bit_eq_mult unat_word_ariths unsigned_ucast_eq take_bit_eq_mod)
qed

lemma be_u16_be16: "n < 65536 \<Longrightarrow> unat (be_u16 (of_nat (n div 256)) (of_nat n)) = n"
  by (simp add: unat_be_u16 unat_of_nat)

lemma uint_be16: "n < 65536 \<Longrightarrow> uint (be_u16 (of_nat (n div 256)) (of_nat n)) = int n"
  using be_u16_be16 [of n] by (metis int_nat_eq uint_nat)

section \<open>Extensions\<close>

text \<open>The wire form of an extension, of a server name and of a protocol list.\<close>

fun enc_ext :: "u16 \<times> bytes \<Rightarrow> bytes" where
  "enc_ext (t, d) = be16 (unat t) @ be16 (length d) @ d"

definition enc_exts :: "(u16 \<times> bytes) list \<Rightarrow> bytes" where
  "enc_exts es = concat (map enc_ext es)"

definition sni_bytes :: "bytes \<Rightarrow> bytes" where
  "sni_bytes host = be16 (length host + 3) @ [sniNameTypeHostName] @ be16 (length host) @ host"

definition alpn_entry :: "bytes \<Rightarrow> bytes" where
  "alpn_entry p = of_nat (length p) # p"

definition alpn_bytes :: "bytes list \<Rightarrow> bytes" where
  "alpn_bytes ps = (let es = concat (map alpn_entry ps) in be16 (length es) @ es)"

lemma parseSNI_sni_bytes:
  assumes "length host + 3 < 65536"
  shows "parseSNIExtension (sni_bytes host) = Some (str_of host)"
proof -
  let ?d = "sni_bytes host"
  have "at \<lparr>cur_buf = ?d, cur_pos = 0\<rparr> (of_nat ((length host + 3) div 256) # of_nat (length host + 3) #
      sniNameTypeHostName # be16 (length host) @ host)"
    by (simp add: at_def sni_bytes_def be16_def)
  from at_u16 [OF this] obtain c where
    c: "cur_u16 \<lparr>cur_buf = ?d, cur_pos = 0\<rparr> =
         Some (be_u16 (of_nat ((length host + 3) div 256)) (of_nat (length host + 3)), c)"
       "at c (sniNameTypeHostName # be16 (length host) @ host)" by blast
  have pos: "cur_pos c = 2" using cur_u16_advances [OF c(1)] by simp
  obtain c1 where c1: "cur_u8 c = Some (sniNameTypeHostName, c1)" "at c1 (be16 (length host) @ host)"
    using at_u8 [OF c(2)] by blast
  obtain c2 where c2: "cur_u16 c1 = Some (be_u16 (of_nat (length host div 256)) (of_nat (length host)), c2)"
    "at c2 host" using at_u16 [of c1 "of_nat (length host div 256)" "of_nat (length host)" host] c1(2)
    by (auto simp: be16_def)
  have n: "uint (be_u16 (of_nat (length host div 256)) (of_nat (length host))) = int (length host)"
    by (rule uint_be16) (use assms in simp)
  obtain c3 where c3: "cur_bytes (int (length host)) c2 = Some (host, c3)"
    using at_bytes_append [of c2 host "[]"] c2(2) by auto
  have "sni_loop k c = Some (str_of host)" if "2 < k" for k
    using that by (subst sni_loop.simps) (simp add: pos c1(1) c2(1) n c3)
  moreover have "length ?d = length host + 5" by (simp add: sni_bytes_def)
  ultimately show ?thesis
    using c(1) be_u16_be16 [OF assms] by (simp add: parseSNIExtension_def Let_def)
qed

lemma alpn_loop_entries:
  "at c (concat (map alpn_entry ps)) \<Longrightarrow> \<forall>p\<in>set ps. length p < 256 \<Longrightarrow>
    alpn_loop c acc = acc @ map str_of ps"
proof (induction ps arbitrary: c acc)
  case Nil
  then show ?case by (subst alpn_loop.simps) (simp add: at_remaining)
next
  case (Cons p ps)
  have "at c (of_nat (length p) # p @ concat (map alpn_entry ps))"
    using Cons.prems(1) by (simp add: alpn_entry_def [of p])
  from at_u8 [OF this] obtain c1 where c1: "cur_u8 c = Some (of_nat (length p), c1)"
    "at c1 (p @ concat (map alpn_entry ps))" by blast
  have n: "uint (of_nat (length p) :: u8) = int (length p)"
    using Cons.prems(2) by (simp add: uint_nat unat_of_nat)
  obtain c2 where c2: "cur_bytes (int (length p)) c1 = Some (p, c2)" "at c2 (concat (map alpn_entry ps))"
    using at_bytes_append [OF c1(2)] by auto
  have "cur_remaining c > 0" using at_remaining [OF Cons.prems(1)] by (simp add: alpn_entry_def)
  then have "alpn_loop c acc = alpn_loop c2 (acc @ [str_of p])"
    by (subst alpn_loop.simps) (simp add: c1(1) n c2(1))
  then show ?case using Cons.IH [OF c2(2)] Cons.prems(2) by simp
qed

lemma parseALPN_alpn_bytes:
  assumes "\<forall>p\<in>set ps. length p < 256"
  shows "parseALPNExtension (alpn_bytes ps) = map str_of ps"
proof -
  let ?es = "concat (map alpn_entry ps)"
  have "at \<lparr>cur_buf = alpn_bytes ps, cur_pos = 0\<rparr> (of_nat (length ?es div 256) # of_nat (length ?es) # ?es)"
    by (simp add: at_def alpn_bytes_def be16_def Let_def)
  from at_u16 [OF this] obtain v c where "cur_u16 \<lparr>cur_buf = alpn_bytes ps, cur_pos = 0\<rparr> = Some (v, c)"
    "at c ?es" by blast
  then show ?thesis using alpn_loop_entries [OF _ assms, of c "[]"] by (simp add: parseALPNExtension_def)
qed

text \<open>The extensions that fit whole into a capture of \<open>m\<close> bytes of the extension block.\<close>

fun complete :: "nat \<Rightarrow> (u16 \<times> bytes) list \<Rightarrow> (u16 \<times> bytes) list" where
  "complete m [] = []"
| "complete m (e # es) =
     (if length (enc_ext e) \<le> m then e # complete (m - length (enc_ext e)) es else [])"

definition apply_exts :: "(u16 \<times> bytes) list \<Rightarrow> ClientHello \<Rightarrow> ClientHello" where
  "apply_exts es h = fold (\<lambda>(t, d). handle_extension t d) es h"

lemma extensions_loop_complete:
  assumes "at c (take m (enc_exts es))" "\<forall>(t, d)\<in>set es. length d < 65536"
    and "int (length (enc_exts es)) \<le> rem"
  shows "extensions_loop rem c h = apply_exts (complete m es) h"
  using assms
proof (induction es arbitrary: m c rem h)
  case Nil
  then show ?case by (subst extensions_loop.simps) (simp add: at_remaining enc_exts_def apply_exts_def)
next
  case (Cons e es)
  obtain t d where e: "e = (t, d)" by fastforce
  have d: "length d < 65536" using Cons.prems(2) e by auto
  have r: "cur_remaining c = int (min (length (enc_exts (e # es))) m)"
    using at_remaining [OF Cons.prems(1)] by simp
  have lenc: "length (enc_exts (e # es)) = 4 + length d + length (enc_exts es)"
    by (simp add: enc_exts_def e)
  show ?case
  proof (cases "m < 4")
    case True
    then show ?thesis using r by (subst extensions_loop.simps) (simp add: e apply_exts_def)
  next
    case False
    define k where "k = m - 4"
    with False have k: "m = Suc (Suc (Suc (Suc k)))" by simp
    have "take m (enc_exts (e # es)) = of_nat (unat t div 256) # of_nat (unat t) #
        of_nat (length d div 256) # of_nat (length d) # take k (d @ enc_exts es)"
      by (simp add: enc_exts_def e be16_def k)
    from at_u16 [OF Cons.prems(1) [unfolded this]] obtain c1 where
      c1: "cur_u16 c = Some (be_u16 (of_nat (unat t div 256)) (of_nat (unat t)), c1)"
      "at c1 (of_nat (length d div 256) # of_nat (length d) # take k (d @ enc_exts es))" by blast
    from at_u16 [OF c1(2)] obtain c2 where
      c2: "cur_u16 c1 = Some (be_u16 (of_nat (length d div 256)) (of_nat (length d)), c2)"
      "at c2 (take k (d @ enc_exts es))" by blast
    have t: "be_u16 (of_nat (unat t div 256)) (of_nat (unat t)) = t"
      using be_u16_be16 [of "unat t"] unsigned_less [of t] by (simp add: word_unat_eq_iff)
    have n: "uint (be_u16 (of_nat (length d div 256)) (of_nat (length d))) = int (length d)"
      by (rule uint_be16 [OF d])
    have go: "rem \<ge> 4 \<and> cur_remaining c \<ge> 4" using r lenc Cons.prems(3) False by simp
    show ?thesis
    proof (cases "k < length d")
      case True
      then have "cur_bytes (int (length d)) c2 = None"
        using at_bytes_short [OF c2(2)] by simp
      then have "extensions_loop rem c h = h"
        using go by (subst extensions_loop.simps) (simp add: c1(1) c2(1) n)
      then show ?thesis using True by (simp add: e k apply_exts_def)
    next
      case fits: False
      then have "at c2 (d @ take (k - length d) (enc_exts es))" using c2(2) by simp
      from at_bytes_append [OF this refl] obtain c3 where
        c3: "cur_bytes (int (length d)) c2 = Some (d, c3)" "at c3 (take (k - length d) (enc_exts es))" by blast
      have "extensions_loop rem c h =
          extensions_loop (rem - 4 - int (length d)) c3 (handle_extension t d h)"
        using go by (subst extensions_loop.simps) (simp add: c1(1) c2(1) n t [simplified] c3(1))
      also have "\<dots> = apply_exts (complete (k - length d) es) (handle_extension t d h)"
        by (rule Cons.IH [OF c3(2)]) (use Cons.prems lenc in auto)
      finally show ?thesis using fits by (simp add: e k apply_exts_def)
    qed
  qed
qed

section \<open>Whole messages\<close>

record hello_msg =
  hm_minor :: u8
  hm_record_len :: "u8 \<times> u8"
  hm_body_len :: "u8 \<times> u8 \<times> u8"
  hm_version :: "u8 \<times> u8"
  hm_random :: bytes
  hm_session :: bytes
  hm_ciphers :: bytes
  hm_compression :: bytes
  hm_exts :: "(u16 \<times> bytes) list"

definition hello_msg_ok :: "hello_msg \<Rightarrow> bool" where
  "hello_msg_ok m \<longleftrightarrow> length (hm_random m) = 32 \<and> length (hm_session m) < 256 \<and>
     length (hm_ciphers m) < 65536 \<and> length (hm_compression m) < 256 \<and>
     length (enc_exts (hm_exts m)) < 65536"

text \<open>The fixed part, through the compression methods, and the whole message.\<close>

definition hello_prefix :: "hello_msg \<Rightarrow> bytes" where
  "hello_prefix m =
     [0x16, 3, hm_minor m, fst (hm_record_len m), snd (hm_record_len m), 0x01,
      fst (hm_body_len m), fst (snd (hm_body_len m)), snd (snd (hm_body_len m)),
      fst (hm_version m), snd (hm_version m)] @ hm_random m @
     of_nat (length (hm_session m)) # hm_session m @
     be16 (length (hm_ciphers m)) @ hm_ciphers m @
     of_nat (length (hm_compression m)) # hm_compression m"

definition hello_bytes :: "hello_msg \<Rightarrow> bytes" where
  "hello_bytes m = hello_prefix m @ be16 (length (enc_exts (hm_exts m))) @ enc_exts (hm_exts m)"

text \<open>One read of the fixed part: it ends the parse when the capture ends before it.\<close>

lemma need_u8I:
  assumes "at c (take n (b # xs))" "n < 1 \<Longrightarrow> Inl ErrTruncated = R"
    and "\<And>c' m. n = 1 + m \<Longrightarrow> at c' (take m xs) \<Longrightarrow> f (b, c') = R"
  shows "need (cur_u8 c) f = R"
proof (cases n)
  case 0
  then show ?thesis using assms(1,2) by (simp add: need_def at_u8_short)
next
  case (Suc m)
  with assms(1) at_u8 [of c b "take m xs"] show ?thesis using assms(3) by (force simp: need_def)
qed

lemma need_u16I:
  assumes "at c (take n (a # b # xs))" "n < 2 \<Longrightarrow> Inl ErrTruncated = R"
    and "\<And>c' m. n = 2 + m \<Longrightarrow> at c' (take m xs) \<Longrightarrow> f (be_u16 a b, c') = R"
  shows "need (cur_u16 c) f = R"
proof (cases "n < 2")
  case True
  then show ?thesis using assms(1,2) by (simp add: need_def at_u16_short)
next
  case False
  then obtain m where m: "n = Suc (Suc m)" by (metis add_2_eq_Suc le_Suc_ex not_less)
  with assms(1) at_u16 [of c a b "take m xs"] show ?thesis using assms(3) by (force simp: need_def)
qed

lemma need_u24I:
  assumes "at c (take n (a # b # d # xs))" "n < 3 \<Longrightarrow> Inl ErrTruncated = R"
    and "\<And>v c' m. n = 3 + m \<Longrightarrow> at c' (take m xs) \<Longrightarrow> f (v, c') = R"
  shows "need (cur_u24 c) f = R"
proof (cases "n < 3")
  case True
  then show ?thesis using assms(1,2) by (simp add: need_def at_u24_short)
next
  case False
  define m where "m = n - 3"
  with False have m: "n = Suc (Suc (Suc m))" by simp
  with assms(1) at_u24 [of c a b d "take m xs"] show ?thesis using assms(3) by (force simp: need_def)
qed

lemma need_bytesI:
  assumes "at c (take n (d @ xs))" "k = int (length d)" "n < length d \<Longrightarrow> Inl ErrTruncated = R"
    and "\<And>c' m. n = length d + m \<Longrightarrow> at c' (take m xs) \<Longrightarrow> f (d, c') = R"
  shows "need (cur_bytes k c) f = R"
proof (cases "n < length d")
  case True
  then show ?thesis using assms(1-3) by (simp add: need_def at_bytes_short)
next
  case False
  then obtain m where m: "n = length d + m" by (metis le_Suc_ex not_less)
  with assms(1) at_bytes_append [of c d "take m xs" k] assms(2) show ?thesis
    using assms(4) by (force simp: need_def)
qed

lemma uint_u8_length: "n < 256 \<Longrightarrow> uint (of_nat n :: u8) = int n"
  by (simp add: uint_nat unat_of_nat)

lemma be_u16_high: "drop_bit 8 (be_u16 a b) = ucast a"
  by (rule bit_word_eqI) (auto simp: be_u16_def bit_simps dest: bit_imp_le_length)

text \<open>Parsing the first \<open>n\<close> bytes of a message.\<close>

definition no_hello :: ClientHello where
  "no_hello = \<lparr>ServerName = '''', ALPN = []\<rparr>"

lemma parse_captured:
  assumes ok: "hello_msg_ok m"
  shows "ParseClientHello (take n (hello_bytes m)) =
    (if n < length (hello_prefix m) then Inl ErrTruncated
     else Inr (if n < length (hello_prefix m) + 2 then no_hello
       else apply_exts (complete (n - length (hello_prefix m) - 2) (hm_exts m)) no_hello))"
    (is "_ = ?R")
proof -
  let ?cs = "hm_ciphers m" and ?E = "enc_exts (hm_exts m)"
  have P: "length (hello_prefix m) = 47 + length (hm_session m) + length ?cs + length (hm_compression m)"
    using ok by (simp add: hello_prefix_def hello_msg_ok_def)
  have E: "\<forall>(t, d)\<in>set (hm_exts m). length d < 65536"
  proof (clarify)
    fix t d assume "(t, d) \<in> set (hm_exts m)"
    then have "length (enc_ext (t, d)) \<le> length ?E"
      unfolding enc_exts_def length_concat
      by (intro member_le_sum_list) (auto simp del: enc_ext.simps)
    then show "length d < 65536" using ok by (simp add: hello_msg_ok_def)
  qed
  have start: "at \<lparr>cur_buf = take n (hello_bytes m), cur_pos = 0\<rparr>
     (take n (0x16 # 3 # hm_minor m # fst (hm_record_len m) # snd (hm_record_len m) # 0x01 #
      fst (hm_body_len m) # fst (snd (hm_body_len m)) # snd (snd (hm_body_len m)) #
      fst (hm_version m) # snd (hm_version m) # hm_random m @
      of_nat (length (hm_session m)) # hm_session m @
      of_nat (length ?cs div 256) # of_nat (length ?cs) # ?cs @
      of_nat (length (hm_compression m)) # hm_compression m @
      of_nat (length ?E div 256) # of_nat (length ?E) # ?E))"
    by (simp add: hello_bytes_def hello_prefix_def be16_def)
  have ver: "drop_bit 8 (be_u16 3 x) = 3" for x by (simp add: be_u16_high)
  have final: "(case cur_u16 c of None \<Rightarrow> Inr no_hello
       | Some (l, c') \<Rightarrow> Inr (extensions_loop (uint l) c' no_hello)) =
     (Inr (if k < 2 then no_hello else apply_exts (complete (k - 2) (hm_exts m)) no_hello) :: tls_error + ClientHello)"
    if a: "at c (take k (of_nat (length ?E div 256) # of_nat (length ?E) # ?E))" for c k
  proof (cases "k < 2")
    case True
    then show ?thesis using at_u16_short [OF a] by simp
  next
    case False
    then obtain j where j: "k = Suc (Suc j)" by (metis add_2_eq_Suc le_Suc_ex not_less)
    obtain c' where c': "cur_u16 c = Some (be_u16 (of_nat (length ?E div 256)) (of_nat (length ?E)), c')"
      "at c' (take j ?E)" using at_u16 [of c _ _ "take j ?E"] a by (auto simp: j)
    have u: "uint (be_u16 (of_nat (length ?E div 256)) (of_nat (length ?E))) = int (length ?E)"
      by (rule uint_be16) (use ok in \<open>simp add: hello_msg_ok_def\<close>)
    show ?thesis using extensions_loop_complete [OF c'(2) E, of "int (length ?E)" no_hello]
      by (simp add: c'(1) u j)
  qed
  note lens = ok [unfolded hello_msg_ok_def]
  show ?thesis
    unfolding ParseClientHello_def P
    apply (rule need_u8I [OF start], simp, simp only: prod.case recordTypeHandshake_def simp_thms if_False)
    apply (erule need_u16I, simp, simp only: prod.case ver simp_thms if_False)
    apply (erule need_u16I, simp, simp only: prod.case)
    apply (erule need_u8I, simp, simp only: prod.case handshakeTypeClientHello_def simp_thms if_False)
    apply (erule need_u24I, simp, simp only: prod.case)
    apply (erule need_u16I, simp, simp only: prod.case)
    apply (erule need_bytesI, simp add: lens, simp add: lens, simp only: prod.case)
    apply (erule need_u8I, simp add: lens, simp only: prod.case uint_u8_length lens)
    apply (erule need_bytesI, rule refl, simp add: lens, simp only: prod.case)
    apply (erule need_u16I, simp add: lens, simp only: prod.case uint_be16 lens)
    apply (erule need_bytesI, rule refl, simp add: lens, simp only: prod.case)
    apply (erule need_u8I, simp add: lens, simp only: prod.case uint_u8_length lens)
    apply (erule need_bytesI, rule refl, simp add: lens, simp only: prod.case)
    apply (simp only: Let_def no_hello_def [symmetric], drule final)
    apply (simp add: lens)
    done
qed

section \<open>What a truncated capture can say\<close>

definition exts_of :: "u16 \<Rightarrow> (u16 \<times> bytes) list \<Rightarrow> bytes list" where
  "exts_of t es = map snd (filter (\<lambda>e. fst e = t) es)"

lemma exts_of_simps [simp]:
  "exts_of t [] = []" "exts_of t ((t', d) # es) = (if t' = t then d # exts_of t es else exts_of t es)"
  by (simp_all add: exts_of_def)

lemma complete_prefix: "\<exists>rest. es = complete k es @ rest"
  by (induction k es rule: complete.induct) auto

lemma complete_all: "length (enc_exts es) \<le> k \<Longrightarrow> complete k es = es"
  by (induction k es rule: complete.induct) (auto simp: enc_exts_def simp del: enc_ext.simps)

lemma exts_of_complete: "exts_of t es = [d] \<Longrightarrow> exts_of t (complete k es) \<in> {[], [d]}"
proof -
  assume e: "exts_of t es = [d]"
  obtain rest where "es = complete k es @ rest" using complete_prefix by blast
  then have "exts_of t es = exts_of t (complete k es) @ exts_of t rest"
    by (metis exts_of_def filter_append map_append)
  with e show ?thesis by (cases "exts_of t (complete k es)") auto
qed

lemma ext_types_distinct [simp]: "extTypeALPN \<noteq> extTypeSNI" "extTypeSNI \<noteq> extTypeALPN"
  by (simp_all add: extTypeSNI_def extTypeALPN_def)

lemma apply_exts_Cons [simp]:
  "apply_exts [] h = h" "apply_exts ((t, d) # es) h = apply_exts es (handle_extension t d h)"
  by (simp_all add: apply_exts_def)

lemma apply_exts_no_name:
  "exts_of extTypeSNI es = [] \<Longrightarrow> ServerName (apply_exts es h) = ServerName h"
  by (induction es arbitrary: h) (auto simp: handle_extension_def split: if_splits)

lemma apply_exts_name:
  assumes "parseSNIExtension d = Some name"
  shows "exts_of extTypeSNI es = [d] \<Longrightarrow> ServerName (apply_exts es h) = name"
  using assms
  by (induction es arbitrary: h)
    (auto simp: handle_extension_def apply_exts_no_name split: if_splits)

lemma apply_exts_no_alpn: "exts_of extTypeALPN es = [] \<Longrightarrow> ALPN (apply_exts es h) = ALPN h"
  by (induction es arbitrary: h) (auto simp: handle_extension_def split: if_splits option.splits)

lemma apply_exts_alpn: "exts_of extTypeALPN es = [d] \<Longrightarrow> ALPN (apply_exts es h) = parseALPNExtension d"
  by (induction es arbitrary: h)
    (auto simp: handle_extension_def apply_exts_no_alpn split: if_splits option.splits)

section \<open>Properties\<close>

text \<open>
  C28. A capture limit never misleads the parser: of a ClientHello with one server name and one
  protocol list among any other extensions, every prefix parses to that name or to none and to
  that protocol list or to none; the whole message yields both; and a prefix that ends within the
  fixed part is reported as truncated, never as something that is not a ClientHello.
\<close>

theorem capture_limit_never_misleads:
  assumes "hello_msg_ok m" "exts_of extTypeSNI (hm_exts m) = [sni_bytes host]"
    and "exts_of extTypeALPN (hm_exts m) = [alpn_bytes protos]"
    and "length host + 3 < 65536" "list_all (\<lambda>p. length p < 256) protos"
  shows "if n < length (hello_prefix m) then ParseClientHello (take n (hello_bytes m)) = Inl ErrTruncated
    else \<exists>h. ParseClientHello (take n (hello_bytes m)) = Inr h \<and>
      ServerName h \<in> {'''', str_of host} \<and> ALPN h \<in> {[], map str_of protos} \<and>
      (n \<ge> length (hello_bytes m) \<longrightarrow> ServerName h = str_of host \<and> ALPN h = map str_of protos)"
proof (cases "n < length (hello_prefix m)")
  case True
  then show ?thesis using parse_captured [OF assms(1)] by simp
next
  case False
  let ?k = "n - length (hello_prefix m) - 2"
  let ?h = "if n < length (hello_prefix m) + 2 then no_hello else apply_exts (complete ?k (hm_exts m)) no_hello"
  have name: "parseSNIExtension (sni_bytes host) = Some (str_of host)" by (rule parseSNI_sni_bytes [OF assms(4)])
  have alpn: "parseALPNExtension (alpn_bytes protos) = map str_of protos"
    by (rule parseALPN_alpn_bytes) (use assms(5) in \<open>simp add: list_all_iff\<close>)
  have "ServerName ?h \<in> {'''', str_of host}"
    using exts_of_complete [OF assms(2), of ?k] apply_exts_name [OF name, of "complete ?k (hm_exts m)" no_hello]
      apply_exts_no_name [of "complete ?k (hm_exts m)" no_hello] by (auto simp: no_hello_def)
  moreover have "ALPN ?h \<in> {[], map str_of protos}"
    using exts_of_complete [OF assms(3), of ?k] apply_exts_alpn [of "complete ?k (hm_exts m)" _ no_hello]
      apply_exts_no_alpn [of "complete ?k (hm_exts m)" no_hello] alpn by (auto simp: no_hello_def)
  moreover have "ServerName ?h = str_of host \<and> ALPN ?h = map str_of protos" if "n \<ge> length (hello_bytes m)"
  proof -
    have "length (enc_exts (hm_exts m)) \<le> ?k" "\<not> n < length (hello_prefix m) + 2"
      using that by (simp_all add: hello_bytes_def)
    then show ?thesis
      using apply_exts_name [OF name assms(2)] apply_exts_alpn [OF assms(3)] alpn by (simp add: complete_all)
  qed
  ultimately show ?thesis using False parse_captured [OF assms(1), of n] by auto
qed

definition ex_hello :: hello_msg where
  "ex_hello = \<lparr>hm_minor = 1, hm_record_len = (0, 90), hm_body_len = (0, 0, 86), hm_version = (3, 3),
     hm_random = replicate 32 7, hm_session = [], hm_ciphers = [0x13, 0x01], hm_compression = [0],
     hm_exts = [(0x2b, [2, 3, 4]), (extTypeSNI, sni_bytes (bytes_of ''api.example.com'')),
       (extTypeALPN, alpn_bytes [bytes_of ''h2'', bytes_of ''http/1.1''])]\<rparr>"

theorem capture_limit_never_misleads_witness:
  "\<exists>h. ParseClientHello (hello_bytes ex_hello) = Inr h \<and>
    ServerName h = ''api.example.com'' \<and> ALPN h = [''h2'', ''http/1.1'']"
proof -
  have 1: "hello_msg_ok ex_hello"
    by (simp add: hello_msg_ok_def ex_hello_def enc_exts_def sni_bytes_def alpn_bytes_def alpn_entry_def Let_def)
  have 2: "exts_of extTypeSNI (hm_exts ex_hello) = [sni_bytes (bytes_of ''api.example.com'')]"
    "exts_of extTypeALPN (hm_exts ex_hello) = [alpn_bytes [bytes_of ''h2'', bytes_of ''http/1.1'']]"
    by (simp_all add: ex_hello_def extTypeSNI_def extTypeALPN_def)
  have 3: "length (bytes_of ''api.example.com'') + 3 < 65536"
    "list_all (\<lambda>p. length p < 256) [bytes_of ''h2'', bytes_of ''http/1.1'']" by simp_all
  have 4: "\<not> length (hello_bytes ex_hello) < length (hello_prefix ex_hello)"
    by (simp add: hello_bytes_def)
  show ?thesis
    using capture_limit_never_misleads [OF 1 2 3, of "length (hello_bytes ex_hello)"] 4
    by auto
qed

end
