(* ===== verification/Http1.thy ===== *)
theory Http1
  imports Prelude
begin

text \<open>
  The HTTP/1.1 request parser of \<open>pkg/tlsparse\<close> (\<open>http1.go\<close>, \<open>stream.go\<close>). A \<open>Stream\<close> buffers
  the plaintext of one thread; \<open>ParseHTTP1\<close> takes one request from its front, asks for more
  data, or fails. The reader for the header block follows \<open>net/textproto\<close> of the standard
  library as the parser uses it, \<open>TrimSpace\<close> and \<open>ParseUint\<close> follow \<open>strings\<close> and \<open>strconv\<close>.
  The type \<open>int\<close> of Go is a 64-bit word where a value read from the wire is stored in it.
\<close>

section \<open>Bytes\<close>

definition SP :: u8 where "SP = 32"
definition TAB :: u8 where "TAB = 9"
definition LF :: u8 where "LF = 10"
definition CR :: u8 where "CR = 13"
definition CRLF :: bytes where "CRLF = [CR, LF]"

text \<open>\<open>bytes.Index\<close> and \<open>bytes.IndexByte\<close>; \<open>None\<close> is the result -1.\<close>

fun index_of :: "bytes \<Rightarrow> bytes \<Rightarrow> nat option" where
  "index_of p [] = (if p = [] then Some 0 else None)"
| "index_of p (b # s) =
     (if take (length p) (b # s) = p then Some 0 else map_option Suc (index_of p s))"

definition index_byte :: "u8 \<Rightarrow> bytes \<Rightarrow> nat option" where
  "index_byte b s = index_of [b] s"

definition is_space_tab :: "u8 \<Rightarrow> bool" where
  "is_space_tab b \<longleftrightarrow> b = SP \<or> b = TAB"

definition trim_left :: "bytes \<Rightarrow> bytes" where
  "trim_left s = dropWhile is_space_tab s"

text \<open>\<open>textproto\<close>'s \<open>trim\<close>: spaces and tabs at both ends.\<close>

definition trim :: "bytes \<Rightarrow> bytes" where
  "trim s = rev (trim_left (rev (trim_left s)))"

definition is_digit :: "u8 \<Rightarrow> bool" where "is_digit b \<longleftrightarrow> 48 \<le> b \<and> b \<le> 57"
definition is_upper :: "u8 \<Rightarrow> bool" where "is_upper b \<longleftrightarrow> 65 \<le> b \<and> b \<le> 90"
definition is_lower :: "u8 \<Rightarrow> bool" where "is_lower b \<longleftrightarrow> 97 \<le> b \<and> b \<le> 122"

section \<open>The stream\<close>

record Stream =
  st_buf :: bytes

definition NewStream :: Stream where
  "NewStream = \<lparr>st_buf = []\<rparr>"

definition Append :: "bytes \<Rightarrow> Stream \<Rightarrow> Stream" where
  "Append data s = s\<lparr>st_buf := st_buf s @ data\<rparr>"

definition Len :: "Stream \<Rightarrow> nat" where
  "Len s = length (st_buf s)"

definition consume :: "nat \<Rightarrow> Stream \<Rightarrow> Stream" where
  "consume n s = s\<lparr>st_buf := drop n (st_buf s)\<rparr>"

section \<open>Header blocks\<close>

text \<open>A \<open>textproto.MIMEHeader\<close> is a map from canonical names to the values in order.\<close>

type_synonym MIMEHeader = "string \<Rightarrow> string list option"

definition validHeaderFieldByte :: "u8 \<Rightarrow> bool" where
  "validHeaderFieldByte b \<longleftrightarrow> is_digit b \<or> is_upper b \<or> is_lower b \<or>
     b \<in> set (bytes_of ''!#$%&*+-.^_`|~'') \<or> b = 39"

definition validHeaderValueByte :: "u8 \<Rightarrow> bool" where
  "validHeaderValueByte b \<longleftrightarrow> b = TAB \<or> (32 \<le> b \<and> b \<noteq> 127)"

fun canonicalize :: "bool \<Rightarrow> bytes \<Rightarrow> bytes" where
  "canonicalize up [] = []"
| "canonicalize up (c # cs) =
     (if up \<and> is_lower c then c - 32 else if \<not> up \<and> is_upper c then c + 32 else c)
     # canonicalize (c = 45) cs"

text \<open>\<open>canonicalMIMEHeaderKey\<close>: \<open>None\<close> for a name that is not valid. A name with a space in it is
  kept as it is.\<close>

definition canonicalMIMEHeaderKey :: "bytes \<Rightarrow> string option" where
  "canonicalMIMEHeaderKey a =
     (if a = [] \<or> (\<exists>c\<in>set a. \<not> validHeaderFieldByte c \<and> c \<noteq> SP) then None
      else if SP \<in> set a then Some (str_of a)
      else Some (str_of (canonicalize True a)))"

text \<open>\<open>readLineSlice\<close>: the next line without its end, and what follows it; \<open>None\<close> at the end of
  the input.\<close>

definition drop_last_CR :: "bytes \<Rightarrow> bytes" where
  "drop_last_CR l = (if l \<noteq> [] \<and> last l = CR then butlast l else l)"

definition readLine :: "bytes \<Rightarrow> (bytes \<times> bytes) option" where
  "readLine s =
     (if s = [] then None
      else case index_byte LF s of
        None \<Rightarrow> Some (s, [])
      | Some i \<Rightarrow> Some (drop_last_CR (take i s), drop (Suc i) s))"

lemma readLine_shorter: "readLine s = Some (l, r) \<Longrightarrow> length r < length s"
  by (auto simp: readLine_def split: if_splits option.splits)

text \<open>The continuation lines of a header line: while the next line starts with a space or a tab,
  it is joined by one space. \<open>readContinuedLine\<close> returns \<open>Inl\<close> for a first line without colon,
  an empty line at the end of the input.\<close>

function continue_lines :: "bytes \<Rightarrow> bytes \<Rightarrow> bytes \<times> bytes" where
  "continue_lines buf s =
     (if s = [] \<or> \<not> is_space_tab (hd s) then (buf, s)
      else case readLine (trim_left s) of
        None \<Rightarrow> (buf @ [SP], trim_left s)
      | Some (line, r) \<Rightarrow> continue_lines (buf @ [SP] @ trim line) r)"
  by pat_completeness auto
termination
proof (relation "measure (\<lambda>(buf, s). length s)")
  fix buf s x line r
  assume "readLine (trim_left s) = Some x" "(line, r) = x"
  then have "length r < length (trim_left s)" by (auto dest: readLine_shorter)
  also have "\<dots> \<le> length s" by (simp add: trim_left_def length_dropWhile_le)
  finally show "((buf @ [SP] @ trim line, r), (buf, s)) \<in> measure (\<lambda>(buf, s). length s)" by simp
qed simp

declare continue_lines.simps [simp del]

definition readContinuedLine :: "bytes \<Rightarrow> (bytes \<times> bytes) option" where
  "readContinuedLine s =
     (case readLine s of
        None \<Rightarrow> Some ([], [])
      | Some (line, r) \<Rightarrow>
          if line = [] then Some ([], r)
          else if 58 \<notin> set line then None
          else Some (continue_lines (trim line) r))"

lemma continue_lines_shorter: "length (snd (continue_lines buf s)) \<le> length s"
proof (induction buf s rule: continue_lines.induct)
  case (1 buf s)
  have t: "length (trim_left s) \<le> length s" by (simp add: trim_left_def length_dropWhile_le)
  show ?case
  proof (cases "s = [] \<or> \<not> is_space_tab (hd s)")
    case False
    show ?thesis
    proof (cases "readLine (trim_left s)")
      case None
      with False t show ?thesis by (subst continue_lines.simps) simp
    next
      case (Some x)
      obtain line r where x: "x = (line, r)" by (cases x)
      with Some have "length r < length (trim_left s)" by (auto dest: readLine_shorter)
      with 1 [OF False Some x [symmetric]] t have
        "length (snd (continue_lines (buf @ [SP] @ trim line) r)) \<le> length s" by simp
      with False Some x show ?thesis by (subst continue_lines.simps) simp
    qed
  qed (subst continue_lines.simps, simp)
qed

lemma readContinuedLine_shorter:
  assumes "readContinuedLine s = Some (kv, r)" "kv \<noteq> []"
  shows "length r < length s"
proof -
  obtain line r' where l: "readLine s = Some (line, r')"
    using assms by (auto simp: readContinuedLine_def split: option.splits)
  with assms have "(kv, r) = continue_lines (trim line) r'"
    by (auto simp: readContinuedLine_def split: if_splits)
  then have "length r \<le> length r'" using continue_lines_shorter [of "trim line" r'] by (metis snd_conv)
  with readLine_shorter [OF l] show ?thesis by simp
qed

text \<open>The loop of \<open>ReadMIMEHeader\<close>; \<open>None\<close> is a malformed header. The loop ends without error at
  the first empty line or at the end of the input.\<close>

definition add_value :: "string \<Rightarrow> string \<Rightarrow> MIMEHeader \<Rightarrow> MIMEHeader" where
  "add_value k v m = m(k \<mapsto> (case m k of None \<Rightarrow> [v] | Some vv \<Rightarrow> vv @ [v]))"

definition header_line :: "bytes \<Rightarrow> (string \<times> string) option" where
  "header_line kv =
     (case index_byte 58 kv of
        None \<Rightarrow> None
      | Some i \<Rightarrow>
          (case canonicalMIMEHeaderKey (take i kv) of
             None \<Rightarrow> None
           | Some key \<Rightarrow>
               let v = drop (Suc i) kv
               in if \<exists>c\<in>set v. \<not> validHeaderValueByte c then None
                  else Some (key, str_of (trim_left v))))"

function header_lines :: "bytes \<Rightarrow> MIMEHeader \<Rightarrow> MIMEHeader option" where
  "header_lines s m =
     (case readContinuedLine s of
        None \<Rightarrow> None
      | Some (kv, r) \<Rightarrow>
          if kv = [] then Some m
          else case header_line kv of
            None \<Rightarrow> None
          | Some (k, v) \<Rightarrow> header_lines r (add_value k v m))"
  by pat_completeness auto
termination
  by (relation "measure (\<lambda>(s, m). length s)") (auto dest: readContinuedLine_shorter)

declare header_lines.simps [simp del]

definition ReadMIMEHeader :: "bytes \<Rightarrow> MIMEHeader option" where
  "ReadMIMEHeader s =
     (if s \<noteq> [] \<and> is_space_tab (hd s) then None else header_lines s Map.empty)"

text \<open>\<open>MIMEHeader.Get\<close> for a name that is canonical already.\<close>

definition Get :: "MIMEHeader \<Rightarrow> string \<Rightarrow> string" where
  "Get h k = (case h k of Some (v # _) \<Rightarrow> v | _ \<Rightarrow> '''')"

section \<open>Numbers\<close>

text \<open>\<open>unicode.IsSpace\<close>: the encodings of the white space characters.\<close>

definition ws_runes :: "bytes list" where
  "ws_runes = [[9], [10], [11], [12], [13], [32], [0xC2, 0x85], [0xC2, 0xA0], [0xE1, 0x9A, 0x80],
     [0xE2, 0x80, 0x80], [0xE2, 0x80, 0x81], [0xE2, 0x80, 0x82], [0xE2, 0x80, 0x83],
     [0xE2, 0x80, 0x84], [0xE2, 0x80, 0x85], [0xE2, 0x80, 0x86], [0xE2, 0x80, 0x87],
     [0xE2, 0x80, 0x88], [0xE2, 0x80, 0x89], [0xE2, 0x80, 0x8A], [0xE2, 0x80, 0xA8],
     [0xE2, 0x80, 0xA9], [0xE2, 0x80, 0xAF], [0xE2, 0x81, 0x9F], [0xE3, 0x80, 0x80]]"

function strip_prefixes :: "bytes list \<Rightarrow> bytes \<Rightarrow> bytes" where
  "strip_prefixes ws s =
     (case find (\<lambda>w. w \<noteq> [] \<and> take (length w) s = w) ws of
        None \<Rightarrow> s
      | Some w \<Rightarrow> strip_prefixes ws (drop (length w) s))"
  by pat_completeness auto
termination
proof (relation "measure (\<lambda>(ws, s). length s)")
  fix ws s and w :: bytes
  assume "find (\<lambda>w. w \<noteq> [] \<and> take (length w) s = w) ws = Some w"
  then have w: "w \<noteq> []" "take (length w) s = w" by (auto simp: find_Some_iff)
  then have "s \<noteq> []" by auto
  with w(1) show "((ws, drop (length w) s), (ws, s)) \<in> measure (\<lambda>(ws, s). length s)" by simp
qed simp

declare strip_prefixes.simps [simp del]

definition TrimSpace :: "bytes \<Rightarrow> bytes" where
  "TrimSpace s = rev (strip_prefixes (map rev ws_runes) (rev (strip_prefixes ws_runes s)))"

definition hex_val :: "u8 \<Rightarrow> nat option" where
  "hex_val b =
     (if is_digit b then Some (unat b - 48)
      else if 97 \<le> b \<and> b \<le> 102 then Some (unat b - 87)
      else if 65 \<le> b \<and> b \<le> 70 then Some (unat b - 55)
      else None)"

fun hex_value :: "bytes \<Rightarrow> nat \<Rightarrow> nat option" where
  "hex_value [] n = Some n"
| "hex_value (c # cs) n = (case hex_val c of None \<Rightarrow> None | Some d \<Rightarrow> hex_value cs (n * 16 + d))"

text \<open>\<open>strconv.ParseUint(s, 16, 32)\<close>; \<open>None\<close> for any error.\<close>

definition ParseUint_hex32 :: "bytes \<Rightarrow> nat option" where
  "ParseUint_hex32 s =
     (if s = [] then None
      else case hex_value s 0 of None \<Rightarrow> None | Some n \<Rightarrow> if n < 2 ^ 32 then Some n else None)"

section \<open>Requests\<close>

text \<open>The outcomes of a parser: a value, more data needed, an error, or a run-time panic.\<close>

datatype 'a parsed = Parsed 'a | NeedMore | Malformed | Panicked

record HTTPRequest =
  rq_Method :: string
  rq_Path :: string
  rq_Query :: string
  rq_Headers :: MIMEHeader
  rq_Body :: bytes

definition parseRequestLine :: "bytes \<Rightarrow> (string \<times> string \<times> string) option" where
  "parseRequestLine line =
     (case index_byte SP line of
        None \<Rightarrow> None
      | Some i \<Rightarrow>
          let part0 = take i line; rest = drop (Suc i) line
          in case index_byte SP rest of
            None \<Rightarrow> None
          | Some j \<Rightarrow>
              let target = take j rest; part2 = drop (Suc j) rest
              in if take 7 part2 \<noteq> bytes_of ''HTTP/1.'' then None
                 else if part0 = [] \<or> target = [] then None
                 else case index_byte 63 target of
                   Some q \<Rightarrow> Some (str_of part0, str_of (take q target), str_of (drop (Suc q) target))
                 | None \<Rightarrow> Some (str_of part0, str_of target, ''''))"

definition isChunked :: "MIMEHeader \<Rightarrow> bool" where
  "isChunked headers \<longleftrightarrow> Get headers ''Transfer-Encoding'' = ''chunked''"

fun digits_loop :: "bytes \<Rightarrow> s64 \<Rightarrow> s64 option" where
  "digits_loop [] n = Some n"
| "digits_loop (c # cs) n = (if \<not> is_digit c then None else digits_loop cs (n * 10 + ucast (c - 48)))"

text \<open>The number and whether there is one; \<open>None\<close> is the error.\<close>

definition contentLength :: "MIMEHeader \<Rightarrow> (s64 \<times> bool) option" where
  "contentLength headers =
     (let v = Get headers ''Content-Length''
      in if v = '''' then Some (0, False)
         else case digits_loop (bytes_of v) 0 of None \<Rightarrow> None | Some n \<Rightarrow> Some (n, True))"

function chunks_loop :: "bytes \<Rightarrow> nat \<Rightarrow> bytes \<Rightarrow> (bytes \<times> nat) parsed" where
  "chunks_loop after pos out =
     (case index_of CRLF (drop pos after) of
        None \<Rightarrow> NeedMore
      | Some lineEnd \<Rightarrow>
          let line = seg pos lineEnd after;
              sizeLine = (case index_byte 59 line of None \<Rightarrow> line | Some i \<Rightarrow> take i line);
              pos1 = pos + lineEnd + 2
          in case ParseUint_hex32 (TrimSpace sizeLine) of
            None \<Rightarrow> Malformed
          | Some chunk \<Rightarrow>
              if chunk = 0 then
                if length after - pos1 \<ge> 2 \<and> seg pos1 2 after = CRLF then Parsed (out, pos1 + 2)
                else case index_of (CRLF @ CRLF) (drop pos1 after) of
                  None \<Rightarrow> NeedMore
                | Some trailerEnd \<Rightarrow> Parsed (out, pos1 + trailerEnd + 4)
              else
                let end_pos = pos1 + chunk
                in if length after < end_pos + 2 then NeedMore
                   else if seg end_pos 2 after \<noteq> CRLF then Malformed
                   else chunks_loop after (end_pos + 2) (out @ seg pos1 chunk after))"
  by pat_completeness auto
termination
  by (relation "measure (\<lambda>(after, pos, out). length after - pos)") auto

declare chunks_loop.simps [simp del]

definition readChunkedBody :: "bytes \<Rightarrow> (bytes \<times> nat) parsed" where
  "readChunkedBody after = chunks_loop after 0 []"

text \<open>\<open>after[:n]\<close> panics for a negative \<open>n\<close>.\<close>

definition readBody :: "bytes \<Rightarrow> MIMEHeader \<Rightarrow> (bytes \<times> nat) parsed" where
  "readBody after headers =
     (if isChunked headers then readChunkedBody after
      else case contentLength headers of
        None \<Rightarrow> Malformed
      | Some (n, hasLen) \<Rightarrow>
          if \<not> hasLen \<or> n = 0 then Parsed ([], 0)
          else if int (length after) < sint n then NeedMore
          else if sint n < 0 then Panicked
          else Parsed (take (nat (sint n)) after, nat (sint n)))"

text \<open>The head of a message: request line and headers, and where the body starts.\<close>

definition parse_head :: "bytes \<Rightarrow> ((string \<times> string \<times> string) \<times> MIMEHeader) option" where
  "parse_head front =
     (let (requestLine, headerBlock) =
        (case index_of CRLF front of None \<Rightarrow> (front, []) | Some e \<Rightarrow> (take e front, drop (e + 2) front))
      in case parseRequestLine requestLine of
        None \<Rightarrow> None
      | Some l \<Rightarrow>
          (case (if headerBlock \<noteq> [] then ReadMIMEHeader (headerBlock @ CRLF) else Some Map.empty) of
             None \<Rightarrow> None
           | Some h \<Rightarrow> Some (l, h)))"

definition finish_request ::
  "Stream \<Rightarrow> nat \<Rightarrow> string \<times> string \<times> string \<Rightarrow> MIMEHeader \<Rightarrow> HTTPRequest parsed \<times> Stream" where
  "finish_request s start l h =
     (case readBody (drop start (st_buf s)) h of
        Malformed \<Rightarrow> (Malformed, s)
      | NeedMore \<Rightarrow> (NeedMore, s)
      | Panicked \<Rightarrow> (Panicked, s)
      | Parsed (body, consumed) \<Rightarrow>
          (Parsed \<lparr>rq_Method = fst l, rq_Path = fst (snd l), rq_Query = snd (snd l),
                   rq_Headers = h, rq_Body = body\<rparr>, consume (start + consumed) s))"

definition ParseHTTP1 :: "Stream \<Rightarrow> HTTPRequest parsed \<times> Stream" where
  "ParseHTTP1 s =
     (case index_of (CRLF @ CRLF) (st_buf s) of
        None \<Rightarrow> (NeedMore, s)
      | Some headerEnd \<Rightarrow>
          (case parse_head (take headerEnd (st_buf s)) of
             None \<Rightarrow> (Malformed, s)
           | Some (l, headers) \<Rightarrow> finish_request s (headerEnd + 4) l headers))"

section \<open>Searching\<close>

lemma CRLF_simps [simp]: "length CRLF = 2" "CRLF \<noteq> []"
  by (simp_all add: CRLF_def)

lemma index_of_bound: "index_of p s = Some i \<Longrightarrow> i + length p \<le> length s"
proof (induction p s arbitrary: i rule: index_of.induct)
  case (2 p b s)
  show ?case
  proof (cases "take (length p) (b # s) = p")
    case True
    then have "length p \<le> length (b # s)" by (metis length_take min.cobounded1)
    with True 2 show ?thesis by auto
  next
    case False
    with 2 show ?thesis by (auto split: option.splits)
  qed
qed (auto split: if_splits)

lemma index_of_found: "index_of p s = Some i \<Longrightarrow> take (length p) (drop i s) = p"
proof (induction p s arbitrary: i rule: index_of.induct)
  case (2 p b s)
  then show ?case by (auto split: if_splits)
qed (auto split: if_splits)

lemma index_of_append: "index_of p s = Some i \<Longrightarrow> index_of p (s @ t) = Some i"
proof (induction p s arbitrary: i rule: index_of.induct)
  case (1 p)
  then show ?case by (cases t) (auto split: if_splits)
next
  case (2 p b s)
  have l: "length p \<le> length (b # s)" using index_of_bound [OF "2.prems"] by simp
  then have "take (length p) (b # s @ t) = take (length p) (b # s)"
    by (metis append_Cons append_take_drop_id take_append diff_is_0_eq take0 append_Nil2)
  with 2 show ?case by (auto split: if_splits)
qed

lemma index_of_not_Nil: "p \<noteq> [] \<Longrightarrow> index_of p [] = None"
  by simp

section \<open>More data does not change a result\<close>

text \<open>A decided result: the parser does not ask for more data.\<close>

definition decided :: "'a parsed \<Rightarrow> bool" where
  "decided r \<longleftrightarrow> r \<noteq> NeedMore"

lemma decided_simps [simp]: "decided (Parsed x)" "decided Malformed" "decided Panicked" "\<not> decided NeedMore"
  by (simp_all add: decided_def)

lemma seg_append: "p + n \<le> length xs \<Longrightarrow> seg p n (xs @ ys) = seg p n xs"
  by (simp add: seg_def)

lemma chunks_loop_append:
  "pos \<le> length after \<Longrightarrow> decided (chunks_loop after pos out) \<Longrightarrow>
   chunks_loop (after @ t) pos out = chunks_loop after pos out"
proof (induction after pos out rule: chunks_loop.induct)
  case (1 after pos out)
  obtain e where e: "index_of CRLF (drop pos after) = Some e"
    using "1.prems"(2) by (cases "index_of CRLF (drop pos after)") (simp_all add: chunks_loop.simps [of after])
  have eb: "pos + e + 2 \<le> length after" using index_of_bound [OF e] "1.prems"(1) by simp
  have e': "index_of CRLF (drop pos (after @ t)) = Some e"
    using index_of_append [OF e, of t] "1.prems"(1) by simp
  define line where "line = seg pos e after"
  have line: "seg pos e (after @ t) = line" using eb by (simp add: line_def seg_append)
  define sizeLine where "sizeLine = (case index_byte 59 line of None \<Rightarrow> line | Some i \<Rightarrow> take i line)"
  define q where "q = pos + e + 2"
  have q: "q \<le> length after" using eb by (simp add: q_def)
  note unf = chunks_loop.simps [of _ pos out]
  have A: "chunks_loop after pos out =
      (case ParseUint_hex32 (TrimSpace sizeLine) of None \<Rightarrow> Malformed
       | Some chunk \<Rightarrow>
          if chunk = 0 then
            if length after - q \<ge> 2 \<and> seg q 2 after = CRLF then Parsed (out, q + 2)
            else case index_of (CRLF @ CRLF) (drop q after) of
              None \<Rightarrow> NeedMore | Some trailerEnd \<Rightarrow> Parsed (out, q + trailerEnd + 4)
          else if length after < q + chunk + 2 then NeedMore
          else if seg (q + chunk) 2 after \<noteq> CRLF then Malformed
          else chunks_loop after (q + chunk + 2) (out @ seg q chunk after))"
    unfolding unf [of after] e option.case Let_def line_def [symmetric] sizeLine_def [symmetric] q_def [symmetric] ..
  have B: "chunks_loop (after @ t) pos out =
      (case ParseUint_hex32 (TrimSpace sizeLine) of None \<Rightarrow> Malformed
       | Some chunk \<Rightarrow>
          if chunk = 0 then
            if length (after @ t) - q \<ge> 2 \<and> seg q 2 (after @ t) = CRLF then Parsed (out, q + 2)
            else case index_of (CRLF @ CRLF) (drop q (after @ t)) of
              None \<Rightarrow> NeedMore | Some trailerEnd \<Rightarrow> Parsed (out, q + trailerEnd + 4)
          else if length (after @ t) < q + chunk + 2 then NeedMore
          else if seg (q + chunk) 2 (after @ t) \<noteq> CRLF then Malformed
          else chunks_loop (after @ t) (q + chunk + 2) (out @ seg q chunk (after @ t)))"
    unfolding unf [of "after @ t"] e' option.case Let_def line sizeLine_def [symmetric] q_def [symmetric] ..
  show ?case
  proof (cases "ParseUint_hex32 (TrimSpace sizeLine)")
    case None
    then show ?thesis unfolding A B by simp
  next
    case (Some chunk)
    show ?thesis
    proof (cases "chunk = 0")
      case True
      show ?thesis
      proof (cases "length after - q \<ge> 2")
        case l2: True
        then have s2: "seg q 2 (after @ t) = seg q 2 after" by (simp add: seg_append)
        have l3: "2 \<le> length after + length t - q" using l2 by linarith
        show ?thesis
        proof (cases "seg q 2 after = CRLF")
          case True
          with \<open>chunk = 0\<close> Some l2 l3 s2 show ?thesis unfolding A B by simp
        next
          case False
          with "1.prems"(2) Some \<open>chunk = 0\<close> obtain k where k: "index_of (CRLF @ CRLF) (drop q after) = Some k"
            unfolding A by (auto split: option.splits)
          have "index_of (CRLF @ CRLF) (drop q (after @ t)) = Some k"
            using index_of_append [OF k, of t] q by simp
          with False Some \<open>chunk = 0\<close> k s2 l2 l3 show ?thesis unfolding A B by simp
        qed
      next
        case False
        then have "index_of (CRLF @ CRLF) (drop q after) = None"
          using index_of_bound [of "CRLF @ CRLF" "drop q after"] by (cases "index_of (CRLF @ CRLF) (drop q after)") auto
        with False Some \<open>chunk = 0\<close> "1.prems"(2) show ?thesis unfolding A by simp
      qed
    next
      case False
      with "1.prems"(2) Some have l: "q + chunk + 2 \<le> length after"
        unfolding A by (auto split: if_splits)
      then have s: "seg (q + chunk) 2 (after @ t) = seg (q + chunk) 2 after" "seg q chunk (after @ t) = seg q chunk after"
        by (simp_all add: seg_append)
      show ?thesis
      proof (cases "seg (q + chunk) 2 after = CRLF")
        case True
        have "decided (chunks_loop after (q + chunk + 2) (out @ seg q chunk after))"
          using "1.prems"(2) Some False True l unfolding A by simp
        then have "chunks_loop (after @ t) (q + chunk + 2) (out @ seg q chunk after) =
            chunks_loop after (q + chunk + 2) (out @ seg q chunk after)"
          using "1.IH" [OF e refl refl refl, folded line_def, folded sizeLine_def, OF Some False refl]
            l True by (simp add: q_def add.assoc)
        with Some False True l s show ?thesis unfolding A B by simp
      qed (use Some False l s in \<open>unfold A B, simp\<close>)
    qed
  qed
qed

lemma chunks_loop_consumed: "pos \<le> length after \<Longrightarrow> chunks_loop after pos out = Parsed (b, n) \<Longrightarrow> n \<le> length after"
proof (induction after pos out rule: chunks_loop.induct)
  case (1 after pos out)
  obtain e where e: "index_of CRLF (drop pos after) = Some e"
    using "1.prems"(2) by (cases "index_of CRLF (drop pos after)") (simp_all add: chunks_loop.simps [of after])
  define line where "line = seg pos e after"
  define sizeLine where "sizeLine = (case index_byte 59 line of None \<Rightarrow> line | Some i \<Rightarrow> take i line)"
  define q where "q = pos + e + 2"
  have q: "q \<le> length after" using index_of_bound [OF e] "1.prems"(1) by (simp add: q_def)
  have A: "chunks_loop after pos out =
      (case ParseUint_hex32 (TrimSpace sizeLine) of None \<Rightarrow> Malformed
       | Some chunk \<Rightarrow>
          if chunk = 0 then
            if length after - q \<ge> 2 \<and> seg q 2 after = CRLF then Parsed (out, q + 2)
            else case index_of (CRLF @ CRLF) (drop q after) of
              None \<Rightarrow> NeedMore | Some trailerEnd \<Rightarrow> Parsed (out, q + trailerEnd + 4)
          else if length after < q + chunk + 2 then NeedMore
          else if seg (q + chunk) 2 after \<noteq> CRLF then Malformed
          else chunks_loop after (q + chunk + 2) (out @ seg q chunk after))"
    unfolding chunks_loop.simps [of after pos out] e option.case Let_def line_def [symmetric]
      sizeLine_def [symmetric] q_def [symmetric] ..
  obtain chunk where c: "ParseUint_hex32 (TrimSpace sizeLine) = Some chunk"
    using "1.prems"(2) unfolding A by (auto split: option.splits)
  show ?case
  proof (cases "chunk = 0")
    case True
    with "1.prems"(2) c q show ?thesis unfolding A
      by (auto split: if_splits option.splits dest: index_of_bound)
  next
    case False
    with "1.prems"(2) c have l: "q + chunk + 2 \<le> length after"
      and s: "seg (q + chunk) 2 after = CRLF"
      and r: "chunks_loop after (q + chunk + 2) (out @ seg q chunk after) = Parsed (b, n)"
      unfolding A by (auto split: if_splits)
    show ?thesis
      using "1.IH" [OF e refl refl refl, folded line_def, folded sizeLine_def, OF c False refl]
        l s r by (simp add: q_def add.assoc)
  qed
qed

lemma readBody_consumed: "readBody after h = Parsed (b, n) \<Longrightarrow> n \<le> length after"
  by (auto simp: readBody_def readChunkedBody_def dest: chunks_loop_consumed [rotated]
      split: if_splits option.splits)

lemma readBody_append:
  assumes "decided (readBody after h)"
  shows "readBody (after @ t) h = readBody after h"
proof (cases "isChunked h")
  case True
  with assms show ?thesis by (simp add: readBody_def readChunkedBody_def chunks_loop_append)
next
  case False
  show ?thesis
  proof (cases "contentLength h")
    case (Some x)
    obtain n l where x: "x = (n, l)" by (cases x)
    show ?thesis
    proof (cases "\<not> l \<or> n = 0 \<or> sint n < 0")
      case True
      with False Some x show ?thesis by (auto simp: readBody_def)
    next
      case nn: False
      with assms False Some x have "sint n \<le> int (length after)"
        by (auto simp: readBody_def split: if_splits)
      with nn have "nat (sint n) \<le> length after" by linarith
      with nn False Some x \<open>sint n \<le> int (length after)\<close> show ?thesis by (simp add: readBody_def)
    qed
  qed (simp add: readBody_def False)
qed

lemma Append_simps [simp]: "st_buf (Append t s) = st_buf s @ t" "Append [] s = s"
  by (simp_all add: Append_def)

lemma consume_Append: "n \<le> length (st_buf s) \<Longrightarrow> consume n (Append t s) = Append t (consume n s)"
  by (simp add: consume_def Append_def)

lemma finish_request_append:
  assumes "start \<le> length (st_buf s)" "decided (fst (finish_request s start l h))"
  shows "finish_request (Append t s) start l h =
    (fst (finish_request s start l h), Append t (snd (finish_request s start l h)))"
proof -
  let ?b = "readBody (drop start (st_buf s)) h"
  have "decided ?b" using assms(2) by (cases ?b) (auto simp: finish_request_def split: prod.splits)
  then have b: "readBody (drop start (st_buf (Append t s))) h = ?b"
    using readBody_append [of "drop start (st_buf s)" h t] assms(1) by simp
  show ?thesis
  proof (cases ?b)
    case (Parsed x)
    then obtain body n where x: "?b = Parsed (body, n)" by (cases x) simp
    have "start + n \<le> length (st_buf s)" using readBody_consumed [OF x] assms(1) by simp
    then show ?thesis unfolding finish_request_def b x by (simp add: consume_Append)
  qed (use b in \<open>simp_all add: finish_request_def\<close>)
qed

lemma ParseHTTP1_append:
  assumes "decided (fst (ParseHTTP1 s))"
  shows "ParseHTTP1 (Append t s) = (fst (ParseHTTP1 s), Append t (snd (ParseHTTP1 s)))"
proof -
  obtain e where e: "index_of (CRLF @ CRLF) (st_buf s) = Some e"
    using assms by (cases "index_of (CRLF @ CRLF) (st_buf s)") (simp_all add: ParseHTTP1_def)
  have b: "e + 4 \<le> length (st_buf s)" using index_of_bound [OF e] by simp
  have e': "index_of (CRLF @ CRLF) (st_buf (Append t s)) = Some e" using index_of_append [OF e] by simp
  have h: "take e (st_buf (Append t s)) = take e (st_buf s)" using b by simp
  show ?thesis
  proof (cases "parse_head (take e (st_buf s))")
    case None
    then show ?thesis by (simp only: ParseHTTP1_def e e' h option.case) simp
  next
    case (Some lh)
    obtain l hd where "lh = (l, hd)" by (cases lh)
    with Some have P: "ParseHTTP1 s = finish_request s (e + 4) l hd"
      "ParseHTTP1 (Append t s) = finish_request (Append t s) (e + 4) l hd"
      by (simp_all only: ParseHTTP1_def e e' h option.case prod.case)
    show ?thesis using finish_request_append [OF b] assms unfolding P by simp
  qed
qed

text \<open>A request takes at least the bytes of the end of its head.\<close>

lemma ParseHTTP1_shorter:
  assumes "ParseHTTP1 s = (Parsed req, s')"
  shows "length (st_buf s') < length (st_buf s)"
proof -
  obtain e where e: "index_of (CRLF @ CRLF) (st_buf s) = Some e"
    using assms by (cases "index_of (CRLF @ CRLF) (st_buf s)") (simp_all add: ParseHTTP1_def)
  then have "e + 4 \<le> length (st_buf s)" using index_of_bound [OF e] by simp
  with assms e show ?thesis
    by (auto simp: ParseHTTP1_def finish_request_def consume_def split: option.splits parsed.splits)
qed

end
