(* ===== verification/Net_Observer.thy ===== *)
theory Net_Observer
  imports Net_Safety Client_Hello Models Matching Http1
begin

text \<open>
  The identity half of \<open>pkg/probe/net/observer.go\<close>: decoding the records of the kernel probe,
  the table of open connections, the server name taken from a captured ClientHello, and the
  \<open>NetConnect\<close> events that result. The formatting of a peer address follows the \<open>net\<close> and
  \<open>strconv\<close> packages of the standard library. The last section composes kernel and user space.
\<close>

section \<open>Addresses as text\<close>

definition netConnect :: u8 where "netConnect = 1"
definition netHello :: u8 where "netHello = 2"
definition netBind :: u8 where "netBind = 3"
definition netClose :: u8 where "netClose = 4"
definition afInet :: u8 where "afInet = 2"
definition afInet6 :: u8 where "afInet6 = 10"

definition ipv4_text :: "bytes \<Rightarrow> string" where
  "ipv4_text b = join_with ''.'' (map (\<lambda>x. itoa_nat (unat x)) b)"

definition hex_digit :: "nat \<Rightarrow> char" where
  "hex_digit d = (if d < 10 then char_of (48 + d) else char_of (87 + d))"

fun hex_nat :: "nat \<Rightarrow> string" where
  "hex_nat n = (if n < 16 then [hex_digit n] else hex_nat (n div 16) @ [hex_digit (n mod 16)])"

declare hex_nat.simps [simp del]

fun groups16 :: "bytes \<Rightarrow> nat list" where
  "groups16 (a # b # bs) = (256 * unat a + unat b) # groups16 bs"
| "groups16 _ = []"

text \<open>The longest run of at least two zero groups, the first one of that length.\<close>

definition zero_run :: "nat list \<Rightarrow> (nat \<times> nat) option" where
  "zero_run gs =
     foldl (\<lambda>best i.
       let l = length (takeWhile (\<lambda>g. g = 0) (drop i gs));
           len = (case best of None \<Rightarrow> 0 | Some (s, e) \<Rightarrow> e - s)
       in if l \<ge> 2 \<and> l > len then Some (i, i + l) else best) None [0..<length gs]"

definition ipv6_text :: "bytes \<Rightarrow> string" where
  "ipv6_text b =
     (let gs = groups16 b; txt = (\<lambda>xs. join_with '':'' (map hex_nat xs))
      in case zero_run gs of
           None \<Rightarrow> txt gs
         | Some (s, e) \<Rightarrow> txt (take s gs) @ ''::'' @ txt (drop e gs))"

text \<open>\<open>IP.String\<close>: an IPv4 address in 16 bytes is shown as IPv4.\<close>

definition ip_string :: "bytes \<Rightarrow> string" where
  "ip_string ip =
     (if length ip = 4 then ipv4_text ip
      else if take 12 ip = replicate 10 0 @ [0xff, 0xff] then ipv4_text (drop 12 ip)
      else ipv6_text ip)"

definition JoinHostPort :: "string \<Rightarrow> string \<Rightarrow> string" where
  "JoinHostPort host port =
     (if CHR '':'' \<in> set host then ''['' @ host @ '']:'' @ port else host @ '':'' @ port)"

definition peerAddrPort :: "u8 \<Rightarrow> bytes \<Rightarrow> u16 \<Rightarrow> string" where
  "peerAddrPort family addr port =
     (if family = afInet then JoinHostPort (ip_string (take 4 addr)) (Itoa (uint port))
      else if family = afInet6 then JoinHostPort (ip_string (take 16 addr)) (Itoa (uint port))
      else '''')"

section \<open>State\<close>

record connection =
  cn_family :: u8
  cn_addr :: bytes
  cn_port :: u16
  cn_openedAt :: Time
  cn_host :: string
  cn_alpn :: "string list"
  cn_emitted :: bool

record Coverage =
  Connections :: nat
  WithHostname :: nat
  WithContent :: nat
  FramesUnattributed :: nat
  ContentUnsupported :: nat

text \<open>The correlator: the table of connections (a Go map), the plaintext of each thread that is not yet
  a whole request, the counters, what was sent on the
  events channel and how many events the full channel dropped.\<close>

record sslKey =
  sk_tgid :: u32
  sk_tid :: u32

record correlator =
  co_conns :: "(conn_key \<times> connection) list"
  co_pending :: "sslKey \<Rightarrow> Stream option"
  co_coverage :: Coverage
  co_sent :: "GroundTruthEvent list"
  co_dropped :: u64

section \<open>Decoding\<close>

record netRecord =
  nr_hdr :: net_event_hdr
  nr_payload :: bytes

definition netFeed_decode :: "bytes \<Rightarrow> netRecord option" where
  "netFeed_decode raw =
     (if length raw < sizeof_net_event_hdr then None
      else
        let h = net_hdr_of_bytes raw;
            payloadEnd = sizeof_net_event_hdr + unat (nh_payload_len h)
        in Some \<lparr>nr_hdr = h,
             nr_payload = (if nh_payload_len h > 0 \<and> payloadEnd \<le> length raw
               then seg sizeof_net_event_hdr (unat (nh_payload_len h)) raw else [])\<rparr>)"

section \<open>The correlator\<close>

text \<open>\<open>emit\<close> works on the connection itself (a pointer in the code): it returns it with
  \<open>emitted\<close> set. The flag \<open>room\<close> is whether the events channel had room.\<close>

definition net_connect_event :: "connection \<Rightarrow> Time \<Rightarrow> GroundTruthEvent" where
  "net_connect_event conn ts =
     (let target = (if cn_host conn = '''' then peerAddrPort (cn_family conn) (cn_addr conn) (cn_port conn)
                    else cn_host conn)
      in \<lparr>ge_Timestamp = ts, ge_ActionType = NetConnect, ge_Target = target,
          ge_InputHash = None, ge_OutputHash = None, ge_ExitCode = None,
          ge_IsTopLevel = Some True, ge_PathIsAmbiguous = False, ge_RequestHash = None\<rparr>)"

definition send :: "bool \<Rightarrow> GroundTruthEvent \<Rightarrow> correlator \<Rightarrow> correlator" where
  "send room event o1 =
     (if room then o1\<lparr>co_sent := co_sent o1 @ [event]\<rparr> else o1\<lparr>co_dropped := co_dropped o1 + 1\<rparr>)"

definition emit :: "bool \<Rightarrow> connection \<Rightarrow> Time \<Rightarrow> correlator \<Rightarrow> connection \<times> correlator" where
  "emit room conn ts o1 =
     (if cn_emitted conn then (conn, o1)
      else if cn_port conn = 53 then (conn\<lparr>cn_emitted := True\<rparr>, o1)
      else (conn\<lparr>cn_emitted := True\<rparr>, send room (net_connect_event conn ts) o1))"

definition handleNetRecord :: "s64 \<Rightarrow> netRecord \<Rightarrow> bool \<Rightarrow> correlator \<Rightarrow> correlator" where
  "handleNetRecord boot rec room o1 =
     (let h = nr_hdr rec;
          key = hdr_key h;
          ts = time_Unix (nh_ts_ns h + boot)
      in if nh_type h = netConnect then
           o1\<lparr>co_conns := AList.update key
                \<lparr>cn_family = nh_family h, cn_addr = nh_addr h, cn_port = nh_port h, cn_openedAt = ts,
                 cn_host = '''', cn_alpn = [], cn_emitted = False\<rparr> (co_conns o1),
              co_coverage := (co_coverage o1)\<lparr>Connections := Connections (co_coverage o1) + 1\<rparr>\<rparr>
         else if nh_type h = netHello then
           (case map_of (co_conns o1) key of
              None \<Rightarrow> o1
            | Some conn \<Rightarrow>
                (case ParseClientHello (nr_payload rec) of
                   Inl _ \<Rightarrow> o1
                 | Inr hello \<Rightarrow>
                     if ServerName hello = '''' then o1
                     else
                       let conn1 = conn\<lparr>cn_host := ServerName hello, cn_alpn := ALPN hello\<rparr>;
                           cov = co_coverage o1;
                           cov1 = cov\<lparr>WithHostname := WithHostname cov + 1,
                             ContentUnsupported := ContentUnsupported cov +
                               (if ''h2'' \<in> set (ALPN hello) then 1 else 0)\<rparr>;
                           r = emit room conn1 ts (o1\<lparr>co_coverage := cov1\<rparr>)
                       in (snd r)\<lparr>co_conns := AList.update key (fst r) (co_conns (snd r))\<rparr>))
         else if nh_type h = netClose then
           (case map_of (co_conns o1) key of
              None \<Rightarrow> o1\<lparr>co_conns := AList.delete key (co_conns o1)\<rparr>
            | Some conn \<Rightarrow>
                let r = emit room conn ts o1
                in (snd r)\<lparr>co_conns := AList.delete key (co_conns (snd r))\<rparr>)
         else o1)"

text \<open>\<open>netFeed\<close> and \<open>correlate\<close> over the net ring buffer: every record that decodes is handled, in
  order; each comes with whether the events channel had room at its turn.\<close>

fun correlate_net :: "s64 \<Rightarrow> (bytes \<times> bool) list \<Rightarrow> correlator \<Rightarrow> correlator" where
  "correlate_net boot [] o1 = o1"
| "correlate_net boot ((raw, room) # rs) o1 =
     (case netFeed_decode raw of
        None \<Rightarrow> correlate_net boot rs o1
      | Some rec \<Rightarrow> correlate_net boot rs (handleNetRecord boot rec room o1))"

definition new_correlator :: correlator where
  "new_correlator = \<lparr>co_conns = [], co_pending = Map.empty, co_coverage = \<lparr>Connections = 0, WithHostname = 0, WithContent = 0,
     FramesUnattributed = 0, ContentUnsupported = 0\<rparr>, co_sent = [], co_dropped = 0\<rparr>"

section \<open>Decoding inverts the kernel's encoding\<close>

lemma netFeed_decode_record:
  assumes "hdr_ok h" "length p = unat (nh_payload_len h)"
  shows "netFeed_decode (net_event_hdr_bytes h @ p) = Some \<lparr>nr_hdr = h, nr_payload = p\<rparr>"
proof -
  have l: "length (net_event_hdr_bytes h) = sizeof_net_event_hdr" using assms(1) by simp
  show ?thesis
    using assms(2) l
    by (auto simp: netFeed_decode_def net_hdr_of_bytes_inverse [OF assms(1)] Let_def seg_def word_gt_0)
qed

lemma net_type_numbers [simp]:
  "NET_CONNECT = netConnect" "NET_HELLO = netHello" "NET_CLOSE = netClose"
  by (simp_all add: NET_CONNECT_def NET_HELLO_def NET_CLOSE_def netConnect_def netHello_def netClose_def)

lemma net_go_types_distinct [simp]:
  "netConnect \<noteq> netHello" "netHello \<noteq> netConnect" "netClose \<noteq> netConnect" "netClose \<noteq> netHello"
  "netConnect \<noteq> netClose" "netHello \<noteq> netClose"
  by (simp_all add: netConnect_def netHello_def netClose_def)

section \<open>One connection through kernel and user space\<close>

text \<open>The records of one connection, as the kernel sends them.\<close>

definition connect_record :: "bpf_env \<Rightarrow> u32 \<Rightarrow> conn_state \<Rightarrow> bytes" where
  "connect_record env fd cs = net_event_hdr_bytes (peer_hdr env NET_CONNECT fd cs 0)"

definition hello_record :: "bpf_env \<Rightarrow> u32 \<Rightarrow> conn_state \<Rightarrow> bytes \<Rightarrow> bytes" where
  "hello_record env fd cs bs = net_event_hdr_bytes (peer_hdr env NET_HELLO fd cs (of_nat (length bs))) @ bs"

definition close_record :: "bpf_env \<Rightarrow> u32 \<Rightarrow> conn_state \<Rightarrow> bytes" where
  "close_record env fd cs = net_event_hdr_bytes (peer_hdr env NET_CLOSE fd cs 0)"

lemma decode_conn_records:
  assumes "conn_ok cs" "length bs \<le> HELLO_CAP_LEN"
  shows "netFeed_decode (connect_record env fd cs) =
      Some \<lparr>nr_hdr = peer_hdr env netConnect fd cs 0, nr_payload = []\<rparr>"
    "netFeed_decode (hello_record env fd cs bs) =
      Some \<lparr>nr_hdr = peer_hdr env netHello fd cs (of_nat (length bs)), nr_payload = bs\<rparr>"
    "netFeed_decode (close_record env fd cs) =
      Some \<lparr>nr_hdr = peer_hdr env netClose fd cs 0, nr_payload = []\<rparr>"
proof -
  have "unat (of_nat (length bs) :: u32) = length bs"
    using assms(2) by (simp add: unat_of_nat HELLO_CAP_LEN_def)
  then show "netFeed_decode (hello_record env fd cs bs) =
      Some \<lparr>nr_hdr = peer_hdr env netHello fd cs (of_nat (length bs)), nr_payload = bs\<rparr>"
    unfolding hello_record_def using assms(1) by (subst netFeed_decode_record) simp_all
  show "netFeed_decode (connect_record env fd cs) =
      Some \<lparr>nr_hdr = peer_hdr env netConnect fd cs 0, nr_payload = []\<rparr>"
    using netFeed_decode_record [of "peer_hdr env netConnect fd cs 0" "[]"] assms(1)
    by (simp add: connect_record_def)
  show "netFeed_decode (close_record env fd cs) =
      Some \<lparr>nr_hdr = peer_hdr env netClose fd cs 0, nr_payload = []\<rparr>"
    using netFeed_decode_record [of "peer_hdr env netClose fd cs 0" "[]"] assms(1)
    by (simp add: close_record_def)
qed

text \<open>The kernel's half of a connect and of the close that ends it.\<close>

lemma kernel_connect:
  assumes "heap_ok s" "is_tracked s (cur_tgid env)" "read_user_ok env um" "\<And>n. rb_room env n"
    and "read_conn_state env (cc_uservaddr ctx) = Some cs"
    and "\<not> map_full conns_max (conns s)"
  defines "s' \<equiv> trace_connect env ctx s"
  shows "heap_ok s'" "\<And>pid. is_tracked s' pid = is_tracked s pid"
    "net_events s' = net_events s @ [connect_record env (ucast (cc_fd ctx)) cs]"
    "map_lookup_elem (conns s') \<lparr>ck_tgid = cur_tgid env, ck_fd = ucast (cc_fd ctx)\<rparr> = Some cs"
  using trace_connect_effect [OF assms(2,5,3,1)] assms(4,6)
  by (simp_all add: s'_def ringbuf_output_def connect_record_def bpf_map.lookup_update is_tracked_def)

lemma kernel_close:
  assumes "heap_ok s" "is_tracked s (cur_tgid env)" "\<And>n. rb_room env n" "conn_ok cs"
    and "map_lookup_elem (conns s) \<lparr>ck_tgid = cur_tgid env, ck_fd = ucast (lc_fd ctx)\<rparr> = Some cs"
  shows "net_events (trace_close env ctx s) = net_events s @ [close_record env (ucast (lc_fd ctx)) cs]"
  using trace_close_effect(2) [OF assms(2,4,1,5)] assms(3)
  by (simp add: ringbuf_output_def close_record_def)

lemma kernel_write:
  assumes "heap_ok s" "is_tracked s (cur_tgid env)" "read_user_ok env um" "\<And>n. rb_room env n" "conn_ok cs"
    and "map_lookup_elem (conns s) \<lparr>ck_tgid = cur_tgid env, ck_fd = ucast (wc_fd ctx)\<rparr> = Some cs"
    and "cs_hello_captured cs = 0" "captured_bytes um (wc_buf ctx) (ucast (wc_count ctx)) = Some bs"
  defines "s' \<equiv> trace_write env ctx s"
  shows "heap_ok s'" "\<And>pid. is_tracked s' pid = is_tracked s pid" "length bs \<le> HELLO_CAP_LEN"
    "net_events s' = net_events s @ [hello_record env (ucast (wc_fd ctx)) cs bs]"
    "map_lookup_elem (conns s') \<lparr>ck_tgid = cur_tgid env, ck_fd = ucast (wc_fd ctx)\<rparr>
      = Some (cs\<lparr>cs_hello_captured := 1\<rparr>)"
proof -
  have s': "s' = capture_hello env (cur_tgid env) (ucast (wc_fd ctx)) (wc_buf ctx) (ucast (wc_count ctx)) s"
    using assms(2) by (simp add: s'_def trace_write_def Let_def)
  note eff = capture_hello_effect [OF assms(6,7,5,3,1), of "wc_buf ctx" "ucast (wc_count ctx)", folded s']
  note e = eff(4) [OF assms(8)]
  show "heap_ok s'" by (rule eff(1))
  show "is_tracked s' pid = is_tracked s pid" for pid using eff(2) by (simp add: is_tracked_def)
  show "length bs \<le> HELLO_CAP_LEN" using e cap_len_bound by metis
  have "cap_len (ucast (wc_count ctx)) = of_nat (length bs)" using e by simp
  then show "net_events s' = net_events s @ [hello_record env (ucast (wc_fd ctx)) cs bs]"
    using e assms(4) by (simp add: ringbuf_output_def hello_record_def)
  show "map_lookup_elem (conns s') \<lparr>ck_tgid = cur_tgid env, ck_fd = ucast (wc_fd ctx)\<rparr>
      = Some (cs\<lparr>cs_hello_captured := 1\<rparr>)"
    using e assms(6) by (simp add: bpf_map.lookup_store)
qed

text \<open>User space on the records of one connection. \<open>net_event_of\<close> is the event for a target.\<close>

definition net_event_of :: "Time \<Rightarrow> string \<Rightarrow> GroundTruthEvent" where
  "net_event_of ts target = \<lparr>ge_Timestamp = ts, ge_ActionType = NetConnect, ge_Target = target,
     ge_InputHash = None, ge_OutputHash = None, ge_ExitCode = None,
     ge_IsTopLevel = Some True, ge_PathIsAmbiguous = False, ge_RequestHash = None\<rparr>"

definition opened :: "bpf_env \<Rightarrow> s64 \<Rightarrow> conn_state \<Rightarrow> connection" where
  "opened env boot cs = \<lparr>cn_family = cs_family cs, cn_addr = cs_addr cs, cn_port = cs_port cs,
     cn_openedAt = time_Unix (ktime env + boot), cn_host = [], cn_alpn = [], cn_emitted = False\<rparr>"

lemma peer_hdr_fields [simp]:
  "nh_family (peer_hdr env ty fd cs n) = cs_family cs" "nh_addr (peer_hdr env ty fd cs n) = cs_addr cs"
  "nh_port (peer_hdr env ty fd cs n) = cs_port cs" "nh_ts_ns (peer_hdr env ty fd cs n) = ktime env"
  by (simp_all add: peer_hdr_def)

lemma handle_connect:
  "handleNetRecord boot \<lparr>nr_hdr = peer_hdr env netConnect fd cs n, nr_payload = p\<rparr> room o1 =
     o1\<lparr>co_conns := AList.update \<lparr>ck_tgid = cur_tgid env, ck_fd = fd\<rparr> (opened env boot cs) (co_conns o1),
        co_coverage := (co_coverage o1)\<lparr>Connections := Connections (co_coverage o1) + 1\<rparr>\<rparr>"
  by (simp add: handleNetRecord_def Let_def opened_def)

lemma handle_close:
  "map_of (co_conns o1) \<lparr>ck_tgid = cur_tgid env, ck_fd = fd\<rparr> = Some conn \<Longrightarrow>
   co_sent (handleNetRecord boot \<lparr>nr_hdr = peer_hdr env netClose fd cs n, nr_payload = p\<rparr> room o1) =
     (if cn_emitted conn \<or> cn_port conn = 53 \<or> \<not> room then co_sent o1
      else co_sent o1 @ [net_connect_event conn (time_Unix (ktime env + boot))])"
  by (simp add: handleNetRecord_def Let_def emit_def send_def)

lemma handle_hello:
  fixes n :: u32 and cs :: conn_state and boot :: s64
  assumes "map_of (co_conns o1) \<lparr>ck_tgid = cur_tgid env, ck_fd = fd\<rparr> = Some conn"
    and "ParseClientHello p = Inr h" "ServerName h \<noteq> []" "\<not> cn_emitted conn" "cn_port conn \<noteq> 53"
  defines "c1 \<equiv> conn\<lparr>cn_host := ServerName h, cn_alpn := ALPN h, cn_emitted := True\<rparr>"
  defines "o2 \<equiv> handleNetRecord boot \<lparr>nr_hdr = peer_hdr env netHello fd cs n, nr_payload = p\<rparr> True o1"
  shows "co_sent o2 = co_sent o1 @ [net_connect_event c1 (time_Unix (ktime env + boot))]"
    "map_of (co_conns o2) \<lparr>ck_tgid = cur_tgid env, ck_fd = fd\<rparr> = Some c1"
  using assms(1-5)
  by (simp_all add: o2_def c1_def handleNetRecord_def Let_def emit_def send_def update_conv' net_connect_event_def)

lemma user_plain:
  assumes "conn_ok cs" "cs_port cs \<noteq> 53" "cur_tgid env2 = cur_tgid env1"
  shows "co_sent (correlate_net boot [(connect_record env1 fd cs, a), (close_record env2 fd cs, True)] o1)
    = co_sent o1 @ [net_event_of (time_Unix (ktime env2 + boot))
        (peerAddrPort (cs_family cs) (cs_addr cs) (cs_port cs))]"
proof -
  let ?o1 = "handleNetRecord boot \<lparr>nr_hdr = peer_hdr env1 netConnect fd cs 0, nr_payload = []\<rparr> a o1"
  have "map_of (co_conns ?o1) \<lparr>ck_tgid = cur_tgid env2, ck_fd = fd\<rparr> = Some (opened env1 boot cs)"
    using assms(3) by (simp add: handle_connect update_conv')
  from handle_close [OF this, of boot cs 0 "[]" True]
  show ?thesis
    using assms(2) decode_conn_records [OF assms(1), of "[]"]
    by (simp add: opened_def net_connect_event_def net_event_of_def) (simp add: handle_connect)
qed

lemma user_hello:
  assumes "conn_ok cs" "cs_port cs \<noteq> 53" "cur_tgid env2 = cur_tgid env1" "cur_tgid env3 = cur_tgid env1"
    and "length bs \<le> HELLO_CAP_LEN" "ParseClientHello bs = Inr h" "ServerName h \<noteq> ''''"
  shows "co_sent (correlate_net boot [(connect_record env1 fd cs, a), (hello_record env2 fd cs bs, True),
      (close_record env3 fd (cs\<lparr>cs_hello_captured := 1\<rparr>), b)] o1)
    = co_sent o1 @ [net_event_of (time_Unix (ktime env2 + boot)) (ServerName h)]"
proof -
  have ok: "conn_ok (cs\<lparr>cs_hello_captured := 1\<rparr>)" using assms(1) by (simp add: conn_ok_def)
  note d = decode_conn_records [OF assms(1,5)] decode_conn_records(3) [OF ok assms(5)]
  let ?o1 = "handleNetRecord boot \<lparr>nr_hdr = peer_hdr env1 netConnect fd cs 0, nr_payload = []\<rparr> a o1"
  let ?h = "\<lparr>nr_hdr = peer_hdr env2 netHello fd cs (of_nat (length bs)), nr_payload = bs\<rparr>"
  let ?o2 = "handleNetRecord boot ?h True ?o1"
  let ?x = "\<lparr>nr_hdr = peer_hdr env3 netClose fd (cs\<lparr>cs_hello_captured := 1\<rparr>) 0, nr_payload = []\<rparr>"
  let ?c = "opened env1 boot cs"
  have "map_of (co_conns ?o1) \<lparr>ck_tgid = cur_tgid env2, ck_fd = fd\<rparr> = Some ?c"
    using assms(3) by (simp add: handle_connect update_conv')
  note hh = handle_hello [OF this assms(6,7), where boot = boot and cs = cs and n = "of_nat (length bs)"]
  have h: "co_sent ?o2 = co_sent ?o1 @ [net_event_of (time_Unix (ktime env2 + boot)) (ServerName h)]"
    "map_of (co_conns ?o2) \<lparr>ck_tgid = cur_tgid env3, ck_fd = fd\<rparr> =
       Some (?c\<lparr>cn_host := ServerName h, cn_alpn := ALPN h, cn_emitted := True\<rparr>)"
    using hh assms(2-4,7) by (simp_all add: opened_def net_connect_event_def net_event_of_def)
  have "co_sent (handleNetRecord boot ?x b ?o2) = co_sent ?o2"
    using handle_close [OF h(2), of boot "cs\<lparr>cs_hello_captured := 1\<rparr>" 0 "[]" b] by simp
  moreover have "co_sent ?o1 = co_sent o1" by (simp add: handle_connect)
  ultimately show ?thesis using d h(1) by simp
qed

section \<open>Properties\<close>

text \<open>
  C6. Kernel and user space together, TLS: a tracked process that connects, writes a ClientHello
  of at most 1024 bytes as its first write and closes yields three records, and the observer turns
  them into exactly one \<open>NetConnect\<close> event, at the time of the write, whose target is the server
  name of the message.
\<close>

theorem observed_tls_connection:
  assumes "heap_ok s" "is_tracked s (cur_tgid env1)" "\<not> map_full conns_max (conns s)"
    and "read_user_ok env1 um1" "read_user_ok env2 um2"
    and "\<And>n. rb_room env1 n" "\<And>n. rb_room env2 n" "\<And>n. rb_room env3 n"
    and "cur_tgid env2 = cur_tgid env1" "cur_tgid env3 = cur_tgid env1"
    and "ucast (wc_fd w) = (ucast (cc_fd c) :: u32)" "ucast (lc_fd l) = (ucast (cc_fd c) :: u32)"
    and "read_conn_state env1 (cc_uservaddr c) = Some cs" "cs_port cs \<noteq> 53"
    and "captured_bytes um2 (wc_buf w) (ucast (wc_count w)) = Some (hello_bytes m)"
    and "hello_msg_ok m" "exts_of extTypeSNI (hm_exts m) = [sni_bytes host]" "host \<noteq> []"
    and "length host + 3 < 65536"
  shows "\<exists>r1 r2 r3. net_events (net_run [NConnect env1 c, NWrite env2 w, NClose env3 l] s)
      = net_events s @ [r1, r2, r3] \<and>
    co_sent (correlate_net boot [(r1, True), (r2, True), (r3, True)] o1) =
      co_sent o1 @ [net_event_of (time_Unix (ktime env2 + boot)) (str_of host)]"
proof -
  let ?fd = "ucast (cc_fd c) :: u32"
  let ?cs1 = "cs\<lparr>cs_hello_captured := 1\<rparr>"
  have ok: "conn_ok cs" "cs_hello_captured cs = 0" by (rule read_conn_state_ok [OF assms(4,13)])+
  then have ok1: "conn_ok ?cs1" by (simp add: conn_ok_def)
  define s1 where "s1 = trace_connect env1 c s"
  define s2 where "s2 = trace_write env2 w s1"
  note k1 = kernel_connect [OF assms(1,2,4,6,13,3), folded s1_def]
  have t2: "is_tracked s1 (cur_tgid env2)" using k1(2) assms(2,9) by simp
  have l2: "map_lookup_elem (conns s1) \<lparr>ck_tgid = cur_tgid env2, ck_fd = ucast (wc_fd w)\<rparr> = Some cs"
    using k1(4) assms(9,11) by simp
  note k2 = kernel_write [OF k1(1) t2 assms(5,7) ok(1) l2 ok(2) assms(15), folded s2_def]
  have t3: "is_tracked s2 (cur_tgid env3)" using k2(2) t2 assms(9,10) by simp
  have l3: "map_lookup_elem (conns s2) \<lparr>ck_tgid = cur_tgid env3, ck_fd = ucast (lc_fd l)\<rparr> = Some ?cs1"
    using k2(5) assms(9-12) by simp
  note k3 = kernel_close [OF k2(1) t3 assms(8) ok1 l3]
  have ev: "net_events (net_run [NConnect env1 c, NWrite env2 w, NClose env3 l] s) = net_events s @
      [connect_record env1 ?fd cs, hello_record env2 ?fd cs (hello_bytes m), close_record env3 ?fd ?cs1]"
    using k1(3) k2(4) k3 assms(11,12) by (simp add: net_run_def s1_def s2_def)
  have name: "parseSNIExtension (sni_bytes host) = Some (str_of host)" by (rule parseSNI_sni_bytes [OF assms(19)])
  let ?h = "apply_exts (hm_exts m) no_hello"
  have parse: "ParseClientHello (hello_bytes m) = Inr ?h"
    using parse_captured [OF assms(16), of "length (hello_bytes m)"]
    by (simp add: hello_bytes_def complete_all)
  have host: "ServerName ?h = str_of host" by (rule apply_exts_name [OF name assms(17)])
  have "str_of host \<noteq> []" using assms(18) by (simp add: str_of_def)
  with user_hello [OF ok(1) assms(14,9,10) k2(3) parse, where fd = ?fd and a = True and b = True and boot = boot and ?o1.0 = o1] host
  show ?thesis using ev by auto
qed

definition ex_tls_write :: sys_enter_write_ctx where
  "ex_tls_write = \<lparr>wc_fd = 5, wc_buf = 48, wc_count = of_nat (length (hello_bytes ex_hello))\<rparr>"

definition ex_tls_env :: bpf_env where
  "ex_tls_env = region_env (task 100 100) 9 [(48, hello_bytes ex_hello)]"

lemma length_ex_hello: "length (hello_bytes ex_hello) = 101"
  by (simp add: hello_bytes_def hello_prefix_def ex_hello_def enc_exts_def sni_bytes_def
      alpn_bytes_def alpn_entry_def Let_def)

theorem observed_tls_connection_witness:
  "\<exists>r1 r2 r3. net_events (net_run [NConnect ex_net_env ex_connect, NWrite ex_tls_env ex_tls_write,
      NClose ex_net_env \<lparr>lc_fd = 5\<rparr>] ex_net_start) = [r1, r2, r3] \<and>
    co_sent (correlate_net 1000 [(r1, True), (r2, True), (r3, True)] new_correlator) =
      [net_event_of (time_Unix 1009) ''api.example.com'']"
proof -
  have h: "heap_ok ex_net_start" using ex_net_start_ok by (simp add: net_start_def)
  have t: "is_tracked ex_net_start (cur_tgid ex_net_env)" "\<not> map_full conns_max (conns ex_net_start)"
    "net_events ex_net_start = []"
    by (simp_all add: is_tracked_def ex_net_start_def ex_net_env_def map_lookup_elem_def map_full_def conns_max_def)
  have um: "read_user_ok ex_tls_env (region_read [(48, hello_bytes ex_hello)])" "rb_room ex_tls_env n" for n
    by (simp_all add: ex_tls_env_def region_read_ok)
  have g: "cur_tgid ex_tls_env = cur_tgid ex_net_env" "ktime ex_tls_env = 9"
    by (simp_all add: ex_tls_env_def ex_net_env_def)
  have f: "ucast (wc_fd ex_tls_write) = (ucast (cc_fd ex_connect) :: u32)"
    "ucast (lc_fd \<lparr>lc_fd = 5\<rparr>) = (ucast (cc_fd ex_connect) :: u32)"
    by (simp_all add: ex_tls_write_def ex_connect_def)
  have c: "read_conn_state ex_net_env (cc_uservaddr ex_connect) = Some ex_conn" "cs_port ex_conn \<noteq> 53"
    by (simp_all add: ex_connect_def ex_read_conn_state ex_conn_def)
  have b: "captured_bytes (region_read [(48, hello_bytes ex_hello)]) (wc_buf ex_tls_write)
      (ucast (wc_count ex_tls_write)) = Some (hello_bytes ex_hello)"
    by (simp add: captured_bytes_def ex_tls_write_def length_ex_hello cap_len_def HELLO_CAP_LEN_def region_read_def)
  have m: "hello_msg_ok ex_hello"
    by (simp add: hello_msg_ok_def ex_hello_def enc_exts_def sni_bytes_def alpn_bytes_def alpn_entry_def Let_def)
  have n: "exts_of extTypeSNI (hm_exts ex_hello) = [sni_bytes (bytes_of ''api.example.com'')]"
    "bytes_of ''api.example.com'' \<noteq> []" "length (bytes_of ''api.example.com'') + 3 < 65536"
    by (simp_all add: ex_hello_def extTypeSNI_def extTypeALPN_def bytes_of_def)
  show ?thesis
    using observed_tls_connection [OF h t(1,2) ex_net_env_ok(1) um(1) ex_net_env_ok(2) um(2)
        ex_net_env_ok(2) g(1) refl f c b m n, of 1000 new_correlator]
    by (simp add: t(3) g(2) new_correlator_def)
qed

lemma ucast_be_u16_le: "(of_nat (le_dec [p1, p0]) :: u16) = be_u16 p0 p1"
proof -
  have "unat p0 < 256" "unat p1 < 256" using unsigned_less [of p0] unsigned_less [of p1] by simp_all
  then show ?thesis by (simp add: word_unat_eq_iff unat_be_u16 unat_word_ariths unsigned_ucast_eq take_bit_eq_mod)
qed

lemma swap_port: "push_bit 8 (be_u16 p0 p1 AND 0xff) OR drop_bit 8 (be_u16 p0 p1) = be_u16 p1 p0"
proof -
  have "be_u16 p0 p1 AND 0xff = take_bit 8 (be_u16 p0 p1)"
    by (simp add: take_bit_eq_mask mask_numeral)
  also have "\<dots> = ucast p1"
    unfolding be_u16_def by (rule bit_word_eqI) (auto simp: bit_simps dest: bit_imp_le_length)
  finally show ?thesis by (simp add: be_u16_high) (simp add: be_u16_def)
qed

lemma read_conn_state_ipv4:
  assumes "read_user_ok env um" "um a 2 = Some [2, 0]"
    and "um a 16 = Some ([2, 0, p1, p0, a1, a2, a3, a4] @ pad)"
  shows "read_conn_state env a = Some \<lparr>cs_family = 2, cs_addr = [a1, a2, a3, a4] @ replicate 12 0,
    cs_port = be_u16 p1 p0, cs_hello_captured = 0, cs_open_ts_ns = ktime env\<rparr>"
proof -
  have f: "read_user env a (replicate 2 0) = (0, [2, 0])"
    using read_user_Some [OF assms(1), of a "replicate 2 0"] assms(2) by simp
  have r: "read_user env a (replicate 16 0) = (0, [2, 0, p1, p0, a1, a2, a3, a4] @ pad)" "length pad = 8"
    using read_user_Some [OF assms(1), of a "replicate 16 0"] assms(3) by auto
  have fam: "get_u16 0 [2, 0] = 2" by (simp add: get_u16_def seg_def)
  let ?sa = "put_at 0 ([2, 0, p1, p0, a1, a2, a3, a4] @ pad) (replicate 28 0 :: bytes)"
  have sa: "?sa = [2, 0, p1, p0, a1, a2, a3, a4] @ pad @ replicate 12 0"
    using r(2) by (simp add: put_at_def)
  have port: "get_u16 2 ?sa = be_u16 p0 p1"
    unfolding sa get_u16_def by (simp add: seg_def ucast_be_u16_le del: le_dec.simps)
  have addr: "put_at 0 (seg 4 4 ?sa) (replicate 16 0) = [a1, a2, a3, a4] @ replicate 12 0"
    unfolding sa by (simp add: seg_def put_at_def)
  show ?thesis
    using f r(1) fam port addr swap_port
    by (simp add: read_conn_state_def Let_def AF_INET_def)
qed

lemma itoa_nat_digits: "c \<in> set (itoa_nat n) \<Longrightarrow> \<exists>d<10. c = digit_char d"
proof (induction n rule: itoa_nat.induct)
  case (1 n)
  have "n mod 10 < 10" by simp
  show ?case
  proof (cases "n < 10")
    case True
    then show ?thesis using 1 by (auto simp: itoa_nat.simps [of n])
  next
    case False
    then have "c \<in> set (itoa_nat (n div 10)) \<or> c = digit_char (n mod 10)"
      using 1(2) by (auto simp: itoa_nat.simps [of n])
    then show ?thesis using 1(1) [OF False] \<open>n mod 10 < 10\<close> by blast
  qed
qed

lemma itoa_nat_no_colon: "CHR '':'' \<notin> set (itoa_nat n)"
proof
  assume "CHR '':'' \<in> set (itoa_nat n)"
  then obtain d where d: "d < 10" "CHR '':'' = digit_char d" using itoa_nat_digits by blast
  then have "(of_char (CHR '':'') :: nat) = (48 + d) mod 256" by (simp add: digit_char_def)
  then show False using d(1) by simp
qed

lemma peerAddrPort_ipv4:
  "peerAddrPort afInet ([a1, a2, a3, a4] @ rest) (be_u16 p1 p0) =
     itoa_nat (unat a1) @ ''.'' @ itoa_nat (unat a2) @ ''.'' @ itoa_nat (unat a3) @ ''.'' @
     itoa_nat (unat a4) @ '':'' @ itoa_nat (256 * unat p1 + unat p0)"
proof -
  have "uint (be_u16 p1 p0) = int (256 * unat p1 + unat p0)"
    unfolding unat_be_u16 [symmetric] by (rule uint_nat)
  then have "Itoa (uint (be_u16 p1 p0)) = itoa_nat (256 * unat p1 + unat p0)"
    by (simp only: Itoa_def of_nat_less_0_iff if_False nat_int)
  moreover have "ip_string [a1, a2, a3, a4] = itoa_nat (unat a1) @ ''.'' @ itoa_nat (unat a2) @ ''.'' @
      itoa_nat (unat a3) @ ''.'' @ itoa_nat (unat a4)"
    by (simp add: ip_string_def ipv4_text_def)
  ultimately show ?thesis
    by (simp add: peerAddrPort_def JoinHostPort_def itoa_nat_no_colon)
qed

text \<open>
  Kernel and user space together, without a ClientHello: a tracked process that connects and
  closes yields exactly one \<open>NetConnect\<close> event, at the time of the close, whose target is the
  address and port the process passed to \<open>connect\<close>: for IPv4 the four bytes of the address in
  dotted form and the two bytes of the port in network order.
\<close>

lemma observed_plain_connection:
  assumes "heap_ok s" "is_tracked s (cur_tgid env1)" "\<not> map_full conns_max (conns s)"
    and "read_user_ok env1 um" "\<And>n. rb_room env1 n" "\<And>n. rb_room env2 n"
    and "cur_tgid env2 = cur_tgid env1" "ucast (lc_fd l) = (ucast (cc_fd c) :: u32)"
    and "um (cc_uservaddr c) 2 = Some [2, 0]"
    and "um (cc_uservaddr c) 16 = Some ([2, 0, p1, p0, a1, a2, a3, a4] @ pad)"
    and "256 * unat p1 + unat p0 \<noteq> 53"
  shows "\<exists>r1 r2. net_events (net_run [NConnect env1 c, NClose env2 l] s) = net_events s @ [r1, r2] \<and>
    co_sent (correlate_net boot [(r1, True), (r2, True)] o1) =
      co_sent o1 @ [net_event_of (time_Unix (ktime env2 + boot))
        (itoa_nat (unat a1) @ ''.'' @ itoa_nat (unat a2) @ ''.'' @ itoa_nat (unat a3) @ ''.'' @
         itoa_nat (unat a4) @ '':'' @ itoa_nat (256 * unat p1 + unat p0))]"
proof -
  let ?cs = "\<lparr>cs_family = 2, cs_addr = [a1, a2, a3, a4] @ replicate 12 0, cs_port = be_u16 p1 p0,
    cs_hello_captured = 0, cs_open_ts_ns = ktime env1\<rparr>"
  let ?fd = "ucast (cc_fd c) :: u32"
  have cs: "read_conn_state env1 (cc_uservaddr c) = Some ?cs"
    by (rule read_conn_state_ipv4 [OF assms(4,9,10)])
  have ok: "conn_ok ?cs" by (simp add: conn_ok_def)
  define s1 where "s1 = trace_connect env1 c s"
  note k1 = kernel_connect [OF assms(1,2,4,5) cs assms(3), folded s1_def]
  have t2: "is_tracked s1 (cur_tgid env2)" using k1(2) assms(2,7) by simp
  have l2: "map_lookup_elem (conns s1) \<lparr>ck_tgid = cur_tgid env2, ck_fd = ucast (lc_fd l)\<rparr> = Some ?cs"
    using k1(4) assms(7,8) by simp
  have ev: "net_events (net_run [NConnect env1 c, NClose env2 l] s) =
      net_events s @ [connect_record env1 ?fd ?cs, close_record env2 ?fd ?cs]"
    using k1(3) kernel_close [OF k1(1) t2 assms(6) ok l2] assms(8) by (simp add: net_run_def s1_def)
  have "be_u16 p1 p0 \<noteq> 53"
    using assms(11) unat_be_u16 [of p1 p0] by auto
  then have "cs_port ?cs \<noteq> 53" by simp
  note u = user_plain [OF ok this assms(7), where fd = ?fd and a = True and boot = boot and ?o1.0 = o1]
  have "peerAddrPort (cs_family ?cs) (cs_addr ?cs) (cs_port ?cs) =
      itoa_nat (unat a1) @ ''.'' @ itoa_nat (unat a2) @ ''.'' @ itoa_nat (unat a3) @ ''.'' @
      itoa_nat (unat a4) @ '':'' @ itoa_nat (256 * unat p1 + unat p0)"
    using peerAddrPort_ipv4 [of a1 a2 a3 a4 "replicate 12 0" p1 p0] by (simp add: afInet_def)
  with u ev show ?thesis by (intro exI conjI) (assumption, simp only:)
qed

lemma observed_plain_connection_witness:
  "\<exists>r1 r2. net_events (net_run [NConnect ex_net_env ex_connect, NClose ex_net_env \<lparr>lc_fd = 5\<rparr>] ex_net_start)
      = [r1, r2] \<and>
    co_sent (correlate_net 1000 [(r1, True), (r2, True)] new_correlator) =
      [net_event_of (time_Unix 1007) ''93.184.216.34:443'']"
proof -
  have h: "heap_ok ex_net_start" using ex_net_start_ok by (simp add: net_start_def)
  have t: "is_tracked ex_net_start (cur_tgid ex_net_env)" "\<not> map_full conns_max (conns ex_net_start)"
    "net_events ex_net_start = []"
    by (simp_all add: is_tracked_def ex_net_start_def ex_net_env_def map_lookup_elem_def map_full_def conns_max_def)
  have f: "ucast (lc_fd \<lparr>lc_fd = 5\<rparr>) = (ucast (cc_fd ex_connect) :: u32)" "ktime ex_net_env = 7"
    by (simp_all add: ex_connect_def ex_net_env_def)
  have u: "region_read ex_net_mem (cc_uservaddr ex_connect) 2 = Some [2, 0]"
    "region_read ex_net_mem (cc_uservaddr ex_connect) 16 = Some ([2, 0, 1, 187, 93, 184, 216, 34] @ replicate 8 0)"
    by (simp_all add: region_read_def ex_net_mem_def ex_connect_def numeral_eq_Suc)
  have p: "256 * unat (1 :: u8) + unat (187 :: u8) \<noteq> 53" by simp
  have tx: "itoa_nat 93 = ''93''" "itoa_nat 184 = ''184''" "itoa_nat 216 = ''216''" "itoa_nat 34 = ''34''"
    "itoa_nat 443 = ''443''"
    by code_simp+
  show ?thesis
    using observed_plain_connection [OF h t(1,2) ex_net_env_ok(1) ex_net_env_ok(2) ex_net_env_ok(2) refl f(1) u p,
        of 1000 new_correlator]
    by (simp add: t(3) f(2) tx new_correlator_def)
qed

subsection \<open>At most one event per connection\<close>

text \<open>The connections that still may emit.\<close>

definition pending_conns :: "correlator \<Rightarrow> nat" where
  "pending_conns o1 = length (filter (\<lambda>(k, c). \<not> cn_emitted c) (co_conns o1))"

lemma filter_update_le:
  "length (filter P (AList.update k v al)) \<le> length (filter P al) + (if P (k, v) then 1 else 0)"
  by (induction al) auto

lemma filter_update_drop:
  "map_of al k = Some v0 \<Longrightarrow> P (k, v0) \<Longrightarrow> \<not> P (k, v) \<Longrightarrow>
    length (filter P (AList.update k v al)) + 1 = length (filter P al)"
  by (induction al) (auto split: if_splits)

lemma filter_delete_le: "length (filter P (AList.delete k al)) \<le> length (filter P al)"
  by (induction al) auto

lemma filter_delete_drop:
  "map_of al k = Some v0 \<Longrightarrow> P (k, v0) \<Longrightarrow> length (filter P (AList.delete k al)) + 1 \<le> length (filter P al)"
proof (induction al)
  case (Cons a al)
  then show ?case using filter_delete_le [of P k al] by (auto split: if_splits)
qed simp

definition conn_budget :: "correlator \<Rightarrow> bool" where
  "conn_budget o1 \<longleftrightarrow> length (co_sent o1) + pending_conns o1 \<le> Connections (co_coverage o1)"

lemma emit_budget:
  "emit room conn ts o1 = (c', o2) \<Longrightarrow> cn_emitted c' \<and> co_conns o2 = co_conns o1 \<and>
    co_coverage o2 = co_coverage o1 \<and>
    length (co_sent o2) \<le> length (co_sent o1) + (if cn_emitted conn then 0 else 1)"
  by (auto simp: emit_def send_def split: if_splits)

lemma conn_budget_step:
  assumes b: "conn_budget o1"
  shows "conn_budget (handleNetRecord boot rec room o1)"
proof -
  let ?h = "nr_hdr rec" and ?key = "hdr_key (nr_hdr rec)"
  let ?P = "\<lambda>(k :: conn_key, c). \<not> cn_emitted c"
  consider (connect) "nh_type ?h = netConnect" | (hello) "nh_type ?h = netHello" | (close) "nh_type ?h = netClose"
    | (other) "nh_type ?h \<noteq> netConnect" "nh_type ?h \<noteq> netHello" "nh_type ?h \<noteq> netClose" by blast
  then show ?thesis
  proof cases
    case connect
    let ?c = "\<lparr>cn_family = nh_family ?h, cn_addr = nh_addr ?h, cn_port = nh_port ?h,
      cn_openedAt = time_Unix (nh_ts_ns ?h + boot), cn_host = [], cn_alpn = [], cn_emitted = False\<rparr>"
    show ?thesis
      using b filter_update_le [of ?P ?key ?c "co_conns o1"]
      by (simp add: handleNetRecord_def connect conn_budget_def pending_conns_def Let_def)
  next
    case hello
    show ?thesis
    proof (cases "map_of (co_conns o1) ?key")
      case None
      then show ?thesis using b by (simp add: handleNetRecord_def hello)
    next
      case (Some conn)
      show ?thesis
      proof (cases "\<exists>h. ParseClientHello (nr_payload rec) = Inr h \<and> ServerName h \<noteq> []")
        case False
        then show ?thesis using b Some
          by (auto simp: handleNetRecord_def hello Let_def split: sum.split)
      next
        case True
        then obtain h where h: "ParseClientHello (nr_payload rec) = Inr h" "ServerName h \<noteq> []" by auto
        define conn1 where "conn1 = conn\<lparr>cn_host := ServerName h, cn_alpn := ALPN h\<rparr>"
        define cov where "cov = (co_coverage o1)\<lparr>WithHostname := WithHostname (co_coverage o1) + 1,
          ContentUnsupported := ContentUnsupported (co_coverage o1) + (if ''h2'' \<in> set (ALPN h) then 1 else 0)\<rparr>"
        obtain c' o2 where e: "emit room conn1 (time_Unix (nh_ts_ns ?h + boot)) (o1\<lparr>co_coverage := cov\<rparr>) = (c', o2)"
          by fastforce
        have r: "handleNetRecord boot rec room o1 = o2\<lparr>co_conns := AList.update ?key c' (co_conns o2)\<rparr>"
          using e by (simp add: handleNetRecord_def hello Some h Let_def conn1_def cov_def)
        note eb = emit_budget [OF e]
        have c0: "cn_emitted conn1 = cn_emitted conn" "Connections cov = Connections (co_coverage o1)"
          by (simp_all add: conn1_def cov_def)
        show ?thesis
        proof (cases "cn_emitted conn")
          case True
          then show ?thesis using b eb c0 filter_update_le [of ?P ?key c' "co_conns o1"]
            by (auto simp: r conn_budget_def pending_conns_def)
        next
          case False
          then show ?thesis using b eb c0 filter_update_drop [OF Some, of ?P c']
            by (auto simp: r conn_budget_def pending_conns_def)
        qed
      qed
    qed
  next
    case close
    show ?thesis
    proof (cases "map_of (co_conns o1) ?key")
      case None
      then show ?thesis using b filter_delete_le [of ?P ?key "co_conns o1"]
        by (auto simp: handleNetRecord_def close conn_budget_def pending_conns_def)
    next
      case (Some conn)
      obtain c' o2 where e: "emit room conn (time_Unix (nh_ts_ns ?h + boot)) o1 = (c', o2)" by fastforce
      have r: "handleNetRecord boot rec room o1 = o2\<lparr>co_conns := AList.delete ?key (co_conns o2)\<rparr>"
        using e by (simp add: handleNetRecord_def close Some Let_def)
      note eb = emit_budget [OF e]
      show ?thesis
      proof (cases "cn_emitted conn")
        case True
        then show ?thesis using b eb filter_delete_le [of ?P ?key "co_conns o1"]
          by (auto simp: r conn_budget_def pending_conns_def)
      next
        case False
        then show ?thesis using b eb filter_delete_drop [OF Some, of ?P]
          by (auto simp: r conn_budget_def pending_conns_def)
      qed
    qed
  next
    case other
    then show ?thesis using b by (simp add: handleNetRecord_def Let_def)
  qed
qed

text \<open>
  Whatever records arrive, in whatever order and however full the channel is, the observer
  never delivers more connection events than there were connect records: no connection is
  reported twice, by its server name and again by its address at the close.
\<close>

lemma at_most_one_event_per_connection:
  "length (co_sent (correlate_net boot rs new_correlator)) \<le>
     Connections (co_coverage (correlate_net boot rs new_correlator))"
proof -
  have "conn_budget (correlate_net boot rs o1)" if "conn_budget o1" for o1
    using that by (induction boot rs o1 rule: correlate_net.induct) (auto simp: conn_budget_step split: option.split)
  moreover have "conn_budget new_correlator" by (simp add: conn_budget_def pending_conns_def new_correlator_def)
  ultimately show ?thesis unfolding conn_budget_def by fastforce
qed

end
