(* ===== verification/Http_Wire.thy ===== *)
theory Http_Wire
  imports Http1
begin

text \<open>
  The round trip of the HTTP/1.1 parser: the bytes of a well-formed request, with a body of a given
  length or in chunks, parse to exactly this request and leave what follows in the stream.
\<close>

section \<open>Searching in lines\<close>

lemma index_of_skip: "CR \<notin> set l \<Longrightarrow> index_of (CR # p) (l @ s) = map_option ((+) (length l)) (index_of (CR # p) s)"
  by (cases "index_of (CR # p) s"; induction l) auto

lemma index_of_no_CR: "CR \<notin> set l \<Longrightarrow> index_of CRLF l = None"
  using index_of_skip [of l "[LF]" "[]"] by (simp add: CRLF_def)

lemma index_of_CRLF: "CR \<notin> set l \<Longrightarrow> index_of CRLF (l @ CRLF @ s) = Some (length l)"
  using index_of_skip [of l "[LF]" "CRLF @ s"] by (simp add: CRLF_def)

lemma index_of_blank: "CR \<notin> set l \<Longrightarrow> index_of (CRLF @ CRLF) (l @ s) =
    map_option ((+) (length l)) (index_of (CRLF @ CRLF) s)"
  using index_of_skip [of l "LF # CRLF" s] by (simp add: CRLF_def)

lemma CR_LF [simp]: "CR \<noteq> LF" "LF \<noteq> CR"
  by (simp_all add: CR_def LF_def)

text \<open>The lines of a head, each ended by CRLF except the last.\<close>

definition text_line :: "bytes \<Rightarrow> bool" where
  "text_line l \<longleftrightarrow> l \<noteq> [] \<and> CR \<notin> set l"

lemma index_of_blank_sep: "text_line l \<Longrightarrow> index_of (CRLF @ CRLF) (CRLF @ l @ s) =
    map_option (\<lambda>n. 2 + n) (index_of (CRLF @ CRLF) (l @ s))"
  by (cases l) (auto simp: text_line_def CRLF_def option.map_comp comp_def)

definition lines_after :: "bytes list \<Rightarrow> bytes" where
  "lines_after ls = concat (map (\<lambda>l. CRLF @ l) ls)"

lemma index_of_lines_after: "list_all text_line ls \<Longrightarrow>
    index_of (CRLF @ CRLF) (lines_after ls @ CRLF @ CRLF @ s) = Some (length (lines_after ls))"
proof (induction ls)
  case Nil
  show ?case by (simp add: lines_after_def CRLF_def)
next
  case (Cons l ls)
  have "CR \<notin> set l" using Cons.prems by (simp add: text_line_def)
  have "index_of (CRLF @ CRLF) (CRLF @ l @ lines_after ls @ CRLF @ CRLF @ s) =
      Some (2 + (length l + length (lines_after ls)))"
    using Cons by (simp add: index_of_blank_sep index_of_blank [OF \<open>CR \<notin> set l\<close>] del: append_assoc)
  then show ?case by (simp add: lines_after_def)
qed

lemma index_of_head:
  assumes "text_line l" "list_all text_line ls"
  shows "index_of (CRLF @ CRLF) ((l @ lines_after ls) @ CRLF @ CRLF @ s) = Some (length (l @ lines_after ls))"
  using index_of_blank [of l "lines_after ls @ CRLF @ CRLF @ s"] index_of_lines_after [OF assms(2), of s] assms(1)
  by (simp add: text_line_def)

text \<open>The same lines each ended by CRLF: what the header reader is given.\<close>

definition lines_of :: "bytes list \<Rightarrow> bytes" where
  "lines_of ls = concat (map (\<lambda>l. l @ CRLF) ls)"

lemma lines_after_of: "lines_after ls @ CRLF = CRLF @ lines_of ls"
  by (induction ls) (simp_all add: lines_after_def lines_of_def)

section \<open>The request line\<close>

lemma index_byte_found: "b \<notin> set l \<Longrightarrow> index_byte b (l @ b # s) = Some (length l)"
  by (induction l) (auto simp: index_byte_def)

lemma index_byte_none: "b \<notin> set l \<Longrightarrow> index_byte b l = None"
  by (induction l) (auto simp: index_byte_def)

definition target_bytes :: "bytes \<Rightarrow> bytes option \<Rightarrow> bytes" where
  "target_bytes path query = path @ (case query of None \<Rightarrow> [] | Some q \<Rightarrow> 63 # q)"

definition query_text :: "bytes option \<Rightarrow> string" where
  "query_text query = (case query of None \<Rightarrow> '''' | Some q \<Rightarrow> str_of q)"

definition request_line :: "bytes \<Rightarrow> bytes \<Rightarrow> bytes option \<Rightarrow> bytes \<Rightarrow> bytes" where
  "request_line meth path query minor =
     meth @ [SP] @ target_bytes path query @ [SP] @ bytes_of ''HTTP/1.'' @ minor"

definition request_line_ok :: "bytes \<Rightarrow> bytes \<Rightarrow> bytes option \<Rightarrow> bytes \<Rightarrow> bool" where
  "request_line_ok meth path query minor \<longleftrightarrow>
     meth \<noteq> [] \<and> SP \<notin> set meth \<and> CR \<notin> set meth \<and>
     path \<noteq> [] \<and> SP \<notin> set path \<and> CR \<notin> set path \<and> 63 \<notin> set path \<and>
     (case query of None \<Rightarrow> True | Some q \<Rightarrow> SP \<notin> set q \<and> CR \<notin> set q) \<and> CR \<notin> set minor"

lemma parseRequestLine_line:
  assumes "request_line_ok meth path query minor"
  shows "parseRequestLine (request_line meth path query minor) = Some (str_of meth, str_of path, query_text query)"
proof -
  let ?t = "target_bytes path query" and ?v = "bytes_of ''HTTP/1.'' @ minor"
  have t: "SP \<notin> set ?t" "?t \<noteq> []" using assms
    by (auto simp: request_line_ok_def target_bytes_def SP_def split: option.splits)
  have i: "index_byte SP (meth @ SP # ?t @ SP # ?v) = Some (length meth)"
    using assms by (intro index_byte_found) (simp add: request_line_ok_def)
  have j: "index_byte SP (?t @ SP # ?v) = Some (length ?t)" by (rule index_byte_found [OF t(1)])
  have q: "(case index_byte 63 ?t of
      Some q \<Rightarrow> Some (str_of meth, str_of (take q ?t), str_of (drop (Suc q) ?t))
    | None \<Rightarrow> Some (str_of meth, str_of ?t, '''')) = Some (str_of meth, str_of path, query_text query)"
    using assms index_byte_found [of 63 path] index_byte_none [of 63 path]
    by (cases query) (auto simp: request_line_ok_def target_bytes_def query_text_def)
  have m: "meth \<noteq> []" using assms by (simp add: request_line_ok_def)
  have l: "request_line meth path query minor = meth @ SP # ?t @ SP # ?v" by (simp add: request_line_def)
  have d: "take (length xs) (xs @ b # ys) = xs" "drop (Suc (length xs)) (xs @ b # ys) = ys" for xs ys and b :: u8
    by simp_all
  have v: "take 7 ?v = bytes_of ''HTTP/1.''" by (simp add: bytes_of_def)
  show ?thesis
    unfolding parseRequestLine_def l i option.case Let_def d j v q using t(2) m by simp
qed

lemma request_line_text: "request_line_ok meth path query minor \<Longrightarrow> text_line (request_line meth path query minor)"
  by (auto simp: request_line_ok_def request_line_def text_line_def target_bytes_def bytes_of_def
      byte_of_char_def SP_def CR_def split: option.splits)

section \<open>Header fields\<close>

definition field_line :: "bytes \<times> bytes \<Rightarrow> bytes" where
  "field_line f = fst f @ [58, SP] @ snd f"

definition field_ok :: "bytes \<times> bytes \<Rightarrow> bool" where
  "field_ok f \<longleftrightarrow> fst f \<noteq> [] \<and> list_all validHeaderFieldByte (fst f) \<and> list_all validHeaderValueByte (snd f) \<and>
     (snd f \<noteq> [] \<longrightarrow> \<not> is_space_tab (hd (snd f)) \<and> \<not> is_space_tab (last (snd f)))"

text \<open>The header map of a list of fields.\<close>

definition canonical :: "bytes \<Rightarrow> string" where
  "canonical n = str_of (canonicalize True n)"

definition header_map :: "(bytes \<times> bytes) list \<Rightarrow> MIMEHeader \<Rightarrow> MIMEHeader" where
  "header_map fs m = fold (\<lambda>(n, v). add_value (canonical n) (str_of v)) fs m"

lemma field_byte_facts:
  assumes "validHeaderFieldByte c"
  shows "c \<noteq> 58" "c \<noteq> SP" "c \<noteq> TAB" "c \<noteq> CR" "c \<noteq> LF"
  using assms
  by (auto simp: validHeaderFieldByte_def is_digit_def is_upper_def is_lower_def bytes_of_def byte_of_char_def
      SP_def TAB_def CR_def LF_def)

lemma field_name_bytes:
  assumes "list_all validHeaderFieldByte n"
  shows "58 \<notin> set n" "SP \<notin> set n" "CR \<notin> set n" "LF \<notin> set n"
  using assms field_byte_facts unfolding list_all_iff by blast+

lemma value_byte_facts: "validHeaderValueByte c \<Longrightarrow> c \<noteq> CR \<and> c \<noteq> LF"
  by (auto simp: validHeaderValueByte_def TAB_def CR_def LF_def)

lemma is_space_tab_colon [simp]: "\<not> is_space_tab 58" "is_space_tab SP"
  by (simp_all add: is_space_tab_def SP_def TAB_def)

lemma field_line_bytes:
  assumes "field_ok f"
  shows "CR \<notin> set (field_line f)" "LF \<notin> set (field_line f)" "field_line f \<noteq> []" "58 \<in> set (field_line f)"
proof -
  have n: "list_all validHeaderFieldByte (fst f)" using assms by (simp add: field_ok_def)
  have v: "CR \<notin> set (snd f)" "LF \<notin> set (snd f)"
    using assms value_byte_facts unfolding field_ok_def list_all_iff by blast+
  have c: "CR \<noteq> 58" "CR \<noteq> SP" "LF \<noteq> 58" "LF \<noteq> SP" by (simp_all add: CR_def LF_def SP_def)
  show "CR \<notin> set (field_line f)" "LF \<notin> set (field_line f)" "field_line f \<noteq> []" "58 \<in> set (field_line f)"
    using field_name_bytes [OF n] v c by (simp_all add: field_line_def)
qed

lemma field_line_text: "field_ok f \<Longrightarrow> text_line (field_line f)"
  by (simp add: text_line_def field_line_bytes)

lemma field_name_starts: "field_ok f \<Longrightarrow> \<not> is_space_tab (hd (field_line f))"
  using field_byte_facts by (cases "fst f") (auto simp: field_ok_def field_line_def is_space_tab_def)

lemma readLine_line: "LF \<notin> set l \<Longrightarrow> readLine (l @ CRLF @ r) = Some (l, r)"
  using index_byte_found [of LF "l @ [CR]" r]
  by (simp add: readLine_def CRLF_def drop_last_CR_def)

text \<open>What is left of the line after trimming: an empty value leaves no space behind the colon.\<close>

definition trimmed_line :: "bytes \<times> bytes \<Rightarrow> bytes" where
  "trimmed_line f = (if snd f = [] then fst f @ [58] else field_line f)"

lemma trim_id: "s \<noteq> [] \<Longrightarrow> \<not> is_space_tab (hd s) \<Longrightarrow> \<not> is_space_tab (last s) \<Longrightarrow> trim s = s"
proof -
  assume s: "s \<noteq> []" "\<not> is_space_tab (hd s)" "\<not> is_space_tab (last s)"
  then have "trim_left s = s" by (cases s) (simp_all add: trim_left_def)
  moreover have "trim_left (rev s) = rev s" using s by (cases s rule: rev_cases) (simp_all add: trim_left_def)
  ultimately show ?thesis by (simp add: trim_def)
qed

lemma trim_field: "field_ok f \<Longrightarrow> trim (field_line f) = trimmed_line f"
proof (cases "snd f = []")
  case True
  assume "field_ok f"
  then obtain c cs where n: "fst f = c # cs" "\<not> is_space_tab c"
    using field_byte_facts by (cases "fst f") (auto simp: field_ok_def is_space_tab_def)
  then have "trim_left (field_line f) = field_line f"
    by (simp add: trim_left_def field_line_def)
  moreover have "trim_left (rev (field_line f)) = rev (fst f @ [58])"
    using True by (simp add: trim_left_def field_line_def)
  ultimately show ?thesis using True by (simp add: trim_def trimmed_line_def)
next
  case False
  assume f: "field_ok f"
  have "last (field_line f) = last (snd f)" using False by (simp add: field_line_def)
  with False f show ?thesis
    by (simp add: trimmed_line_def trim_id field_line_bytes field_name_starts) (simp add: field_ok_def trim_id
        field_line_bytes field_name_starts f)
qed

lemma header_line_field: "field_ok f \<Longrightarrow>
    header_line (trimmed_line f) = Some (canonical (fst f), str_of (snd f))"
proof -
  assume f: "field_ok f"
  have n: "58 \<notin> set (fst f)" "SP \<notin> set (fst f)" "fst f \<noteq> []" "\<forall>c\<in>set (fst f). validHeaderFieldByte c"
    using f field_name_bytes by (simp_all add: field_ok_def list_all_iff)
  then have c: "canonicalMIMEHeaderKey (fst f) = Some (canonical (fst f))"
    by (simp add: canonicalMIMEHeaderKey_def canonical_def)
  define v where "v = (if snd f = [] then [] else SP # snd f)"
  have l: "trimmed_line f = fst f @ 58 # v" by (simp add: trimmed_line_def field_line_def v_def)
  have "\<forall>c\<in>set v. validHeaderValueByte c"
    using f by (auto simp: v_def field_ok_def list_all_iff validHeaderValueByte_def SP_def)
  moreover have "trim_left v = snd f"
    using f by (cases "snd f") (auto simp: v_def trim_left_def field_ok_def)
  ultimately show ?thesis
    using index_byte_found [OF n(1), of v] c by (simp add: header_line_def l)
qed

lemma continue_lines_stop: "r = [] \<or> \<not> is_space_tab (hd r) \<Longrightarrow> continue_lines buf r = (buf, r)"
  by (subst continue_lines.simps) simp

lemma lines_of_stop: "list_all field_ok fs \<Longrightarrow>
    lines_of (map field_line fs) = [] \<or> \<not> is_space_tab (hd (lines_of (map field_line fs)))"
  by (cases fs) (simp_all add: lines_of_def hd_append field_line_bytes field_name_starts)

lemma trimmed_line_not_Nil: "trimmed_line f \<noteq> []"
  by (simp add: trimmed_line_def field_line_def)

lemma header_lines_fields: "list_all field_ok fs \<Longrightarrow>
    header_lines (lines_of (map field_line fs)) m = Some (header_map fs m)"
proof (induction fs arbitrary: m)
  case Nil
  show ?case
    by (subst header_lines.simps) (simp add: lines_of_def readContinuedLine_def readLine_def header_map_def)
next
  case (Cons f fs)
  then have f: "field_ok f" and fs: "list_all field_ok fs" by simp_all
  let ?r = "lines_of (map field_line fs)"
  have s: "lines_of (map field_line (f # fs)) = field_line f @ CRLF @ ?r" by (simp add: lines_of_def)
  have "readContinuedLine (lines_of (map field_line (f # fs))) = Some (trimmed_line f, ?r)"
    unfolding s readContinuedLine_def readLine_line [OF field_line_bytes(2) [OF f]]
    using field_line_bytes [OF f] lines_of_stop [OF fs] by (simp add: trim_field [OF f] continue_lines_stop)
  then show ?case
    using Cons.IH [OF fs] header_line_field [OF f]
    by (subst header_lines.simps) (cases f, simp add: trimmed_line_not_Nil header_map_def)
qed

lemma ReadMIMEHeader_fields: "list_all field_ok fs \<Longrightarrow>
    ReadMIMEHeader (lines_of (map field_line fs)) = Some (header_map fs Map.empty)"
  using lines_of_stop [of fs] header_lines_fields [of fs Map.empty]
  by (auto simp: ReadMIMEHeader_def)

section \<open>Bodies\<close>

text \<open>A chunk: its size line, extensions included, and its data.\<close>

definition chunk_size :: "bytes \<Rightarrow> nat option" where
  "chunk_size line =
     ParseUint_hex32 (TrimSpace (case index_byte 59 line of None \<Rightarrow> line | Some i \<Rightarrow> take i line))"

definition chunk_ok :: "bytes \<times> bytes \<Rightarrow> bool" where
  "chunk_ok c \<longleftrightarrow> CR \<notin> set (fst c) \<and> snd c \<noteq> [] \<and> chunk_size (fst c) = Some (length (snd c))"

definition chunk_bytes :: "bytes \<times> bytes \<Rightarrow> bytes" where
  "chunk_bytes c = fst c @ CRLF @ snd c @ CRLF"

definition chunked_bytes :: "(bytes \<times> bytes) list \<Rightarrow> bytes \<Rightarrow> bytes" where
  "chunked_bytes cs end_line = concat (map chunk_bytes cs) @ end_line @ CRLF @ CRLF"

lemma seg_at: "length pre = p \<Longrightarrow> length xs = n \<Longrightarrow> seg p n (pre @ xs @ ys) = xs"
  by (simp add: seg_def)

lemma chunks_loop_end:
  assumes "CR \<notin> set l" "chunk_size l = Some 0"
  shows "chunks_loop (pre @ l @ CRLF @ CRLF @ rest) (length pre) out = Parsed (out, length pre + length l + 4)"
proof -
  let ?a = "pre @ l @ CRLF @ CRLF @ rest"
  have i: "index_of CRLF (drop (length pre) ?a) = Some (length l)"
    using index_of_CRLF [OF assms(1)] by simp
  have s: "seg (length pre) (length l) ?a = l" by (simp add: seg_def)
  have e: "seg (length pre + length l + 2) 2 ?a = CRLF"
    using seg_at [of "pre @ l @ CRLF" "length pre + length l + 2" CRLF 2 rest] by simp
  show ?thesis
    unfolding chunks_loop.simps [of ?a "length pre" out] i option.case Let_def s
    using assms(2) e by (simp add: chunk_size_def)
qed

lemma chunks_loop_step:
  assumes "chunk_ok c"
  shows "chunks_loop (pre @ chunk_bytes c @ rest) (length pre) out =
    chunks_loop (pre @ chunk_bytes c @ rest) (length (pre @ chunk_bytes c)) (out @ snd c)"
proof -
  let ?a = "pre @ chunk_bytes c @ rest" and ?q = "length pre + length (fst c) + 2"
  have a: "?a = pre @ fst c @ CRLF @ snd c @ CRLF @ rest" by (simp add: chunk_bytes_def)
  have c: "CR \<notin> set (fst c)" "length (snd c) \<noteq> 0" "chunk_size (fst c) = Some (length (snd c))"
    using assms by (simp_all add: chunk_ok_def)
  have i: "index_of CRLF (drop (length pre) ?a) = Some (length (fst c))"
    unfolding a using index_of_CRLF [OF c(1)] by simp
  have s: "seg (length pre) (length (fst c)) ?a = fst c" unfolding a by (simp add: seg_def)
  have d: "seg ?q (length (snd c)) ?a = snd c"
    unfolding a using seg_at [of "pre @ fst c @ CRLF" ?q "snd c" "length (snd c)" "CRLF @ rest"] by simp
  have e: "seg (?q + length (snd c)) 2 ?a = CRLF"
    unfolding a using seg_at [of "pre @ fst c @ CRLF @ snd c" "?q + length (snd c)" CRLF 2 rest] by simp
  have l: "?q + length (snd c) + 2 \<le> length ?a" unfolding a by simp
  have p: "length (pre @ chunk_bytes c) = ?q + length (snd c) + 2" by (simp add: chunk_bytes_def)
  show ?thesis
    unfolding chunks_loop.simps [of ?a "length pre" out] i option.case Let_def s p
      chunk_size_def [symmetric] c(3)
    using c(2) d e l by simp
qed

lemma chunks_loop_bytes:
  assumes "list_all chunk_ok cs" "CR \<notin> set l" "chunk_size l = Some 0"
  shows "chunks_loop (pre @ chunked_bytes cs l @ rest) (length pre) out =
    Parsed (out @ concat (map snd cs), length pre + length (chunked_bytes cs l))"
  using assms(1)
proof (induction cs arbitrary: pre out)
  case Nil
  then show ?case using chunks_loop_end [OF assms(2,3)] by (simp add: chunked_bytes_def)
next
  case (Cons c cs)
  have s: "pre @ chunked_bytes (c # cs) l @ rest = pre @ chunk_bytes c @ chunked_bytes cs l @ rest"
    by (simp add: chunked_bytes_def)
  have "chunks_loop (pre @ chunked_bytes (c # cs) l @ rest) (length pre) out =
      chunks_loop ((pre @ chunk_bytes c) @ chunked_bytes cs l @ rest) (length (pre @ chunk_bytes c)) (out @ snd c)"
    unfolding s using chunks_loop_step [of c pre "chunked_bytes cs l @ rest" out] Cons.prems by simp
  also have "\<dots> = Parsed ((out @ snd c) @ concat (map snd cs), length (pre @ chunk_bytes c) + length (chunked_bytes cs l))"
    using Cons by (intro Cons.IH) simp
  finally show ?case by (simp add: chunked_bytes_def)
qed

section \<open>Requests\<close>

text \<open>How the body of a request is sent: not at all, with its length announced, or in chunks up to a
  last size line.\<close>

datatype body_framing = No_Body | Sized bytes | Chunked "(bytes \<times> bytes) list" bytes

record http_msg =
  hm_method :: bytes
  hm_path :: bytes
  hm_query :: "bytes option"
  hm_minor :: bytes
  hm_fields :: "(bytes \<times> bytes) list"
  hm_framing :: body_framing

fun framing_bytes :: "body_framing \<Rightarrow> bytes" where
  "framing_bytes No_Body = []"
| "framing_bytes (Sized b) = b"
| "framing_bytes (Chunked cs l) = chunked_bytes cs l"

fun framing_body :: "body_framing \<Rightarrow> bytes" where
  "framing_body No_Body = []"
| "framing_body (Sized b) = b"
| "framing_body (Chunked cs l) = concat (map snd cs)"

fun framing_ok :: "MIMEHeader \<Rightarrow> body_framing \<Rightarrow> bool" where
  "framing_ok h No_Body \<longleftrightarrow> \<not> isChunked h \<and> (\<exists>l. contentLength h = Some (0, l))"
| "framing_ok h (Sized b) \<longleftrightarrow> \<not> isChunked h \<and> contentLength h = Some (of_nat (length b), True) \<and>
     length b < 2 ^ 63"
| "framing_ok h (Chunked cs l) \<longleftrightarrow> isChunked h \<and> list_all chunk_ok cs \<and> CR \<notin> set l \<and> chunk_size l = Some 0"

definition msg_headers :: "http_msg \<Rightarrow> MIMEHeader" where
  "msg_headers m = header_map (hm_fields m) Map.empty"

definition head_ok :: "http_msg \<Rightarrow> bool" where
  "head_ok m \<longleftrightarrow> request_line_ok (hm_method m) (hm_path m) (hm_query m) (hm_minor m) \<and>
     list_all field_ok (hm_fields m)"

definition http_ok :: "http_msg \<Rightarrow> bool" where
  "http_ok m \<longleftrightarrow> head_ok m \<and> framing_ok (msg_headers m) (hm_framing m)"

definition msg_line :: "http_msg \<Rightarrow> bytes" where
  "msg_line m = request_line (hm_method m) (hm_path m) (hm_query m) (hm_minor m)"

definition head_bytes :: "http_msg \<Rightarrow> bytes" where
  "head_bytes m = msg_line m @ lines_after (map field_line (hm_fields m)) @ CRLF @ CRLF"

definition http_bytes :: "http_msg \<Rightarrow> bytes" where
  "http_bytes m = head_bytes m @ framing_bytes (hm_framing m)"

definition request_with :: "http_msg \<Rightarrow> bytes \<Rightarrow> HTTPRequest" where
  "request_with m body = \<lparr>rq_Method = str_of (hm_method m), rq_Path = str_of (hm_path m),
     rq_Query = query_text (hm_query m), rq_Headers = msg_headers m, rq_Body = body\<rparr>"

definition request_of :: "http_msg \<Rightarrow> HTTPRequest" where
  "request_of m = request_with m (framing_body (hm_framing m))"

lemma readBody_framing:
  assumes "framing_ok h fr"
  shows "readBody (framing_bytes fr @ rest) h = Parsed (framing_body fr, length (framing_bytes fr))"
proof (cases fr)
  case No_Body
  with assms show ?thesis by (auto simp: readBody_def)
next
  case (Sized b)
  have "sint (of_nat (length b) :: s64) = int (length b)"
    using assms Sized by (simp add: signed_of_nat signed_take_bit_int_eq_self_iff)
  with assms Sized show ?thesis by (auto simp: readBody_def)
next
  case (Chunked cs l)
  with assms chunks_loop_bytes [of cs l "[]" rest "[]"] show ?thesis
    by (simp add: readBody_def readChunkedBody_def)
qed

lemma parse_head_msg:
  assumes "head_ok m"
  shows "parse_head (msg_line m @ lines_after (map field_line (hm_fields m))) =
    Some ((str_of (hm_method m), str_of (hm_path m), query_text (hm_query m)), msg_headers m)"
proof -
  have l: "text_line (msg_line m)" and line: "parseRequestLine (msg_line m) =
      Some (str_of (hm_method m), str_of (hm_path m), query_text (hm_query m))"
    using assms by (simp_all add: head_ok_def msg_line_def request_line_text parseRequestLine_line)
  have cr: "CR \<notin> set (msg_line m)" using l by (simp add: text_line_def)
  show ?thesis
  proof (cases "hm_fields m")
    case Nil
    then show ?thesis
      using index_of_no_CR [OF cr] line by (simp add: parse_head_def lines_after_def msg_headers_def header_map_def)
  next
    case (Cons f fs)
    let ?ls = "map field_line (f # fs)"
    have ok: "list_all field_ok (f # fs)" using assms Cons by (simp add: head_ok_def)
    have a: "lines_after ?ls = CRLF @ field_line f @ lines_after (map field_line fs)" by (simp add: lines_after_def)
    have i: "index_of CRLF (msg_line m @ lines_after ?ls) = Some (length (msg_line m))"
      unfolding a by (rule index_of_CRLF [OF cr])
    have b: "drop (length (msg_line m) + 2) (msg_line m @ lines_after ?ls) @ CRLF = lines_of ?ls"
      unfolding a using lines_after_of [of "map field_line fs"] by (simp add: lines_of_def)
    have ne: "drop (length (msg_line m) + 2) (msg_line m @ lines_after ?ls) \<noteq> []"
      unfolding a using field_line_bytes(3) [of f] ok by simp
    show ?thesis
      unfolding parse_head_def Cons i option.case prod.case Let_def b
      using ne line ReadMIMEHeader_fields [OF ok] by (simp add: msg_headers_def Cons)
  qed
qed

section \<open>Properties\<close>

text \<open>The parser on a well-formed head, whatever follows it.\<close>

lemma ParseHTTP1_head:
  assumes "head_ok m"
  shows "ParseHTTP1 \<lparr>st_buf = head_bytes m @ after\<rparr> =
    (case readBody after (msg_headers m) of
       Malformed \<Rightarrow> (Malformed, \<lparr>st_buf = head_bytes m @ after\<rparr>)
     | NeedMore \<Rightarrow> (NeedMore, \<lparr>st_buf = head_bytes m @ after\<rparr>)
     | Panicked \<Rightarrow> (Panicked, \<lparr>st_buf = head_bytes m @ after\<rparr>)
     | Parsed (body, n) \<Rightarrow> (Parsed (request_with m body), \<lparr>st_buf = drop n after\<rparr>))"
proof -
  let ?ls = "map field_line (hm_fields m)"
  let ?front = "msg_line m @ lines_after ?ls"
  let ?buf = "head_bytes m @ after"
  have b: "?buf = ?front @ CRLF @ CRLF @ after" by (simp add: head_bytes_def)
  have l: "text_line (msg_line m)" "list_all text_line ?ls"
    using assms by (auto simp: head_ok_def msg_line_def request_line_text list_all_iff field_line_text)
  have i: "index_of (CRLF @ CRLF) ?buf = Some (length ?front)"
    unfolding b by (rule index_of_head [OF l])
  have t: "take (length ?front) ?buf = ?front" unfolding b by simp
  have d: "drop (length ?front + 4) ?buf = after" unfolding b by simp
  have c: "drop (length ?front + 4 + n) ?buf = drop n after" for n
    unfolding b by simp
  show ?thesis
    unfolding ParseHTTP1_def Stream.select_convs i option.case t parse_head_msg [OF assms] prod.case
      finish_request_def d
    using c by (simp add: request_with_def consume_def split: parsed.split prod.split)
qed

lemma ParseHTTP1_msg:
  assumes "http_ok m"
  shows "ParseHTTP1 \<lparr>st_buf = http_bytes m @ rest\<rparr> = (Parsed (request_of m), \<lparr>st_buf = rest\<rparr>)"
proof -
  let ?f = "hm_framing m"
  have ok: "head_ok m" "framing_ok (msg_headers m) ?f" using assms by (simp_all add: http_ok_def)
  show ?thesis
    unfolding http_bytes_def append_assoc ParseHTTP1_head [OF ok(1)] readBody_framing [OF ok(2)]
    by (simp add: request_of_def)
qed

section \<open>A body of announced length\<close>

text \<open>The number a string of digits denotes, and what the code makes of it: its remainder as a 64-bit
  signed number.\<close>

definition decimal :: "bytes \<Rightarrow> nat" where
  "decimal cs = foldl (\<lambda>n c. n * 10 + unat (c - 48)) 0 cs"

lemma digits_loop_digits: "list_all is_digit cs \<Longrightarrow>
    digits_loop cs (of_nat n) = Some (of_nat (foldl (\<lambda>n c. n * 10 + unat (c - 48)) n cs))"
proof (induction cs arbitrary: n)
  case (Cons c cs)
  have "of_nat n * 10 + ucast (c - 48) = (of_nat (n * 10 + unat (c - 48)) :: s64)"
    by (simp add: unsigned_word_eqI)
  then show ?case using Cons.IH [of "n * 10 + unat (c - 48)"] Cons.prems by (simp del: of_nat_add of_nat_mult)
qed simp

lemma contentLength_decimal:
  assumes "Get h ''Content-Length'' = v" "v \<noteq> ''''" "list_all is_digit (bytes_of v)"
  shows "contentLength h = Some (of_nat (decimal (bytes_of v)), True)"
  using assms digits_loop_digits [of "bytes_of v" 0] by (simp add: contentLength_def decimal_def)

lemma negative_length:
  assumes "2 ^ 63 \<le> n mod 2 ^ 64"
  shows "sint (of_nat n :: s64) < 0"
proof -
  have "n mod (2 ^ 63 * 2) = 2 ^ 63 * (n div 2 ^ 63 mod 2) + n mod 2 ^ 63" by (rule mod_mult2_eq)
  moreover have "n mod 2 ^ 63 < 2 ^ 63" by simp
  ultimately have "odd (n div 2 ^ 63)" using assms by (cases "even (n div 2 ^ 63)") (auto simp: even_iff_mod_2_eq_zero)
  then have "bit (int n) 63" 
    unfolding bit_iff_odd by (metis even_of_nat of_nat_div of_nat_numeral of_nat_power)
  then show ?thesis by (simp add: signed_of_nat signed_take_bit_negative_iff)
qed

text \<open>
  C27. Round trip of the HTTP/1.1 parser: for every well-formed request, with any header fields and a
  body sent with its length or in chunks (chunk extensions included), parsing its bytes followed by
  anything else yields exactly the request, with method, path and query verbatim, the field values under
  their canonical names in order and the decoded body, and leaves exactly what follows in the stream.
\<close>

theorem http_request_roundtrip:
  assumes "http_ok m"
  shows "ParseHTTP1 \<lparr>st_buf = http_bytes m @ rest\<rparr> = (Parsed (request_of m), \<lparr>st_buf = rest\<rparr>)"
  by (rule ParseHTTP1_msg [OF assms])

definition ex_msg :: http_msg where
  "ex_msg = \<lparr>hm_method = bytes_of ''POST'', hm_path = bytes_of ''/v1/messages'', hm_query = Some (bytes_of ''b=1''),
     hm_minor = bytes_of ''1'',
     hm_fields = [(bytes_of ''host'', bytes_of ''api.example.com''),
                  (bytes_of ''Transfer-Encoding'', bytes_of ''chunked'')],
     hm_framing = Chunked [(bytes_of ''5;x'', bytes_of ''hello''), (bytes_of ''06'', bytes_of '' world'')]
       (bytes_of ''0'')\<rparr>"

lemma ex_msg_headers: "msg_headers ex_msg =
    [''Host'' \<mapsto> [''api.example.com''], ''Transfer-Encoding'' \<mapsto> [''chunked'']]"
proof -
  have "canonical (bytes_of ''host'') = ''Host''"
    "canonical (bytes_of ''Transfer-Encoding'') = ''Transfer-Encoding''"
    by code_simp+
  then show ?thesis by (simp add: msg_headers_def ex_msg_def header_map_def add_value_def)
qed

lemma ex_msg_ok: "http_ok ex_msg"
proof -
  have "chunk_size (bytes_of ''5;x'') = Some 5" "chunk_size (bytes_of ''06'') = Some 6"
    "chunk_size (bytes_of ''0'') = Some 0"
    by (simp_all add: chunk_size_def index_byte_def TrimSpace_def strip_prefixes.simps ws_runes_def bytes_of_def
        byte_of_char_def ParseUint_hex32_def hex_val_def is_digit_def)
  then have "list_all chunk_ok [(bytes_of ''5;x'', bytes_of ''hello''), (bytes_of ''06'', bytes_of '' world'')]"
    by (simp add: chunk_ok_def CR_def) (simp add: bytes_of_def byte_of_char_def)
  moreover have "isChunked (msg_headers ex_msg)"
    by (simp add: isChunked_def ex_msg_headers Get_def)
  moreover have "request_line_ok (hm_method ex_msg) (hm_path ex_msg) (hm_query ex_msg) (hm_minor ex_msg)"
    "list_all field_ok (hm_fields ex_msg)"
    by code_simp+
  ultimately show ?thesis
    using \<open>chunk_size (bytes_of ''0'') = Some 0\<close>
    by (simp add: http_ok_def head_ok_def ex_msg_def CR_def) (simp add: bytes_of_def byte_of_char_def)
qed

lemma ex_request: "request_of ex_msg =
    \<lparr>rq_Method = ''POST'', rq_Path = ''/v1/messages'', rq_Query = ''b=1'',
     rq_Headers = [''Host'' \<mapsto> [''api.example.com''], ''Transfer-Encoding'' \<mapsto> [''chunked'']],
     rq_Body = bytes_of ''hello world''\<rparr>"
proof -
  have "bytes_of ''hello'' @ bytes_of '' world'' = bytes_of ''hello world''" by (simp add: bytes_of_def)
  then show ?thesis by (simp add: request_of_def request_with_def ex_msg_headers) (simp add: ex_msg_def query_text_def)
qed

theorem http_request_roundtrip_witness:
  "fst (ParseHTTP1 \<lparr>st_buf = http_bytes ex_msg @ [71, 69]\<rparr>) = Parsed
     \<lparr>rq_Method = ''POST'', rq_Path = ''/v1/messages'', rq_Query = ''b=1'',
      rq_Headers = [''Host'' \<mapsto> [''api.example.com''], ''Transfer-Encoding'' \<mapsto> [''chunked'']],
      rq_Body = bytes_of ''hello world''\<rparr>"
  using http_request_roundtrip [OF ex_msg_ok, of "[71, 69]"] by (simp add: ex_request)

end
