(* ===== verification/Content.thy ===== *)
theory Content
  imports Prelude
begin

text \<open>
  Content digests: \<open>pkg/content/hash.go\<close> on top of \<open>crypto/sha256\<close> and \<open>encoding/hex\<close> of the
  standard library, defined after FIPS 180-4. Opening and reading files are arguments.
\<close>

section \<open>SHA-256\<close>

definition be_word :: "bytes \<Rightarrow> u32" where
  "be_word b = foldl (\<lambda>w x. push_bit 8 w OR ucast x) 0 b"

definition be_bytes :: "nat \<Rightarrow> nat \<Rightarrow> bytes" where
  "be_bytes n x = rev (le_enc n x)"

fun be_words :: "nat \<Rightarrow> bytes \<Rightarrow> u32 list" where
  "be_words 0 b = []"
| "be_words (Suc n) b = be_word (take 4 b) # be_words n (drop 4 b)"

text \<open>The constants, eight words to a row.\<close>

definition row_words :: "256 word \<Rightarrow> u32 list" where
  "row_words row = map (\<lambda>i. ucast (drop_bit (32 * i) row)) (rev [0..<8])"

definition sha_K :: "u32 list" where
  "sha_K = concat (map row_words
     [0x428a2f9871374491b5c0fbcfe9b5dba53956c25b59f111f1923f82a4ab1c5ed5,
      0xd807aa9812835b01243185be550c7dc372be5d7480deb1fe9bdc06a7c19bf174,
      0xe49b69c1efbe47860fc19dc6240ca1cc2de92c6f4a7484aa5cb0a9dc76f988da,
      0x983e5152a831c66db00327c8bf597fc7c6e00bf3d5a7914706ca635114292967,
      0x27b70a852e1b21384d2c6dfc53380d13650a7354766a0abb81c2c92e92722c85,
      0xa2bfe8a1a81a664bc24b8b70c76c51a3d192e819d6990624f40e3585106aa070,
      0x19a4c1161e376c082748774c34b0bcb5391c0cb34ed8aa4a5b9cca4f682e6ff3,
      0x748f82ee78a5636f84c878148cc7020890befffaa4506cebbef9a3f7c67178f2])"

definition sha_H0 :: "u32 list" where
  "sha_H0 = row_words
     0x6a09e667bb67ae853c6ef372a54ff53a510e527f9b05688c1f83d9ab5be0cd19"

definition big_sigma0 :: "u32 \<Rightarrow> u32" where
  "big_sigma0 x = word_rotr 2 x XOR word_rotr 13 x XOR word_rotr 22 x"
definition big_sigma1 :: "u32 \<Rightarrow> u32" where
  "big_sigma1 x = word_rotr 6 x XOR word_rotr 11 x XOR word_rotr 25 x"
definition small_sigma0 :: "u32 \<Rightarrow> u32" where
  "small_sigma0 x = word_rotr 7 x XOR word_rotr 18 x XOR drop_bit 3 x"
definition small_sigma1 :: "u32 \<Rightarrow> u32" where
  "small_sigma1 x = word_rotr 17 x XOR word_rotr 19 x XOR drop_bit 10 x"

text \<open>The message schedule, one more word at a time.\<close>

fun schedule :: "nat \<Rightarrow> u32 list \<Rightarrow> u32 list" where
  "schedule 0 w = w"
| "schedule (Suc n) w =
     (let t = length w
      in schedule n (w @ [small_sigma1 (w ! (t - 2)) + w ! (t - 7) + small_sigma0 (w ! (t - 15)) + w ! (t - 16)]))"

fun sha_round :: "u32 list \<Rightarrow> u32 \<times> u32 \<Rightarrow> u32 list" where
  "sha_round [a, b, c, d, e, f, g, h] (k, w) =
     (let t1 = h + big_sigma1 e + ((e AND f) XOR (NOT e AND g)) + k + w;
          t2 = big_sigma0 a + ((a AND b) XOR (a AND c) XOR (b AND c))
      in [t1 + t2, a, b, c, d + t1, e, f, g])"
| "sha_round st _ = st"

definition sha_block :: "u32 list \<Rightarrow> bytes \<Rightarrow> u32 list" where
  "sha_block H b = map2 (+) H (foldl sha_round H (zip sha_K (schedule 48 (be_words 16 b))))"

fun sha_blocks :: "nat \<Rightarrow> u32 list \<Rightarrow> bytes \<Rightarrow> u32 list" where
  "sha_blocks 0 H b = H"
| "sha_blocks (Suc n) H b = sha_blocks n (sha_block H (take 64 b)) (drop 64 b)"

text \<open>The padding: a one bit, zeros and the length in bits.\<close>

definition sha_pad :: "bytes \<Rightarrow> bytes" where
  "sha_pad m = m @ [0x80] @ replicate ((119 - length m mod 64) mod 64) 0 @ be_bytes 8 (8 * length m)"

definition Sum256 :: "bytes \<Rightarrow> bytes" where
  "Sum256 m =
     (let p = sha_pad m
      in concat (map (\<lambda>w. be_bytes 4 (unat w)) (sha_blocks (length p div 64) sha_H0 p)))"

section \<open>Digests as text\<close>

definition nibble_char :: "nat \<Rightarrow> char" where
  "nibble_char d = (if d < 10 then char_of (48 + d) else char_of (87 + d))"

definition EncodeToString :: "bytes \<Rightarrow> string" where
  "EncodeToString b = concat (map (\<lambda>x. [nibble_char (unat x div 16), nibble_char (unat x mod 16)]) b)"

definition SHA256Bytes :: "bytes \<Rightarrow> string" where
  "SHA256Bytes data = ''sha256:'' @ EncodeToString (Sum256 data)"

text \<open>A file: what opening it and reading it to the end yield, each an error or a value.\<close>

definition SHA256File :: "('p \<Rightarrow> 'e + 'f) \<Rightarrow> ('f \<Rightarrow> 'e + bytes) \<Rightarrow> 'p \<Rightarrow> (string \<times> 'e) + string" where
  "SHA256File open_file read_all path =
     (case open_file path of
        Inl err \<Rightarrow> Inl (''open'', err)
      | Inr file \<Rightarrow>
          (case read_all file of
             Inl err \<Rightarrow> Inl (''hash'', err)
           | Inr data \<Rightarrow> Inr (''sha256:'' @ EncodeToString (Sum256 data))))"

definition SHA256FD :: "('d \<Rightarrow> 'e + 'f) \<Rightarrow> ('f \<Rightarrow> 'e + bytes) \<Rightarrow> 'd \<Rightarrow> (string \<times> 'e) + string" where
  "SHA256FD dup read_all fd =
     (case dup fd of
        Inl err \<Rightarrow> Inl (''dup fd'', err)
      | Inr file \<Rightarrow>
          (case read_all file of
             Inl err \<Rightarrow> Inl (''hash fd'', err)
           | Inr data \<Rightarrow> Inr (''sha256:'' @ EncodeToString (Sum256 data))))"

lemma pad_length: "r < 64 \<Longrightarrow> (119 - r) mod 64 = (if r \<le> 55 then 55 - r else 119 - r :: nat)"
proof (cases "r \<le> 55")
  case True
  then have "119 - r = 64 + (55 - r)" by simp
  then have "(119 - r) mod 64 = (55 - r) mod 64" by (metis mod_add_self1)
  with True show ?thesis by simp
qed simp

lemma length_sha_pad: "64 dvd length (sha_pad m)"
proof -
  obtain q r where m: "length m = 64 * q + r" "r < 64"
    by (metis mod_less_divisor mult_div_mod_eq zero_less_numeral)
  then have r: "length m mod 64 = r" by simp
  have "length (sha_pad m) = 64 * q + r + 9 + (119 - r) mod 64"
    unfolding sha_pad_def r by (simp add: be_bytes_def m(1))
  also have "\<dots> = 64 * (q + (if r \<le> 55 then 1 else 2))"
    unfolding pad_length [OF m(2)] using m(2) by simp
  finally show ?thesis by simp
qed

lemma length_sha_round: "length (sha_round st kw) = length st"
  by (induction st kw rule: sha_round.induct) (auto simp: Let_def)

lemma length_sha_rounds: "length (foldl sha_round st kws) = length st"
  by (induction kws arbitrary: st) (simp_all add: length_sha_round)

lemma length_sha_blocks: "length (sha_blocks n H b) = length H"
  by (induction n arbitrary: H b) (simp_all add: sha_block_def length_sha_rounds)

lemma length_Sum256 [simp]: "length (Sum256 m) = 32"
  by (simp add: Sum256_def Let_def length_concat be_bytes_def comp_def length_sha_blocks sum_list_triv row_words_def sha_H0_def)

lemma length_SHA256Bytes: "length (SHA256Bytes data) = 71"
  by (simp add: SHA256Bytes_def EncodeToString_def length_concat comp_def sum_list_triv)

end
