(* ===== verification/Http_Correlator.thy ===== *)
theory Http_Correlator
  imports Net_Observer Http_Wire Content Tls_Bpf Probe_Interface
begin

text \<open>
  The content half of the network observer: \<open>correlator.go\<close>, and from \<open>observer.go\<close> the feed of
  \<open>SSL_write\<close> frames, the validation of an \<open>SSL_write\<close> candidate and the loop \<open>correlate\<close> over both ring
  buffers. A run-time panic (of the parser) ends the process: \<open>None\<close>. Where a function sends an
  event, the argument \<open>room\<close> says whether the events channel has room.
\<close>

section \<open>Requests to events\<close>

text \<open>Whether the events channel has room, after so many events were sent and dropped.\<close>

type_synonym channel_room = "nat \<Rightarrow> u64 \<Rightarrow> bool"

abbreviation has_room :: "channel_room \<Rightarrow> correlator \<Rightarrow> bool" where
  "has_room room o1 \<equiv> room (length (co_sent o1)) (co_dropped o1)"

definition parsePort :: "string \<Rightarrow> s64 option" where
  "parsePort s = (if s = '''' then None else digits_loop (bytes_of s) 0)"

text \<open>\<open>strings.LastIndexByte\<close>.\<close>

fun last_index :: "char \<Rightarrow> string \<Rightarrow> nat option" where
  "last_index c [] = None"
| "last_index c (x # xs) =
     (case last_index c xs of Some i \<Rightarrow> Some (Suc i) | None \<Rightarrow> if x = c then Some 0 else None)"

definition split_host_port :: "string \<Rightarrow> string \<times> int" where
  "split_host_port host =
     (case last_index CHR '':'' host of
        None \<Rightarrow> (host, 0)
      | Some i \<Rightarrow>
          if CHR '']'' \<in> set (drop i host) then (host, 0)
          else case parsePort (drop (Suc i) host) of
            None \<Rightarrow> (host, 0)
          | Some p \<Rightarrow> (take i host, sint p))"

text \<open>The iteration over the connection table; Go leaves its order open, the model takes the order of
  the list. The order matters only between connections opened at the same time.\<close>

definition newestHostForTGID :: "u32 \<Rightarrow> correlator \<Rightarrow> string" where
  "newestHostForTGID tgid o1 =
     fst (foldl (\<lambda>(best, bestAt) (k, c).
            if ck_tgid k \<noteq> tgid \<or> cn_host c = '''' then (best, bestAt)
            else if best = '''' \<or> cn_openedAt c > bestAt then (cn_host c, cn_openedAt c)
            else (best, bestAt)) ('''', 0) (co_conns o1))"

definition request_event :: "HTTPRequest \<Rightarrow> string \<Rightarrow> Time \<Rightarrow> GroundTruthEvent" where
  "request_event req host ts =
     \<lparr>ge_Timestamp = ts, ge_ActionType = NetRequest,
      ge_Target = CanonicalNetTarget (rq_Method req) (fst (split_host_port host)) (snd (split_host_port host))
        (rq_Path req) (rq_Query req),
      ge_InputHash = None, ge_OutputHash = None, ge_ExitCode = None, ge_IsTopLevel = Some True,
      ge_PathIsAmbiguous = False,
      ge_RequestHash = (if rq_Body req = [] then None else Some (SHA256Bytes (rq_Body req)))\<rparr>"

definition count_unattributed :: "correlator \<Rightarrow> correlator" where
  "count_unattributed o1 = o1\<lparr>co_coverage := (co_coverage o1)
     \<lparr>FramesUnattributed := FramesUnattributed (co_coverage o1) + 1\<rparr>\<rparr>"

definition emitNetRequest :: "u32 \<Rightarrow> HTTPRequest \<Rightarrow> Time \<Rightarrow> channel_room \<Rightarrow> correlator \<Rightarrow> correlator" where
  "emitNetRequest tgid req ts room o1 =
     (let host0 = Get (rq_Headers req) ''Host'';
          host = (if host0 = '''' then newestHostForTGID tgid o1 else host0)
      in if host = '''' then count_unattributed o1
         else
           let o2 = o1\<lparr>co_coverage := (co_coverage o1)\<lparr>WithContent := WithContent (co_coverage o1) + 1\<rparr>\<rparr>
           in send (has_room room o2) (request_event req host ts) o2)"

section \<open>Frames to requests\<close>

text \<open>How the loop over the requests in a stream ends: waiting for more bytes, with an error that
  abandons the stream, or with a panic.\<close>

datatype loop_end = Waiting Stream correlator | Abandoned correlator | Crashed

function frame_loop :: "u32 \<Rightarrow> Time \<Rightarrow> channel_room \<Rightarrow> Stream \<Rightarrow> correlator \<Rightarrow> loop_end" where
  "frame_loop tgid ts room stream o1 =
     (case ParseHTTP1 stream of
        (Malformed, _) \<Rightarrow> Abandoned (count_unattributed o1)
      | (Panicked, _) \<Rightarrow> Crashed
      | (NeedMore, _) \<Rightarrow> Waiting stream o1
      | (Parsed req, stream1) \<Rightarrow> frame_loop tgid ts room stream1 (emitNetRequest tgid req ts room o1))"
  by pat_completeness auto
termination
  by (relation "measure (\<lambda>(tgid, ts, room, stream, o1). length (st_buf stream))")
    (auto dest!: sym [of _ "ParseHTTP1 _"] ParseHTTP1_shorter)

declare frame_loop.simps [simp del]

definition pending_stream :: "correlator \<Rightarrow> sslKey \<Rightarrow> Stream" where
  "pending_stream o1 key = (case co_pending o1 key of None \<Rightarrow> NewStream | Some s \<Rightarrow> s)"

definition handleSSLFrame ::
  "u32 \<Rightarrow> u32 \<Rightarrow> bytes \<Rightarrow> Time \<Rightarrow> channel_room \<Rightarrow> correlator \<Rightarrow> correlator option" where
  "handleSSLFrame tgid tid payload ts room o1 =
     (let key = \<lparr>sk_tgid = tgid, sk_tid = tid\<rparr>;
          stream = Append payload (pending_stream o1 key)
      in case frame_loop tgid ts room stream o1 of
        Waiting s o2 \<Rightarrow> Some (o2\<lparr>co_pending := (co_pending o2)(key \<mapsto> s)\<rparr>)
      | Abandoned o2 \<Rightarrow> Some (o2\<lparr>co_pending := (co_pending o2)(key := None)\<rparr>)
      | Crashed \<Rightarrow> None)"

section \<open>Feeds\<close>

definition sslFeed_decode :: "bytes \<Rightarrow> frame option" where
  "sslFeed_decode raw =
     (if length raw < sizeof_ssl_frame_hdr then None
      else if sizeof_ssl_frame_hdr + unat (of_nat (le_dec (seg 16 4 raw)) :: u32) > length raw then None
      else Some (frame_of_bytes raw))"

text \<open>What \<open>sslFeed\<close> passes on: nothing unless content capture is active; first the frame that
  validated the probe, then the frames of the ring buffer that decode.\<close>

definition sslFeed :: "bool \<Rightarrow> frame option \<Rightarrow> bytes list \<Rightarrow> frame list" where
  "sslFeed tlsActive validationFrame raws =
     (if \<not> tlsActive then []
      else (case validationFrame of None \<Rightarrow> [] | Some f \<Rightarrow> [f]) @ List.map_filter sslFeed_decode raws)"

text \<open>The records the correlator goroutine receives, in the order its \<open>select\<close> takes them.\<close>

datatype feed = FromNet netRecord | FromSSL frame

fun correlate :: "s64 \<Rightarrow> channel_room \<Rightarrow> feed list \<Rightarrow> correlator \<Rightarrow> correlator option" where
  "correlate boot room [] o1 = Some o1"
| "correlate boot room (FromNet rec # fs) o1 =
     correlate boot room fs (handleNetRecord boot rec (has_room room o1) o1)"
| "correlate boot room (FromSSL f # fs) o1 =
     (case handleSSLFrame (fr_tgid f) (fr_tid f) (fr_data f) (time_Unix (fr_ts f + boot)) room o1 of
        None \<Rightarrow> None
      | Some o2 \<Rightarrow> correlate boot room fs o2)"

section \<open>Validation of a candidate\<close>

text \<open>The regular expression \<open>^[A-Z]{2,10} \S+ HTTP/1\.[01]\r\n\<close>. A run of capitals and a run of
  non-blanks are each ended by a blank, so the match is determined.\<close>

definition is_blank :: "u8 \<Rightarrow> bool" where
  "is_blank b \<longleftrightarrow> b \<in> {9, 10, 12, 13, 32}"

definition matches_request_line :: "bytes \<Rightarrow> bool" where
  "matches_request_line b =
     (let m = takeWhile is_upper b; r1 = drop (length m) b;
          t = takeWhile (\<lambda>x. \<not> is_blank x) (drop 1 r1); r2 = drop (length t + 1) r1
      in 2 \<le> length m \<and> length m \<le> 10 \<and> take 1 r1 = [SP] \<and> t \<noteq> [] \<and>
         take 8 r2 = SP # bytes_of ''HTTP/1.'' \<and>
         (take 1 (drop 8 r2) = [48] \<or> take 1 (drop 8 r2) = [49]) \<and> take 2 (drop 9 r2) = CRLF)"

text \<open>One read of the ring buffer with a deadline: \<open>None\<close> is a timeout or a closed reader. The result
  is the frame, whether a frame was seen, and whether it validates the candidate.\<close>

definition validateSSLWriteCandidate :: "bytes option \<Rightarrow> frame option \<times> nat" where
  "validateSSLWriteCandidate record =
     (case record of
        None \<Rightarrow> (None, 0)
      | Some raw \<Rightarrow>
          if length raw < sizeof_ssl_frame_hdr then (None, 1)
          else if \<not> matches_request_line (drop sizeof_ssl_frame_hdr raw) then (None, 1)
          else (Some ((frame_of_bytes raw)\<lparr>fr_data := drop sizeof_ssl_frame_hdr raw\<rparr>), 1))"

text \<open>The loop of \<open>attachAndValidateTLS\<close>: each candidate comes with whether its probe could be attached
  and what was read while it was. The result is the validated candidate with its frame, and the
  number of frames seen.\<close>

fun validate_candidates :: "('c \<times> bool \<times> bytes option) list \<Rightarrow> nat \<Rightarrow> ('c \<times> frame) option \<times> nat" where
  "validate_candidates [] seen = (None, seen)"
| "validate_candidates ((cand, attached, record) # cs) seen =
     (if \<not> attached then validate_candidates cs seen
      else case validateSSLWriteCandidate record of
        (Some f, n) \<Rightarrow> (Some (cand, f), seen + n)
      | (None, n) \<Rightarrow> validate_candidates cs (seen + n))"

datatype attach_error = No_Request_Line nat nat | No_Frame nat

definition attachAndValidateTLS :: "('c \<times> bool \<times> bytes option) list \<Rightarrow> attach_error + 'c \<times> frame" where
  "attachAndValidateTLS cs =
     (case validate_candidates cs 0 of
        (Some r, _) \<Rightarrow> Inr r
      | (None, seen) \<Rightarrow> Inl (if seen > 0 then No_Request_Line (length cs) seen else No_Frame (length cs)))"

section \<open>Tracking a process\<close>

text \<open>The error of the update of the first map stops the second, which exists when content
  capture is configured.\<close>

definition TrackPID :: "s32 \<Rightarrow> net_state \<Rightarrow> ssl_state option \<Rightarrow> (unit option) \<times> net_state \<times> ssl_state option" where
  "TrackPID pid n t =
     (if map_full net_tracked_pids_max (net_tracked_pids n) \<and> map_lookup_elem (net_tracked_pids n) pid = None
      then (None, n, t)
      else
        let n1 = n\<lparr>net_tracked_pids := map_update_elem net_tracked_pids_max pid 1 (net_tracked_pids n)\<rparr>
        in case t of
          None \<Rightarrow> (Some (), n1, None)
        | Some s \<Rightarrow>
            if map_full ssl_tracked_pids_max (ssl_tracked_pids s) \<and> map_lookup_elem (ssl_tracked_pids s) pid = None
            then (None, n1, Some s)
            else (Some (), n1, Some (s\<lparr>ssl_tracked_pids :=
              map_update_elem ssl_tracked_pids_max pid 1 (ssl_tracked_pids s)\<rparr>)))"

section \<open>Frame boundaries\<close>

text \<open>The state without the streams and without the times of the events: a request is reported at the
  time of the frame that completes it.\<close>

definition untimed :: "GroundTruthEvent \<Rightarrow> GroundTruthEvent" where
  "untimed e = e\<lparr>ge_Timestamp := 0\<rparr>"

definition core :: "correlator \<Rightarrow> (conn_key \<times> connection) list \<times> Coverage \<times> GroundTruthEvent list \<times> u64" where
  "core o1 = (co_conns o1, co_coverage o1, map untimed (co_sent o1), co_dropped o1)"

lemma core_pending [simp]: "core (o1\<lparr>co_pending := p\<rparr>) = core o1"
  by (simp add: core_def)

lemma newestHost_core: "core a = core b \<Longrightarrow> newestHostForTGID tgid a = newestHostForTGID tgid b"
  by (simp add: newestHostForTGID_def core_def)

lemma untimed_request_event: "untimed (request_event req host t) = untimed (request_event req host t')"
  by (simp add: untimed_def request_event_def)

lemma emitNetRequest_core:
  assumes "core a = core b"
  shows "core (emitNetRequest tgid req t room a) = core (emitNetRequest tgid req t' room b)"
proof -
  have l: "length (co_sent a) = length (co_sent b)" "co_dropped a = co_dropped b"
    using assms unfolding core_def by (metis (no_types) Pair_inject length_map)+
  show ?thesis
    using assms l newestHost_core [OF assms, of tgid] untimed_request_event [of req _ t t']
    by (simp add: emitNetRequest_def Let_def send_def count_unattributed_def core_def)
qed

lemma count_unattributed_simps [simp]:
  "co_pending (count_unattributed o1) = co_pending o1" "co_sent (count_unattributed o1) = co_sent o1"
  by (simp_all add: count_unattributed_def)

lemma count_unattributed_core: "core a = core b \<Longrightarrow> core (count_unattributed a) = core (count_unattributed b)"
  by (simp add: count_unattributed_def core_def)

lemma emitNetRequest_pending [simp]: "co_pending (emitNetRequest tgid req t room a) = co_pending a"
  by (simp add: emitNetRequest_def Let_def send_def)

text \<open>Two ends of the loop that agree up to times.\<close>

fun same_end :: "loop_end \<Rightarrow> loop_end \<Rightarrow> bool" where
  "same_end (Waiting s a) (Waiting s' b) \<longleftrightarrow> s = s' \<and> core a = core b"
| "same_end (Abandoned a) (Abandoned b) \<longleftrightarrow> core a = core b"
| "same_end Crashed Crashed \<longleftrightarrow> True"
| "same_end _ _ \<longleftrightarrow> False"

lemma frame_loop_core: "core a = core b \<Longrightarrow>
    same_end (frame_loop tgid t room s a) (frame_loop tgid t' room s b)"
proof (induction tgid t room s a arbitrary: b rule: frame_loop.induct)
  case (1 tgid t room s a)
  obtain r s1 where p: "ParseHTTP1 s = (r, s1)" by (cases "ParseHTTP1 s")
  show ?case
  proof (cases r)
    case (Parsed req)
    have e: "core (emitNetRequest tgid req t room a) = core (emitNetRequest tgid req t' room b)"
      by (rule emitNetRequest_core [OF "1.prems"])
    have "frame_loop tgid t room s a = frame_loop tgid t room s1 (emitNetRequest tgid req t room a)"
      "frame_loop tgid t' room s b = frame_loop tgid t' room s1 (emitNetRequest tgid req t' room b)"
      using p Parsed by (simp_all add: frame_loop.simps [of _ _ _ s])
    with "1.IH" [OF p [symmetric] Parsed e] show ?thesis by simp
  qed (use p "1.prems" count_unattributed_core [OF "1.prems"] in \<open>simp_all add: frame_loop.simps [of _ _ _ s]\<close>)
qed

lemma frame_loop_pending:
  "(case frame_loop tgid t room s a of Waiting s' b \<Rightarrow> co_pending b = co_pending a
    | Abandoned b \<Rightarrow> co_pending b = co_pending a | Crashed \<Rightarrow> True)"
proof (induction tgid t room s a rule: frame_loop.induct)
  case (1 tgid t room s a)
  obtain r s1 where p: "ParseHTTP1 s = (r, s1)" by (cases "ParseHTTP1 s")
  show ?case
    using p 1 by (cases r) (auto simp: frame_loop.simps [of _ _ _ s] split: loop_end.splits)
qed

text \<open>The loop over a longer stream resumes where the loop over its front waits.\<close>

lemma frame_loop_append:
  "frame_loop tgid t room (Append d s) a =
     (case frame_loop tgid t room s a of
        Waiting s' b \<Rightarrow> frame_loop tgid t room (Append d s') b
      | Abandoned b \<Rightarrow> Abandoned b
      | Crashed \<Rightarrow> Crashed)"
proof (induction tgid t room s a rule: frame_loop.induct)
  case (1 tgid t room s a)
  obtain r s1 where p: "ParseHTTP1 s = (r, s1)" by (cases "ParseHTTP1 s")
  show ?case
  proof (cases r)
    case NeedMore
    with p show ?thesis by (simp add: frame_loop.simps [of _ _ _ s])
  qed (use p 1 ParseHTTP1_append [of s d] in
    \<open>simp_all add: frame_loop.simps [of _ _ _ s] frame_loop.simps [of _ _ _ "Append d s"]\<close>)
qed

text \<open>The frames of one thread, one after the other.\<close>

fun feed_frames ::
  "u32 \<Rightarrow> u32 \<Rightarrow> channel_room \<Rightarrow> (bytes \<times> Time) list \<Rightarrow> correlator \<Rightarrow> correlator option" where
  "feed_frames tgid tid room [] o1 = Some o1"
| "feed_frames tgid tid room ((p, t) # fs) o1 =
     (case handleSSLFrame tgid tid p t room o1 of
        None \<Rightarrow> None
      | Some o2 \<Rightarrow> feed_frames tgid tid room fs o2)"

lemma handleSSLFrame_waiting:
  assumes "frame_loop tgid t room (Append p (pending_stream o1 \<lparr>sk_tgid = tgid, sk_tid = tid\<rparr>)) o1 = Waiting s b"
  shows "handleSSLFrame tgid tid p t room o1 =
    Some (b\<lparr>co_pending := (co_pending o1)(\<lparr>sk_tgid = tgid, sk_tid = tid\<rparr> \<mapsto> s)\<rparr>)"
proof -
  have "co_pending b = co_pending o1"
    using frame_loop_pending [where a = o1 and tgid = tgid and t = t and room = room
        and s = "Append p (pending_stream o1 \<lparr>sk_tgid = tgid, sk_tid = tid\<rparr>)"]
      assms by simp
  with assms show ?thesis by (simp add: handleSSLFrame_def Let_def)
qed

lemma Append_Append: "Append (p @ q) s = Append q (Append p s)"
  by (simp add: Append_def)

lemma same_end_Waiting: "same_end (Waiting s a) r \<Longrightarrow> \<exists>b. r = Waiting s b \<and> core b = core a"
  by (cases r) auto

lemma feed_frames_waiting:
  assumes "fs \<noteq> []" "core a = core b" "co_pending a = co_pending b"
    and "frame_loop tgid t room (Append (concat (map fst fs)) (pending_stream b \<lparr>sk_tgid = tgid, sk_tid = tid\<rparr>)) b
      = Waiting s c"
  shows "\<exists>d. feed_frames tgid tid room fs a = Some d \<and> core d = core c \<and>
    co_pending d = (co_pending a)(\<lparr>sk_tgid = tgid, sk_tid = tid\<rparr> \<mapsto> s)"
  using assms
proof (induction fs arbitrary: a b c)
  case (Cons x fs)
  let ?k = "\<lparr>sk_tgid = tgid, sk_tid = tid\<rparr>"
  obtain p u where x: "x = (p, u)" by (cases x)
  let ?s = "Append p (pending_stream b ?k)"
  have pa: "pending_stream a ?k = pending_stream b ?k" using Cons.prems(3) by (simp add: pending_stream_def)
  have all: "(case frame_loop tgid t room ?s b of
        Waiting s' b' \<Rightarrow> frame_loop tgid t room (Append (concat (map fst fs)) s') b'
      | Abandoned b' \<Rightarrow> Abandoned b' | Crashed \<Rightarrow> Crashed) = Waiting s c"
    using Cons.prems(4) frame_loop_append [of tgid t room "concat (map fst fs)" ?s b]
    by (simp add: x Append_Append)
  then obtain s1 b1 where w: "frame_loop tgid t room ?s b = Waiting s1 b1"
    by (cases "frame_loop tgid t room ?s b") auto
  have rest: "frame_loop tgid t room (Append (concat (map fst fs)) s1) b1 = Waiting s c" using all w by simp
  have "same_end (Waiting s1 b1) (frame_loop tgid u room ?s a)"
    using frame_loop_core [OF Cons.prems(2) [symmetric], of tgid t room ?s u] w by simp
  then obtain a1 where a1: "frame_loop tgid u room ?s a = Waiting s1 a1" "core a1 = core b1"
    using same_end_Waiting by blast
  let ?a2 = "a1\<lparr>co_pending := (co_pending a)(?k \<mapsto> s1)\<rparr>"
  have h: "handleSSLFrame tgid tid p u room a = Some ?a2"
    using handleSSLFrame_waiting [of tgid u room p a tid s1 a1] a1(1) pa by simp
  show ?case
  proof (cases "fs = []")
    case True
    then have "frame_loop tgid t room s1 b1 = Waiting s c" using rest by simp
    moreover have "frame_loop tgid t room s1 b1 = Waiting s1 b1"
      using w frame_loop_append [of tgid t room "[]" ?s b] by simp
    ultimately show ?thesis using h a1(2) x True by (simp add: fun_upd_def)
  next
    case False
    let ?b2 = "b1\<lparr>co_pending := (co_pending a)(?k \<mapsto> s1)\<rparr>"
    have "same_end (Waiting s c) (frame_loop tgid t room (Append (concat (map fst fs)) s1) ?b2)"
      using frame_loop_core [of b1 ?b2 tgid t room "Append (concat (map fst fs)) s1" t] rest by simp
    then obtain c' where c': "frame_loop tgid t room (Append (concat (map fst fs)) s1) ?b2 = Waiting s c'"
      "core c' = core c" using same_end_Waiting by blast
    have "pending_stream ?b2 ?k = s1" by (simp add: pending_stream_def)
    then show ?thesis
      using Cons.IH [OF False, of ?a2 ?b2 c'] a1(2) c' h x by (auto simp: fun_upd_def cong: if_cong)
  qed
qed simp


section \<open>One request through kernel and user space\<close>

lemma frame_loop_msg:
  assumes "http_ok m"
  shows "frame_loop tgid t room \<lparr>st_buf = http_bytes m @ rest\<rparr> a =
    frame_loop tgid t room \<lparr>st_buf = rest\<rparr> (emitNetRequest tgid (request_of m) t room a)"
  by (simp add: frame_loop.simps [of _ _ _ "\<lparr>st_buf = http_bytes m @ rest\<rparr>"] ParseHTTP1_msg [OF assms])

lemma frame_loop_empty: "frame_loop tgid t room \<lparr>st_buf = []\<rparr> a = Waiting \<lparr>st_buf = []\<rparr> a"
  by (simp add: frame_loop.simps [of _ _ _ "\<lparr>st_buf = []\<rparr>"] ParseHTTP1_def CRLF_def)

lemma msg_prefix_waits:
  assumes "http_ok m" "p @ q = http_bytes m" "q \<noteq> []"
  shows "fst (ParseHTTP1 \<lparr>st_buf = p\<rparr>) = NeedMore"
proof (rule ccontr)
  assume "fst (ParseHTTP1 \<lparr>st_buf = p\<rparr>) \<noteq> NeedMore"
  then have "decided (fst (ParseHTTP1 \<lparr>st_buf = p\<rparr>))" by (simp add: decided_def)
  from ParseHTTP1_append [OF this, of q]
  have "ParseHTTP1 \<lparr>st_buf = p @ q\<rparr> = (fst (ParseHTTP1 \<lparr>st_buf = p\<rparr>), Append q (snd (ParseHTTP1 \<lparr>st_buf = p\<rparr>)))"
    by (simp add: Append_def)
  moreover have "ParseHTTP1 \<lparr>st_buf = p @ q\<rparr> = (Parsed (request_of m), \<lparr>st_buf = []\<rparr>)"
    using ParseHTTP1_msg [OF assms(1), of "[]"] assms(2) by simp
  ultimately have "Append q (snd (ParseHTTP1 \<lparr>st_buf = p\<rparr>)) = \<lparr>st_buf = []\<rparr>" by simp
  then have "st_buf (Append q (snd (ParseHTTP1 \<lparr>st_buf = p\<rparr>))) = []" by simp
  then have "q = []" unfolding Append_simps append_is_Nil_conv by (rule conjunct2)
  with assms(3) show False ..
qed

lemma frame_loop_waits: "fst (ParseHTTP1 s) = NeedMore \<Longrightarrow> frame_loop tgid t room s a = Waiting s a"
  by (cases "ParseHTTP1 s") (simp add: frame_loop.simps [of _ _ _ s])

lemma emitNetRequest_pending_update:
  "emitNetRequest tgid req t room (o1\<lparr>co_pending := p\<rparr>) = (emitNetRequest tgid req t room o1)\<lparr>co_pending := p\<rparr>"
  by (simp add: emitNetRequest_def Let_def send_def count_unattributed_def newestHostForTGID_def)

text \<open>The frames of a request, cut anywhere: one request, at the time of the last frame.\<close>

lemma feed_frames_msg:
  assumes "http_ok m" "fs \<noteq> []" "list_all (\<lambda>f. fst f \<noteq> []) fs"
    and "pending_stream o1 \<lparr>sk_tgid = tgid, sk_tid = tid\<rparr> = \<lparr>st_buf = p\<rparr>"
    and "p @ concat (map fst fs) = http_bytes m"
  shows "feed_frames tgid tid room fs o1 =
    Some ((emitNetRequest tgid (request_of m) (snd (last fs)) room o1)
      \<lparr>co_pending := (co_pending o1)(\<lparr>sk_tgid = tgid, sk_tid = tid\<rparr> \<mapsto> NewStream)\<rparr>)"
  using assms(2-5)
proof (induction fs arbitrary: o1 p)
  case (Cons x fs)
  let ?k = "\<lparr>sk_tgid = tgid, sk_tid = tid\<rparr>"
  obtain d u where x: "x = (d, u)" by (cases x)
  let ?s = "Append d (pending_stream o1 ?k)"
  have s: "?s = \<lparr>st_buf = p @ d\<rparr>" using Cons.prems(3) by (simp add: Append_def)
  show ?case
  proof (cases "fs = []")
    case True
    then have "p @ d = http_bytes m" using Cons.prems(4) x by simp
    then have "frame_loop tgid u room ?s o1 = Waiting NewStream (emitNetRequest tgid (request_of m) u room o1)"
      using frame_loop_msg [OF assms(1), of tgid u room "[]" o1] s by (simp add: frame_loop_empty NewStream_def)
    from handleSSLFrame_waiting [OF this] True x show ?thesis by (simp add: fun_upd_def)
  next
    case False
    then obtain y ys where fs: "fs = y # ys" by (cases fs) simp_all
    then have q: "concat (map fst fs) \<noteq> []" using Cons.prems(2) by (cases y) simp
    have "fst (ParseHTTP1 ?s) = NeedMore"
      using msg_prefix_waits [OF assms(1) _ q, of "p @ d"] Cons.prems(4) x s by simp
    then have "frame_loop tgid u room ?s o1 = Waiting ?s o1" by (rule frame_loop_waits)
    from handleSSLFrame_waiting [OF this]
    have h: "handleSSLFrame tgid tid d u room o1 = Some (o1\<lparr>co_pending := (co_pending o1)(?k \<mapsto> ?s)\<rparr>)" .
    have "pending_stream (o1\<lparr>co_pending := (co_pending o1)(?k \<mapsto> ?s)\<rparr>) ?k = \<lparr>st_buf = p @ d\<rparr>"
      using s by (simp add: pending_stream_def)
    note ih = Cons.IH [OF False _ this]
    have u2: "(co_pending (o1\<lparr>co_pending := (co_pending o1)(?k \<mapsto> ?s)\<rparr>))(?k \<mapsto> NewStream) =
        (co_pending o1)(?k \<mapsto> NewStream)" by simp
    have dbl: "r\<lparr>co_pending := A\<rparr>\<lparr>co_pending := B\<rparr> = r\<lparr>co_pending := B\<rparr>" for r :: correlator and A B
      by simp
    have "list_all (\<lambda>f. fst f \<noteq> []) fs" "(p @ d) @ concat (map fst fs) = http_bytes m"
      using Cons.prems(2,4) x by simp_all
    from ih [OF this] have "feed_frames tgid tid room fs (o1\<lparr>co_pending := (co_pending o1)(?k \<mapsto> ?s)\<rparr>) =
        Some ((emitNetRequest tgid (request_of m) (snd (last fs)) room o1)
          \<lparr>co_pending := (co_pending o1)(?k \<mapsto> NewStream)\<rparr>)"
      unfolding u2 emitNetRequest_pending_update dbl .
    moreover have "last (x # fs) = last fs" using False by simp
    ultimately show ?thesis unfolding x feed_frames.simps h option.case by (simp only: x)
  qed
qed simp

text \<open>The records of the probe decode to its frames.\<close>

definition ssl_events_ok :: "ssl_state \<Rightarrow> bool" where
  "ssl_events_ok s \<longleftrightarrow> (\<forall>raw\<in>set (ssl_events s). sslFeed_decode raw = Some (frame_of_bytes raw))"

lemma sslFeed_decode_record:
  assumes "length p = unat (sh_len h)"
  shows "sslFeed_decode (ssl_frame_hdr_bytes h @ p) = Some (frame_of_bytes (ssl_frame_hdr_bytes h @ p))"
proof -
  have "seg 16 4 (ssl_frame_hdr_bytes h @ p) = le_enc 4 (unat (sh_len h))"
    by (simp add: ssl_frame_hdr_bytes_def seg_def del: le_enc.simps)
  then have "(of_nat (le_dec (seg 16 4 (ssl_frame_hdr_bytes h @ p))) :: u32) = sh_len h" by simp
  with assms show ?thesis by (simp add: sslFeed_decode_def)
qed

lemma ssl_write_events_ok:
  assumes "ssl_inv s" "ssl_call_ok ncpu (SslWrite env ctx)" "ssl_events_ok s"
  shows "ssl_events_ok (probe_ssl_write env ctx s)"
proof -
  let ?num = "ucast (PT_REGS_PARM3 ctx) :: u32"
  define L where "L = (if ?num > of_nat SSL_CAP_LEN then of_nat SSL_CAP_LEN else ?num)"
  obtain e0 where e0: "ssl_heap s (cpu env) = [e0]" "length (sf_payload e0) = SSL_CAP_LEN"
    using assms(1) by (auto simp: ssl_inv_def)
  obtain um where um: "read_user_ok env um" using assms(2) by (auto simp: ssl_call_ok_def)
  let ?r = "read_user env (PT_REGS_PARM2 ctx) (take (unat L) (sf_payload e0))"
  define pl where "pl = put_at 0 (snd ?r) (sf_payload e0)"
  define h where "h = \<lparr>sh_tgid = cur_tgid env, sh_tid = cur_tid env, sh_ts_ns = ktime env, sh_len = L\<rparr>"
  have n: "unat L \<le> SSL_CAP_LEN" by (auto simp: L_def SSL_CAP_LEN_def word_less_nat_alt not_less)
  have lr: "length (snd ?r) = unat L" using read_user_length [OF um] n e0(2) by simp
  have lp: "length pl = SSL_CAP_LEN" using lr n e0(2) by (simp add: pl_def length_put_at)
  have rec: "take (sizeof_ssl_frame_hdr + unat L) (ssl_frame_bytes (\<lparr>sf_hdr = h, sf_payload = pl\<rparr>)) =
      ssl_frame_hdr_bytes h @ take (unat L) pl"
    by (simp add: ssl_frame_bytes_def)
  have "ssl_events (probe_ssl_write env ctx s) = ssl_events s \<or>
      ssl_events (probe_ssl_write env ctx s) = ringbuf_output env (ssl_frame_hdr_bytes h @ take (unat L) pl) (ssl_events s)"
  proof -
    have a: "array_lookup_elem (ssl_heap s (cpu env)) 0 = Some e0" by (simp add: e0(1) array_lookup_elem_def)
    have e: "e0\<lparr>sf_payload := pl\<rparr>\<lparr>sf_hdr := h\<rparr> = \<lparr>sf_hdr = h, sf_payload = pl\<rparr>" by simp
    show ?thesis
      unfolding probe_ssl_write_def Let_def a option.case L_def [symmetric] pl_def [symmetric] h_def [symmetric] e rec
      by auto
  qed
  moreover have "sslFeed_decode (ssl_frame_hdr_bytes h @ take (unat L) pl) =
      Some (frame_of_bytes (ssl_frame_hdr_bytes h @ take (unat L) pl))"
    using n lp by (intro sslFeed_decode_record) (simp add: h_def)
  ultimately show ?thesis using assms(3) by (auto simp: ssl_events_ok_def ringbuf_output_def split: if_splits)
qed

text \<open>A call of \<open>SSL_write\<close> with the plaintext \<open>p\<close> by a thread, which the probe can read and report.\<close>

definition written :: "nat \<Rightarrow> u32 \<Rightarrow> u32 \<Rightarrow> bpf_env \<times> pt_regs_parms \<Rightarrow> bytes \<Rightarrow> bool" where
  "written ncpu tgid tid w p \<longleftrightarrow>
     cur_tgid (fst w) = tgid \<and> cur_tid (fst w) = tid \<and> cpu (fst w) < ncpu \<and> (\<forall>n. rb_room (fst w) n) \<and>
     p \<noteq> [] \<and> length p \<le> SSL_CAP_LEN \<and> (ucast (PT_REGS_PARM3 (snd w)) :: u32) = of_nat (length p) \<and>
     (\<exists>um. read_user_ok (fst w) um \<and> um (PT_REGS_PARM2 (snd w)) (length p) = Some p)"

definition write_calls :: "(bpf_env \<times> pt_regs_parms) list \<Rightarrow> ssl_call list" where
  "write_calls ws = map (\<lambda>w. SslWrite (fst w) (snd w)) ws"

definition frame_for :: "u32 \<Rightarrow> u32 \<Rightarrow> (bpf_env \<times> pt_regs_parms) \<times> bytes \<Rightarrow> frame" where
  "frame_for tgid tid x = \<lparr>fr_tgid = tgid, fr_tid = tid, fr_ts = ktime (fst (fst x)), fr_data = snd x\<rparr>"

lemma written_call_ok: "written ncpu tgid tid w p \<Longrightarrow> ssl_call_ok ncpu (SslWrite (fst w) (snd w))"
  by (auto simp: written_def ssl_call_ok_def)

lemma spec_write_written:
  assumes "written ncpu tgid tid w p" "map_lookup_elem (spec_tracked a) tgid \<noteq> None"
  shows "spec_write (fst w) (snd w) a = a\<lparr>spec_frames := spec_frames a @ [frame_for tgid tid (w, p)]\<rparr>"
proof -
  have l: "min (unat (ucast (PT_REGS_PARM3 (snd w)) :: u32)) SSL_CAP_LEN = length p" "length p \<noteq> 0"
    using assms(1) by (auto simp: written_def unat_of_nat SSL_CAP_LEN_def)
  obtain um where um: "read_user_ok (fst w) um" "um (PT_REGS_PARM2 (snd w)) (length p) = Some p"
    using assms(1) by (auto simp: written_def)
  have "um (PT_REGS_PARM2 (snd w)) (length (replicate (length p) (0::u8))) = Some p"
    unfolding length_replicate by (rule um(2))
  note r = read_user_Some [OF um(1) this, THEN conjunct1]
  have w: "cur_tgid (fst w) = tgid" "cur_tid (fst w) = tid" using assms(1) by (simp_all add: written_def)
  have g: "(map_lookup_elem (spec_tracked a) tgid = None \<or> length p = 0) = False"
    using l(2) assms(2) by blast
  show ?thesis
    unfolding spec_write_def Let_def l(1) r w g if_False fst_conv snd_conv frame_for_def
    by (simp only: if_True refl)
qed

lemma spec_writes:
  assumes "list_all2 (written ncpu tgid tid) ws ps" "map_lookup_elem (spec_tracked a) tgid \<noteq> None"
  shows "spec_frames (fold spec_step (write_calls ws) a) = spec_frames a @ map (frame_for tgid tid) (zip ws ps)"
  using assms
proof (induction ws ps arbitrary: a rule: list_all2_induct)
  case (Cons w ws p ps)
  then show ?case by (simp add: write_calls_def spec_write_written)
qed (simp add: write_calls_def)

lemma run_writes_ok:
  assumes "ssl_inv s" "ssl_events_ok s" "list_all2 (written ncpu tgid tid) ws ps"
  shows "ssl_events_ok (ssl_run (write_calls ws) s)"
  using assms(3,1,2)
proof (induction ws ps arbitrary: s rule: list_all2_induct)
  case (Cons w ws p ps)
  have c: "ssl_call_ok ncpu (SslWrite (fst w) (snd w))" by (rule written_call_ok [OF Cons.hyps(1)])
  show ?case
    using Cons.IH [of "probe_ssl_write (fst w) (snd w) s"] ssl_write_events_ok [OF Cons.prems(1) c Cons.prems(2)]
      ssl_write_refines [OF Cons.prems(1) c]
    by (simp add: write_calls_def ssl_run_def)
qed (simp add: write_calls_def ssl_run_def)

lemma map_filter_all: "\<forall>x\<in>set xs. f x = Some (g x) \<Longrightarrow> List.map_filter f xs = map g xs"
  by (induction xs) (simp_all add: map_filter_simps)

lemma frames_of_writes:
  assumes "ssl_inv s" "ssl_events s = []" "ssl_is_tracked s tgid" "list_all2 (written ncpu tgid tid) ws ps"
  shows "sslFeed True None (ssl_events (ssl_run (write_calls ws) s)) = map (frame_for tgid tid) (zip ws ps)"
proof -
  let ?s = "ssl_run (write_calls ws) s"
  have ok: "\<forall>c\<in>set (write_calls ws). ssl_call_ok ncpu c"
    using assms(4) written_call_ok by (fastforce simp: write_calls_def list_all2_conv_all_nth in_set_conv_nth)
  have "map frame_of_bytes (ssl_events ?s) = spec_frames (ssl_abs ncpu ?s)" by (simp add: ssl_abs_def)
  also have "\<dots> = map (frame_for tgid tid) (zip ws ps)"
    unfolding ssl_run_refines [OF assms(1) ok]
    using spec_writes [OF assms(4), of "ssl_abs ncpu s"] assms(2,3) by (simp add: ssl_abs_def ssl_is_tracked_def)
  finally have m: "map frame_of_bytes (ssl_events ?s) = map (frame_for tgid tid) (zip ws ps)" .
  have "ssl_events_ok ?s" using run_writes_ok [OF assms(1) _ assms(4)] assms(2) by (simp add: ssl_events_ok_def)
  then show ?thesis unfolding m [symmetric] by (simp add: sslFeed_def ssl_events_ok_def map_filter_all)
qed

text \<open>The frame that validated the probe was taken off the ring buffer; replaying it loses nothing.\<close>

lemma validated_frame_replayed:
  assumes "validateSSLWriteCandidate (Some (ssl_frame_hdr_bytes h @ p)) = (Some f, n)"
    and "length p = unat (sh_len h)"
  shows "sslFeed True (Some f) raws = sslFeed True None ((ssl_frame_hdr_bytes h @ p) # raws)"
proof -
  have "f = (frame_of_bytes (ssl_frame_hdr_bytes h @ p))\<lparr>fr_data := p\<rparr>"
    using assms(1) by (auto simp: validateSSLWriteCandidate_def split: if_splits)
  also have "\<dots> = frame_of_bytes (ssl_frame_hdr_bytes h @ p)"
    using frame_of_bytes_inverse [OF assms(2), of "[]"] by simp
  finally show ?thesis by (simp add: sslFeed_def map_filter_simps sslFeed_decode_record [OF assms(2)])
qed

lemma correlate_frames:
  "\<forall>f\<in>set fs. fr_tgid f = tgid \<and> fr_tid f = tid \<Longrightarrow>
   correlate boot room (map FromSSL fs) o1 =
     feed_frames tgid tid room (map (\<lambda>f. (fr_data f, time_Unix (fr_ts f + boot))) fs) o1"
proof (induction fs arbitrary: o1)
  case (Cons f fs)
  have f: "fr_tgid f = tgid" "fr_tid f = tid" and fs: "\<forall>f\<in>set fs. fr_tgid f = tgid \<and> fr_tid f = tid"
    using Cons.prems by simp_all
  show ?case
    unfolding list.map correlate.simps feed_frames.simps f
    by (intro option.case_cong refl) (rule Cons.IH [OF fs])
qed simp



section \<open>A length that overflows\<close>

text \<open>
  C36. A \<open>Content-Length\<close> that does not fit 63 bits stops the observer: whenever a request head is
  captured whose \<open>Content-Length\<close> has a value of 2 ^ 63 or more modulo 2 ^ 64, the length comes out
  negative, the slice of the body panics and nothing recovers.
\<close>

theorem oversized_length_stops_observer:
  assumes "head_ok m" "\<not> isChunked (msg_headers m)"
    and "Get (msg_headers m) ''Content-Length'' = v" "v \<noteq> ''''" "list_all is_digit (bytes_of v)"
    and "2 ^ 63 \<le> decimal (bytes_of v) mod 2 ^ 64"
    and "co_pending o1 \<lparr>sk_tgid = tgid, sk_tid = tid\<rparr> = None"
  shows "handleSSLFrame tgid tid (head_bytes m @ rest) ts room o1 = None"
proof -
  have "contentLength (msg_headers m) = Some (of_nat (decimal (bytes_of v)), True)"
    by (rule contentLength_decimal [OF assms(3-5)])
  moreover have neg: "sint (of_nat (decimal (bytes_of v)) :: s64) < 0" by (rule negative_length [OF assms(6)])
  moreover have "(of_nat (decimal (bytes_of v)) :: s64) \<noteq> 0" using neg by (metis less_irrefl signed_0)
  ultimately have "readBody rest (msg_headers m) = Panicked"
    using assms(2) by (auto simp: readBody_def)
  then have "fst (ParseHTTP1 \<lparr>st_buf = head_bytes m @ rest\<rparr>) = Panicked"
    by (simp add: ParseHTTP1_head [OF assms(1)])
  then have "frame_loop tgid ts room \<lparr>st_buf = head_bytes m @ rest\<rparr> o1 = Crashed"
    by (cases "ParseHTTP1 \<lparr>st_buf = head_bytes m @ rest\<rparr>")
      (simp add: frame_loop.simps [of _ _ _ "\<lparr>st_buf = head_bytes m @ rest\<rparr>"])
  moreover have "Append (head_bytes m @ rest) (pending_stream o1 \<lparr>sk_tgid = tgid, sk_tid = tid\<rparr>) =
      \<lparr>st_buf = head_bytes m @ rest\<rparr>"
    using assms(7) by (simp add: pending_stream_def NewStream_def Append_def)
  ultimately show ?thesis by (simp add: handleSSLFrame_def Let_def)
qed

section \<open>Witnesses\<close>

definition huge_msg :: http_msg where
  "huge_msg = \<lparr>hm_method = bytes_of ''POST'', hm_path = bytes_of ''/'', hm_query = None, hm_minor = bytes_of ''1'',
     hm_fields = [(bytes_of ''Content-Length'', bytes_of ''9223372036854775808'')], hm_framing = No_Body\<rparr>"

lemma huge_headers: "msg_headers huge_msg = [''Content-Length'' \<mapsto> [''9223372036854775808'']]"
proof -
  have "canonical (bytes_of ''Content-Length'') = ''Content-Length''" by code_simp
  then show ?thesis by (simp add: msg_headers_def huge_msg_def header_map_def add_value_def)
qed

theorem oversized_length_stops_observer_witness:
  "handleSSLFrame 100 101 (head_bytes huge_msg @ []) 0 (\<lambda>_ _. True) new_correlator = None"
proof (rule oversized_length_stops_observer)
  show "head_ok huge_msg" by code_simp
  show "\<not> isChunked (msg_headers huge_msg)" by (simp add: isChunked_def huge_headers Get_def)
  show "Get (msg_headers huge_msg) ''Content-Length'' = ''9223372036854775808''" by (simp add: huge_headers Get_def)
  show "list_all is_digit (bytes_of ''9223372036854775808'')" by code_simp
  show "2 ^ 63 \<le> decimal (bytes_of ''9223372036854775808'') mod 2 ^ 64"
    by (simp add: decimal_def bytes_of_def byte_of_char_def)
qed (simp_all add: new_correlator_def)

abbreviation ex_bytes :: bytes where "ex_bytes \<equiv> http_bytes ex_msg"

lemma ex_bytes_length: "length ex_bytes = 114"
  by code_simp

lemma ex_bytes_pieces: "take 10 ex_bytes @ drop 10 ex_bytes = ex_bytes"
  by simp

lemma ex_emit:
  "emitNetRequest tgid (request_of ex_msg) t (\<lambda>_ _. True) new_correlator =
     new_correlator\<lparr>co_coverage := (co_coverage new_correlator)\<lparr>WithContent := 1\<rparr>,
       co_sent := [request_event (request_of ex_msg) ''api.example.com'' t]\<rparr>"
  by (simp add: emitNetRequest_def Let_def send_def ex_request Get_def new_correlator_def)


definition ex_writes :: "(bpf_env \<times> pt_regs_parms) list" where
  "ex_writes = [(region_env (task 100 101) 7 [(64, take 10 ex_bytes)], \<lparr>PT_REGS_PARM2 = 64, PT_REGS_PARM3 = 10\<rparr>),
     (region_env (task 100 101) 8 [(96, drop 10 ex_bytes)], \<lparr>PT_REGS_PARM2 = 96, PT_REGS_PARM3 = 104\<rparr>)]"


section \<open>The probe contract\<close>

text \<open>The connections in the table have an address of a known family, and what was sent is valid.\<close>

definition net_valid :: "correlator \<Rightarrow> bool" where
  "net_valid o1 \<longleftrightarrow> list_all (\<lambda>ev. Validate_event ev = None) (co_sent o1) \<and>
     (\<forall>kc\<in>set (co_conns o1). cn_family (snd kc) \<in> {afInet, afInet6})"

lemma net_actions_valid: "NetConnect \<in> set validActionTypes" "NetRequest \<in> set validActionTypes"
  by (simp_all add: validActionTypes_def)

lemma peerAddrPort_nonempty: "family \<in> {afInet, afInet6} \<Longrightarrow> peerAddrPort family addr port \<noteq> ''''"
  by (auto simp: peerAddrPort_def JoinHostPort_def)

lemma net_connect_event_valid:
  "cn_family conn \<in> {afInet, afInet6} \<Longrightarrow> ts \<noteq> 0 \<Longrightarrow> Validate_event (net_connect_event conn ts) = None"
  using peerAddrPort_nonempty [of "cn_family conn"] net_actions_valid
  by (auto simp: Validate_event_None net_connect_event_def Let_def)

lemma request_event_valid: "ts \<noteq> 0 \<Longrightarrow> Validate_event (request_event req host ts) = None"
  using net_actions_valid by (simp add: Validate_event_None request_event_def CanonicalNetTarget_def)

lemma send_valid: "net_valid o1 \<Longrightarrow> Validate_event ev = None \<Longrightarrow> net_valid (send room ev o1)"
  by (simp add: net_valid_def send_def)

lemma emit_valid:
  assumes "net_valid o1" "cn_family conn \<in> {afInet, afInet6}" "ts \<noteq> 0"
  shows "net_valid (snd (emit room conn ts o1)) \<and> cn_family (fst (emit room conn ts o1)) = cn_family conn"
  using assms send_valid [OF assms(1) net_connect_event_valid [OF assms(2,3)]] by (simp add: emit_def)

lemma set_update: "kc \<in> set (AList.update k c cs) \<Longrightarrow> snd kc = c \<or> kc \<in> set cs"
  by (induction cs) (auto split: if_splits)

lemma set_delete: "kc \<in> set (AList.delete k cs) \<Longrightarrow> kc \<in> set cs"
  by (auto simp: AList.delete_eq)

lemma net_valid_update:
  "net_valid o1 \<Longrightarrow> cn_family c \<in> {afInet, afInet6} \<Longrightarrow> net_valid (o1\<lparr>co_conns := AList.update k c (co_conns o1)\<rparr>)"
  by (auto simp: net_valid_def dest!: set_update)

lemma net_valid_delete: "net_valid o1 \<Longrightarrow> net_valid (o1\<lparr>co_conns := AList.delete k (co_conns o1)\<rparr>)"
  by (auto simp: net_valid_def dest!: set_delete)

lemma net_valid_coverage: "net_valid (o1\<lparr>co_coverage := c\<rparr>) = net_valid o1" "net_valid (o1\<lparr>co_pending := p\<rparr>) = net_valid o1"
  by (simp_all add: net_valid_def)

text \<open>A record the kernel program sends: a connect is of one of the two families.\<close>

definition feed_ok :: "feed \<Rightarrow> bool" where
  "feed_ok f = (case f of
      FromNet rec \<Rightarrow> nh_type (nr_hdr rec) \<noteq> netConnect \<or> nh_family (nr_hdr rec) \<in> {afInet, afInet6}
    | FromSSL _ \<Rightarrow> True)"

lemma kernel_records_feed_ok:
  assumes "net_start roots s" "\<forall>c\<in>set calls. net_call_ok c" "raw \<in> set (net_events (net_run calls s))"
    and "netFeed_decode raw = Some rec"
  shows "feed_ok (FromNet rec)"
proof -
  have "record_ok (net_tree (set calls) roots) raw" using net_inv_run [OF assms(1,2)] assms(3) by (simp add: net_inv_def)
  moreover have "nr_hdr rec = net_hdr_of_bytes raw"
    using assms(4) by (auto simp: netFeed_decode_def Let_def split: if_splits)
  ultimately show ?thesis by (auto simp: feed_ok_def record_ok_def Let_def afInet_def afInet6_def)
qed

lemma handleNetRecord_valid:
  assumes "net_valid o1" "feed_ok (FromNet rec)"
  shows "net_valid (handleNetRecord boot rec room o1)"
proof -
  let ?h = "nr_hdr rec"
  let ?k = "hdr_key ?h" and ?ts = "time_Unix (nh_ts_ns ?h + boot)"
  have fam: "cn_family conn \<in> {afInet, afInet6}" if "map_of (co_conns o1) ?k = Some conn" for conn
    using assms(1) map_of_SomeD [OF that] by (force simp: net_valid_def)
  have sent: "net_valid ((snd r)\<lparr>co_conns := AList.update ?k (fst r) (co_conns (snd r))\<rparr>)
      \<and> net_valid ((snd r)\<lparr>co_conns := AList.delete ?k (co_conns (snd r))\<rparr>)"
    if "r = emit room conn ?ts o2" "net_valid o2" "cn_family conn \<in> {afInet, afInet6}" for r conn o2
    using emit_valid [OF that(2,3) time_Unix_nonzero] that(1,3) by (auto intro: net_valid_update net_valid_delete)
  consider (c) "nh_type ?h = netConnect" | (h) "nh_type ?h = netHello" | (e) "nh_type ?h = netClose"
    | (n) "nh_type ?h \<notin> {netConnect, netHello, netClose}" by blast
  then show ?thesis
  proof cases
    case c
    then have "nh_family ?h \<in> {afInet, afInet6}" using assms(2) by (simp add: feed_ok_def)
    then have "net_valid (o1\<lparr>co_conns := AList.update ?k
        \<lparr>cn_family = nh_family ?h, cn_addr = nh_addr ?h, cn_port = nh_port ?h, cn_openedAt = ?ts,
          cn_host = '''', cn_alpn = [], cn_emitted = False\<rparr> (co_conns o1)\<rparr>)"
      by (intro net_valid_update [OF assms(1)]) simp
    then show ?thesis using c by (simp add: handleNetRecord_def Let_def net_valid_def)
  next
    case h
    then have ty: "nh_type ?h \<noteq> netConnect" by simp
    show ?thesis
    proof (cases "map_of (co_conns o1) ?k")
      case None
      then show ?thesis using h ty assms(1) by (simp add: handleNetRecord_def Let_def)
    next
      case (Some conn)
      have "net_valid ((snd r)\<lparr>co_conns := AList.update ?k (fst r) (co_conns (snd r))\<rparr>)"
        if "r = emit room (conn\<lparr>cn_host := hn, cn_alpn := al\<rparr>) ?ts (o1\<lparr>co_coverage := cov\<rparr>)" for r hn al cov
        using sent [OF that] assms(1) fam [OF Some] by (simp add: net_valid_coverage)
      then show ?thesis using h ty assms(1) Some by (simp add: handleNetRecord_def Let_def split: sum.split)
    qed
  next
    case e
    then have ty: "nh_type ?h \<noteq> netConnect" "nh_type ?h \<noteq> netHello" by simp_all
    show ?thesis
    proof (cases "map_of (co_conns o1) ?k")
      case None
      then show ?thesis using e ty net_valid_delete [OF assms(1)] by (simp add: handleNetRecord_def Let_def)
    next
      case (Some conn)
      then show ?thesis
        using e ty sent [OF refl assms(1) fam [OF Some]] by (simp add: handleNetRecord_def Let_def)
    qed
  next
    case n
    then show ?thesis using assms(1) by (simp add: handleNetRecord_def Let_def)
  qed
qed

lemma emitNetRequest_valid: "net_valid o1 \<Longrightarrow> ts \<noteq> 0 \<Longrightarrow> net_valid (emitNetRequest tgid req ts room o1)"
  by (auto simp: emitNetRequest_def Let_def count_unattributed_def net_valid_coverage
      intro!: send_valid request_event_valid)

lemma frame_loop_valid:
  "net_valid o1 \<Longrightarrow> ts \<noteq> 0 \<Longrightarrow>
   case frame_loop tgid ts room s o1 of Waiting s' o2 \<Rightarrow> net_valid o2 | Abandoned o2 \<Rightarrow> net_valid o2 | Crashed \<Rightarrow> True"
proof (induction tgid ts room s o1 rule: frame_loop.induct)
  case (1 tgid ts room s o1)
  obtain r s1 where p: "ParseHTTP1 s = (r, s1)" by (cases "ParseHTTP1 s")
  show ?case
    using 1 emitNetRequest_valid
    by (subst frame_loop.simps) (auto simp: p count_unattributed_def net_valid_coverage split: parsed.split)
qed

lemma handleSSLFrame_valid:
  assumes "net_valid o1" "ts \<noteq> 0" "handleSSLFrame tgid tid payload ts room o1 = Some o2"
  shows "net_valid o2"
proof -
  obtain s where s: "handleSSLFrame tgid tid payload ts room o1 =
      (case frame_loop tgid ts room s o1 of
        Waiting s o2 \<Rightarrow> Some (o2\<lparr>co_pending := (co_pending o2)(\<lparr>sk_tgid = tgid, sk_tid = tid\<rparr> \<mapsto> s)\<rparr>)
      | Abandoned o2 \<Rightarrow> Some (o2\<lparr>co_pending := (co_pending o2)(\<lparr>sk_tgid = tgid, sk_tid = tid\<rparr> := None)\<rparr>)
      | Crashed \<Rightarrow> None)"
    by (simp add: handleSSLFrame_def Let_def)
  show ?thesis
    using frame_loop_valid [OF assms(1,2), of tgid room s] assms(3) unfolding s
    by (cases "frame_loop tgid ts room s o1") (auto simp: net_valid_coverage)
qed

lemma correlate_valid:
  "net_valid o1 \<Longrightarrow> list_all feed_ok fs \<Longrightarrow> correlate boot room fs o1 = Some o2 \<Longrightarrow> net_valid o2"
proof (induction boot room fs o1 rule: correlate.induct)
  case (3 boot room f fs o1)
  then show ?case
    using handleSSLFrame_valid [OF "3.prems"(1) time_Unix_nonzero] by (auto split: option.splits)
qed (simp_all add: handleNetRecord_valid)

text \<open>The observer from its start, over the records in the order it takes them, is a probe.\<close>

definition net_runs :: "s64 \<times> channel_room \<times> feed list \<Rightarrow> bool" where
  "net_runs r = list_all feed_ok (snd (snd r))"

definition net_delivers :: "s64 \<times> channel_room \<times> feed list \<Rightarrow> GroundTruth" where
  "net_delivers r =
     (case correlate (fst r) (fst (snd r)) (snd (snd r)) new_correlator of None \<Rightarrow> [] | Some o1 \<Rightarrow> co_sent o1)"

interpretation net_probe: ground_truth_probe net_runs net_delivers
proof unfold_locales
  fix r assume r: "net_runs r"
  have i: "net_valid new_correlator" by (simp add: net_valid_def new_correlator_def)
  show "list_all (\<lambda>ev. Validate_event ev = None) (net_delivers r)"
  proof (cases "correlate (fst r) (fst (snd r)) (snd (snd r)) new_correlator")
    case (Some o1)
    then show ?thesis
      using correlate_valid [OF i _ Some] r by (simp add: net_delivers_def net_runs_def net_valid_def)
  qed (simp add: net_delivers_def)
qed

end
