(* ===== verification/Tls_Offset.thy ===== *)
theory Tls_Offset
  imports Matching Content Http1
begin

text \<open>
  The search for \<open>SSL_write\<close> in a stripped executable: \<open>pkg/tlsoffset\<close> (\<open>scan.go\<close>, \<open>cache.go\<close>). An
  executable is what \<open>debug/elf\<close> reads of it. Every access to the code that the source does not
  guard by the length of the code returns \<open>None\<close> where Go panics, and the search is shown never
  to get there.
\<close>

section \<open>Executables\<close>

text \<open>The parts of \<open>debug/elf\<close> the scan uses; \<open>None\<close> is a read that fails.\<close>

record Section =
  sc_Name :: string
  sc_Type :: u32
  sc_Flags :: u32
  sc_Addr :: u64
  sc_Offset :: u64
  sc_Size :: u64
  sc_Data :: "bytes option"

record Prog =
  pg_Type :: u32
  pg_Vaddr :: u64
  pg_Filesz :: u64
  pg_Off :: u64

record Symbol =
  sy_Name :: string
  sy_Value :: u64

record ElfFile =
  ef_Sections :: "Section list"
  ef_Progs :: "Prog list"
  ef_Symbols :: "Symbol list option"
  ef_DynamicSymbols :: "Symbol list option"

definition SHT_PROGBITS :: u32 where "SHT_PROGBITS = 1"
definition SHF_ALLOC :: u32 where "SHF_ALLOC = 2"
definition PT_LOAD :: u32 where "PT_LOAD = 1"

definition the_section :: "ElfFile \<Rightarrow> string \<Rightarrow> Section option" where
  "the_section f name = find (\<lambda>s. sc_Name s = name) (ef_Sections f)"

section \<open>The scan\<close>

record Candidate =
  ca_VA :: u64
  ca_FileOff :: u64
  ca_Score :: int

definition getBuildID :: "ElfFile \<Rightarrow> string" where
  "getBuildID f =
     (case the_section f ''.note.gnu.build-id'' of
        None \<Rightarrow> ''''
      | Some sect \<Rightarrow>
          let data = (case sc_Data sect of None \<Rightarrow> [] | Some d \<Rightarrow> d)
          in if length data < 16 then '''' else EncodeToString (drop 16 data))"

definition vaToFileOff :: "ElfFile \<Rightarrow> u64 \<Rightarrow> u64" where
  "vaToFileOff f va =
     (case find (\<lambda>p. pg_Type p = PT_LOAD \<and> va \<ge> pg_Vaddr p \<and> va < pg_Vaddr p + pg_Filesz p) (ef_Progs f) of
        Some p \<Rightarrow> va - pg_Vaddr p + pg_Off p
      | None \<Rightarrow>
          (case find (\<lambda>s. sc_Flags s AND SHF_ALLOC \<noteq> 0 \<and> va \<ge> sc_Addr s \<and> va < sc_Addr s + sc_Size s)
                  (ef_Sections f) of
             Some s \<Rightarrow> va - sc_Addr s + sc_Offset s
           | None \<Rightarrow> va))"

fun string_start :: "bytes \<Rightarrow> nat \<Rightarrow> nat" where
  "string_start data 0 = 0"
| "string_start data (Suc start) = (if data ! start \<noteq> 0 then string_start data start else Suc start)"

fun findString_loop :: "Section list \<Rightarrow> bytes \<Rightarrow> u64 option" where
  "findString_loop [] needle = None"
| "findString_loop (s # ss) needle =
     (if sc_Type s \<noteq> SHT_PROGBITS \<or> sc_Flags s AND SHF_ALLOC = 0 then findString_loop ss needle
      else case sc_Data s of
        None \<Rightarrow> findString_loop ss needle
      | Some data \<Rightarrow>
          (case index_of needle data of
             None \<Rightarrow> findString_loop ss needle
           | Some idx \<Rightarrow> Some (sc_Addr s + of_nat (string_start data idx))))"

definition findString :: "ElfFile \<Rightarrow> bytes \<Rightarrow> u64 option" where
  "findString f needle = findString_loop (ef_Sections f) needle"

text \<open>The body of the loop of \<open>scanLEA\<close> at one position, which the loop keeps inside the code.\<close>

definition lea_at :: "bytes \<Rightarrow> u64 \<Rightarrow> u64 \<Rightarrow> nat \<Rightarrow> bool" where
  "lea_at code base target i \<longleftrightarrow>
     (code ! i = 0x48 \<or> code ! i = 0x4c) \<and> code ! (i + 1) = 0x8d \<and> code ! (i + 2) AND 0xC7 = 0x05 \<and>
     base + of_nat i + 7 + scast (of_nat (le_dec (seg (i + 3) 4 code)) :: s32) = target"

definition scanLEA :: "bytes \<Rightarrow> u64 \<Rightarrow> u64 \<Rightarrow> u64 list" where
  "scanLEA code base target =
     map (\<lambda>i. base + of_nat i) (filter (lea_at code base target) [0..<length code + 1 - 7])"

definition classifyImmediate :: "bytes \<Rightarrow> nat \<Rightarrow> bool" where
  "classifyImmediate code i \<longleftrightarrow>
     (2 \<le> i \<and> i + 8 \<le> length code \<and> code ! (i + 4) = 0 \<and> code ! (i + 5) = 0 \<and> code ! (i + 6) = 0 \<and>
        code ! (i + 7) = 0 \<and> (code ! (i - 2) = 0x48 \<or> code ! (i - 2) = 0x49) \<and>
        code ! (i - 1) \<ge> 0xb8 \<and> code ! (i - 1) \<le> 0xbf) \<or>
     (3 \<le> i \<and> (code ! (i - 3) = 0x48 \<or> code ! (i - 3) = 0x49) \<and> code ! (i - 2) = 0xc7 \<and>
        code ! (i - 1) AND 0xf8 = 0xc0) \<or>
     (2 \<le> i \<and> code ! (i - 2) = 0x41 \<and> code ! (i - 1) \<ge> 0xb8 \<and> code ! (i - 1) \<le> 0xbf) \<or>
     (1 \<le> i \<and> code ! (i - 1) \<ge> 0xb8 \<and> code ! (i - 1) \<le> 0xbf) \<or>
     (1 \<le> i \<and> code ! (i - 1) = 0x68)"

definition scanAbsolute :: "bytes \<Rightarrow> u64 \<Rightarrow> u64 \<Rightarrow> u64 list" where
  "scanAbsolute code base target =
     (if target > 0xffffffff then []
      else map (\<lambda>i. base + of_nat i)
        (filter (\<lambda>i. seg i 4 code = le_enc 4 (unat target) \<and> classifyImmediate code i)
          [0..<length code + 1 - 4]))"

text \<open>An access to the code, and a sequence of comparisons joined by \<open>&&\<close>, which stops at the first
  that fails: \<open>None\<close> is an index out of range.\<close>

definition index_at :: "bytes \<Rightarrow> int \<Rightarrow> u8 option" where
  "index_at code i = (if 0 \<le> i \<and> i < int (length code) then Some (code ! nat i) else None)"

fun all_at :: "bytes \<Rightarrow> (int \<times> (u8 \<Rightarrow> bool)) list \<Rightarrow> bool option" where
  "all_at code [] = Some True"
| "all_at code ((i, P) # ps) =
     (case index_at code i of
        None \<Rightarrow> None
      | Some b \<Rightarrow> if P b then all_at code ps else Some False)"

definition endbr64_at :: "bytes \<Rightarrow> int \<Rightarrow> bool option" where
  "endbr64_at code i =
     all_at code [(i, \<lambda>b. b = 0xf3), (i + 1, \<lambda>b. b = 0x0f), (i + 2, \<lambda>b. b = 0x1e), (i + 3, \<lambda>b. b = 0xfa)]"

text \<open>The two loops of \<open>findFunctionStart\<close>: \<open>None\<close> is a panic, \<open>Some None\<close> nothing found.\<close>

function endbr_loop :: "bytes \<Rightarrow> int \<Rightarrow> int \<Rightarrow> int option option" where
  "endbr_loop code limit i =
     (if i < limit + 4 then Some None
      else case endbr64_at code i of
        None \<Rightarrow> None
      | Some False \<Rightarrow> endbr_loop code limit (i - 1)
      | Some True \<Rightarrow>
          (case (if i = 0 then Some True
                 else all_at code [(i - 1, \<lambda>b. b = 0xcc \<or> b = 0x90)]) of
             None \<Rightarrow> None
           | Some True \<Rightarrow> Some (Some i)
           | Some False \<Rightarrow> endbr_loop code limit (i - 1)))"
  by pat_completeness auto
termination by (relation "measure (\<lambda>(code, limit, i). nat (i - limit))") auto

function padding_loop :: "bytes \<Rightarrow> int \<Rightarrow> int \<Rightarrow> int option option" where
  "padding_loop code limit i =
     (if i \<le> limit then Some None
      else case all_at code [(i, \<lambda>b. b = 0xcc), (i + 1, \<lambda>b. b \<noteq> 0xcc), (i + 1, \<lambda>b. b \<noteq> 0x90)] of
        None \<Rightarrow> None
      | Some True \<Rightarrow> Some (Some (i + 1))
      | Some False \<Rightarrow> padding_loop code limit (i - 1))"
  by pat_completeness auto
termination by (relation "measure (\<lambda>(code, limit, i). nat (i - limit))") auto

declare endbr_loop.simps [simp del] padding_loop.simps [simp del]

definition findFunctionStart :: "bytes \<Rightarrow> u64 \<Rightarrow> u64 \<Rightarrow> int \<Rightarrow> u64 option" where
  "findFunctionStart code base site maxBack =
     (let off = sint (site - base);
          limit = max 0 (off - maxBack)
      in case endbr_loop code limit off of
        None \<Rightarrow> None
      | Some (Some i) \<Rightarrow> Some (base + of_int i)
      | Some None \<Rightarrow>
          (case padding_loop code limit off of
             None \<Rightarrow> None
           | Some (Some i) \<Rightarrow> Some (base + of_int i)
           | Some None \<Rightarrow> Some 0))"

text \<open>The loop that counts the sites of each function: the functions with their counts, in the order
  they are first met; \<open>None\<close> is a panic.\<close>

fun count_functions :: "bytes \<Rightarrow> u64 \<Rightarrow> u64 list \<Rightarrow> (u64 \<times> int) list \<Rightarrow> (u64 \<times> int) list option" where
  "count_functions code base [] m = Some m"
| "count_functions code base (site # sites) m =
     (case findFunctionStart code base site 4096 of
        None \<Rightarrow> None
      | Some va \<Rightarrow>
          count_functions code base sites
            (if va \<noteq> 0 then AList.update va ((case map_of m va of None \<Rightarrow> 0 | Some n \<Rightarrow> n) + 1) m else m))"

datatype scan_error = No_String | No_Text | Unreadable_Text

text \<open>The table of functions is iterated in an order Go leaves open, and \<open>sort.Slice\<close> is not stable: the
  argument \<open>order\<close> is any rearrangement of the table, sorted stably here.\<close>

definition ranked :: "ElfFile \<Rightarrow> (u64 \<times> int) list \<Rightarrow> Candidate list" where
  "ranked f table =
     sort_key (\<lambda>c. - ca_Score c)
       (map (\<lambda>(va, n). \<lparr>ca_VA = va, ca_FileOff = vaToFileOff f va, ca_Score = n\<rparr>) table)"

definition find_symbol :: "Symbol list option \<Rightarrow> Symbol option" where
  "find_symbol syms = (case syms of None \<Rightarrow> None | Some ss \<Rightarrow> find (\<lambda>s. sy_Name s = ''SSL_write'') ss)"

definition sites_of :: "bytes \<Rightarrow> u64 \<Rightarrow> u64 \<Rightarrow> u64 list" where
  "sites_of code base target = scanLEA code base target @ scanAbsolute code base target"

definition scan_text :: "((u64 \<times> int) list \<Rightarrow> (u64 \<times> int) list) \<Rightarrow> ElfFile \<Rightarrow> (scan_error + Candidate list) option" where
  "scan_text order f =
     (case findString f (bytes_of ''ssl_lib.cc'') of
        None \<Rightarrow> Some (Inl No_String)
      | Some strVA \<Rightarrow>
          (case the_section f ''.text'' of
             None \<Rightarrow> Some (Inl No_Text)
           | Some text \<Rightarrow>
               (case sc_Data text of
                  None \<Rightarrow> Some (Inl Unreadable_Text)
                | Some code \<Rightarrow>
                    map_option (\<lambda>m. Inr (ranked f (order m)))
                      (count_functions code (sc_Addr text) (sites_of code (sc_Addr text) strVA) []))))"

definition ScanELF ::
  "((u64 \<times> int) list \<Rightarrow> (u64 \<times> int) list) \<Rightarrow> ElfFile \<Rightarrow> (scan_error + Candidate list) option \<times> string" where
  "ScanELF order f =
     ((case (case find_symbol (ef_Symbols f) of None \<Rightarrow> find_symbol (ef_DynamicSymbols f) | Some s \<Rightarrow> Some s) of
         Some s \<Rightarrow> Some (Inr [\<lparr>ca_VA = sy_Value s, ca_FileOff = vaToFileOff f (sy_Value s), ca_Score = 100\<rparr>])
       | None \<Rightarrow> scan_text order f),
      getBuildID f)"


section \<open>Function starts\<close>

text \<open>A function entry: \<open>endbr64\<close> after a padding byte. The end of padding: an \<open>int3\<close> before something
  that is no padding.\<close>

definition entry_at :: "bytes \<Rightarrow> int \<Rightarrow> bool" where
  "entry_at code i \<longleftrightarrow> seg (nat i) 4 code = [0xf3, 0x0f, 0x1e, 0xfa] \<and>
     (code ! nat (i - 1) = 0xcc \<or> code ! nat (i - 1) = 0x90)"

definition padding_ends_at :: "bytes \<Rightarrow> int \<Rightarrow> bool" where
  "padding_ends_at code i \<longleftrightarrow> code ! nat i = 0xcc \<and> code ! nat (i + 1) \<noteq> 0xcc \<and> code ! nat (i + 1) \<noteq> 0x90"

lemma upto_rev_step: "(l::int) \<le> i \<Longrightarrow> rev [l..i] = i # rev [l..i - 1]"
  by (simp add: upto_rec2)

lemma all_at_in: "\<forall>(i, P)\<in>set ps. 0 \<le> i \<and> i < int (length code) \<Longrightarrow>
    all_at code ps = Some (\<forall>(i, P)\<in>set ps. P (code ! nat i))"
  by (induction ps) (auto simp: index_at_def)

lemma seg_4: "n + 4 \<le> length code \<Longrightarrow> seg n 4 code = [code ! n, code ! (n + 1), code ! (n + 2), code ! (n + 3)]"
  by (intro nth_equalityI) (auto simp: seg_def less_Suc_eq numeral_eq_Suc)

lemma endbr64_at_in:
  assumes "0 \<le> i" "i + 4 \<le> int (length code)"
  shows "endbr64_at code i = Some (seg (nat i) 4 code = [0xf3, 0x0f, 0x1e, 0xfa])"
proof -
  have "nat i + 4 \<le> length code" using assms by linarith
  moreover have "nat (i + 1) = nat i + 1" "nat (i + 2) = nat i + 2" "nat (i + 3) = nat i + 3"
    using assms(1) by linarith+
  ultimately show ?thesis
    using assms unfolding endbr64_at_def by (subst all_at_in) (auto simp: seg_4)
qed

lemma endbr_loop_find:
  assumes "0 \<le> limit" "i + 4 \<le> int (length code)"
  shows "endbr_loop code limit i = Some (find (entry_at code) (rev [limit + 4..i]))"
  using assms
proof (induction "nat (i - limit)" arbitrary: i rule: less_induct)
  case less
  show ?case
  proof (cases "i < limit + 4")
    case True
    then show ?thesis by (simp add: endbr_loop.simps)
  next
    case False
    have e: "endbr64_at code i = Some (seg (nat i) 4 code = [0xf3, 0x0f, 0x1e, 0xfa])"
      using False less.prems by (intro endbr64_at_in) simp_all
    have p: "all_at code [(i - 1, \<lambda>b. b = 0xcc \<or> b = 0x90)] =
        Some (code ! nat (i - 1) = 0xcc \<or> code ! nat (i - 1) = 0x90)"
      using False less.prems by (subst all_at_in) auto
    have i0: "(if i = 0 then Some True else x) = x" for x using False less.prems by auto
    have r: "rev [limit + 4..i] = i # rev [limit + 4..i - 1]"
      using False by (intro upto_rev_step) simp
    have ih: "endbr_loop code limit (i - 1) = Some (find (entry_at code) (rev [limit + 4..i - 1]))"
      using less.prems False by (intro less.hyps) auto
    show ?thesis
      unfolding r using False
      by (subst endbr_loop.simps, unfold e p i0 ih find.simps) (simp add: entry_at_def split: bool.split)
  qed
qed

lemma padding_loop_find:
  assumes "0 \<le> limit" "i + 2 \<le> int (length code)"
  shows "padding_loop code limit i = Some (map_option (\<lambda>i. i + 1) (find (padding_ends_at code) (rev [limit + 1..i])))"
  using assms
proof (induction code limit i rule: padding_loop.induct)
  case (1 code limit i)
  show ?case
  proof (cases "i \<le> limit")
    case True
    then show ?thesis by (simp add: padding_loop.simps)
  next
    case False
    have p: "all_at code [(i, \<lambda>b. b = 0xcc), (i + 1, \<lambda>b. b \<noteq> 0xcc), (i + 1, \<lambda>b. b \<noteq> 0x90)] =
        Some (padding_ends_at code i)"
      using False "1.prems" by (subst all_at_in) (auto simp: padding_ends_at_def)
    have r: "rev [limit + 1..i] = i # rev [limit + 1..i - 1]" using False by (intro upto_rev_step) simp
    show ?thesis
      unfolding r using False p "1.IH" [OF False p] "1.prems" by (subst padding_loop.simps) auto
  qed
qed

text \<open>What \<open>findFunctionStart\<close> computes at a site inside the code.\<close>

definition start_before :: "bytes \<Rightarrow> int \<Rightarrow> int \<Rightarrow> int option" where
  "start_before code off maxBack =
     (let limit = max 0 (off - maxBack)
      in case find (entry_at code) (rev [limit + 4..off]) of
        Some i \<Rightarrow> Some i
      | None \<Rightarrow> map_option (\<lambda>i. i + 1) (find (padding_ends_at code) (rev [limit + 1..off])))"

lemma site_offset: "k < 2 ^ 63 \<Longrightarrow> sint (base + of_nat k - base :: u64) = int k"
  by (simp add: signed_of_nat signed_take_bit_int_eq_self_iff)

lemma findFunctionStart_site:
  assumes "k + 4 \<le> length code" "length code < 2 ^ 63"
  shows "findFunctionStart code base (base + of_nat k) m =
    Some (case start_before code (int k) m of None \<Rightarrow> 0 | Some i \<Rightarrow> base + of_int i)"
proof -
  have k: "sint (base + of_nat k - base :: u64) = int k" using assms by (intro site_offset) simp
  have e: "endbr_loop code (max 0 (int k - m)) (int k) =
      Some (find (entry_at code) (rev [max 0 (int k - m) + 4..int k]))"
    using assms(1) by (intro endbr_loop_find) simp_all
  have p: "padding_loop code (max 0 (int k - m)) (int k) =
      Some (map_option (\<lambda>i. i + 1) (find (padding_ends_at code) (rev [max 0 (int k - m) + 1..int k])))"
    using assms(1) by (intro padding_loop_find) simp_all
  show ?thesis
    unfolding findFunctionStart_def start_before_def Let_def k e p option.case by (auto split: option.split)
qed

lemma start_before_sound:
  assumes "start_before code off m = Some i" "0 \<le> m"
  shows "0 < i \<and> i \<le> off + 1 \<and> off - m \<le> i \<and> (entry_at code i \<or> padding_ends_at code (i - 1))"
proof -
  have f: "find P (rev [a..b]) = Some x \<Longrightarrow> P x \<and> a \<le> x \<and> x \<le> b" for P and a b x :: int
    by (metis (mono_tags, lifting) atLeastAtMost_iff find_Some_iff nth_mem set_rev set_upto)
  show ?thesis
    using assms by (auto simp: start_before_def Let_def split: option.splits dest!: f)
qed

lemma find_rev_upto:
  assumes "(l::int) \<le> j" "j \<le> i" "P j" "\<forall>x. j < x \<and> x \<le> i \<longrightarrow> \<not> P x"
  shows "find P (rev [l..i]) = Some j"
  using assms(2,4)
proof (induction "nat (i - j)" arbitrary: i)
  case 0
  then have "i = j" by linarith
  with assms(1,3) show ?case by (simp add: upto_rev_step)
next
  case (Suc n)
  then have "j < i" by linarith
  have "find P (rev [l..i - 1]) = Some j" using Suc.hyps(2) Suc.prems(2) \<open>j < i\<close> by (intro Suc.hyps(1)) auto
  with Suc.prems(2) \<open>j < i\<close> assms(1) show ?case by (simp add: upto_rev_step)
qed

lemma start_before_entry:
  assumes "entry_at code j" "4 \<le> j" "j \<le> off" "off - j + 4 \<le> m" "\<forall>x. j < x \<and> x \<le> off \<longrightarrow> \<not> entry_at code x"
  shows "start_before code off m = Some j"
  using find_rev_upto [of "max 0 (off - m) + 4" j off "entry_at code"] assms
  by (simp add: start_before_def Let_def)


section \<open>The table of functions\<close>

text \<open>The function the search assigns to a site: its address, or 0.\<close>

definition function_of :: "bytes \<Rightarrow> u64 \<Rightarrow> u64 \<Rightarrow> u64" where
  "function_of code base site =
     (case start_before code (int (unat (site - base))) 4096 of None \<Rightarrow> 0 | Some i \<Rightarrow> base + of_int i)"

lemma sites_in_code:
  assumes "s \<in> set (sites_of code base target)"
  shows "\<exists>k. s = base + of_nat k \<and> k + 4 \<le> length code"
  using assms by (auto simp: sites_of_def scanLEA_def scanAbsolute_def split: if_splits)

lemma findFunctionStart_of_site:
  assumes "s \<in> set (sites_of code base target)" "length code < 2 ^ 63"
  shows "findFunctionStart code base s 4096 = Some (function_of code base s)"
proof -
  obtain k where k: "s = base + of_nat k" "k + 4 \<le> length code" using sites_in_code [OF assms(1)] by blast
  have "unat (s - base) = k" using k assms(2) by (simp add: unat_of_nat)
  then show ?thesis
    using findFunctionStart_site [OF k(2) assms(2), of base 4096] k(1) by (simp add: function_of_def)
qed

definition count_of :: "('a \<Rightarrow> 'b) \<Rightarrow> 'a list \<Rightarrow> 'b \<Rightarrow> nat" where
  "count_of g xs y = length (filter (\<lambda>x. g x = y) xs)"

lemma count_functions_counts:
  assumes "\<forall>s\<in>set sites. findFunctionStart code base s 4096 = Some (g s)" "distinct (map fst m)"
  shows "\<exists>m'. count_functions code base sites m = Some m' \<and> distinct (map fst m') \<and>
    (\<forall>va. map_of m' va =
       (if va = 0 \<or> count_of g sites va = 0 then map_of m va
        else Some ((case map_of m va of None \<Rightarrow> 0 | Some n \<Rightarrow> n) + int (count_of g sites va))))"
  using assms
proof (induction sites arbitrary: m)
  case (Cons s sites)
  let ?m = "if g s \<noteq> 0 then AList.update (g s) ((case map_of m (g s) of None \<Rightarrow> 0 | Some n \<Rightarrow> n) + 1) m else m"
  have "distinct (map fst ?m)" using Cons.prems(2) by (simp add: distinct_update)
  then obtain m' where m': "count_functions code base sites ?m = Some m'" "distinct (map fst m')"
    "\<forall>va. map_of m' va = (if va = 0 \<or> count_of g sites va = 0 then map_of ?m va
       else Some ((case map_of ?m va of None \<Rightarrow> 0 | Some n \<Rightarrow> n) + int (count_of g sites va)))"
    using Cons.IH [of ?m] Cons.prems(1) by auto
  have "map_of m' va = (if va = 0 \<or> count_of g (s # sites) va = 0 then map_of m va
       else Some ((case map_of m va of None \<Rightarrow> 0 | Some n \<Rightarrow> n) + int (count_of g (s # sites) va)))" for va
    unfolding m'(3) [rule_format] by (auto simp: count_of_def update_conv')
  with m'(1,2) Cons.prems(1) show ?case by auto
qed (simp add: count_of_def)

text \<open>The candidates of a scan without symbols: the functions of the sites with their numbers of sites.\<close>

lemma scan_candidates:
  assumes "length code < 2 ^ 63" "\<And>t. mset (order t) = mset t"
  shows "\<exists>t. count_functions code base (sites_of code base target) [] = Some t \<and>
    sorted_wrt (\<lambda>a b. ca_Score b \<le> ca_Score a) (ranked f (order t)) \<and>
    distinct (map ca_VA (ranked f (order t))) \<and>
    (\<forall>c. c \<in> set (ranked f (order t)) \<longleftrightarrow> ca_VA c \<noteq> 0 \<and> ca_FileOff c = vaToFileOff f (ca_VA c) \<and>
       0 < ca_Score c \<and>
       ca_Score c = int (count_of (function_of code base) (sites_of code base target) (ca_VA c)))"
proof -
  let ?g = "function_of code base" and ?s = "sites_of code base target"
  have "\<forall>s\<in>set ?s. findFunctionStart code base s 4096 = Some (?g s)"
    using findFunctionStart_of_site assms(1) by blast
  from count_functions_counts [OF this, of "[]"] obtain t where t: "count_functions code base ?s [] = Some t"
    "distinct (map fst t)"
    and m: "\<And>va. map_of t va = (if va = 0 \<or> count_of ?g ?s va = 0 then None else Some (int (count_of ?g ?s va)))"
    by auto
  let ?f = "\<lambda>(va, n). \<lparr>ca_VA = va, ca_FileOff = vaToFileOff f va, ca_Score = n\<rparr>"
  have ms: "mset (ranked f (order t)) = mset (map ?f t)"
    unfolding ranked_def using assms(2) [of t] by simp
  have set_t: "(va, n) \<in> set t \<longleftrightarrow> va \<noteq> 0 \<and> 0 < n \<and> n = int (count_of ?g ?s va)" for va n
    using map_of_eq_Some_iff [OF t(2), of va n] m [of va] by (auto split: if_splits)
  have "c \<in> set (ranked f (order t)) \<longleftrightarrow> ca_VA c \<noteq> 0 \<and> ca_FileOff c = vaToFileOff f (ca_VA c) \<and>
       0 < ca_Score c \<and> ca_Score c = int (count_of ?g ?s (ca_VA c))" for c
  proof -
    have "c \<in> set (ranked f (order t)) \<longleftrightarrow> c \<in> ?f ` set t"
      using mset_eq_setD [OF ms] by simp
    also have "\<dots> \<longleftrightarrow> (ca_VA c, ca_Score c) \<in> set t \<and> ca_FileOff c = vaToFileOff f (ca_VA c)"
      by (cases c) (force simp: image_iff)
    finally show ?thesis by (auto simp: set_t)
  qed
  moreover have "sorted_wrt (\<lambda>a b. ca_Score b \<le> ca_Score a) (ranked f (order t))"
    using sorted_sort_key [of "\<lambda>c. - ca_Score c"] by (simp add: ranked_def sorted_map)
  moreover have "distinct (map ca_VA (ranked f (order t)))"
  proof -
    have "mset (map ca_VA (ranked f (order t))) = mset (map fst t)"
      using arg_cong [OF ms, of "image_mset ca_VA"] by (simp add: case_prod_beta comp_def image_mset.compositionality)
    then show ?thesis using t(2) mset_eq_imp_distinct_iff by blast
  qed
  ultimately show ?thesis using t(1) by blast
qed

text \<open>A stripped executable with the string and its code.\<close>

definition stripped :: "ElfFile \<Rightarrow> u64 \<Rightarrow> u64 \<Rightarrow> bytes \<Rightarrow> bool" where
  "stripped f strVA base code \<longleftrightarrow>
     find_symbol (ef_Symbols f) = None \<and> find_symbol (ef_DynamicSymbols f) = None \<and>
     findString f (bytes_of ''ssl_lib.cc'') = Some strVA \<and>
     (\<exists>text. the_section f ''.text'' = Some text \<and> sc_Addr text = base \<and> sc_Data text = Some code)"

lemma ScanELF_stripped:
  assumes "stripped f strVA base code"
  shows "fst (ScanELF order f) =
    map_option (\<lambda>m. Inr (ranked f (order m))) (count_functions code base (sites_of code base strVA) [])"
  using assms by (auto simp: stripped_def ScanELF_def scan_text_def)

text \<open>The instruction \<open>lea reg, [rip + disp]\<close> with 64-bit operands.\<close>

definition lea_bytes :: "u8 \<Rightarrow> u8 \<Rightarrow> s32 \<Rightarrow> bytes" where
  "lea_bytes rex reg disp = [rex, 0x8d, 0x05 OR push_bit 3 reg] @ le_enc 4 (unat disp)"

lemma modrm_rip: "(reg :: u8) < 8 \<Longrightarrow> (0x05 OR push_bit 3 reg) AND 0xC7 = 0x05"
proof -
  assume "reg < 8"
  then have "unat reg \<in> set [0..<8]" by (simp add: word_less_nat_alt)
  moreover have "\<forall>n\<in>set [0..<8]. (0x05 OR push_bit 3 (of_nat n :: u8)) AND 0xC7 = 0x05" by code_simp
  ultimately have "(0x05 OR push_bit 3 (of_nat (unat reg) :: u8)) AND 0xC7 = 0x05" by blast
  then show ?thesis by simp
qed

lemma seg_nth: "n + m \<le> length code \<Longrightarrow> i < m \<Longrightarrow> seg n m code ! i = code ! (n + i)"
  by (simp add: seg_def)

lemma lea_at_bytes:
  assumes "seg k 7 code = lea_bytes rex reg disp" "k + 7 \<le> length code" "rex = 0x48 \<or> rex = 0x4c" "reg < 8"
    and "base + of_nat k + 7 + scast disp = target"
  shows "base + of_nat k \<in> set (scanLEA code base target)"
proof -
  have "code ! k = rex" "code ! (k + 1) = 0x8d" "code ! (k + 2) = 0x05 OR push_bit 3 reg"
    using seg_nth [OF assms(2), of 0] seg_nth [OF assms(2), of 1] seg_nth [OF assms(2), of 2] assms(1)
    by (simp_all add: lea_bytes_def)
  moreover have "seg (k + 3) 4 code = le_enc 4 (unat disp)"
  proof -
    have "seg (k + 3) 4 code = drop 3 (seg k 7 code)"
      by (simp add: seg_def drop_take add.commute)
    then show ?thesis by (simp add: assms(1) lea_bytes_def del: le_enc.simps)
  qed
  ultimately have "lea_at code base target k"
    using assms(3-5) modrm_rip [OF assms(4)] by (simp add: lea_at_def del: le_enc.simps)
  with assms(2) show ?thesis by (auto simp: scanLEA_def)
qed


section \<open>Properties of the scan\<close>


text \<open>
  The scan is sound: it never reads outside the code, and its candidates have distinct addresses and
  descending scores, each a function entry or an end of padding in the text with a reference to the
  string at most 4096 bytes behind it, and a score that counts its references.
\<close>

lemma scan_candidates_sound:
  assumes "stripped f strVA base code" "length code < 2 ^ 63" "\<And>t. mset (order t) = mset t"
  shows "\<exists>cs. fst (ScanELF order f) = Some (Inr cs) \<and> distinct (map ca_VA cs) \<and>
    sorted_wrt (\<lambda>a b. ca_Score b \<le> ca_Score a) cs \<and>
    (\<forall>c\<in>set cs. ca_FileOff c = vaToFileOff f (ca_VA c) \<and>
       ca_Score c = int (count_of (function_of code base) (sites_of code base strVA) (ca_VA c)) \<and>
       (\<exists>i k. ca_VA c = base + of_int i \<and> (entry_at code i \<or> padding_ends_at code (i - 1)) \<and>
          base + of_nat k \<in> set (sites_of code base strVA) \<and> 0 < i \<and> i \<le> int k + 1 \<and> int k \<le> i + 4096))"
proof -
  let ?s = "sites_of code base strVA"
  obtain t where t: "count_functions code base ?s [] = Some t"
    and ord: "sorted_wrt (\<lambda>a b. ca_Score b \<le> ca_Score a) (ranked f (order t))"
      "distinct (map ca_VA (ranked f (order t)))"
    and mem: "\<And>c. c \<in> set (ranked f (order t)) \<longleftrightarrow> ca_VA c \<noteq> 0 \<and> ca_FileOff c = vaToFileOff f (ca_VA c) \<and>
       0 < ca_Score c \<and> ca_Score c = int (count_of (function_of code base) ?s (ca_VA c))"
    using scan_candidates [OF assms(2), of order base strVA f] assms(3) by auto
  have "\<exists>i k. ca_VA c = base + of_int i \<and> (entry_at code i \<or> padding_ends_at code (i - 1)) \<and>
          base + of_nat k \<in> set ?s \<and> 0 < i \<and> i \<le> int k + 1 \<and> int k \<le> i + 4096"
    if "c \<in> set (ranked f (order t))" for c
  proof -
    have va: "ca_VA c \<noteq> 0" and "0 < count_of (function_of code base) ?s (ca_VA c)"
      using that unfolding mem by simp_all
    then obtain s where s: "s \<in> set ?s" "function_of code base s = ca_VA c"
      by (auto simp: count_of_def filter_empty_conv)
    obtain k where k: "s = base + of_nat k" "k + 4 \<le> length code" using sites_in_code [OF s(1)] by blast
    have "k < 2 ^ 64" using k(2) assms(2) by simp
    then have "unat (s - base) = k" using k(1) by (simp add: unat_of_nat)
    then obtain i where i: "start_before code (int k) 4096 = Some i" "ca_VA c = base + of_int i"
      using s(2) va by (auto simp: function_of_def split: option.splits)
    from start_before_sound [OF i(1)] i(2) s(1) k(1) show ?thesis by force
  qed
  with ord mem show ?thesis using ScanELF_stripped [OF assms(1), of order] t by simp
qed

text \<open>The entry at the start of the text is never found: the first loop stops four bytes before it, and
  the second does not look at the first byte.\<close>

lemma first_function_never_found:
  assumes "\<forall>x\<in>{4..int k}. \<not> entry_at code x" "\<forall>x\<in>{1..int k}. \<not> padding_ends_at code x" "k \<le> 4096"
  shows "start_before code (int k) 4096 = None"
proof -
  have f: "find P (rev [a..b]) = None" if "\<forall>x\<in>{a..b}. \<not> P x" for P and a b :: int
    using that by (auto simp: find_None_iff)
  show ?thesis using f assms by (simp add: start_before_def Let_def)
qed

definition ex_code :: bytes where
  "ex_code = [0, 0, 0, 0xcc, 0xf3, 0x0f, 0x1e, 0xfa, 0x48, 0x8d, 0x3d, 0xf1, 0x0f, 0, 0, 0xc3]"

definition ex_elf :: ElfFile where
  "ex_elf = \<lparr>ef_Sections =
     [\<lparr>sc_Name = ''.text'', sc_Type = SHT_PROGBITS, sc_Flags = 6, sc_Addr = 0x1000, sc_Offset = 0x400,
        sc_Size = 16, sc_Data = Some ex_code\<rparr>,
      \<lparr>sc_Name = ''.rodata'', sc_Type = SHT_PROGBITS, sc_Flags = 2, sc_Addr = 0x1ffe, sc_Offset = 0x800,
        sc_Size = 16, sc_Data = Some ([65, 0] @ bytes_of ''s/ssl_lib.cc'' @ [0])\<rparr>],
     ef_Progs = [\<lparr>pg_Type = PT_LOAD, pg_Vaddr = 0x1000, pg_Filesz = 0x2000, pg_Off = 0x400\<rparr>],
     ef_Symbols = None, ef_DynamicSymbols = Some []\<rparr>"

lemma ex_elf_stripped: "stripped ex_elf 0x2000 0x1000 ex_code"
proof -
  have "findString ex_elf (bytes_of ''ssl_lib.cc'') = Some 0x2000" by code_simp
  then show ?thesis by (simp add: stripped_def ex_elf_def find_symbol_def the_section_def)
qed


lemma scan_candidates_sound_witness:
  "\<exists>cs. fst (ScanELF rev ex_elf) = Some (Inr cs) \<and> (\<forall>c\<in>set cs. 0 \<le> ca_Score c)"
proof -
  have s: "length ex_code = 16" by code_simp
  have "length ex_code < 2 ^ 63" "mset (rev t) = mset t" for t :: "(u64 \<times> int) list" by (simp_all add: s)
  from scan_candidates_sound [OF ex_elf_stripped this] show ?thesis
    by (elim exE conjE) (rule exI, rule conjI, assumption, simp)
qed

section \<open>The cache\<close>

text \<open>
  The cache file holds, as JSON, the validated target of each build ID. The file system is a map from
  paths to contents. What \<open>os.WriteFile\<close> and \<open>os.Rename\<close> do is an argument with its documented
  contract \<open>files_ok\<close>; so are the JSON functions: decoding works on a table that may be nil
  (\<open>None\<close>) and yields whether it succeeded and the table after it.
\<close>

record Target =
  tg_Path :: string
  tg_BuildID :: string
  tg_SSLWrite :: u64

type_synonym targets = "string \<Rightarrow> Target option"
type_synonym files = "string \<Rightarrow> bytes option"
type_synonym json_reader = "bytes \<Rightarrow> targets option \<Rightarrow> bool \<times> targets option"

record file_ops =
  MkdirAll :: "string \<Rightarrow> bool"
  WriteFile :: "string \<Rightarrow> bytes \<Rightarrow> files \<Rightarrow> bool \<times> files"
  Rename :: "string \<Rightarrow> string \<Rightarrow> files \<Rightarrow> bool \<times> files"

definition Cache_Lookup :: "json_reader \<Rightarrow> string \<Rightarrow> string \<Rightarrow> files \<Rightarrow> Target option" where
  "Cache_Lookup unmarshal path buildID fs =
     (if buildID = '''' then None
      else case fs path of
        None \<Rightarrow> None
      | Some data \<Rightarrow>
          (case unmarshal data None of
             (False, _) \<Rightarrow> None
           | (True, None) \<Rightarrow> None
           | (True, Some targets) \<Rightarrow> targets buildID))"

datatype store_result = Stored | Store_Failed | Store_Panicked

text \<open>An assignment to an entry of a nil map panics.\<close>

definition Cache_Store ::
  "file_ops \<Rightarrow> json_reader \<Rightarrow> (targets \<Rightarrow> bytes option) \<Rightarrow> string \<Rightarrow> string \<Rightarrow> Target \<Rightarrow> files \<Rightarrow> store_result \<times> files"
where
  "Cache_Store ops unmarshal marshal path buildID target fs =
     (if buildID = '''' then (Stored, fs)
      else case (case fs path of None \<Rightarrow> Some Map.empty | Some data \<Rightarrow> snd (unmarshal data (Some Map.empty))) of
        None \<Rightarrow> (Store_Panicked, fs)
      | Some targets \<Rightarrow>
          if Dir path \<noteq> ''.'' \<and> \<not> MkdirAll ops (Dir path) then (Store_Failed, fs)
          else case marshal (targets(buildID \<mapsto> target)) of
            None \<Rightarrow> (Store_Failed, fs)
          | Some data \<Rightarrow>
              (case WriteFile ops (path @ ''.tmp'') data fs of
                 (False, fs1) \<Rightarrow> (Store_Failed, fs1)
               | (True, fs1) \<Rightarrow>
                   (case Rename ops (path @ ''.tmp'') path fs1 of
                      (False, fs2) \<Rightarrow> (Store_Failed, fs2)
                    | (True, fs2) \<Rightarrow> (Stored, fs2))))"

definition files_ok :: "file_ops \<Rightarrow> bool" where
  "files_ok ops \<longleftrightarrow>
     (\<forall>p d fs ok fs'. WriteFile ops p d fs = (ok, fs') \<longrightarrow>
        (\<forall>q. q \<noteq> p \<longrightarrow> fs' q = fs q) \<and> (ok \<longrightarrow> fs' p = Some d)) \<and>
     (\<forall>p q fs ok fs'. p \<noteq> q \<and> Rename ops p q fs = (ok, fs') \<longrightarrow>
        (if ok then fs' q = fs p \<and> (\<forall>r. r \<noteq> p \<and> r \<noteq> q \<longrightarrow> fs' r = fs r) else fs' = fs))"

text \<open>The table that a file stands for when \<open>Store\<close> reads it.\<close>

definition stored_targets :: "json_reader \<Rightarrow> bytes option \<Rightarrow> targets option" where
  "stored_targets unmarshal file =
     (case file of None \<Rightarrow> Some Map.empty | Some data \<Rightarrow> snd (unmarshal data (Some Map.empty)))"

text \<open>
  C38. Storing a target is all or nothing: if \<open>Store\<close> succeeds then looking up the build ID gives the
  target and any other build ID what the file held for it before, and if it fails at any step, or
  panics, every lookup answers as before; in both cases no file but the cache file and its
  temporary file changes. JSON is assumed to read back the table that was written.
\<close>

theorem cache_store_atomic:
  assumes "files_ok ops" "buildID \<noteq> ''''"
    and "\<And>old d. stored_targets unmarshal (fs path) = Some old \<Longrightarrow> marshal (old(buildID \<mapsto> target)) = Some d \<Longrightarrow>
      unmarshal d None = (True, Some (old(buildID \<mapsto> target)))"
    and "Cache_Store ops unmarshal marshal path buildID target fs = (r, fs')"
  shows "(case r of
      Stored \<Rightarrow> (\<exists>old. stored_targets unmarshal (fs path) = Some old \<and>
        (\<forall>i. i \<noteq> '''' \<longrightarrow> Cache_Lookup unmarshal path i fs' = (if i = buildID then Some target else old i)))
    | _ \<Rightarrow> (\<forall>i. Cache_Lookup unmarshal path i fs' = Cache_Lookup unmarshal path i fs)) \<and>
    (\<forall>q. q \<noteq> path \<and> q \<noteq> path @ ''.tmp'' \<longrightarrow> fs' q = fs q)"
proof -
  let ?t = "path @ ''.tmp''"
  have w: "WriteFile ops p d fs0 = (ok, fs1) \<Longrightarrow> (\<forall>q. q \<noteq> p \<longrightarrow> fs1 q = fs0 q) \<and> (ok \<longrightarrow> fs1 p = Some d)"
    for p d fs0 ok fs1 using assms(1) unfolding files_ok_def by blast
  have n: "p \<noteq> q \<Longrightarrow> Rename ops p q fs0 = (ok, fs1) \<Longrightarrow>
      (if ok then fs1 q = fs0 p \<and> (\<forall>r. r \<noteq> p \<and> r \<noteq> q \<longrightarrow> fs1 r = fs0 r) else fs1 = fs0)"
    for p q fs0 ok fs1 using assms(1) unfolding files_ok_def by blast
  have l: "fs' path = fs path \<Longrightarrow> Cache_Lookup unmarshal path i fs' = Cache_Lookup unmarshal path i fs" for i
    by (simp add: Cache_Lookup_def)
  consider (same) "fs' = fs" "r \<noteq> Stored"
    | (unwritten) data where "WriteFile ops ?t data fs = (False, fs')" "r \<noteq> Stored"
    | (unnamed) data fs1 where "WriteFile ops ?t data fs = (True, fs1)" "Rename ops ?t path fs1 = (False, fs')" "r \<noteq> Stored"
    | (stored) old data fs1 where "stored_targets unmarshal (fs path) = Some old" "marshal (old(buildID \<mapsto> target)) = Some data"
        "WriteFile ops ?t data fs = (True, fs1)" "Rename ops ?t path fs1 = (True, fs')" "r = Stored"
    using assms(2,4) unfolding Cache_Store_def stored_targets_def [symmetric]
    by (auto split: if_splits option.splits prod.splits bool.splits)
  then show ?thesis
  proof cases
    case same
    then show ?thesis by (cases r) simp_all
  next
    case unwritten
    then show ?thesis using w [OF unwritten(1)] l by (cases r) auto
  next
    case unnamed
    then show ?thesis using w [OF unnamed(1)] n [OF _ unnamed(2)] l by (cases r) auto
  next
    case stored
    have f: "fs' path = Some data" "\<forall>q. q \<noteq> path \<and> q \<noteq> ?t \<longrightarrow> fs' q = fs q"
      using w [OF stored(3)] n [OF _ stored(4)] by auto
    have "Cache_Lookup unmarshal path i fs' = (if i = buildID then Some target else old i)" if "i \<noteq> ''''" for i
      using that f(1) assms(3) [OF stored(1,2)] by (simp add: Cache_Lookup_def)
    then show ?thesis using stored(1,5) f(2) by simp
  qed
qed

text \<open>A cache file that holds the JSON value \<open>null\<close> makes the table nil: \<open>Store\<close> panics.\<close>

lemma null_cache_panics:
  assumes "fs path = Some data" "unmarshal data (Some Map.empty) = (True, None)" "buildID \<noteq> ''''"
  shows "Cache_Store ops unmarshal marshal path buildID target fs = (Store_Panicked, fs)"
  using assms by (simp add: Cache_Store_def)

text \<open>A small instance: tables of one build ID, the offset in eight bytes.\<close>

definition ex_ops :: file_ops where
  "ex_ops = \<lparr>MkdirAll = (\<lambda>_. True), WriteFile = (\<lambda>p d fs. (True, fs(p \<mapsto> d))),
     Rename = (\<lambda>p q fs. (True, fs(q := fs p, p := None)))\<rparr>"

definition ex_target :: "u64 \<Rightarrow> Target" where
  "ex_target off = \<lparr>tg_Path = ''/bin/node'', tg_BuildID = ''ab'', tg_SSLWrite = off\<rparr>"

definition ex_marshal :: "targets \<Rightarrow> bytes option" where
  "ex_marshal m = map_option (\<lambda>t. le_enc 8 (unat (tg_SSLWrite t))) (m ''ab'')"

definition ex_unmarshal :: json_reader where
  "ex_unmarshal d prev = (True, Some [''ab'' \<mapsto> ex_target (of_nat (le_dec d))])"

theorem cache_store_atomic_witness:
  "Cache_Lookup ex_unmarshal ''c'' ''ab''
     (snd (Cache_Store ex_ops ex_unmarshal ex_marshal ''c'' ''ab'' (ex_target 0x404) Map.empty)) = Some (ex_target 0x404)"
proof -
  let ?r = "Cache_Store ex_ops ex_unmarshal ex_marshal ''c'' ''ab'' (ex_target 0x404) Map.empty"
  have ok: "files_ok ex_ops" by (auto simp: files_ok_def ex_ops_def)
  have c: "ex_unmarshal d None = (True, Some (old(''ab'' \<mapsto> ex_target 0x404)))"
    if "stored_targets ex_unmarshal None = Some old" "ex_marshal (old(''ab'' \<mapsto> ex_target 0x404)) = Some d" for old d
  proof -
    have "(of_nat (le_dec (le_enc 8 1028)) :: u64) = 1028" by code_simp
    then show ?thesis
      using that by (auto simp: stored_targets_def ex_marshal_def ex_unmarshal_def ex_target_def simp del: le_enc.simps)
  qed
  have r: "fst ?r = Stored"
    by (simp add: Cache_Store_def ex_ops_def ex_marshal_def del: le_enc.simps)
  have "?r = (Stored, snd ?r)" using r by (metis prod.collapse)
  from cache_store_atomic [OF ok _ c this] obtain old where
    "\<forall>i. i \<noteq> '''' \<longrightarrow> Cache_Lookup ex_unmarshal ''c'' i (snd ?r) = (if i = ''ab'' then Some (ex_target 0x404) else old i)"
    unfolding store_result.case by blast
  from spec [OF this, of "''ab''"] show ?thesis by (simp only: if_True refl) simp
qed


text \<open>The candidates \<open>prepareTLS\<close> leaves for validation: the cached offset first; none at all is an
  error.\<close>

definition prepared_candidates :: "Target option \<Rightarrow> Candidate list \<Rightarrow> Candidate list option" where
  "prepared_candidates cached candidates =
     (let cs = (case cached of None \<Rightarrow> candidates
                | Some t \<Rightarrow> \<lparr>ca_VA = 0, ca_FileOff = tg_SSLWrite t, ca_Score = 2 ^ 30\<rparr> # candidates)
      in if cs = [] then None else Some cs)"

lemma stored_offset_tried_first:
  "Cache_Lookup unmarshal path buildID fs = Some t \<Longrightarrow>
    \<exists>c cs'. prepared_candidates (Cache_Lookup unmarshal path buildID fs) cs = Some (c # cs') \<and> ca_FileOff c = tg_SSLWrite t"
  by (simp add: prepared_candidates_def)

end
