(* ===== verification/Fanotify.thy ===== *)
theory Fanotify
  imports Matching Http1
begin

text \<open>
  The parsing half of the filesystem probe, \<open>pkg/probe/fs/fanotify.go\<close>: a buffer read from the fanotify
  descriptor is a sequence of events, each a fixed header and a sequence of info records with file
  handles and names. Resolving a handle to a path is an argument. \<open>None\<close> is a run-time panic.
\<close>

section \<open>Masks\<close>

text \<open>The bits of the kernel's interface.\<close>

definition FAN_MODIFY :: u64 where "FAN_MODIFY = 0x2"
definition FAN_CLOSE_WRITE :: u64 where "FAN_CLOSE_WRITE = 0x8"
definition FAN_OPEN :: u64 where "FAN_OPEN = 0x20"
definition FAN_MOVED_FROM :: u64 where "FAN_MOVED_FROM = 0x40"
definition FAN_MOVED_TO :: u64 where "FAN_MOVED_TO = 0x80"
definition FAN_CREATE :: u64 where "FAN_CREATE = 0x100"
definition FAN_DELETE :: u64 where "FAN_DELETE = 0x200"
definition FAN_Q_OVERFLOW :: u64 where "FAN_Q_OVERFLOW = 0x4000"

lemmas fan_defs = FAN_MODIFY_def FAN_CLOSE_WRITE_def FAN_OPEN_def FAN_MOVED_FROM_def FAN_MOVED_TO_def
  FAN_CREATE_def FAN_DELETE_def FAN_Q_OVERFLOW_def

section \<open>Events\<close>

definition fanEventInfoTypeFid :: u8 where "fanEventInfoTypeFid = 1"
definition fanEventInfoTypeDfidName :: u8 where "fanEventInfoTypeDfidName = 2"
definition fanEventInfoTypeDfid :: u8 where "fanEventInfoTypeDfid = 3"
definition metadataSize :: nat where "metadataSize = 24"

type_synonym handleResolver = "s32 \<Rightarrow> bytes \<Rightarrow> string"

record eventMetadata =
  em_EventLen :: u32
  em_Vers :: u8
  em_Reserved :: u8
  em_MetadataLen :: u16
  em_Mask :: u64
  em_FD :: s32
  em_PID :: s32

text \<open>The handle of an event without one is nil, which is not the empty handle.\<close>

record rawEvent =
  re_Mask :: u64
  re_PID :: s32
  re_Path :: string
  re_Ambiguous :: bool
  re_HandleType :: s32
  re_HandleData :: "bytes option"

definition readMetadata :: "bytes \<Rightarrow> eventMetadata" where
  "readMetadata buf =
     \<lparr>em_EventLen = of_nat (le_dec (seg 0 4 buf)), em_Vers = buf ! 4, em_Reserved = buf ! 5,
      em_MetadataLen = of_nat (le_dec (seg 6 2 buf)), em_Mask = of_nat (le_dec (seg 8 8 buf)),
      em_FD = of_nat (le_dec (seg 16 4 buf)), em_PID = of_nat (le_dec (seg 20 4 buf))\<rparr>"

section \<open>Info records\<close>

text \<open>The two numbers before a handle, and the handle if the record has room for it.\<close>

definition handleBytes :: "bytes \<Rightarrow> nat" where
  "handleBytes rec = unat (of_nat (le_dec (seg 12 4 rec)) :: u32)"

definition handleType :: "bytes \<Rightarrow> s32" where
  "handleType rec = of_nat (le_dec (seg 16 4 rec))"

definition Join :: "string \<Rightarrow> string \<Rightarrow> string" where
  "Join dir name = Clean (dir @ ''/'' @ name)"

definition entry_name :: "bytes \<Rightarrow> string" where
  "entry_name nameBytes =
     (case index_byte 0 nameBytes of
        Some idx \<Rightarrow> if idx > 0 then str_of (take idx nameBytes)
                    else if nameBytes \<noteq> [] \<and> nameBytes ! 0 \<noteq> 0 then str_of nameBytes else ''''
      | None \<Rightarrow> if nameBytes \<noteq> [] \<and> nameBytes ! 0 \<noteq> 0 then str_of nameBytes else '''')"

definition parseDfidName :: "handleResolver \<Rightarrow> bytes \<Rightarrow> string" where
  "parseDfidName resolve rec =
     (if length rec < 20 then ''''
      else
        let handleDataEnd = 20 + handleBytes rec
        in if handleDataEnd > length rec then ''''
           else
             let handleData = seg 20 (handleBytes rec) rec;
                 name = (if handleDataEnd < length rec then entry_name (drop handleDataEnd rec) else '''');
                 dirPath = resolve (handleType rec) handleData
             in if dirPath = '''' then name
                else if name = '''' then dirPath
                else Join dirPath name)"

definition parseHandleToPath :: "handleResolver \<Rightarrow> bytes \<Rightarrow> string" where
  "parseHandleToPath resolve rec =
     (if length rec < 20 then ''''
      else if 20 + handleBytes rec > length rec then ''''
      else resolve (handleType rec) (seg 20 (handleBytes rec) rec))"

text \<open>The length of the info record at the front; both walks below stop at the first wrong one.\<close>

definition infoLen :: "bytes \<Rightarrow> nat" where
  "infoLen infoData = unat (of_nat (le_dec (seg 2 2 infoData)) :: u16)"

function info_loop :: "handleResolver \<Rightarrow> nat \<Rightarrow> bytes \<Rightarrow> string \<times> string \<times> string \<Rightarrow> string \<times> string \<times> string" where
  "info_loop resolve offset infoData (fidPath, dfidNamePath, dfidPath) =
     (if offset + 4 > length infoData then (fidPath, dfidNamePath, dfidPath)
      else
        let infoType = infoData ! offset;
            n = infoLen (drop offset infoData)
        in if n < 4 \<or> offset + n > length infoData then (fidPath, dfidNamePath, dfidPath)
           else
             let rec = seg offset n infoData
             in info_loop resolve (offset + n) infoData
                  (if infoType = fanEventInfoTypeDfidName then (fidPath, parseDfidName resolve rec, dfidPath)
                   else if infoType = fanEventInfoTypeFid then (parseHandleToPath resolve rec, dfidNamePath, dfidPath)
                   else if infoType = fanEventInfoTypeDfid then (fidPath, dfidNamePath, parseHandleToPath resolve rec)
                   else (fidPath, dfidNamePath, dfidPath)))"
  by pat_completeness auto
termination
  by (relation "measure (\<lambda>(resolve, offset, infoData, paths). length infoData - offset)") auto

definition resolveEventPath :: "handleResolver \<Rightarrow> bytes \<Rightarrow> string \<times> bool" where
  "resolveEventPath resolve infoData =
     (let (fidPath, dfidNamePath, dfidPath) = info_loop resolve 0 infoData ('''', '''', '''')
      in if dfidNamePath \<noteq> '''' then (dfidNamePath, False)
         else if fidPath \<noteq> '''' then (fidPath, False)
         else (dfidPath, True))"

function extract_loop :: "nat \<Rightarrow> bytes \<Rightarrow> s32 \<times> bytes option" where
  "extract_loop offset infoData =
     (if offset + 4 > length infoData then (0, None)
      else
        let infoType = infoData ! offset;
            n = infoLen (drop offset infoData);
            rec = seg offset n infoData
        in if n < 4 \<or> offset + n > length infoData then (0, None)
           else if infoType = fanEventInfoTypeFid \<and> length rec \<ge> 20 \<and> 20 + handleBytes rec \<le> length rec
             then (handleType rec, Some (seg 20 (handleBytes rec) rec))
           else extract_loop (offset + n) infoData)"
  by pat_completeness auto
termination by (relation "measure (\<lambda>(offset, infoData). length infoData - offset)") auto

declare info_loop.simps [simp del] extract_loop.simps [simp del]

definition extractFID :: "bytes \<Rightarrow> s32 \<times> bytes option" where
  "extractFID infoData = extract_loop 0 infoData"

section \<open>Buffers\<close>

definition raw_event :: "handleResolver \<Rightarrow> eventMetadata \<Rightarrow> bytes \<Rightarrow> rawEvent" where
  "raw_event resolve meta infoData =
     \<lparr>re_Mask = em_Mask meta, re_PID = em_PID meta, re_Path = fst (resolveEventPath resolve infoData),
      re_Ambiguous = snd (resolveEventPath resolve infoData),
      re_HandleType = fst (extractFID infoData), re_HandleData = snd (extractFID infoData)\<rparr>"

text \<open>The loop over the first \<open>n\<close> bytes of the buffer. An event of a queue overflow takes the same steps
  as any other. The slice of the info records panics when the header claims to be longer than the event.\<close>

function parse_loop :: "handleResolver \<Rightarrow> bytes \<Rightarrow> nat \<Rightarrow> nat \<Rightarrow> rawEvent list \<Rightarrow> rawEvent list option" where
  "parse_loop resolve buf n offset events =
     (if offset + metadataSize > n then Some events
      else
        let meta = readMetadata (drop offset buf);
            len = unat (em_EventLen meta);
            hdr = unat (em_MetadataLen meta)
        in if len < metadataSize \<or> offset + len > n then Some events
           else if hdr > len then None
           else parse_loop resolve buf n (offset + len)
                  (events @ [raw_event resolve meta (seg (offset + hdr) (len - hdr) buf)]))"
  by pat_completeness auto
termination
  by (relation "measure (\<lambda>(resolve, buf, n, offset, events). n - offset)") (auto simp: metadataSize_def)

declare parse_loop.simps [simp del]

definition parseEvents :: "handleResolver \<Rightarrow> bytes \<Rightarrow> nat \<Rightarrow> rawEvent list option" where
  "parseEvents resolve buf n = parse_loop resolve buf n 0 []"


section \<open>The format\<close>

text \<open>What the kernel writes: an info record with its file system identifier, handle and what follows the
  handle (a name with its terminator, padding), and an event with its info records.\<close>

record info =
  in_type :: u8
  in_fsid :: bytes
  in_htype :: s32
  in_handle :: bytes
  in_tail :: bytes

record fan_event =
  fe_vers :: u8
  fe_mask :: u64
  fe_fd :: s32
  fe_pid :: s32
  fe_infos :: "info list"

definition info_size :: "info \<Rightarrow> nat" where
  "info_size i = 20 + length (in_handle i) + length (in_tail i)"

definition info_ok :: "info \<Rightarrow> bool" where
  "info_ok i \<longleftrightarrow> length (in_fsid i) = 8 \<and> info_size i < 2 ^ 16"

definition info_bytes :: "info \<Rightarrow> bytes" where
  "info_bytes i = [in_type i, 0] @ le_enc 2 (info_size i) @ in_fsid i @ le_enc 4 (length (in_handle i)) @
     le_enc 4 (unat (in_htype i)) @ in_handle i @ in_tail i"

definition infos_bytes :: "info list \<Rightarrow> bytes" where
  "infos_bytes is = concat (map info_bytes is)"

definition event_bytes :: "fan_event \<Rightarrow> bytes" where
  "event_bytes e = le_enc 4 (24 + length (infos_bytes (fe_infos e))) @ [fe_vers e, 0] @ le_enc 2 24 @
     le_enc 8 (unat (fe_mask e)) @ le_enc 4 (unat (fe_fd e)) @ le_enc 4 (unat (fe_pid e)) @ infos_bytes (fe_infos e)"

definition event_ok :: "fan_event \<Rightarrow> bool" where
  "event_ok e \<longleftrightarrow> list_all info_ok (fe_infos e) \<and> 24 + length (infos_bytes (fe_infos e)) < 2 ^ 32"

text \<open>What they mean.\<close>

definition handle_path :: "handleResolver \<Rightarrow> info \<Rightarrow> string" where
  "handle_path resolve i = resolve (in_htype i) (in_handle i)"

definition named_path :: "handleResolver \<Rightarrow> info \<Rightarrow> string" where
  "named_path resolve i =
     (let dir = handle_path resolve i; name = (if in_tail i = [] then '''' else entry_name (in_tail i))
      in if dir = '''' then name else if name = '''' then dir else Join dir name)"

definition last_of :: "u8 \<Rightarrow> (info \<Rightarrow> string) \<Rightarrow> info list \<Rightarrow> string" where
  "last_of t f is = (let xs = filter (\<lambda>i. in_type i = t) is in if xs = [] then '''' else f (last xs))"

definition event_path :: "handleResolver \<Rightarrow> info list \<Rightarrow> string \<times> bool" where
  "event_path resolve is =
     (let named = last_of fanEventInfoTypeDfidName (named_path resolve) is;
          fid = last_of fanEventInfoTypeFid (handle_path resolve) is
      in if named \<noteq> '''' then (named, False)
         else if fid \<noteq> '''' then (fid, False)
         else (last_of fanEventInfoTypeDfid (handle_path resolve) is, True))"

definition event_handle :: "info list \<Rightarrow> s32 \<times> bytes option" where
  "event_handle is =
     (case find (\<lambda>i. in_type i = fanEventInfoTypeFid) is of
        None \<Rightarrow> (0, None) | Some i \<Rightarrow> (in_htype i, Some (in_handle i)))"

definition event_of :: "handleResolver \<Rightarrow> fan_event \<Rightarrow> rawEvent" where
  "event_of resolve e =
     \<lparr>re_Mask = fe_mask e, re_PID = fe_pid e, re_Path = fst (event_path resolve (fe_infos e)),
      re_Ambiguous = snd (event_path resolve (fe_infos e)),
      re_HandleType = fst (event_handle (fe_infos e)), re_HandleData = snd (event_handle (fe_infos e))\<rparr>"

section \<open>Reading info records\<close>

lemma length_info_bytes: "info_ok i \<Longrightarrow> length (info_bytes i) = info_size i"
  by (simp add: info_bytes_def info_ok_def info_size_def)

lemma info_bytes_fields:
  assumes "info_ok i"
  shows "info_bytes i ! 0 = in_type i" "infoLen (info_bytes i @ rest) = info_size i"
    "handleBytes (info_bytes i) = length (in_handle i)" "handleType (info_bytes i) = in_htype i"
    "seg 20 (length (in_handle i)) (info_bytes i) = in_handle i"
    "drop (20 + length (in_handle i)) (info_bytes i) = in_tail i"
proof -
  have n: "info_size i < 65536" and f: "length (in_fsid i) = 8" using assms by (simp_all add: info_ok_def)
  have h: "length (in_handle i) < 65536" using n by (simp add: info_size_def)
  have l: "seg 2 2 (info_bytes i @ rest) = le_enc 2 (info_size i)" for rest
    by (simp add: info_bytes_def seg_def del: le_enc.simps)
  have b: "seg 12 4 (info_bytes i) = le_enc 4 (length (in_handle i))"
    by (simp add: info_bytes_def seg_def f del: le_enc.simps)
  have t: "seg 16 4 (info_bytes i) = le_enc 4 (unat (in_htype i))"
    by (simp add: info_bytes_def seg_def f del: le_enc.simps)
  show "info_bytes i ! 0 = in_type i" by (simp add: info_bytes_def)
  show "infoLen (info_bytes i @ rest) = info_size i"
    unfolding infoLen_def l using n by (simp add: le_dec_enc unat_of_nat)
  show "handleBytes (info_bytes i) = length (in_handle i)"
    unfolding handleBytes_def b using h by (simp add: le_dec_enc unat_of_nat)
  show "handleType (info_bytes i) = in_htype i" unfolding handleType_def t by simp
  show "seg 20 (length (in_handle i)) (info_bytes i) = in_handle i"
    by (simp add: info_bytes_def seg_def f del: le_enc.simps)
  let ?hd = "[in_type i, 0] @ le_enc 2 (info_size i) @ in_fsid i @ le_enc 4 (length (in_handle i)) @
    le_enc 4 (unat (in_htype i)) @ in_handle i"
  have "info_bytes i = ?hd @ in_tail i" "length ?hd = 20 + length (in_handle i)"
    by (simp_all add: info_bytes_def f del: le_enc.simps)
  then show "drop (20 + length (in_handle i)) (info_bytes i) = in_tail i" by (metis append_eq_conv_conj)
qed

lemma parse_info:
  assumes "info_ok i"
  shows "parseHandleToPath resolve (info_bytes i) = handle_path resolve i"
    and "parseDfidName resolve (info_bytes i) = named_path resolve i"
proof -
  note f = info_bytes_fields [OF assms] and l = length_info_bytes [OF assms]
  have b: "\<not> info_size i < 20" "\<not> 20 + length (in_handle i) > info_size i"
    "20 + length (in_handle i) < info_size i \<longleftrightarrow> in_tail i \<noteq> []"
    by (auto simp: info_size_def)
  show "parseHandleToPath resolve (info_bytes i) = handle_path resolve i"
    unfolding parseHandleToPath_def f l using b by (simp add: handle_path_def)
  show "parseDfidName resolve (info_bytes i) = named_path resolve i"
    unfolding parseDfidName_def f l Let_def using b by (simp add: named_path_def handle_path_def Let_def)
qed

text \<open>Both walks over well-formed records.\<close>

definition info_step :: "handleResolver \<Rightarrow> info \<Rightarrow> string \<times> string \<times> string \<Rightarrow> string \<times> string \<times> string" where
  "info_step resolve i ps =
     (if in_type i = fanEventInfoTypeDfidName then (fst ps, named_path resolve i, snd (snd ps))
      else if in_type i = fanEventInfoTypeFid then (handle_path resolve i, snd ps)
      else if in_type i = fanEventInfoTypeDfid then (fst ps, fst (snd ps), handle_path resolve i)
      else ps)"

lemma walk_facts:
  assumes "info_ok i" "d = pre @ info_bytes i @ rest"
  shows "\<not> length pre + 4 > length d" "d ! length pre = in_type i" "infoLen (drop (length pre) d) = info_size i"
    "\<not> (info_size i < 4 \<or> length pre + info_size i > length d)" "seg (length pre) (info_size i) d = info_bytes i"
proof -
  note f = info_bytes_fields [OF assms(1)] and l = length_info_bytes [OF assms(1)]
  have p: "4 \<le> info_size i" by (simp add: info_size_def)
  show "\<not> length pre + 4 > length d" "\<not> (info_size i < 4 \<or> length pre + info_size i > length d)"
    using p l assms(2) by simp_all
  show "d ! length pre = in_type i"
    using f(1) p l assms(2) by (simp add: nth_append)
  show "infoLen (drop (length pre) d) = info_size i" using f(2) [of rest] assms(2) by simp
  show "seg (length pre) (info_size i) d = info_bytes i" using l assms(2) by (simp add: seg_def)
qed

lemma info_loop_infos:
  "list_all info_ok is \<Longrightarrow>
   info_loop resolve (length pre) (pre @ infos_bytes is) ps = fold (info_step resolve) is ps"
proof (induction "is" arbitrary: pre ps)
  case Nil
  then show ?case by (cases ps) (simp add: infos_bytes_def info_loop.simps)
next
  case (Cons i "is")
  obtain a b c where ps: "ps = (a, b, c)" by (cases ps)
  have i: "info_ok i" and ok: "list_all info_ok is" using Cons.prems by simp_all
  let ?d = "pre @ infos_bytes (i # is)"
  have d: "?d = pre @ info_bytes i @ infos_bytes is" "?d = (pre @ info_bytes i) @ infos_bytes is"
    by (simp_all add: infos_bytes_def)
  have n: "length pre + info_size i = length (pre @ info_bytes i)" by (simp add: length_info_bytes [OF i])
  note w = walk_facts [OF i d(1)]
  have "info_loop resolve (length pre) ?d ps =
      info_loop resolve (length (pre @ info_bytes i)) ?d (info_step resolve i ps)"
    unfolding ps by (subst info_loop.simps)
      (simp only: w w(4) [unfolded n] Let_def if_False n parse_info [OF i] info_step_def fst_conv snd_conv)
  also have "\<dots> = fold (info_step resolve) is (info_step resolve i ps)"
    unfolding d(2) by (rule Cons.IH [OF ok])
  finally show ?case by simp
qed

lemma extract_loop_infos:
  "list_all info_ok is \<Longrightarrow> extract_loop (length pre) (pre @ infos_bytes is) = event_handle is"
proof (induction "is" arbitrary: pre)
  case Nil
  then show ?case by (simp add: infos_bytes_def extract_loop.simps event_handle_def)
next
  case (Cons i "is")
  have i: "info_ok i" and ok: "list_all info_ok is" using Cons.prems by simp_all
  let ?d = "pre @ infos_bytes (i # is)"
  have d: "?d = pre @ info_bytes i @ infos_bytes is" "?d = (pre @ info_bytes i) @ infos_bytes is"
    by (simp_all add: infos_bytes_def)
  have n: "length pre + info_size i = length (pre @ info_bytes i)" by (simp add: length_info_bytes [OF i])
  have b: "20 \<le> info_size i" "20 + length (in_handle i) \<le> info_size i" by (simp_all add: info_size_def)
  note w = walk_facts [OF i d(1)] and f = info_bytes_fields [OF i]
  have "extract_loop (length pre) ?d =
      (if in_type i = fanEventInfoTypeFid then (in_htype i, Some (in_handle i))
       else extract_loop (length (pre @ info_bytes i)) ?d)"
    by (subst extract_loop.simps)
      (simp only: w w(4) [unfolded n] Let_def if_False n length_info_bytes [OF i] f b if_True simp_thms)
  also have "extract_loop (length (pre @ info_bytes i)) ?d = event_handle is"
    unfolding d(2) by (rule Cons.IH [OF ok])
  finally show ?case by (simp add: event_handle_def)
qed


definition last_or :: "string \<Rightarrow> u8 \<Rightarrow> (info \<Rightarrow> string) \<Rightarrow> info list \<Rightarrow> string" where
  "last_or d t f is = (let xs = filter (\<lambda>i. in_type i = t) is in if xs = [] then d else f (last xs))"

lemma last_or_snoc: "last_or d t f (is @ [i]) = (if in_type i = t then f i else last_or d t f is)"
  by (simp add: last_or_def)

lemma info_types [simp]:
  "fanEventInfoTypeFid \<noteq> fanEventInfoTypeDfidName" "fanEventInfoTypeDfidName \<noteq> fanEventInfoTypeFid"
  "fanEventInfoTypeFid \<noteq> fanEventInfoTypeDfid" "fanEventInfoTypeDfid \<noteq> fanEventInfoTypeFid"
  "fanEventInfoTypeDfid \<noteq> fanEventInfoTypeDfidName" "fanEventInfoTypeDfidName \<noteq> fanEventInfoTypeDfid"
  by (simp_all add: fanEventInfoTypeFid_def fanEventInfoTypeDfidName_def fanEventInfoTypeDfid_def)

lemma fold_info_step: "fold (info_step resolve) is (a, b, c) =
   (last_or a fanEventInfoTypeFid (handle_path resolve) is,
    last_or b fanEventInfoTypeDfidName (named_path resolve) is,
    last_or c fanEventInfoTypeDfid (handle_path resolve) is)"
proof (induction "is" rule: rev_induct)
  case (snoc i "is")
  then show ?case by (auto simp: last_or_snoc info_step_def)
qed (simp add: last_or_def)

lemma resolve_infos:
  assumes "list_all info_ok is"
  shows "resolveEventPath resolve (infos_bytes is) = event_path resolve is"
    and "extractFID (infos_bytes is) = event_handle is"
  using info_loop_infos [OF assms, of resolve "[]" "('''', '''', '''')"] extract_loop_infos [OF assms, of "[]"]
  by (simp_all add: resolveEventPath_def event_path_def extractFID_def fold_info_step last_of_def last_or_def)

section \<open>Reading events\<close>

lemma event_fields:
  assumes "event_ok e"
  shows "readMetadata (event_bytes e @ rest) =
     \<lparr>em_EventLen = of_nat (length (event_bytes e)), em_Vers = fe_vers e, em_Reserved = 0, em_MetadataLen = 24,
      em_Mask = fe_mask e, em_FD = fe_fd e, em_PID = fe_pid e\<rparr>"
    and "unat (of_nat (length (event_bytes e)) :: u32) = length (event_bytes e)"
    and "drop 24 (event_bytes e) = infos_bytes (fe_infos e)" "24 \<le> length (event_bytes e)"
proof -
  let ?i = "infos_bytes (fe_infos e)"
  have n: "24 + length ?i < 2 ^ 32" using assms by (simp add: event_ok_def)
  have len: "length (event_bytes e) = 24 + length ?i" by (simp add: event_bytes_def)
  have u: "x < 2 ^ 32 \<Longrightarrow> unat (of_nat x :: u32) = x" for x by (simp add: unat_of_nat)
  show "unat (of_nat (length (event_bytes e)) :: u32) = length (event_bytes e)" unfolding len
    by (rule u [OF n])
  show "24 \<le> length (event_bytes e)" by (simp add: len)
  let ?hd = "le_enc 4 (24 + length ?i) @ [fe_vers e, 0] @ le_enc 2 24 @
     le_enc 8 (unat (fe_mask e)) @ le_enc 4 (unat (fe_fd e)) @ le_enc 4 (unat (fe_pid e))"
  have "event_bytes e = ?hd @ ?i" "length ?hd = 24" by (simp_all add: event_bytes_def)
  then show "drop 24 (event_bytes e) = ?i" by (metis append_eq_conv_conj)
  have s: "seg 0 4 (event_bytes e @ rest) = le_enc 4 (24 + length ?i)"
    "seg 6 2 (event_bytes e @ rest) = le_enc 2 24" "seg 8 8 (event_bytes e @ rest) = le_enc 8 (unat (fe_mask e))"
    "seg 16 4 (event_bytes e @ rest) = le_enc 4 (unat (fe_fd e))"
    "seg 20 4 (event_bytes e @ rest) = le_enc 4 (unat (fe_pid e))"
    by (simp_all add: event_bytes_def seg_def del: le_enc.simps)
  have v: "(event_bytes e @ rest) ! 4 = fe_vers e" "(event_bytes e @ rest) ! 5 = 0"
    by (simp_all add: event_bytes_def nth_append del: le_enc.simps)
  have m: "le_dec (le_enc 2 24) = 24" by (rule le_dec_enc) simp
  have d: "le_dec (le_enc 4 (24 + length ?i)) = length (event_bytes e)"
    unfolding len using n by (intro le_dec_enc) simp
  show "readMetadata (event_bytes e @ rest) =
     \<lparr>em_EventLen = of_nat (length (event_bytes e)), em_Vers = fe_vers e, em_Reserved = 0, em_MetadataLen = 24,
      em_Mask = fe_mask e, em_FD = fe_fd e, em_PID = fe_pid e\<rparr>"
    unfolding readMetadata_def s v m d by simp
qed

definition events_bytes :: "fan_event list \<Rightarrow> bytes" where
  "events_bytes es = concat (map event_bytes es)"

lemma parse_loop_events:
  "list_all event_ok es \<Longrightarrow> n = length pre + length (events_bytes es) \<Longrightarrow>
   parse_loop resolve (pre @ events_bytes es @ rest) n (length pre) acc =
     Some (acc @ map (event_of resolve) es)"
proof (induction es arbitrary: pre acc)
  case Nil
  then show ?case by (simp add: parse_loop.simps events_bytes_def metadataSize_def)
next
  case (Cons e es)
  have e: "event_ok e" and ok: "list_all event_ok es" using Cons.prems by simp_all
  let ?b = "pre @ events_bytes (e # es) @ rest" and ?n = "length (event_bytes e)"
  have b: "?b = pre @ event_bytes e @ events_bytes es @ rest" "?b = (pre @ event_bytes e) @ events_bytes es @ rest"
    by (simp_all add: events_bytes_def)
  note f = event_fields [OF e]
  have m: "readMetadata (drop (length pre) ?b) =
     \<lparr>em_EventLen = of_nat ?n, em_Vers = fe_vers e, em_Reserved = 0, em_MetadataLen = 24,
      em_Mask = fe_mask e, em_FD = fe_fd e, em_PID = fe_pid e\<rparr>"
    unfolding b(1) using f(1) [of "events_bytes es @ rest"] by simp
  have n: "n = length pre + ?n + length (events_bytes es)" using Cons.prems(2) by (simp add: events_bytes_def)
  have g: "(length pre + metadataSize > n) = False" "(?n < metadataSize \<or> length pre + ?n > n) = False"
    "(unat (24::u16) > ?n) = False"
    using f(4) n by (simp_all add: metadataSize_def)
  have s: "seg (length pre + unat (24::u16)) (?n - unat (24::u16)) ?b = infos_bytes (fe_infos e)"
  proof -
    have "drop (length pre + 24) ?b = drop 24 (event_bytes e) @ events_bytes es @ rest"
      unfolding b(1) using f(4) by simp
    then show ?thesis by (simp add: seg_def flip: f(3))
  qed
  have i: "list_all info_ok (fe_infos e)" using e by (simp add: event_ok_def)
  have r: "raw_event resolve \<lparr>em_EventLen = of_nat ?n, em_Vers = fe_vers e, em_Reserved = 0, em_MetadataLen = 24,
      em_Mask = fe_mask e, em_FD = fe_fd e, em_PID = fe_pid e\<rparr> (infos_bytes (fe_infos e)) = event_of resolve e"
    by (simp add: raw_event_def event_of_def resolve_infos [OF i])
  have "parse_loop resolve ?b n (length pre) acc =
      parse_loop resolve ?b n (length pre + ?n) (acc @ [event_of resolve e])"
    by (subst parse_loop.simps) (simp only: m Let_def eventMetadata.select_convs f(2) g if_False s r)
  also have "\<dots> = Some ((acc @ [event_of resolve e]) @ map (event_of resolve) es)"
    using Cons.IH [OF ok, of "pre @ event_bytes e" "acc @ [event_of resolve e]"] n unfolding b(2) by simp
  finally show ?case by simp
qed

lemma fanotify_events:
  assumes "list_all event_ok es"
  shows "parseEvents resolve (events_bytes es @ rest) (length (events_bytes es)) = Some (map (event_of resolve) es)"
  using parse_loop_events [OF assms, of "length (events_bytes es)" "[]" resolve rest "[]"]
  by (simp add: parseEvents_def)

text \<open>
  C26. Round trip of the fanotify format: whatever events the kernel writes into the buffer, with info records
  of any types, in any order, with names and padding, parsing the buffer yields exactly one
  raw event for each, in order, with its mask and process, the path of its last named record if it has one, else of
  its object, else (and only then marked ambiguous) of its directory, and the handle of its object.
\<close>

theorem fanotify_roundtrip:
  assumes "list_all event_ok es"
  shows "parseEvents resolve (events_bytes es @ rest) (length (events_bytes es)) = Some (map (event_of resolve) es)"
  using fanotify_events [OF assms] .

text \<open>An event in the buffer whose header claims to be longer than the event itself.\<close>

definition bad_header :: "bytes \<Rightarrow> nat \<Rightarrow> nat \<Rightarrow> bool" where
  "bad_header buf n k \<longleftrightarrow>
     (let meta = readMetadata (drop k buf); len = unat (em_EventLen meta)
      in k + metadataSize \<le> n \<and> metadataSize \<le> len \<and> k + len \<le> n \<and> len < unat (em_MetadataLen meta))"

lemma parse_loop_ends:
  "24 * length events \<le> offset \<Longrightarrow> offset \<le> n \<Longrightarrow>
   (\<exists>es. parse_loop resolve buf n offset events = Some es \<and> 24 * length es \<le> n) \<or>
   (parse_loop resolve buf n offset events = None \<and> (\<exists>k. bad_header buf n k))"
proof (induction resolve buf n offset events rule: parse_loop.induct)
  case (1 resolve buf n offset events)
  let ?meta = "readMetadata (drop offset buf)"
  let ?len = "unat (em_EventLen ?meta)" and ?hdr = "unat (em_MetadataLen ?meta)"
  consider "offset + metadataSize > n \<or> ?len < metadataSize \<or> offset + ?len > n"
    | "\<not> (offset + metadataSize > n \<or> ?len < metadataSize \<or> offset + ?len > n)" "?hdr > ?len"
    | "\<not> (offset + metadataSize > n \<or> ?len < metadataSize \<or> offset + ?len > n)" "\<not> ?hdr > ?len"
    by blast
  then show ?case
  proof cases
    case 1
    then have "parse_loop resolve buf n offset events = Some events"
      by (subst parse_loop.simps) (auto simp: Let_def)
    then show ?thesis using "1.prems" by simp
  next
    case 2
    then have "parse_loop resolve buf n offset events = None" by (subst parse_loop.simps) (simp add: Let_def)
    moreover have "bad_header buf n offset" using 2 by (simp add: bad_header_def Let_def)
    ultimately show ?thesis by blast
  next
    case 3
    let ?events = "events @ [raw_event resolve ?meta (seg (offset + ?hdr) (?len - ?hdr) buf)]"
    have "parse_loop resolve buf n offset events = parse_loop resolve buf n (offset + ?len) ?events"
      using 3 by (subst parse_loop.simps) (simp add: Let_def)
    with "1.IH" [OF _ refl refl refl] 3 "1.prems" show ?thesis by (simp add: metadataSize_def)
  qed
qed

text \<open>
  C31. The parser ends on every buffer: whatever bytes it holds, after at most one event for every 24 of the
  bytes read the walk returns, with the events before the first one that is cut or has a wrong length; only an event
  whose header claims to be longer than the event itself makes it panic.
\<close>

theorem fanotify_parse_ends:
  "(\<exists>es. parseEvents resolve buf n = Some es \<and> 24 * length es \<le> n) \<or>
   (parseEvents resolve buf n = None \<and> (\<exists>k. bad_header buf n k))"
  using parse_loop_ends [of "[]" 0 n resolve buf] by (simp add: parseEvents_def)

definition ex_resolve :: handleResolver where
  "ex_resolve t h = (if h = [1] then ''/w'' else '''')"

definition ex_fan :: fan_event where
  "ex_fan = \<lparr>fe_vers = 3, fe_mask = FAN_CLOSE_WRITE, fe_fd = - 1, fe_pid = 42,
     fe_infos = [\<lparr>in_type = 2, in_fsid = replicate 8 9, in_htype = 1, in_handle = [1], in_tail = [102, 0, 0]\<rparr>,
       \<lparr>in_type = 1, in_fsid = replicate 8 9, in_htype = 1, in_handle = [7, 8], in_tail = []\<rparr>]\<rparr>"

lemma ex_fan_ok: "event_ok ex_fan"
  by (simp add: ex_fan_def event_ok_def info_ok_def info_size_def infos_bytes_def info_bytes_def)

lemma ex_fan_event: "event_of ex_resolve ex_fan =
    \<lparr>re_Mask = 8, re_PID = 42, re_Path = ''/w/f'', re_Ambiguous = False, re_HandleType = 1, re_HandleData = Some [7, 8]\<rparr>"
  by code_simp

theorem fanotify_roundtrip_witness:
  "parseEvents ex_resolve (events_bytes [ex_fan, ex_fan] @ [0, 0]) (length (events_bytes [ex_fan, ex_fan])) =
     Some (replicate 2 \<lparr>re_Mask = 8, re_PID = 42, re_Path = ''/w/f'', re_Ambiguous = False, re_HandleType = 1,
       re_HandleData = Some [7, 8]\<rparr>)"
proof -
  have "list_all event_ok [ex_fan, ex_fan]" using ex_fan_ok by simp
  from fanotify_roundtrip [OF this, of ex_resolve "[0, 0]"] show ?thesis
    by (simp add: ex_fan_event numeral_2_eq_2)
qed

end
