(* ===== verification/Fs_Observer.thy ===== *)
theory Fs_Observer
  imports Fanotify Content Verification Probe_Interface
begin

text \<open>
  The filesystem observer, \<open>pkg/probe/fs/observer.go\<close>: raw fanotify events become ground-truth events; a
  close is held back until its path has been quiet, then the file is hashed. The kernel's answers
  (descriptors, inodes, contents, what a poll finds) come with the events and the settle checks that ask
  for them. The lock protects each access in the source and needs no counterpart in a sequential
  model; sends to the events channel block until they are received, so they append to \<open>st_sent\<close>.
\<close>

section \<open>State\<close>

record inodeKey =
  ik_dev :: u64
  ik_ino :: u64

text \<open>A pending close is compared by pointer identity: \<open>pc_id\<close> is the number of its allocation.\<close>

record pendingClose =
  pc_id :: nat
  pc_ts :: Time
  pc_ambiguous :: bool
  pc_pathFD :: int

record fs_config =
  fc_PathFilter :: string
  fc_PIDFilter :: s32
  fc_own_pid :: s32
  fc_mountFD :: int
  fc_settleDelay :: s64

record fs_state =
  st_overflow :: bool
  st_pendingHashOpens :: "string \<Rightarrow> int option"
  st_shadowHashes :: "string \<Rightarrow> string option"
  st_shadowHashesByInode :: "inodeKey \<Rightarrow> string option"
  st_pathGeneration :: "string \<Rightarrow> u64 option"
  st_pendingCloses :: "string \<Rightarrow> pendingClose option"
  st_lastWriteAt :: "string \<Rightarrow> Time option"
  st_sent :: "GroundTruthEvent list"
  st_next :: nat
  st_opened :: "int list"
  st_closed :: "int list"

text \<open>\<open>st_opened\<close> and \<open>st_closed\<close> record the descriptors of pending closes that were obtained and given
  back.\<close>

definition fs_new :: fs_state where
  "fs_new = \<lparr>st_overflow = False, st_pendingHashOpens = Map.empty, st_shadowHashes = Map.empty,
     st_shadowHashesByInode = Map.empty, st_pathGeneration = Map.empty, st_pendingCloses = Map.empty,
     st_lastWriteAt = Map.empty, st_sent = [], st_next = 0, st_opened = [], st_closed = []\<rparr>"

text \<open>What the kernel answers when an event is handled: the inode behind its handle, a descriptor opened by
  the handle, and one opened by the path (negative: an error).\<close>

record kernel_view =
  kv_inode :: "inodeKey option"
  kv_handle_fd :: int
  kv_path_fd :: int

type_synonym batch = "(rawEvent \<times> kernel_view) list \<times> Time"

text \<open>A key that a Go map does not have reads as the zero value.\<close>

definition opens_of :: "string \<Rightarrow> fs_state \<Rightarrow> int" where
  "opens_of path st = (case st_pendingHashOpens st path of None \<Rightarrow> 0 | Some n \<Rightarrow> n)"

definition generation :: "string \<Rightarrow> fs_state \<Rightarrow> u64" where
  "generation path st = (case st_pathGeneration st path of None \<Rightarrow> 0 | Some g \<Rightarrow> g)"

definition last_write :: "string \<Rightarrow> fs_state \<Rightarrow> Time" where
  "last_write path st = (case st_lastWriteAt st path of None \<Rightarrow> 0 | Some t \<Rightarrow> t)"

section \<open>Events\<close>

definition settlePollMs :: int where "settlePollMs = 5"

text \<open>20 milliseconds.\<close>

definition settleQuietWindow :: s64 where "settleQuietWindow = 20000000"

definition watchMask :: u64 where
  "watchMask = FAN_OPEN OR FAN_MODIFY OR FAN_CLOSE_WRITE OR FAN_CREATE OR FAN_DELETE OR FAN_MOVED_FROM OR FAN_MOVED_TO"

definition add_type :: "ActionType \<Rightarrow> ActionType list \<Rightarrow> ActionType list" where
  "add_type at types = (if at \<in> set types then types else types @ [at])"

definition add_if :: "u64 \<Rightarrow> u64 \<Rightarrow> ActionType \<Rightarrow> ActionType list \<Rightarrow> ActionType list" where
  "add_if m flag at types = (if m AND flag \<noteq> 0 then add_type at types else types)"

definition maskToActionTypes :: "u64 \<Rightarrow> ActionType list" where
  "maskToActionTypes m =
     add_if m FAN_OPEN FileOpen
    (add_if m FAN_MOVED_TO FileRename
    (add_if m FAN_MOVED_FROM FileRename
    (add_if m FAN_DELETE FileDelete
    (add_if m FAN_CLOSE_WRITE FileClose
    (add_if m FAN_MODIFY FileWrite
    (add_if m FAN_CREATE FileWrite []))))))"

definition emptyFileHash :: string where
  "emptyFileHash = ''sha256:e3b0c44298fc1c149afbf4c8996fb92427ae41e4649b934ca495991b7852b855''"

definition fs_event :: "Time \<Rightarrow> ActionType \<Rightarrow> string \<Rightarrow> bool \<Rightarrow> string option \<Rightarrow> string option \<Rightarrow> GroundTruthEvent" where
  "fs_event ts action path ambiguous input output =
     \<lparr>ge_Timestamp = ts, ge_ActionType = action, ge_Target = path, ge_InputHash = input, ge_OutputHash = output,
      ge_ExitCode = None, ge_IsTopLevel = None, ge_PathIsAmbiguous = ambiguous, ge_RequestHash = None\<rparr>"

definition fs_send :: "GroundTruthEvent \<Rightarrow> fs_state \<Rightarrow> fs_state" where
  "fs_send ev st = st\<lparr>st_sent := st_sent st @ [ev]\<rparr>"

definition fs_close :: "int \<Rightarrow> fs_state \<Rightarrow> fs_state" where
  "fs_close fd st = (if fd \<ge> 0 then st\<lparr>st_closed := st_closed st @ [fd]\<rparr> else st)"

definition lookupShadowHash ::
  "fs_config \<Rightarrow> string \<Rightarrow> bytes option \<Rightarrow> kernel_view \<Rightarrow> fs_state \<Rightarrow> string \<times> fs_state" where
  "lookupShadowHash cfg path handleData k st =
     (case st_shadowHashes st path of
        Some h \<Rightarrow> (h, st)
      | None \<Rightarrow>
          if handleData \<noteq> None \<and> fc_mountFD cfg \<ge> 0 then
            (case kv_inode k of
               None \<Rightarrow> (emptyFileHash, st)
             | Some key \<Rightarrow>
                 (case st_shadowHashesByInode st key of
                    None \<Rightarrow> (emptyFileHash, st)
                  | Some h \<Rightarrow> (h, st\<lparr>st_shadowHashes := (st_shadowHashes st)(path \<mapsto> h)\<rparr>)))
          else (emptyFileHash, st))"

definition registerClose ::
  "fs_config \<Rightarrow> string \<Rightarrow> Time \<Rightarrow> bool \<Rightarrow> bytes option \<Rightarrow> kernel_view \<Rightarrow> fs_state \<Rightarrow> fs_state" where
  "registerClose cfg path ts ambiguous handleData k st =
     (let pathFD = (if handleData \<noteq> None then kv_handle_fd k
                    else if fc_mountFD cfg = -1 then kv_path_fd k else -1);
          entry = \<lparr>pc_id = st_next st, pc_ts = ts, pc_ambiguous = ambiguous, pc_pathFD = pathFD\<rparr>;
          st1 = st\<lparr>st_pendingCloses := (st_pendingCloses st)(path \<mapsto> entry), st_next := st_next st + 1,
                   st_opened := st_opened st @ (if pathFD \<ge> 0 then [pathFD] else [])\<rparr>
      in case st_pendingCloses st path of
        None \<Rightarrow> st1
      | Some superseded \<Rightarrow>
          fs_send (fs_event (pc_ts superseded) FileClose path (pc_ambiguous superseded) None None)
            (fs_close (pc_pathFD superseded) st1))"

text \<open>\<open>o.pendingHashOpens[path]--\<close>, and the entry deleted when it comes to 0.\<close>

definition drop_open :: "string \<Rightarrow> fs_state \<Rightarrow> fs_state" where
  "drop_open path st =
     (let n = opens_of path st - 1
      in st\<lparr>st_pendingHashOpens := (st_pendingHashOpens st)(path := (if n = 0 then None else Some n))\<rparr>)"

definition add_open :: "string \<Rightarrow> fs_state \<Rightarrow> fs_state" where
  "add_open path st = st\<lparr>st_pendingHashOpens := (st_pendingHashOpens st)(path \<mapsto> opens_of path st + 1)\<rparr>"

definition filtered :: "fs_config \<Rightarrow> rawEvent \<Rightarrow> bool" where
  "filtered cfg e \<longleftrightarrow>
     (sint (fc_PIDFilter cfg) > 0 \<and> re_PID e \<noteq> fc_PIDFilter cfg) \<or>
     (fc_PathFilter cfg \<noteq> '''' \<and> take (length (fc_PathFilter cfg)) (re_Path e) \<noteq> fc_PathFilter cfg)"

text \<open>An open by the observer itself, one that a hash announced.\<close>

definition own_open :: "fs_config \<Rightarrow> rawEvent \<Rightarrow> fs_state \<Rightarrow> bool" where
  "own_open cfg e st \<longleftrightarrow>
     re_PID e = fc_own_pid cfg \<and> re_Mask e AND FAN_OPEN \<noteq> 0 \<and> opens_of (re_Path e) st > 0"

definition note_write :: "u64 \<Rightarrow> string \<Rightarrow> Time \<Rightarrow> fs_state \<Rightarrow> fs_state" where
  "note_write m path ts st =
     (if m AND (FAN_CREATE OR FAN_MODIFY OR FAN_CLOSE_WRITE OR FAN_OPEN) \<noteq> 0
      then st\<lparr>st_pathGeneration := (st_pathGeneration st)(path \<mapsto> generation path st + 1),
              st_lastWriteAt := (st_lastWriteAt st)(path \<mapsto> ts)\<rparr>
      else st)"

definition dispatch :: "fs_config \<Rightarrow> rawEvent \<Rightarrow> kernel_view \<Rightarrow> Time \<Rightarrow> ActionType \<Rightarrow> fs_state \<Rightarrow> fs_state" where
  "dispatch cfg e k ts at st =
     (if at = FileClose then registerClose cfg (re_Path e) ts (re_Ambiguous e) (re_HandleData e) k st
      else if at = FileOpen then
        (let (hash, st1) = lookupShadowHash cfg (re_Path e) (re_HandleData e) k st
         in fs_send (fs_event ts at (re_Path e) (re_Ambiguous e) (Some hash) None) st1)
      else fs_send (fs_event ts at (re_Path e) (re_Ambiguous e) None None) st)"

definition processRawEvent :: "fs_config \<Rightarrow> Time \<Rightarrow> rawEvent \<times> kernel_view \<Rightarrow> fs_state \<Rightarrow> fs_state" where
  "processRawEvent cfg ts ek st =
     (let e = fst ek; k = snd ek
      in if re_Mask e AND FAN_Q_OVERFLOW \<noteq> 0 then st\<lparr>st_overflow := True\<rparr>
         else if filtered cfg e then st
         else
           let own = own_open cfg e st;
               m = (if own then re_Mask e AND NOT FAN_OPEN else re_Mask e);
               st1 = (if own then drop_open (re_Path e) st else st)
           in if own \<and> m = 0 then st1
              else fold (dispatch cfg e k ts) (maskToActionTypes m) (note_write m (re_Path e) ts st1))"

text \<open>One read of the descriptor: the buffer is parsed and all its events are handled with one time.\<close>

definition read_batch :: "handleResolver \<Rightarrow> bytes \<Rightarrow> kernel_view list \<Rightarrow> Time \<Rightarrow> batch option" where
  "read_batch resolve buf views now =
     (case parseEvents resolve buf (length buf) of None \<Rightarrow> None | Some raw \<Rightarrow> Some (zip raw views, now))"

text \<open>What the reads of a drain find, with the time each batch is handled at.\<close>

definition drainNonBlocking :: "fs_config \<Rightarrow> batch list \<Rightarrow> fs_state \<Rightarrow> fs_state" where
  "drainNonBlocking cfg batches st = fold (\<lambda>(evs, now) st. fold (processRawEvent cfg now) evs st) batches st"

section \<open>Settling\<close>

text \<open>What the world answers at one settle check of a path: the time, the link of the descriptor (empty
  if unreadable), the digest (\<open>None\<close> if opening or reading fails), what is drained after the
  read, and the inode of the descriptor.\<close>

record hash_env =
  he_now :: Time
  he_link :: string
  he_hash :: "string option"
  he_drained :: "batch list"
  he_inode :: "inodeKey option"

definition hashSettledFD ::
  "fs_config \<Rightarrow> string \<Rightarrow> int \<Rightarrow> hash_env \<Rightarrow> fs_state \<Rightarrow> string option \<times> fs_state" where
  "hashSettledFD cfg target pathFD he st =
     (let gen = generation target st;
          suppressPath = (if pathFD \<ge> 0 then (if he_link he = '''' then target else he_link he) else '''');
          st1 = (if pathFD \<ge> 0 then add_open suppressPath st else st);
          result = (if pathFD \<ge> 0 \<or> fc_mountFD cfg = -1 then he_hash he else None);
          st2 = drainNonBlocking cfg (he_drained he) st1;
          raced = generation target st2 \<noteq> gen;
          st3 = (if result = None \<and> suppressPath \<noteq> '''' then drop_open suppressPath st2 else st2)
      in case result of
        None \<Rightarrow> (None, st3)
      | Some d \<Rightarrow>
          if raced then (None, st3)
          else
            let st4 = st3\<lparr>st_shadowHashes := (st_shadowHashes st3)(target \<mapsto> d)\<rparr>
            in (Some d,
                if pathFD \<ge> 0 then
                  (case he_inode he of
                     None \<Rightarrow> st4
                   | Some key \<Rightarrow> st4\<lparr>st_shadowHashesByInode := (st_shadowHashesByInode st4)(key \<mapsto> d)\<rparr>)
                else st4))"

text \<open>One round of the loop of \<open>resolveSettled\<close>. The snapshot of the pending closes is iterated in an
  order Go leaves open: \<open>visits\<close> lists its paths in any order.\<close>

definition settled :: "string \<Rightarrow> pendingClose \<Rightarrow> fs_state \<Rightarrow> bool" where
  "settled path entry st \<longleftrightarrow>
     (case st_pendingCloses st path of None \<Rightarrow> False | Some current \<Rightarrow> pc_id current = pc_id entry)"

definition quiet :: "fs_config \<Rightarrow> bool \<Rightarrow> string \<Rightarrow> Time \<Rightarrow> fs_state \<Rightarrow> bool" where
  "quiet cfg force path now st \<longleftrightarrow> force \<or> sint (time_Sub now (last_write path st)) \<ge> sint (fc_settleDelay cfg)"

definition resolve_one ::
  "fs_config \<Rightarrow> bool \<Rightarrow> (string \<Rightarrow> pendingClose option) \<Rightarrow> string \<times> hash_env \<Rightarrow> fs_state \<Rightarrow> fs_state" where
  "resolve_one cfg force before visit st =
     (let path = fst visit; he = snd visit
      in case before path of
        None \<Rightarrow> st
      | Some entry \<Rightarrow>
          if \<not> settled path entry st \<or> \<not> quiet cfg force path (he_now he) st then st
          else
            let r = hashSettledFD cfg path (pc_pathFD entry) he
                      (st\<lparr>st_pendingCloses := (st_pendingCloses st)(path := None)\<rparr>)
            in fs_send (fs_event (pc_ts entry) FileClose path (pc_ambiguous entry) None (fst r))
                 (fs_close (pc_pathFD entry) (snd r)))"

definition resolveSettled ::
  "fs_config \<Rightarrow> bool \<Rightarrow> (string \<Rightarrow> pendingClose option) \<Rightarrow> (string \<times> hash_env) list \<Rightarrow> fs_state \<Rightarrow> fs_state" where
  "resolveSettled cfg force before visits st = fold (resolve_one cfg force before) visits st"

definition settleSnapshot :: "fs_state \<Rightarrow> (string \<Rightarrow> pendingClose option)" where
  "settleSnapshot st = st_pendingCloses st"

definition flushPendingCloses :: "fs_config \<Rightarrow> (string \<times> hash_env) list \<Rightarrow> fs_state \<Rightarrow> fs_state" where
  "flushPendingCloses cfg visits st = resolveSettled cfg True (settleSnapshot st) visits st"

section \<open>The loop\<close>

text \<open>How a poll of the read loop ends: interrupted, with an error, with the stop signal, or with what a
  drain then finds (nothing, if only the time was up).\<close>

datatype wakeup =
    Interrupted
  | Poll_Failed "(string \<times> hash_env) list"
  | Stop_Signal "(string \<times> hash_env) list"
  | Woken "batch list" "(string \<times> hash_env) list"

fun fs_readLoop :: "fs_config \<Rightarrow> wakeup list \<Rightarrow> fs_state \<Rightarrow> fs_state" where
  "fs_readLoop cfg [] st = st"
| "fs_readLoop cfg (Interrupted # ws) st = fs_readLoop cfg ws st"
| "fs_readLoop cfg (Poll_Failed visits # ws) st = flushPendingCloses cfg visits st"
| "fs_readLoop cfg (Stop_Signal visits # ws) st = flushPendingCloses cfg visits st"
| "fs_readLoop cfg (Woken batches visits # ws) st =
     fs_readLoop cfg ws
       (resolveSettled cfg False (settleSnapshot st) visits (drainNonBlocking cfg batches st))"

text \<open>The walk of \<open>Start\<close>: a regular file that could be hashed, with its digest and inode.\<close>

definition Start_walk :: "fs_config \<Rightarrow> (string \<times> bool \<times> string option \<times> inodeKey option) list \<Rightarrow> fs_state \<Rightarrow> fs_state" where
  "Start_walk cfg files st =
     (if fc_PathFilter cfg = '''' then st
      else fold (\<lambda>(path, regular, digest, inode) st.
        if \<not> regular then st
        else case digest of
          None \<Rightarrow> st
        | Some h \<Rightarrow>
            let st1 = st\<lparr>st_shadowHashes := (st_shadowHashes st)(path \<mapsto> h)\<rparr>
            in case inode of
              None \<Rightarrow> st1
            | Some key \<Rightarrow> st1\<lparr>st_shadowHashesByInode := (st_shadowHashesByInode st1)(key \<mapsto> h)\<rparr>) files st)"


section \<open>What the steps leave alone\<close>

lemma fs_send_simps [simp]:
  "st_sent (fs_send ev st) = st_sent st @ [ev]" "st_pendingCloses (fs_send ev st) = st_pendingCloses st"
  "st_next (fs_send ev st) = st_next st" "st_closed (fs_send ev st) = st_closed st"
  "st_pathGeneration (fs_send ev st) = st_pathGeneration st" "st_pendingHashOpens (fs_send ev st) = st_pendingHashOpens st"
  "st_shadowHashes (fs_send ev st) = st_shadowHashes st" "st_shadowHashesByInode (fs_send ev st) = st_shadowHashesByInode st"
  "generation p (fs_send ev st) = generation p st" "opens_of p (fs_send ev st) = opens_of p st"
  by (simp_all add: fs_send_def generation_def opens_of_def)

lemma fs_close_simps [simp]:
  "st_sent (fs_close fd st) = st_sent st" "st_pendingCloses (fs_close fd st) = st_pendingCloses st"
  "st_next (fs_close fd st) = st_next st" "st_pathGeneration (fs_close fd st) = st_pathGeneration st"
  "st_pendingHashOpens (fs_close fd st) = st_pendingHashOpens st"
  "st_shadowHashes (fs_close fd st) = st_shadowHashes st" "st_shadowHashesByInode (fs_close fd st) = st_shadowHashesByInode st"
  "generation p (fs_close fd st) = generation p st" "opens_of p (fs_close fd st) = opens_of p st"
  by (simp_all add: fs_close_def generation_def opens_of_def)

lemma opens_simps [simp]:
  "st_sent (drop_open q st) = st_sent st" "st_pendingCloses (drop_open q st) = st_pendingCloses st"
  "generation p (drop_open q st) = generation p st" "st_shadowHashesByInode (drop_open q st) = st_shadowHashesByInode st"
  "st_shadowHashes (drop_open q st) = st_shadowHashes st"
  "st_sent (add_open q st) = st_sent st" "st_pendingCloses (add_open q st) = st_pendingCloses st"
  "generation p (add_open q st) = generation p st" "st_shadowHashesByInode (add_open q st) = st_shadowHashesByInode st"
  "st_shadowHashes (add_open q st) = st_shadowHashes st"
  by (simp_all add: drop_open_def add_open_def generation_def Let_def)

lemma note_write_simps [simp]:
  "st_sent (note_write m q t st) = st_sent st" "st_pendingCloses (note_write m q t st) = st_pendingCloses st"
  "st_shadowHashes (note_write m q t st) = st_shadowHashes st" "opens_of p (note_write m q t st) = opens_of p st"
  "st_shadowHashesByInode (note_write m q t st) = st_shadowHashesByInode st"
  by (simp_all add: note_write_def opens_of_def)

lemma lookupShadowHash_keeps:
  "st_sent (snd (lookupShadowHash cfg p h k st)) = st_sent st"
  "st_pendingCloses (snd (lookupShadowHash cfg p h k st)) = st_pendingCloses st"
  "generation q (snd (lookupShadowHash cfg p h k st)) = generation q st"
  "st_shadowHashesByInode (snd (lookupShadowHash cfg p h k st)) = st_shadowHashesByInode st"
  "opens_of q (snd (lookupShadowHash cfg p h k st)) = opens_of q st"
  by (simp_all add: lookupShadowHash_def generation_def opens_of_def split: option.split)

lemma set_add_if: "set (add_if m f at ts) = (if m AND f \<noteq> 0 then insert at (set ts) else set ts)"
  by (auto simp: add_if_def add_type_def)

lemma distinct_add_if: "distinct ts \<Longrightarrow> distinct (add_if m f at ts)"
  by (simp add: add_if_def add_type_def)

lemma distinct_maskToActionTypes: "distinct (maskToActionTypes m)"
  unfolding maskToActionTypes_def by (intro distinct_add_if) simp

lemma action_types_distinct [simp]:
  "FileClose \<noteq> FileOpen" "FileClose \<noteq> FileRename" "FileClose \<noteq> FileDelete" "FileClose \<noteq> FileWrite"
  "FileOpen \<noteq> FileClose" "FileRename \<noteq> FileClose" "FileDelete \<noteq> FileClose" "FileWrite \<noteq> FileClose"
  "FileOpen \<noteq> FileRename" "FileOpen \<noteq> FileDelete" "FileOpen \<noteq> FileWrite" "FileWrite \<noteq> FileOpen"
  by (simp_all add: FileClose_def FileOpen_def FileRename_def FileDelete_def FileWrite_def)

lemma close_in_mask: "FileClose \<in> set (maskToActionTypes m) \<longleftrightarrow> m AND FAN_CLOSE_WRITE \<noteq> 0"
  by (simp add: maskToActionTypes_def set_add_if)

lemma mask_without_open: "(m AND NOT FAN_OPEN) AND FAN_CLOSE_WRITE = m AND FAN_CLOSE_WRITE"
  by (simp add: fan_defs and.assoc)

section \<open>Closes\<close>

text \<open>The closes of a path that were reported, and one that waits.\<close>

definition closes_sent :: "string \<Rightarrow> fs_state \<Rightarrow> nat" where
  "closes_sent p st = length (filter (\<lambda>ev. ge_ActionType ev = FileClose \<and> ge_Target ev = p) (st_sent st))"

definition close_waits :: "string \<Rightarrow> fs_state \<Rightarrow> nat" where
  "close_waits p st = (if st_pendingCloses st p = None then 0 else 1)"

definition close_balance :: "string \<Rightarrow> fs_state \<Rightarrow> nat" where
  "close_balance p st = closes_sent p st + close_waits p st"

text \<open>An event that closes the path after writing, and that the filters let through.\<close>

definition closes_path :: "fs_config \<Rightarrow> string \<Rightarrow> rawEvent \<Rightarrow> bool" where
  "closes_path cfg p e \<longleftrightarrow> re_Mask e AND FAN_Q_OVERFLOW = 0 \<and> \<not> filtered cfg e \<and> re_Path e = p \<and>
     re_Mask e AND FAN_CLOSE_WRITE \<noteq> 0"

definition count_closes :: "fs_config \<Rightarrow> string \<Rightarrow> rawEvent list \<Rightarrow> nat" where
  "count_closes cfg p es = length (filter (closes_path cfg p) es)"

lemma fs_event_simps [simp]:
  "ge_ActionType (fs_event t a q b i h) = a" "ge_Target (fs_event t a q b i h) = q"
  "ge_Timestamp (fs_event t a q b i h) = t" "ge_InputHash (fs_event t a q b i h) = i"
  "ge_OutputHash (fs_event t a q b i h) = h" "isTopLevel (fs_event t a q b i h)"
  by (simp_all add: fs_event_def isTopLevel_def)

lemma balance_cong:
  "st_sent a = st_sent b \<Longrightarrow> st_pendingCloses a = st_pendingCloses b \<Longrightarrow> close_balance p a = close_balance p b"
  by (simp add: close_balance_def closes_sent_def close_waits_def)

lemma registerClose_waits:
  "st_pendingCloses (registerClose cfg q t amb h k st) p = None \<longleftrightarrow> q \<noteq> p \<and> st_pendingCloses st p = None"
  by (simp add: registerClose_def Let_def split: option.split)

lemma registerClose_sent:
  "st_sent (registerClose cfg q t amb h k st) = st_sent st @
     (case st_pendingCloses st q of None \<Rightarrow> []
      | Some c \<Rightarrow> [fs_event (pc_ts c) FileClose q (pc_ambiguous c) None None])"
  by (simp add: registerClose_def Let_def split: option.split)

lemma registerClose_balance:
  "close_balance p (registerClose cfg q t amb h k st) = close_balance p st + (if q = p then 1 else 0)"
  unfolding close_balance_def closes_sent_def close_waits_def registerClose_sent registerClose_waits
  by (cases "st_pendingCloses st q") auto

lemma dispatch_balance:
  "close_balance p (dispatch cfg e k ts at st) =
     close_balance p st + (if at = FileClose \<and> re_Path e = p then 1 else 0)"
  by (simp add: dispatch_def registerClose_balance split_beta)
    (simp add: close_balance_def closes_sent_def close_waits_def lookupShadowHash_keeps)

lemma fold_dispatch_balance:
  "distinct ts \<Longrightarrow> close_balance p (fold (dispatch cfg e k now) ts st) =
     close_balance p st + (if FileClose \<in> set ts \<and> re_Path e = p then 1 else 0)"
  by (induction ts arbitrary: st) (auto simp: dispatch_balance)

lemma processRawEvent_balance:
  "close_balance p (processRawEvent cfg now (e, k) st) = close_balance p st + (if closes_path cfg p e then 1 else 0)"
proof -
  let ?own = "own_open cfg e st"
  let ?m = "if ?own then re_Mask e AND NOT FAN_OPEN else re_Mask e"
  let ?s = "if ?own then drop_open (re_Path e) st else st"
  have m: "?m AND FAN_CLOSE_WRITE = re_Mask e AND FAN_CLOSE_WRITE" by (simp add: mask_without_open)
  have s: "close_balance p (note_write ?m (re_Path e) now ?s) = close_balance p st" "close_balance p ?s = close_balance p st"
    by (rule balance_cong; simp)+
  have d: "close_balance p (fold (dispatch cfg e k now) (maskToActionTypes ?m) (note_write ?m (re_Path e) now ?s)) =
      close_balance p st + (if re_Mask e AND FAN_CLOSE_WRITE \<noteq> 0 \<and> re_Path e = p then 1 else 0)"
    unfolding fold_dispatch_balance [OF distinct_maskToActionTypes] s close_in_mask m ..
  show ?thesis
  proof (cases "re_Mask e AND FAN_Q_OVERFLOW \<noteq> 0 \<or> filtered cfg e")
    case True
    then show ?thesis
      by (auto simp: processRawEvent_def Let_def closes_path_def close_balance_def closes_sent_def close_waits_def)
  next
    case False
    then have n: "(re_Mask e AND FAN_Q_OVERFLOW \<noteq> 0) = False" "filtered cfg e = False" by simp_all
    show ?thesis
    proof (cases "?own \<and> ?m = 0")
      case True
      then have "?m = 0" by (rule conjunct2)
      then have "re_Mask e AND FAN_CLOSE_WRITE = 0" unfolding m [symmetric] by (simp only: zero_and_eq)
      moreover have "processRawEvent cfg now (e, k) st = ?s"
        unfolding processRawEvent_def Let_def fst_conv snd_conv n
        by (subst if_P [OF True]) (simp only: if_False refl)
      ultimately show ?thesis using s(2) by (simp add: closes_path_def)
    next
      case go: False
      have "processRawEvent cfg now (e, k) st =
          fold (dispatch cfg e k now) (maskToActionTypes ?m) (note_write ?m (re_Path e) now ?s)"
        unfolding processRawEvent_def Let_def fst_conv snd_conv n
        by (subst if_not_P [OF go]) (simp only: if_False refl)
      then show ?thesis using d False by (simp add: closes_path_def)
    qed
  qed
qed

text \<open>The raw events of a drain.\<close>

definition arrivals :: "batch list \<Rightarrow> rawEvent list" where
  "arrivals batches = concat (map (\<lambda>(evs, now). map fst evs) batches)"

lemma fold_events_balance:
  "close_balance p (fold (processRawEvent cfg now) evs st) = close_balance p st + count_closes cfg p (map fst evs)"
  by (induction evs arbitrary: st) (auto simp: count_closes_def processRawEvent_balance)

lemma drain_balance:
  "close_balance p (drainNonBlocking cfg batches st) = close_balance p st + count_closes cfg p (arrivals batches)"
proof (induction batches arbitrary: st)
  case (Cons b bs)
  then show ?case
    by (cases b) (simp add: drainNonBlocking_def arrivals_def fold_events_balance count_closes_def)
qed (simp add: drainNonBlocking_def arrivals_def count_closes_def)


section \<open>A settle check\<close>

lemma hashSettledFD_state:
  "\<exists>s. snd (hashSettledFD cfg target fd he st) = s \<and>
    st_sent s = st_sent (drainNonBlocking cfg (he_drained he)
        (if fd \<ge> 0 then add_open (if he_link he = '''' then target else he_link he) st else st)) \<and>
    st_pendingCloses s = st_pendingCloses (drainNonBlocking cfg (he_drained he)
        (if fd \<ge> 0 then add_open (if he_link he = '''' then target else he_link he) st else st)) \<and>
    st_opened s = st_opened (drainNonBlocking cfg (he_drained he)
        (if fd \<ge> 0 then add_open (if he_link he = '''' then target else he_link he) st else st)) \<and>
    st_closed s = st_closed (drainNonBlocking cfg (he_drained he)
        (if fd \<ge> 0 then add_open (if he_link he = '''' then target else he_link he) st else st)) \<and>
    st_next s = st_next (drainNonBlocking cfg (he_drained he)
        (if fd \<ge> 0 then add_open (if he_link he = '''' then target else he_link he) st else st))"
  by (auto simp: hashSettledFD_def Let_def drop_open_def split: option.split)

lemma hashSettledFD_balance:
  "close_balance p (snd (hashSettledFD cfg target fd he st)) =
     close_balance p st + count_closes cfg p (arrivals (he_drained he))"
proof -
  let ?s = "if fd \<ge> 0 then add_open (if he_link he = '''' then target else he_link he) st else st"
  have "close_balance p (snd (hashSettledFD cfg target fd he st)) =
      close_balance p (drainNonBlocking cfg (he_drained he) ?s)"
    using hashSettledFD_state [of cfg target fd he st] by (intro balance_cong) simp_all
  also have "\<dots> = close_balance p ?s + count_closes cfg p (arrivals (he_drained he))" by (rule drain_balance)
  also have "close_balance p ?s = close_balance p st" by (rule balance_cong) simp_all
  finally show ?thesis .
qed

text \<open>Whether a visit resolves its close, and the raw events handled during it.\<close>

definition resolves ::
  "fs_config \<Rightarrow> bool \<Rightarrow> (string \<Rightarrow> pendingClose option) \<Rightarrow> string \<times> hash_env \<Rightarrow> fs_state \<Rightarrow> bool" where
  "resolves cfg force before visit st =
     (case before (fst visit) of
        None \<Rightarrow> False
      | Some entry \<Rightarrow> settled (fst visit) entry st \<and> quiet cfg force (fst visit) (he_now (snd visit)) st)"

lemma resolve_one_skip: "\<not> resolves cfg force before visit st \<Longrightarrow> resolve_one cfg force before visit st = st"
  by (auto simp: resolves_def resolve_one_def Let_def split: option.splits)

lemma resolve_one_hash:
  assumes "resolves cfg force before (path, he) st" "before path = Some entry"
  shows "resolve_one cfg force before (path, he) st =
    fs_send (fs_event (pc_ts entry) FileClose path (pc_ambiguous entry) None
        (fst (hashSettledFD cfg path (pc_pathFD entry) he (st\<lparr>st_pendingCloses := (st_pendingCloses st)(path := None)\<rparr>))))
      (fs_close (pc_pathFD entry)
        (snd (hashSettledFD cfg path (pc_pathFD entry) he (st\<lparr>st_pendingCloses := (st_pendingCloses st)(path := None)\<rparr>))))"
  using assms by (simp add: resolves_def resolve_one_def Let_def)

lemma resolve_one_balance:
  "close_balance p (resolve_one cfg force before visit st) =
     close_balance p st + count_closes cfg p (if resolves cfg force before visit st then arrivals (he_drained (snd visit)) else [])"
proof (cases "resolves cfg force before visit st")
  case True
  obtain path he where v: "visit = (path, he)" by (cases visit)
  obtain entry where b: "before path = Some entry" and s: "settled path entry st"
    using True by (auto simp: resolves_def v split: option.splits)
  let ?st = "st\<lparr>st_pendingCloses := (st_pendingCloses st)(path := None)\<rparr>"
  let ?h = "hashSettledFD cfg path (pc_pathFD entry) he ?st"
  have "close_balance p (resolve_one cfg force before visit st) = close_balance p (snd ?h) + (if path = p then 1 else 0)"
    unfolding v resolve_one_hash [OF True [unfolded v] b]
    by (simp add: close_balance_def closes_sent_def close_waits_def)
  moreover have "close_balance p (snd ?h) = close_balance p ?st + count_closes cfg p (arrivals (he_drained he))"
    by (rule hashSettledFD_balance)
  moreover have "close_balance p ?st + (if path = p then 1 else 0) = close_balance p st"
    using s by (auto simp: settled_def close_balance_def closes_sent_def close_waits_def split: option.splits)
  ultimately show ?thesis using True by (simp add: v)
next
  case False
  then show ?thesis by (simp add: resolve_one_skip count_closes_def)
qed

fun visits_arrivals ::
  "fs_config \<Rightarrow> bool \<Rightarrow> (string \<Rightarrow> pendingClose option) \<Rightarrow> (string \<times> hash_env) list \<Rightarrow> fs_state \<Rightarrow> rawEvent list" where
  "visits_arrivals cfg force before [] st = []"
| "visits_arrivals cfg force before (v # vs) st =
     (if resolves cfg force before v st then arrivals (he_drained (snd v)) else []) @
     visits_arrivals cfg force before vs (resolve_one cfg force before v st)"

lemma count_closes_append [simp]: "count_closes cfg p (xs @ ys) = count_closes cfg p xs + count_closes cfg p ys"
  by (simp add: count_closes_def)

lemma resolveSettled_balance:
  "close_balance p (resolveSettled cfg force before visits st) =
     close_balance p st + count_closes cfg p (visits_arrivals cfg force before visits st)"
  unfolding resolveSettled_def
  by (induction visits arbitrary: st) (simp_all add: resolve_one_balance, simp add: count_closes_def)

text \<open>The raw events a run of the read loop handles.\<close>

fun run_arrivals :: "fs_config \<Rightarrow> wakeup list \<Rightarrow> fs_state \<Rightarrow> rawEvent list" where
  "run_arrivals cfg [] st = []"
| "run_arrivals cfg (Interrupted # ws) st = run_arrivals cfg ws st"
| "run_arrivals cfg (Poll_Failed visits # ws) st = visits_arrivals cfg True (settleSnapshot st) visits st"
| "run_arrivals cfg (Stop_Signal visits # ws) st = visits_arrivals cfg True (settleSnapshot st) visits st"
| "run_arrivals cfg (Woken batches visits # ws) st =
     arrivals batches @
     visits_arrivals cfg False (settleSnapshot st) visits (drainNonBlocking cfg batches st) @
     run_arrivals cfg ws (resolveSettled cfg False (settleSnapshot st) visits (drainNonBlocking cfg batches st))"

lemma readLoop_balance:
  "close_balance p (fs_readLoop cfg ws st) = close_balance p st + count_closes cfg p (run_arrivals cfg ws st)"
  by (induction cfg ws st rule: fs_readLoop.induct)
    (simp_all add: resolveSettled_balance drain_balance flushPendingCloses_def, simp add: count_closes_def)


section \<open>Descriptors\<close>

text \<open>The descriptors opened less those closed and those that pending closes hold: how many descriptors
  equal to \<open>x\<close> are lost.\<close>

definition holders :: "int \<Rightarrow> fs_state \<Rightarrow> string set" where
  "holders x st = {p. \<exists>c. st_pendingCloses st p = Some c \<and> pc_pathFD c = x}"

definition lost_fds :: "int \<Rightarrow> fs_state \<Rightarrow> int" where
  "lost_fds x st = int (count_list (st_opened st) x) - int (count_list (st_closed st) x) - int (card (holders x st))"

text \<open>Pending closes are finitely many, their numbers are used up, and a number identifies the entry of
  an earlier snapshot: what pointer identity gives.\<close>

definition pending_ok :: "(string \<Rightarrow> pendingClose option) \<Rightarrow> fs_state \<Rightarrow> bool" where
  "pending_ok before st \<longleftrightarrow> finite (dom (st_pendingCloses st)) \<and>
     (\<forall>p c. st_pendingCloses st p = Some c \<longrightarrow> pc_id c < st_next st) \<and>
     (\<forall>p b. before p = Some b \<longrightarrow> pc_id b < st_next st \<and>
        (\<forall>c. st_pendingCloses st p = Some c \<longrightarrow> pc_id c = pc_id b \<longrightarrow> c = b))"

lemma finite_holders: "pending_ok before st \<Longrightarrow> finite (holders x st)"
  by (rule finite_subset [of _ "dom (st_pendingCloses st)"]) (auto simp: holders_def pending_ok_def)

lemma fds_simps [simp]:
  "st_opened (fs_send ev st) = st_opened st" "st_opened (fs_close fd st) = st_opened st"
  "st_opened (drop_open q st) = st_opened st" "st_closed (drop_open q st) = st_closed st"
  "st_opened (add_open q st) = st_opened st" "st_closed (add_open q st) = st_closed st"
  "st_opened (note_write m q t st) = st_opened st" "st_closed (note_write m q t st) = st_closed st"
  "st_opened (snd (lookupShadowHash cfg p h k st)) = st_opened st"
  "st_closed (snd (lookupShadowHash cfg p h k st)) = st_closed st"
  "st_next (drop_open q st) = st_next st" "st_next (add_open q st) = st_next st"
  "st_next (note_write m q t st) = st_next st" "st_next (snd (lookupShadowHash cfg p h k st)) = st_next st"
  by (simp_all add: fs_send_def fs_close_def drop_open_def add_open_def note_write_def Let_def lookupShadowHash_def
      split: option.split)

lemma st_closed_fs_close: "st_closed (fs_close fd st) = st_closed st @ (if fd \<ge> 0 then [fd] else [])"
  by (simp add: fs_close_def)

text \<open>Steps that lose no descriptor.\<close>

definition keeps_fds :: "(string \<Rightarrow> pendingClose option) \<Rightarrow> int \<Rightarrow> (fs_state \<Rightarrow> fs_state) \<Rightarrow> bool" where
  "keeps_fds before x f \<longleftrightarrow>
     (\<forall>st. pending_ok before st \<longrightarrow> lost_fds x (f st) = lost_fds x st \<and> pending_ok before (f st))"

lemma keeps_fdsI:
  "(\<And>st. pending_ok before st \<Longrightarrow> lost_fds x (f st) = lost_fds x st \<and> pending_ok before (f st)) \<Longrightarrow> keeps_fds before x f"
  by (simp add: keeps_fds_def)

lemma keeps_fdsD: "keeps_fds before x f \<Longrightarrow> pending_ok before st \<Longrightarrow> lost_fds x (f st) = lost_fds x st \<and> pending_ok before (f st)"
  by (simp add: keeps_fds_def)

lemma keeps_fds_fold: "(\<And>a. a \<in> set xs \<Longrightarrow> keeps_fds before x (f a)) \<Longrightarrow> keeps_fds before x (fold f xs)"
  by (induction xs) (simp_all add: keeps_fds_def)

lemma keeps_fds_same:
  assumes "st_opened a = st_opened b" "st_closed a = st_closed b" "st_pendingCloses a = st_pendingCloses b"
    and "st_next a = st_next b" "pending_ok before b"
  shows "lost_fds x a = lost_fds x b \<and> pending_ok before a"
  using assms by (simp add: lost_fds_def holders_def pending_ok_def)

lemma holders_update:
  assumes "st_pendingCloses r = (st_pendingCloses st)(p := e)" "pending_ok before st"
  shows "int (card (holders x r)) = int (card (holders x st)) -
    (if \<exists>c. st_pendingCloses st p = Some c \<and> pc_pathFD c = x then 1 else 0) +
    (if \<exists>c. e = Some c \<and> pc_pathFD c = x then 1 else 0)"
proof -
  let ?H = "holders x st"
  have "holders x r = (?H - {p}) \<union> (if \<exists>c. e = Some c \<and> pc_pathFD c = x then {p} else {})"
    by (auto simp: holders_def assms(1))
  moreover have f: "finite ?H" by (rule finite_holders [OF assms(2)])
  moreover have "p \<in> ?H \<Longrightarrow> card ?H = Suc (card (?H - {p}))" using f by (metis card_Suc_Diff1)
  moreover have "p \<notin> ?H \<Longrightarrow> ?H - {p} = ?H" by blast
  moreover have "p \<in> ?H \<longleftrightarrow> (\<exists>c. st_pendingCloses st p = Some c \<and> pc_pathFD c = x)" by (simp add: holders_def)
  ultimately show ?thesis by (cases "p \<in> ?H") (auto simp: card_insert_if)
qed

lemma registerClose_fds:
  assumes "x \<ge> 0"
  shows "keeps_fds before x (registerClose cfg p ts amb h k)"
proof (rule keeps_fdsI)
  fix st assume ok: "pending_ok before st"
  define fd where "fd = (if h \<noteq> None then kv_handle_fd k else if fc_mountFD cfg = -1 then kv_path_fd k else -1)"
  define entry where "entry = \<lparr>pc_id = st_next st, pc_ts = ts, pc_ambiguous = amb, pc_pathFD = fd\<rparr>"
  let ?r = "registerClose cfg p ts amb h k st"
  have r: "st_pendingCloses ?r = (st_pendingCloses st)(p \<mapsto> entry)" "st_next ?r = Suc (st_next st)"
    "st_opened ?r = st_opened st @ (if fd \<ge> 0 then [fd] else [])"
    "st_closed ?r = st_closed st @ (case st_pendingCloses st p of None \<Rightarrow> []
        | Some c \<Rightarrow> if pc_pathFD c \<ge> 0 then [pc_pathFD c] else [])"
    unfolding registerClose_def Let_def fd_def [symmetric] entry_def [symmetric]
    by (auto simp: st_closed_fs_close split: option.split)
  have "lost_fds x ?r = lost_fds x st"
    unfolding lost_fds_def holders_update [OF r(1) ok] r(3,4)
    using assms by (auto simp: entry_def split: option.splits)
  moreover have "pending_ok before ?r"
    using ok unfolding pending_ok_def r(1,2) by (auto simp: entry_def less_Suc_eq) (metis less_irrefl)
  ultimately show "lost_fds x ?r = lost_fds x st \<and> pending_ok before ?r" ..
qed

lemma dispatch_fds:
  assumes "x \<ge> 0"
  shows "keeps_fds before x (dispatch cfg e k ts at)"
proof (rule keeps_fdsI)
  fix st assume ok: "pending_ok before st"
  show "lost_fds x (dispatch cfg e k ts at st) = lost_fds x st \<and> pending_ok before (dispatch cfg e k ts at st)"
  proof (cases "at = FileClose")
    case True
    then show ?thesis using keeps_fdsD [OF registerClose_fds [OF assms] ok] by (simp add: dispatch_def)
  next
    case False
    then show ?thesis
      by (intro keeps_fds_same ok) (simp_all add: dispatch_def split_beta lookupShadowHash_keeps)
  qed
qed

lemma processRawEvent_fds:
  assumes "x \<ge> 0"
  shows "keeps_fds before x (processRawEvent cfg ts ek)"
proof (rule keeps_fdsI)
  fix st assume ok: "pending_ok before st"
  let ?own = "own_open cfg (fst ek) st"
  have f: "lost_fds x (fold (dispatch cfg (fst ek) (snd ek) ts) (maskToActionTypes m) (note_write m q ts s)) = lost_fds x st \<and>
      pending_ok before (fold (dispatch cfg (fst ek) (snd ek) ts) (maskToActionTypes m) (note_write m q ts s))"
    if "lost_fds x s = lost_fds x st \<and> pending_ok before s" for m q s
  proof -
    have "keeps_fds before x (fold (dispatch cfg (fst ek) (snd ek) ts) (maskToActionTypes m))"
      by (rule keeps_fds_fold) (rule dispatch_fds [OF assms])
    moreover have "lost_fds x (note_write m q ts s) = lost_fds x s \<and> pending_ok before (note_write m q ts s)"
      using that by (intro keeps_fds_same) simp_all
    ultimately show ?thesis using keeps_fdsD that by fastforce
  qed
  have s: "lost_fds x (if ?own then drop_open q st else st) = lost_fds x st \<and>
      pending_ok before (if ?own then drop_open q st else st)" for q
    using ok by (intro keeps_fds_same) simp_all
  have o: "lost_fds x (st\<lparr>st_overflow := True\<rparr>) = lost_fds x st \<and> pending_ok before (st\<lparr>st_overflow := True\<rparr>)"
    using ok by (intro keeps_fds_same) simp_all
  have pick: "lost_fds x (if c1 then a else if c2 then b else if c3 then c else d) = lost_fds x st \<and>
      pending_ok before (if c1 then a else if c2 then b else if c3 then c else d)"
    if "lost_fds x a = lost_fds x st \<and> pending_ok before a" "lost_fds x b = lost_fds x st \<and> pending_ok before b"
      "lost_fds x c = lost_fds x st \<and> pending_ok before c" "lost_fds x d = lost_fds x st \<and> pending_ok before d"
    for c1 c2 c3 a b c d using that by simp
  show "lost_fds x (processRawEvent cfg ts ek st) = lost_fds x st \<and> pending_ok before (processRawEvent cfg ts ek st)"
    unfolding processRawEvent_def Let_def by (rule pick; rule f [OF s] s o conjI [OF refl ok])
qed

lemma drain_fds: "x \<ge> 0 \<Longrightarrow> keeps_fds before x (drainNonBlocking cfg batches)"
  unfolding drainNonBlocking_def
  by (rule keeps_fds_fold) (auto simp: split_beta intro!: keeps_fds_fold processRawEvent_fds)

lemma resolve_one_fds:
  assumes "x \<ge> 0"
  shows "keeps_fds before x (resolve_one cfg force before visit)"
proof (rule keeps_fdsI)
  fix st assume ok: "pending_ok before st"
  show "lost_fds x (resolve_one cfg force before visit st) = lost_fds x st \<and> pending_ok before (resolve_one cfg force before visit st)"
  proof (cases "resolves cfg force before visit st")
    case True
    obtain path he where v: "visit = (path, he)" by (cases visit)
    obtain entry where b: "before path = Some entry" and c: "st_pendingCloses st path = Some entry"
      using True ok by (auto simp: resolves_def settled_def v pending_ok_def split: option.splits)
    let ?st = "st\<lparr>st_pendingCloses := (st_pendingCloses st)(path := None)\<rparr>"
    let ?s = "if pc_pathFD entry \<ge> 0 then add_open (if he_link he = '''' then path else he_link he) ?st else ?st"
    let ?h = "snd (hashSettledFD cfg path (pc_pathFD entry) he ?st)"
    have ok1: "pending_ok before ?st" using ok by (auto simp: pending_ok_def)
    have u: "st_pendingCloses ?st = (st_pendingCloses st)(path := None)" by simp
    have l1: "lost_fds x ?st = lost_fds x st + (if pc_pathFD entry = x then 1 else 0)"
      unfolding lost_fds_def holders_update [OF u ok] using c by simp
    have s: "lost_fds x ?s = lost_fds x ?st \<and> pending_ok before ?s"
      using ok1 by (intro keeps_fds_same) simp_all
    have d: "lost_fds x (drainNonBlocking cfg (he_drained he) ?s) = lost_fds x ?s \<and>
        pending_ok before (drainNonBlocking cfg (he_drained he) ?s)"
      using keeps_fdsD [OF drain_fds [OF assms]] s by blast
    have h: "lost_fds x ?h = lost_fds x (drainNonBlocking cfg (he_drained he) ?s) \<and> pending_ok before ?h"
      using hashSettledFD_state [of cfg path "pc_pathFD entry" he ?st] d by (intro keeps_fds_same) simp_all
    have "lost_fds x (resolve_one cfg force before visit st) = lost_fds x ?h - (if pc_pathFD entry = x then 1 else 0)"
      unfolding v resolve_one_hash [OF True [unfolded v] b] using assms
      by (auto simp: lost_fds_def holders_def st_closed_fs_close)
    moreover have "pending_ok before (resolve_one cfg force before visit st)"
      unfolding v resolve_one_hash [OF True [unfolded v] b] using h by (simp add: pending_ok_def)
    ultimately show ?thesis using h d s l1 by simp
  qed (simp add: resolve_one_skip ok)
qed


section \<open>Whole runs\<close>

lemma pending_ok_snapshot: "pending_ok before st \<Longrightarrow> pending_ok (settleSnapshot st) st"
  by (simp add: pending_ok_def settleSnapshot_def)

lemma resolveSettled_fds: "x \<ge> 0 \<Longrightarrow> keeps_fds before x (resolveSettled cfg force before visits)"
  unfolding resolveSettled_def by (rule keeps_fds_fold) (rule resolve_one_fds)

lemma readLoop_fds:
  assumes "x \<ge> 0"
  shows "pending_ok before st \<Longrightarrow> lost_fds x (fs_readLoop cfg ws st) = lost_fds x st"
proof (induction cfg ws st arbitrary: before rule: fs_readLoop.induct)
  case (5 cfg batches visits ws st)
  let ?d = "drainNonBlocking cfg batches st" and ?b = "settleSnapshot st"
  have d: "lost_fds x ?d = lost_fds x st \<and> pending_ok ?b ?d"
    by (rule keeps_fdsD [OF drain_fds [OF assms] pending_ok_snapshot [OF "5.prems"]])
  have r: "lost_fds x (resolveSettled cfg False ?b visits ?d) = lost_fds x ?d \<and>
      pending_ok ?b (resolveSettled cfg False ?b visits ?d)"
    by (rule keeps_fdsD [OF resolveSettled_fds [OF assms]]) (use d in blast)
  show ?case using "5.IH" [of ?b] r d by simp
qed (use keeps_fdsD [OF resolveSettled_fds [OF assms] pending_ok_snapshot] in \<open>auto simp: flushPendingCloses_def\<close>)

text \<open>A flush with nothing left to drain: the stop signal is never read, so every drain after it ends at
  once.\<close>

lemma drain_nothing [simp]: "drainNonBlocking cfg [] st = st"
  by (simp add: drainNonBlocking_def)

lemma resolve_one_flush:
  assumes "he_drained he = []" "st_pendingCloses st \<subseteq>\<^sub>m before"
  shows "st_pendingCloses (resolve_one cfg True before (path, he) st) = (st_pendingCloses st)(path := None)"
proof (cases "st_pendingCloses st path")
  case None
  then have "\<not> resolves cfg True before (path, he) st" by (auto simp: resolves_def settled_def split: option.split)
  then show ?thesis using None by (simp add: resolve_one_skip fun_upd_idem)
next
  case (Some c)
  then have b: "before path = Some c" using assms(2) by (auto simp: map_le_def dom_def)
  have "resolves cfg True before (path, he) st" using Some b by (simp add: resolves_def settled_def quiet_def)
  from resolve_one_hash [OF this b] show ?thesis
    using hashSettledFD_state [of cfg path "pc_pathFD c" he "st\<lparr>st_pendingCloses := (st_pendingCloses st)(path := None)\<rparr>"]
      assms(1) by simp
qed

lemma flush_empties:
  assumes "\<forall>v\<in>set visits. he_drained (snd v) = []" "st_pendingCloses st \<subseteq>\<^sub>m before"
  shows "st_pendingCloses (resolveSettled cfg True before visits st) = st_pendingCloses st |` (- set (map fst visits))"
  using assms unfolding resolveSettled_def
proof (induction visits arbitrary: st)
  case (Cons v vs)
  obtain path he where v: "v = (path, he)" by (cases v)
  have r: "st_pendingCloses (resolve_one cfg True before v st) = (st_pendingCloses st)(path := None)"
    using Cons.prems unfolding v by (intro resolve_one_flush) simp_all
  then have "st_pendingCloses (resolve_one cfg True before v st) \<subseteq>\<^sub>m before"
    using Cons.prems(2) by (auto simp: map_le_def)
  from Cons.IH [OF _ this] Cons.prems(1) r show ?case
    by (auto simp: v restrict_map_def fun_eq_iff)
qed (simp add: restrict_map_def)

lemma no_visit_arrivals:
  "\<forall>v\<in>set visits. he_drained (snd v) = [] \<Longrightarrow> visits_arrivals cfg force before visits st = []"
  by (induction visits arbitrary: st) (simp_all add: arrivals_def)

definition keeps_running :: "wakeup \<Rightarrow> bool" where
  "keeps_running w = (case w of Interrupted \<Rightarrow> True | Woken _ _ \<Rightarrow> True | _ \<Rightarrow> False)"

lemma readLoop_stop:
  "list_all keeps_running ws \<Longrightarrow>
   fs_readLoop cfg (ws @ [Stop_Signal visits]) st = flushPendingCloses cfg visits (fs_readLoop cfg ws st)"
  by (induction cfg ws st rule: fs_readLoop.induct) (simp_all add: keeps_running_def)

lemma run_to_stop:
  assumes "st_sent st = []" "st_pendingCloses st = Map.empty" "st_opened st = []" "st_closed st = []"
    and "list_all keeps_running ws"
    and "dom (st_pendingCloses (fs_readLoop cfg ws st)) \<subseteq> set (map fst visits)"
    and "\<forall>v\<in>set visits. he_drained (snd v) = []"
  shows "closes_sent p (fs_readLoop cfg (ws @ [Stop_Signal visits]) st) = count_closes cfg p (run_arrivals cfg ws st)"
    and "x \<ge> 0 \<Longrightarrow> count_list (st_opened (fs_readLoop cfg (ws @ [Stop_Signal visits]) st)) x =
      count_list (st_closed (fs_readLoop cfg (ws @ [Stop_Signal visits]) st)) x"
proof -
  let ?s = "fs_readLoop cfg ws st" and ?e = "fs_readLoop cfg (ws @ [Stop_Signal visits]) st"
  have e: "?e = resolveSettled cfg True (settleSnapshot ?s) visits ?s"
    unfolding readLoop_stop [OF assms(5)] flushPendingCloses_def ..
  have "st_pendingCloses ?e = st_pendingCloses ?s |` (- set (map fst visits))"
    unfolding e by (rule flush_empties [OF assms(7)]) (simp add: settleSnapshot_def)
  then have none: "st_pendingCloses ?e = Map.empty"
    using assms(6) by (auto simp: restrict_map_def fun_eq_iff dom_def)
  have "close_balance p ?e = close_balance p ?s"
    unfolding e resolveSettled_balance no_visit_arrivals [OF assms(7)] by (simp add: count_closes_def)
  also have "\<dots> = count_closes cfg p (run_arrivals cfg ws st)"
    unfolding readLoop_balance using assms(1,2) by (simp add: close_balance_def closes_sent_def close_waits_def)
  finally show "closes_sent p ?e = count_closes cfg p (run_arrivals cfg ws st)"
    using none by (simp add: close_balance_def close_waits_def)
  assume x: "x \<ge> 0"
  have "pending_ok Map.empty st" using assms(2) by (simp add: pending_ok_def)
  from readLoop_fds [OF x this, of cfg "ws @ [Stop_Signal visits]"]
  show "count_list (st_opened ?e) x = count_list (st_closed ?e) x"
    using assms(2-4) none by (simp add: lost_fds_def holders_def)
qed

text \<open>
  C8. Every close is reported once: from the start of the observer to its stop, for every path, the close
  events sent are exactly as many as the closes after writing that arrived and passed the filters,
  however they were superseded, held back, hashed or raced; and every descriptor that was opened to
  hash a file is closed exactly once.
\<close>

theorem every_close_reported_once:
  assumes "st_sent st = []" "st_pendingCloses st = Map.empty" "st_opened st = []" "st_closed st = []"
    and "list_all keeps_running ws"
    and "dom (st_pendingCloses (fs_readLoop cfg ws st)) \<subseteq> set (map fst visits)"
    and "\<forall>v\<in>set visits. he_drained (snd v) = []"
  shows "closes_sent p (fs_readLoop cfg (ws @ [Stop_Signal visits]) st) = count_closes cfg p (run_arrivals cfg ws st) \<and>
    (\<forall>x\<ge>0. count_list (st_opened (fs_readLoop cfg (ws @ [Stop_Signal visits]) st)) x =
      count_list (st_closed (fs_readLoop cfg (ws @ [Stop_Signal visits]) st)) x)"
  using run_to_stop [OF assms] by blast


section \<open>Digests\<close>

text \<open>The events sent by handling raw events, none of which carries an output digest.\<close>

definition sends_plain :: "(fs_state \<Rightarrow> fs_state) \<Rightarrow> bool" where
  "sends_plain f \<longleftrightarrow> (\<forall>st. \<exists>evs. st_sent (f st) = st_sent st @ evs \<and> (\<forall>ev\<in>set evs. ge_OutputHash ev = None))"

lemma sends_plain_comp:
  assumes "sends_plain f" "sends_plain g"
  shows "sends_plain (\<lambda>st. f (g st))"
  unfolding sends_plain_def
proof
  fix st
  obtain a where a: "st_sent (g st) = st_sent st @ a" "\<forall>ev\<in>set a. ge_OutputHash ev = None"
    using assms(2) by (auto simp: sends_plain_def)
  obtain b where b: "st_sent (f (g st)) = st_sent (g st) @ b" "\<forall>ev\<in>set b. ge_OutputHash ev = None"
    using assms(1) unfolding sends_plain_def by blast
  show "\<exists>evs. st_sent (f (g st)) = st_sent st @ evs \<and> (\<forall>ev\<in>set evs. ge_OutputHash ev = None)"
    using a b by (intro exI [of _ "a @ b"]) auto
qed

lemma sends_plain_fold: "(\<And>a. sends_plain (f a)) \<Longrightarrow> sends_plain (fold f xs)"
proof (induction xs)
  case (Cons x xs)
  have "sends_plain (\<lambda>st. fold f xs (f x st))" by (rule sends_plain_comp [OF Cons.IH [OF Cons.prems] Cons.prems])
  then show ?case by (simp add: comp_def)
qed (simp add: sends_plain_def)

lemma dispatch_plain: "sends_plain (dispatch cfg e k ts at)"
  unfolding sends_plain_def
  by (auto simp: dispatch_def registerClose_def Let_def split_beta lookupShadowHash_keeps split: option.split)

lemma processRawEvent_plain: "sends_plain (processRawEvent cfg ts ek)"
proof -
  have f: "\<exists>evs. st_sent (fold (dispatch cfg e k ts) ats s) = st_sent s @ evs \<and> (\<forall>ev\<in>set evs. ge_OutputHash ev = None)"
    for e k ats s using sends_plain_fold [of "dispatch cfg e k ts" ats] dispatch_plain unfolding sends_plain_def by blast
  have n: "st_sent (note_write m q ts (if b then drop_open q' s else s)) = st_sent s"
    "st_sent (if b then drop_open q' s else s) = st_sent s" for m q q' b s by simp_all
  show ?thesis
    unfolding sends_plain_def
  proof
    fix st :: fs_state
    let ?Q = "\<lambda>s :: fs_state. \<exists>evs. st_sent s = st_sent st @ evs \<and> (\<forall>ev\<in>set evs. ge_OutputHash ev = None)"
    have pick: "?Q (if c1 then a else if c2 then b else if c3 then c else d)"
      if "?Q a" "?Q b" "?Q c" "?Q d" for c1 c2 c3 a b c d using that by simp
    have same: "?Q s" if "st_sent s = st_sent st" for s using that by simp
    show "?Q (processRawEvent cfg ts ek st)"
      unfolding processRawEvent_def Let_def
    proof (rule pick)
      show "?Q (fold (dispatch cfg (fst ek) (snd ek) ts) ats (note_write m q ts (if b then drop_open q' st else st)))"
        for ats m q q' b using f [of "fst ek" "snd ek" ats "note_write m q ts (if b then drop_open q' st else st)"] n by simp
    qed (rule same, simp)+
  qed
qed

lemma drain_plain: "sends_plain (drainNonBlocking cfg batches)"
  unfolding drainNonBlocking_def
  by (rule sends_plain_fold) (auto simp: split_beta intro!: sends_plain_fold processRawEvent_plain)

text \<open>An event that writes to the path, or may have, and that the filters let through.\<close>

definition writes_path :: "fs_config \<Rightarrow> string \<Rightarrow> rawEvent \<Rightarrow> bool" where
  "writes_path cfg p e \<longleftrightarrow> re_Mask e AND FAN_Q_OVERFLOW = 0 \<and> \<not> filtered cfg e \<and> re_Path e = p \<and>
     re_Mask e AND (FAN_CREATE OR FAN_MODIFY OR FAN_CLOSE_WRITE) \<noteq> 0"

lemma generation_note_write:
  "generation p (note_write m q ts st) = generation p st +
     (if q = p \<and> m AND (FAN_CREATE OR FAN_MODIFY OR FAN_CLOSE_WRITE OR FAN_OPEN) \<noteq> 0 then 1 else 0)"
  by (auto simp: note_write_def generation_def)

lemma generation_dispatch [simp]: "generation p (dispatch cfg e k ts at st) = generation p st"
  by (auto simp: dispatch_def split_beta lookupShadowHash_keeps registerClose_def Let_def generation_def fs_send_def
      fs_close_def lookupShadowHash_def split: option.split)

lemma generation_fold_dispatch [simp]: "generation p (fold (dispatch cfg e k ts) ats st) = generation p st"
  by (induction ats arbitrary: st) simp_all

lemma mask_writes: "m AND (FAN_CREATE OR FAN_MODIFY OR FAN_CLOSE_WRITE) \<noteq> 0 \<Longrightarrow>
    (m AND NOT FAN_OPEN) AND (FAN_CREATE OR FAN_MODIFY OR FAN_CLOSE_WRITE OR FAN_OPEN) \<noteq> 0 \<and>
    m AND (FAN_CREATE OR FAN_MODIFY OR FAN_CLOSE_WRITE OR FAN_OPEN) \<noteq> 0"
proof -
  assume w: "m AND (FAN_CREATE OR FAN_MODIFY OR FAN_CLOSE_WRITE) \<noteq> 0"
  have a: "(m AND NOT FAN_OPEN) AND (FAN_CREATE OR FAN_MODIFY OR FAN_CLOSE_WRITE OR FAN_OPEN) =
      m AND (FAN_CREATE OR FAN_MODIFY OR FAN_CLOSE_WRITE)"
    by (simp add: fan_defs and.assoc)
  have "m AND (FAN_CREATE OR FAN_MODIFY OR FAN_CLOSE_WRITE) =
      (m AND (FAN_CREATE OR FAN_MODIFY OR FAN_CLOSE_WRITE OR FAN_OPEN)) AND (FAN_CREATE OR FAN_MODIFY OR FAN_CLOSE_WRITE)"
    by (simp add: fan_defs and.assoc)
  with w have "m AND (FAN_CREATE OR FAN_MODIFY OR FAN_CLOSE_WRITE OR FAN_OPEN) \<noteq> 0" by (metis zero_and_eq)
  with a w show ?thesis by simp
qed

text \<open>Each raw event advances the generation of a path by one or not at all, and a write does.\<close>

lemma generation_processRawEvent:
  "\<exists>n. generation p (processRawEvent cfg ts (e, k) st) = generation p st + of_nat n \<and> n \<le> 1 \<and>
     (writes_path cfg p e \<longrightarrow> n = 1)"
proof -
  let ?own = "own_open cfg e st"
  let ?m = "if ?own then re_Mask e AND NOT FAN_OPEN else re_Mask e"
  let ?s = "if ?own then drop_open (re_Path e) st else st"
  show ?thesis
  proof (cases "re_Mask e AND FAN_Q_OVERFLOW \<noteq> 0 \<or> filtered cfg e")
    case True
    then show ?thesis
      by (intro exI [of _ 0]) (auto simp: processRawEvent_def Let_def writes_path_def generation_def)
  next
    case False
    then have n: "(re_Mask e AND FAN_Q_OVERFLOW \<noteq> 0) = False" "filtered cfg e = False" by simp_all
    show ?thesis
    proof (cases "?own \<and> ?m = 0")
      case True
      have "processRawEvent cfg ts (e, k) st = ?s"
        unfolding processRawEvent_def Let_def fst_conv snd_conv n
        by (subst if_P [OF True]) (simp only: if_False refl)
      moreover have "\<not> writes_path cfg p e"
      proof
        assume "writes_path cfg p e"
        then have "re_Mask e AND (FAN_CREATE OR FAN_MODIFY OR FAN_CLOSE_WRITE) \<noteq> 0" by (simp add: writes_path_def)
        from mask_writes [OF this] True show False by (metis zero_and_eq)
      qed
      ultimately show ?thesis by (intro exI [of _ 0]) simp
    next
      case go: False
      have "processRawEvent cfg ts (e, k) st =
          fold (dispatch cfg e k ts) (maskToActionTypes ?m) (note_write ?m (re_Path e) ts ?s)"
        unfolding processRawEvent_def Let_def fst_conv snd_conv n
        by (subst if_not_P [OF go]) (simp only: if_False refl)
      then have "generation p (processRawEvent cfg ts (e, k) st) = generation p ?s +
          (if re_Path e = p \<and> ?m AND (FAN_CREATE OR FAN_MODIFY OR FAN_CLOSE_WRITE OR FAN_OPEN) \<noteq> 0 then 1 else 0)"
        by (simp only: generation_fold_dispatch generation_note_write)
      moreover have "generation p ?s = generation p st" by simp
      moreover have "re_Path e = p \<and> ?m AND (FAN_CREATE OR FAN_MODIFY OR FAN_CLOSE_WRITE OR FAN_OPEN) \<noteq> 0"
        if "writes_path cfg p e"
        using that mask_writes [of "re_Mask e"] by (cases ?own) (simp_all add: writes_path_def)
      ultimately show ?thesis
        by (intro exI [of _ "if re_Path e = p \<and> ?m AND (FAN_CREATE OR FAN_MODIFY OR FAN_CLOSE_WRITE OR FAN_OPEN) \<noteq> 0
            then 1 else 0"]) simp
    qed
  qed
qed

definition count_writes :: "fs_config \<Rightarrow> string \<Rightarrow> rawEvent list \<Rightarrow> nat" where
  "count_writes cfg p es = length (filter (writes_path cfg p) es)"

lemma generation_events:
  "\<exists>n. generation p (fold (processRawEvent cfg ts) evs st) = generation p st + of_nat n \<and> n \<le> length evs \<and>
     count_writes cfg p (map fst evs) \<le> n"
proof (induction evs arbitrary: st)
  case (Cons ek evs)
  obtain e k where ek: "ek = (e, k)" by (cases ek)
  obtain a where a: "generation p (processRawEvent cfg ts (e, k) st) = generation p st + of_nat a" "a \<le> 1"
    "writes_path cfg p e \<longrightarrow> a = 1" using generation_processRawEvent by blast
  obtain b where b: "generation p (fold (processRawEvent cfg ts) evs (processRawEvent cfg ts (e, k) st)) =
      generation p (processRawEvent cfg ts (e, k) st) + of_nat b" "b \<le> length evs" "count_writes cfg p (map fst evs) \<le> b"
    using Cons.IH by blast
  show ?case using a b by (intro exI [of _ "a + b"]) (auto simp: ek count_writes_def)
qed (simp add: count_writes_def)

lemma generation_drain:
  "\<exists>n. generation p (drainNonBlocking cfg batches st) = generation p st + of_nat n \<and> n \<le> length (arrivals batches) \<and>
     count_writes cfg p (arrivals batches) \<le> n"
proof (induction batches arbitrary: st)
  case (Cons b bs)
  obtain evs now where b: "b = (evs, now)" by (cases b)
  obtain a where a: "generation p (fold (processRawEvent cfg now) evs st) = generation p st + of_nat a" "a \<le> length evs"
    "count_writes cfg p (map fst evs) \<le> a" using generation_events by blast
  obtain c where c: "generation p (drainNonBlocking cfg bs (fold (processRawEvent cfg now) evs st)) =
      generation p (fold (processRawEvent cfg now) evs st) + of_nat c" "c \<le> length (arrivals bs)"
    "count_writes cfg p (arrivals bs) \<le> c" using Cons.IH by blast
  show ?case
    using a c by (intro exI [of _ "a + c"]) (auto simp: b drainNonBlocking_def arrivals_def count_writes_def)
qed (simp add: drainNonBlocking_def arrivals_def count_writes_def)


lemma hashSettledFD_Some:
  assumes "fst (hashSettledFD cfg target fd he st) = Some d" "length (arrivals (he_drained he)) < 2 ^ 64"
  shows "he_hash he = Some d" "\<forall>e\<in>set (arrivals (he_drained he)). \<not> writes_path cfg target e"
proof -
  let ?s = "if fd \<ge> 0 then add_open (if he_link he = '''' then target else he_link he) st else st"
  let ?d = "drainNonBlocking cfg (he_drained he) ?s"
  have r: "he_hash he = Some d" and g: "generation target ?d = generation target st"
    using assms(1) by (auto simp: hashSettledFD_def Let_def split: option.splits if_splits)
  show "he_hash he = Some d" by (rule r)
  obtain n where n: "generation target ?d = generation target ?s + of_nat n" "n \<le> length (arrivals (he_drained he))"
    "count_writes cfg target (arrivals (he_drained he)) \<le> n" using generation_drain by blast
  have "generation target ?s = generation target st" by simp
  with n(1) g have "(of_nat n :: u64) = 0" by simp
  moreover have "n < 2 ^ 64" using n(2) assms(2) by linarith
  moreover have "unat (of_nat n :: u64) = n mod 2 ^ 64" by (simp add: unat_of_nat)
  ultimately have "n = 0" by simp
  with n(3) show "\<forall>e\<in>set (arrivals (he_drained he)). \<not> writes_path cfg target e"
    by (auto simp: count_writes_def filter_empty_conv)
qed


section \<open>Opens\<close>

lemma mask_open: "maskToActionTypes FAN_OPEN = [FileOpen]" "FAN_OPEN AND FAN_Q_OVERFLOW = 0" "FAN_OPEN \<noteq> 0"
  "FAN_OPEN AND NOT FAN_OPEN = 0" "FAN_OPEN AND (FAN_CREATE OR FAN_MODIFY OR FAN_CLOSE_WRITE OR FAN_OPEN) \<noteq> 0"
  by code_simp+

lemma process_open:
  assumes "re_Mask e = FAN_OPEN" "\<not> filtered cfg e" "\<not> own_open cfg e st"
  shows "processRawEvent cfg ts (e, k) st =
    (let r = lookupShadowHash cfg (re_Path e) (re_HandleData e) k (note_write FAN_OPEN (re_Path e) ts st)
     in fs_send (fs_event ts FileOpen (re_Path e) (re_Ambiguous e) (Some (fst r)) None) (snd r))"
  using assms by (simp add: processRawEvent_def Let_def mask_open dispatch_def split_beta)

lemma process_own_open:
  assumes "re_Mask e = FAN_OPEN" "\<not> filtered cfg e" "own_open cfg e st"
  shows "processRawEvent cfg ts (e, k) st = drop_open (re_Path e) st"
  using assms by (simp add: processRawEvent_def Let_def mask_open)

lemma generation_lookup [simp]:
  "generation q (snd (lookupShadowHash cfg p h k st)) = generation q st"
  by (rule lookupShadowHash_keeps)

text \<open>
  The digest of a file follows it through a rename: once a content was hashed under one path, an open of
  the same inode under any path that has no digest of its own is reported with that content as its input.
\<close>

theorem shadow_hash_survives_rename:
  assumes "fst (hashSettledFD cfg p fd he st) = Some d" "fd \<ge> 0" "he_inode he = Some key"
    and "re_Mask e = FAN_OPEN" "\<not> filtered cfg e" "re_PID e \<noteq> fc_own_pid cfg"
    and "fc_mountFD cfg \<ge> 0" "re_HandleData e \<noteq> None" "kv_inode k = Some key"
    and "st_shadowHashes (snd (hashSettledFD cfg p fd he st)) (re_Path e) = None"
  shows "st_sent (processRawEvent cfg ts (e, k) (snd (hashSettledFD cfg p fd he st))) =
    st_sent (snd (hashSettledFD cfg p fd he st)) @ [fs_event ts FileOpen (re_Path e) (re_Ambiguous e) (Some d) None]"
proof -
  let ?s = "snd (hashSettledFD cfg p fd he st)"
  have i: "st_shadowHashesByInode ?s key = Some d"
    using assms(1-3) by (auto simp: hashSettledFD_def Let_def split: option.splits if_splits)
  have own: "\<not> own_open cfg e ?s" using assms(6) by (simp add: own_open_def)
  have "fst (lookupShadowHash cfg (re_Path e) (re_HandleData e) k (note_write FAN_OPEN (re_Path e) ts ?s)) = d"
    using assms(7-10) i by (simp add: lookupShadowHash_def)
  then show ?thesis
    unfolding process_open [OF assms(4,5) own] Let_def by (simp add: lookupShadowHash_keeps)
qed

section \<open>From the kernel to the report\<close>

lemma mask_close: "maskToActionTypes (FAN_MODIFY OR FAN_CLOSE_WRITE) = [FileWrite, FileClose]"
  "(FAN_MODIFY OR FAN_CLOSE_WRITE) AND FAN_Q_OVERFLOW = 0" "(FAN_MODIFY OR FAN_CLOSE_WRITE) AND FAN_OPEN = 0"
  "(FAN_MODIFY OR FAN_CLOSE_WRITE) AND (FAN_CREATE OR FAN_MODIFY OR FAN_CLOSE_WRITE OR FAN_OPEN) \<noteq> 0"
  by code_simp+

text \<open>A write and close of a path without a pending close, handled with the file's handle.\<close>

lemma process_write_close:
  assumes "re_Mask r = FAN_MODIFY OR FAN_CLOSE_WRITE" "\<not> filtered cfg r" "re_HandleData r \<noteq> None"
    and "kv_handle_fd k \<ge> 0" "st_pendingCloses st (re_Path r) = None"
  shows "processRawEvent cfg ts (r, k) st =
    (let p = re_Path r; ev = fs_event ts FileWrite p (re_Ambiguous r) None None;
         c = \<lparr>pc_id = st_next st, pc_ts = ts, pc_ambiguous = re_Ambiguous r, pc_pathFD = kv_handle_fd k\<rparr>;
         st1 = fs_send ev (note_write (FAN_MODIFY OR FAN_CLOSE_WRITE) p ts st)
     in st1\<lparr>st_pendingCloses := (st_pendingCloses st1)(p \<mapsto> c), st_next := st_next st1 + 1,
            st_opened := st_opened st1 @ [kv_handle_fd k]\<rparr>)"
proof -
  have o: "\<not> own_open cfg r st" using assms(1) by (simp add: own_open_def mask_close)
  show ?thesis
    using assms(2-5) unfolding processRawEvent_def Let_def fst_conv snd_conv assms(1)
    by (simp add: o mask_close dispatch_def registerClose_def Let_def)
qed

text \<open>A hash during which only the observer's own open of the file arrives.\<close>

lemma hash_undisturbed:
  assumes "fd \<ge> 0" "opens_of p st = 0" "he_link he = p" "he_hash he = Some d" "he_drained he = [([(r, k)], t)]"
    and "re_Mask r = FAN_OPEN" "\<not> filtered cfg r" "re_PID r = fc_own_pid cfg" "re_Path r = p" "he_inode he = Some key"
  shows "hashSettledFD cfg p fd he st =
    (Some d, (drop_open p (add_open p st))\<lparr>st_shadowHashes := (st_shadowHashes st)(p \<mapsto> d),
       st_shadowHashesByInode := (st_shadowHashesByInode st)(key \<mapsto> d)\<rparr>)"
proof -
  have "own_open cfg r (add_open p st)"
    using assms(2,6,8,9) by (simp add: own_open_def mask_open add_open_def opens_of_def)
  then have dr: "drainNonBlocking cfg (he_drained he) (add_open p st) = drop_open p (add_open p st)"
    using process_own_open [OF assms(6,7)] assms(5,9) by (simp add: drainNonBlocking_def)
  have s: "st_shadowHashes (drop_open p (add_open p st)) = st_shadowHashes st"
    "st_shadowHashesByInode (drop_open p (add_open p st)) = st_shadowHashesByInode st" by simp_all
  show ?thesis
    unfolding hashSettledFD_def Let_def using assms(1,3,4,10) dr s by (cases "p = []") simp_all
qed

text \<open>
  C4. A file written and closed reaches the consumer: the event the kernel writes into the buffer for it is
  reported at once as a write of the named path, and once the path has been quiet for the delay
  exactly one close follows, at the time of the event, with the digest of the file; the
  observer's own open of the file to hash it is not reported, the descriptor is closed, and the
  digest is kept for later opens of the path and of the inode.
\<close>

theorem observed_written_file:
  assumes "event_ok e" "fe_mask e = FAN_MODIFY OR FAN_CLOSE_WRITE" "in_type i = fanEventInfoTypeFid" "i \<in> set (fe_infos e)"
    and "r = event_of resolve e" "p = re_Path r" "\<not> filtered cfg r"
    and "kv_handle_fd k \<ge> 0" "st_pendingCloses st p = None" "opens_of p st = 0"
    and "re_Mask own = FAN_OPEN" "re_Path own = p" "re_PID own = fc_own_pid cfg" "\<not> filtered cfg own"
    and "he_link he = p" "he_hash he = Some d" "he_drained he = [([(own, k')], t)]" "he_inode he = Some key"
    and "sint (time_Sub (he_now he) ts) \<ge> sint (fc_settleDelay cfg)"
  shows "\<exists>b. read_batch resolve (event_bytes e) [k] ts = Some b \<and>
    (let st' = fs_readLoop cfg [Woken [b] [], Woken [] [(p, he)]] st
     in st_sent st' = st_sent st @ [fs_event ts FileWrite p (re_Ambiguous r) None None,
            fs_event ts FileClose p (re_Ambiguous r) None (Some d)] \<and>
        st_pendingCloses st' p = None \<and> st_closed st' = st_closed st @ [kv_handle_fd k] \<and>
        st_shadowHashes st' p = Some d \<and> st_shadowHashesByInode st' key = Some d)"
proof -
  have b: "read_batch resolve (event_bytes e) [k] ts = Some ([(r, k)], ts)"
    using fanotify_events [of "[e]" resolve "[]"] assms(1,5) by (simp add: read_batch_def events_bytes_def)
  have m: "re_Mask r = FAN_MODIFY OR FAN_CLOSE_WRITE" using assms(2,5) by (simp add: event_of_def)
  have h: "re_HandleData r \<noteq> None"
    using assms(3,4,5) by (auto simp: event_of_def event_handle_def find_None_iff split: option.splits)
  define c where "c = \<lparr>pc_id = st_next st, pc_ts = ts, pc_ambiguous = re_Ambiguous r, pc_pathFD = kv_handle_fd k\<rparr>"
  define st0 where "st0 = fs_send (fs_event ts FileWrite p (re_Ambiguous r) None None)
    (note_write (FAN_MODIFY OR FAN_CLOSE_WRITE) p ts st)"
  define st1 where "st1 = st0\<lparr>st_pendingCloses := (st_pendingCloses st0)(p \<mapsto> c), st_next := st_next st0 + 1,
    st_opened := st_opened st0 @ [kv_handle_fd k]\<rparr>"
  have st1: "processRawEvent cfg ts (r, k) st = st1"
    using process_write_close [OF m assms(7) h assms(8), of st ts] assms(6,9)
    unfolding st1_def st0_def c_def Let_def by simp
  let ?st2 = "st1\<lparr>st_pendingCloses := (st_pendingCloses st1)(p := None)\<rparr>"
  have "last_write p st1 = ts"
    unfolding st1_def st0_def by (simp add: last_write_def note_write_def fs_send_def mask_close)
  then have res: "resolves cfg False (st_pendingCloses st1) (p, he) st1"
    using assms(19) by (simp add: resolves_def settled_def quiet_def st1_def)
  have c: "st_pendingCloses st1 p = Some c" by (simp add: st1_def)
  have o: "opens_of p ?st2 = 0" using assms(10) unfolding st1_def st0_def by (simp add: opens_of_def note_write_def)
  note hash = hash_undisturbed [OF _ o assms(15,16,17,11,14,13,12,18), of "pc_pathFD c"]
  have fields: "pc_pathFD c = kv_handle_fd k" "pc_ts c = ts" "pc_ambiguous c = re_Ambiguous r" by (simp_all add: c_def)
  have run: "fs_readLoop cfg [Woken [([(r, k)], ts)] [], Woken [] [(p, he)]] st =
      resolve_one cfg False (st_pendingCloses st1) (p, he) st1"
    by (simp add: drainNonBlocking_def resolveSettled_def settleSnapshot_def st1)
  have keeps: "st_closed (drop_open p (add_open p ?st2)) = st_closed st" "st_closed st1 = st_closed st"
    by (simp_all add: drop_open_def add_open_def Let_def st1_def st0_def note_write_def fs_send_def)
  have sent: "st_sent st1 = st_sent st @ [fs_event ts FileWrite p (re_Ambiguous r) None None]"
    by (simp add: st1_def st0_def)
  have "pc_pathFD c \<ge> 0" using assms(8) by (simp add: fields)
  note hash = hash [OF this]
  let ?st' = "fs_readLoop cfg [Woken [([(r, k)], ts)] [], Woken [] [(p, he)]] st"
  have "st_sent ?st' = st_sent st @ [fs_event ts FileWrite p (re_Ambiguous r) None None,
      fs_event ts FileClose p (re_Ambiguous r) None (Some d)]"
    "st_pendingCloses ?st' p = None" "st_closed ?st' = st_closed st @ [kv_handle_fd k]"
    "st_shadowHashes ?st' p = Some d" "st_shadowHashesByInode ?st' key = Some d"
    unfolding run resolve_one_hash [OF res c] hash
    using assms(8) by (simp_all add: fields sent keeps st_closed_fs_close)
  then show ?thesis unfolding b Let_def by blast
qed

lemma not_faithful_single:
  assumes "\<not> detailsAgree entry ev"
  shows "\<not> Faithful (Verify [entry] [ev] cfg)"
proof -
  have "fst (find_best cfg entry [ev] [False] 0 (None, MaxInt64)) \<in> {None, Some 0}"
    by (simp add: Let_def)
  then show ?thesis using assms by (auto simp: Verify_def initial_verdict_def split: option.splits if_splits)
qed

text \<open>
  A file whose content the observer does not know is reported as empty: an open of a path without a digest,
  by itself or by its inode, carries the digest of the empty content as its input digest, and an agent
  that reports the content it really read is judged not faithful.
\<close>

lemma unknown_content_reported_empty:
  assumes "re_Mask e = FAN_OPEN" "\<not> filtered cfg e" "re_PID e \<noteq> fc_own_pid cfg"
    and "st_shadowHashes st (re_Path e) = None"
    and "case kv_inode k of None \<Rightarrow> True | Some key \<Rightarrow> st_shadowHashesByInode st key = None"
    and "te_InputHash entry = Some h" "h \<noteq> emptyFileHash"
  shows "\<exists>ev. st_sent (processRawEvent cfg ts (e, k) st) = st_sent st @ [ev] \<and>
    ev = fs_event ts FileOpen (re_Path e) (re_Ambiguous e) (Some emptyFileHash) None \<and>
    \<not> Faithful (Verify [entry] [ev] vcfg)"
proof -
  let ?ev = "fs_event ts FileOpen (re_Path e) (re_Ambiguous e) (Some emptyFileHash) None"
  have own: "\<not> own_open cfg e st" using assms(3) by (simp add: own_open_def)
  have "fst (lookupShadowHash cfg (re_Path e) (re_HandleData e) k (note_write FAN_OPEN (re_Path e) ts st)) = emptyFileHash"
    using assms(4,5) by (auto simp: lookupShadowHash_def split: option.splits)
  then have "st_sent (processRawEvent cfg ts (e, k) st) = st_sent st @ [?ev]"
    unfolding process_open [OF assms(1,2) own] Let_def by (simp add: lookupShadowHash_keeps)
  moreover have "\<not> detailsAgree entry ?ev"
    using assms(6,7) by (simp add: detailsAgree_def Let_def hashesAgree_def)
  ultimately show ?thesis using not_faithful_single by blast
qed

lemma failed_read:
  assumes "fd \<ge> 0" "fd' \<ge> 0" "p \<noteq> ''''" "opens_of p st = 0"
    and "re_Mask e = FAN_OPEN" "\<not> filtered cfg e" "re_PID e = fc_own_pid cfg" "re_Path e = p"
    and "he = \<lparr>he_now = t, he_link = p, he_hash = None, he_drained = [([(e, k)], t)], he_inode = i\<rparr>"
    and "he' = \<lparr>he_now = t', he_link = p, he_hash = Some d, he_drained = [([(e, k)], t')], he_inode = i\<rparr>"
    and "st1 = snd (hashSettledFD cfg p fd he st)" "st2 = snd (hashSettledFD cfg p fd' he' st1)"
  shows "fst (hashSettledFD cfg p fd' he' st) = Some d"
    and "fst (hashSettledFD cfg p fd' he' st1) = None"
    and "\<exists>h. st_sent st2 = st_sent st1 @ [fs_event t' FileOpen p (re_Ambiguous e) (Some h) None]"
proof -
  have dr: "drainNonBlocking cfg [([(e, k)], u)] s = processRawEvent cfg u (e, k) s" for u s
    by (simp add: drainNonBlocking_def)
  have own: "own_open cfg e s \<longleftrightarrow> opens_of p s > 0" for s
    using assms(5,7,8) by (simp add: own_open_def mask_open)
  have o1: "opens_of p (add_open p s) = opens_of p s + 1" "opens_of p (drop_open p s) = opens_of p s - 1" for s
    by (simp_all add: add_open_def drop_open_def opens_of_def Let_def)
  have p1: "processRawEvent cfg u (e, k) (add_open p s) = drop_open p (add_open p s)" if "opens_of p s = 0" for u s
    using process_own_open [OF assms(5,6), of "add_open p s"] own o1 that assms(8) by simp
  have st1: "st1 = drop_open p (drop_open p (add_open p st))"
    unfolding assms(11,9) hashSettledFD_def Let_def using assms(1,3) p1 [OF assms(4)] by (simp add: dr)
  have debt: "opens_of p (add_open p st1) = 0" unfolding st1 o1 using assms(4) by simp
  show "fst (hashSettledFD cfg p fd' he' st) = Some d"
    unfolding assms(10) hashSettledFD_def Let_def using assms(2,3) p1 [OF assms(4)] by (simp add: dr split: option.split)
  have no: "\<not> own_open cfg e (add_open p st1)" using own debt by simp
  note po = process_open [OF assms(5,6) no, of t' k, unfolded assms(8) Let_def]
  have gen: "generation p (processRawEvent cfg t' (e, k) (add_open p st1)) = generation p st1 + 1"
    unfolding po by (simp add: generation_note_write mask_open)
  have f: "fst (hashSettledFD cfg p fd' he' st1) = None \<and> st2 = processRawEvent cfg t' (e, k) (add_open p st1)"
    unfolding assms(12,10) hashSettledFD_def Let_def using assms(2,3) gen by (simp add: dr)
  then show "fst (hashSettledFD cfg p fd' he' st1) = None" ..
  have "st_sent st2 = st_sent st1 @ [fs_event t' FileOpen p (re_Ambiguous e) (Some (fst (lookupShadowHash cfg p
      (re_HandleData e) k (note_write FAN_OPEN p t' (add_open p st1))))) None]"
    unfolding conjunct2 [OF f] po by (simp add: lookupShadowHash_keeps)
  then show "\<exists>h. st_sent st2 = st_sent st1 @ [fs_event t' FileOpen p (re_Ambiguous e) (Some h) None]" ..
qed

text \<open>
  C39. A failed read spoils the next digest: when the observer could open a file to hash it but not read it, the
  open it caused is discounted twice. The next time the same file is hashed, the observer takes its own
  open for the agent's: it reports an open that the agent did not make, and reports the close without
  the digest it computed and would have reported otherwise.
\<close>

theorem failed_read_spoils_next_hash:
  assumes "fd \<ge> 0" "fd' \<ge> 0" "p \<noteq> ''''" "opens_of p st = 0"
    and "re_Mask e = FAN_OPEN" "\<not> filtered cfg e" "re_PID e = fc_own_pid cfg" "re_Path e = p"
    and "he = \<lparr>he_now = t, he_link = p, he_hash = None, he_drained = [([(e, k)], t)], he_inode = i\<rparr>"
    and "he' = \<lparr>he_now = t', he_link = p, he_hash = Some d, he_drained = [([(e, k)], t')], he_inode = i\<rparr>"
    and "st1 = snd (hashSettledFD cfg p fd he st)" "st2 = snd (hashSettledFD cfg p fd' he' st1)"
  shows "fst (hashSettledFD cfg p fd' he' st) = Some d \<and> fst (hashSettledFD cfg p fd' he' st1) = None \<and>
    (\<exists>h. st_sent st2 = st_sent st1 @ [fs_event t' FileOpen p (re_Ambiguous e) (Some h) None])"
  using failed_read [OF assms] by blast

section \<open>Reported events are valid\<close>

text \<open>With a path filter every event the observer reports has a target, an action and a time: it passes the
  validation of the ground truth, and so do the closes that wait.\<close>

definition reports_valid :: "fs_state \<Rightarrow> bool" where
  "reports_valid st \<longleftrightarrow> list_all (\<lambda>ev. Validate_event ev = None) (st_sent st) \<and>
     (\<forall>p c. st_pendingCloses st p = Some c \<longrightarrow> p \<noteq> '''' \<and> pc_ts c \<noteq> 0)"

lemma reports_valid_cong:
  "reports_valid st \<Longrightarrow> st_sent st' = st_sent st \<Longrightarrow> st_pendingCloses st' = st_pendingCloses st \<Longrightarrow> reports_valid st'"
  by (simp add: reports_valid_def)

lemma fs_actions_valid: "at \<in> {FileOpen, FileWrite, FileClose, FileRename, FileDelete} \<Longrightarrow> at \<in> set validActionTypes"
  by (auto simp: validActionTypes_def)

lemma mask_actions: "set (maskToActionTypes m) \<subseteq> {FileOpen, FileWrite, FileClose, FileRename, FileDelete}"
  by (auto simp: maskToActionTypes_def set_add_if split: if_splits)

lemma valid_fs_event:
  "ts \<noteq> 0 \<Longrightarrow> p \<noteq> '''' \<Longrightarrow> at \<in> {FileOpen, FileWrite, FileClose, FileRename, FileDelete} \<Longrightarrow>
   Validate_event (fs_event ts at p amb i h) = None"
  unfolding Validate_event_None using fs_actions_valid by simp

lemma registerClose_pending: "st_pendingCloses (registerClose cfg q t amb h k st) p = Some c \<Longrightarrow>
    (p = q \<and> pc_ts c = t) \<or> st_pendingCloses st p = Some c"
  by (auto simp: registerClose_def Let_def split: option.splits if_splits)

lemma dispatch_valid:
  assumes "reports_valid st" "ts \<noteq> 0" "re_Path e \<noteq> ''''" "at \<in> {FileOpen, FileWrite, FileClose, FileRename, FileDelete}"
  shows "reports_valid (dispatch cfg e k ts at st)"
proof (cases "at = FileClose")
  case True
  have "list_all (\<lambda>ev. Validate_event ev = None) (st_sent (registerClose cfg (re_Path e) ts (re_Ambiguous e) (re_HandleData e) k st))"
    using assms(1,3) unfolding registerClose_sent reports_valid_def
    by (auto simp: valid_fs_event split: option.split)
  then show ?thesis
    using assms(1-3) True registerClose_pending unfolding dispatch_def reports_valid_def by (simp, metis)
next
  case False
  then show ?thesis
    using assms valid_fs_event [OF assms(2-4)]
    by (auto simp: dispatch_def reports_valid_def split_beta lookupShadowHash_keeps)
qed

lemma fold_dispatch_valid:
  "reports_valid st \<Longrightarrow> ts \<noteq> 0 \<Longrightarrow> re_Path e \<noteq> '''' \<Longrightarrow>
   set ats \<subseteq> {FileOpen, FileWrite, FileClose, FileRename, FileDelete} \<Longrightarrow> reports_valid (fold (dispatch cfg e k ts) ats st)"
  by (induction ats arbitrary: st) (simp_all add: dispatch_valid)

lemma processRawEvent_valid:
  assumes "reports_valid st" "ts \<noteq> 0" "fc_PathFilter cfg \<noteq> ''''"
  shows "reports_valid (processRawEvent cfg ts (e, k) st)"
proof (cases "re_Mask e AND FAN_Q_OVERFLOW \<noteq> 0 \<or> filtered cfg e")
  case True
  then show ?thesis using assms(1) by (auto simp: processRawEvent_def Let_def reports_valid_def)
next
  case False
  then have p: "re_Path e \<noteq> ''''" using assms(3) by (auto simp: filtered_def)
  let ?s = "if own_open cfg e st then drop_open (re_Path e) st else st"
  have d: "reports_valid ?s" by (rule reports_valid_cong [OF assms(1)]) simp_all
  have "reports_valid (fold (dispatch cfg e k ts) (maskToActionTypes m) (note_write m (re_Path e) ts ?s))" for m
    by (rule fold_dispatch_valid [OF reports_valid_cong [OF d] assms(2) p mask_actions]) simp_all
  with d False show ?thesis unfolding processRawEvent_def Let_def fst_conv snd_conv by (simp only: if_False simp_thms split: if_split) simp
qed

lemma drain_valid:
  "reports_valid st \<Longrightarrow> list_all (\<lambda>(evs, now). now \<noteq> 0) bs \<Longrightarrow> fc_PathFilter cfg \<noteq> '''' \<Longrightarrow>
   reports_valid (drainNonBlocking cfg bs st)"
proof (induction bs arbitrary: st)
  case (Cons b bs)
  obtain evs now where b: "b = (evs, now)" by (cases b)
  have "reports_valid (fold (processRawEvent cfg now) evs st)"
    using Cons.prems(1) by (rule fold_invariant [where Q = "\<lambda>_. True", rotated]) (use Cons.prems b processRawEvent_valid in auto)
  then show ?case using Cons.IH Cons.prems(2,3) by (simp add: drainNonBlocking_def b)
qed (simp add: drainNonBlocking_def)

text \<open>The times a run reads the clock at; the zero time is in the year 1.\<close>

definition drained_times_ok :: "string \<times> hash_env \<Rightarrow> bool" where
  "drained_times_ok v = list_all (\<lambda>(evs, now). now \<noteq> 0) (he_drained (snd v))"

definition wakeup_times_ok :: "wakeup \<Rightarrow> bool" where
  "wakeup_times_ok w =
     (case w of
        Interrupted \<Rightarrow> True
      | Poll_Failed visits \<Rightarrow> list_all drained_times_ok visits
      | Stop_Signal visits \<Rightarrow> list_all drained_times_ok visits
      | Woken batches visits \<Rightarrow> list_all (\<lambda>(evs, now). now \<noteq> 0) batches \<and> list_all drained_times_ok visits)"

lemma wakeup_times_Woken:
  "wakeup_times_ok (Woken batches visits) \<longleftrightarrow>
     list_all (\<lambda>(evs, now). now \<noteq> 0) batches \<and> list_all drained_times_ok visits"
  by (simp add: wakeup_times_ok_def)

lemma resolve_one_valid:
  assumes "reports_valid st" "drained_times_ok v" "fc_PathFilter cfg \<noteq> ''''" "pending_ok before st"
  shows "reports_valid (resolve_one cfg force before v st)"
proof (cases "resolves cfg force before v st")
  case True
  obtain path he where v: "v = (path, he)" by (cases v)
  then obtain c where b: "before path = Some c" and c: "st_pendingCloses st path = Some c"
    using True assms(4) by (auto simp: resolves_def settled_def pending_ok_def split: option.splits)
  let ?st = "st\<lparr>st_pendingCloses := (st_pendingCloses st)(path := None)\<rparr>"
  let ?s = "if pc_pathFD c \<ge> 0 then add_open (if he_link he = '''' then path else he_link he) ?st else ?st"
  let ?h = "hashSettledFD cfg path (pc_pathFD c) he ?st"
  have pc: "path \<noteq> ''''" "pc_ts c \<noteq> 0" using assms(1) c by (auto simp: reports_valid_def)
  have "reports_valid ?st" using assms(1) by (auto simp: reports_valid_def)
  then have "reports_valid ?s" by (rule reports_valid_cong) simp_all
  then have "reports_valid (drainNonBlocking cfg (he_drained he) ?s)"
    using assms(2,3) by (intro drain_valid) (simp_all add: drained_times_ok_def v)
  then have "reports_valid (snd ?h)"
    by (rule reports_valid_cong) (use hashSettledFD_state [of cfg path "pc_pathFD c" he ?st] in auto)
  moreover have "Validate_event (fs_event (pc_ts c) FileClose path (pc_ambiguous c) None (fst ?h)) = None"
    using pc by (intro valid_fs_event) simp_all
  ultimately show ?thesis unfolding v resolve_one_hash [OF True [unfolded v] b] reports_valid_def by auto
next
  case False
  then show ?thesis using assms(1) by (simp add: resolve_one_skip)
qed

lemma resolveSettled_valid:
  assumes "reports_valid st" "list_all drained_times_ok visits" "fc_PathFilter cfg \<noteq> ''''" "pending_ok before st"
  shows "reports_valid (resolveSettled cfg force before visits st)"
  using assms(1,2,4) unfolding resolveSettled_def
proof (induction visits arbitrary: st)
  case (Cons v vs)
  have "pending_ok before (resolve_one cfg force before v st)"
    using keeps_fdsD [OF resolve_one_fds [of 0 before cfg force v] Cons.prems(3)] by simp
  then show ?case using Cons resolve_one_valid [OF Cons.prems(1) _ assms(3) Cons.prems(3), of v] by simp
qed simp

lemma readLoop_valid:
  assumes "reports_valid st" "list_all wakeup_times_ok ws" "fc_PathFilter cfg \<noteq> ''''" "pending_ok (settleSnapshot st) st"
  shows "reports_valid (fs_readLoop cfg ws st)"
  using assms
proof (induction cfg ws st rule: fs_readLoop.induct)
  case (5 cfg batches visits ws st)
  let ?d = "drainNonBlocking cfg batches st"
  let ?r = "resolveSettled cfg False (settleSnapshot st) visits ?d"
  have t: "list_all (\<lambda>(evs, now). now \<noteq> 0) batches" "list_all drained_times_ok visits" "list_all wakeup_times_ok ws"
    using "5.prems"(2) by (simp_all add: wakeup_times_Woken)
  have d: "pending_ok (settleSnapshot st) ?d" using keeps_fdsD [OF drain_fds [of 0] "5.prems"(4)] by simp
  have "reports_valid ?d" by (rule drain_valid [OF "5.prems"(1) t(1) "5.prems"(3)])
  then have "reports_valid ?r" using t(2) "5.prems"(3) d by (rule resolveSettled_valid)
  moreover have "pending_ok (settleSnapshot ?r) ?r"
    by (rule pending_ok_snapshot [OF conjunct2 [OF keeps_fdsD [OF resolveSettled_fds [of 0] d]]]) simp
  ultimately show ?case using "5.IH" t(3) "5.prems"(3) by simp
qed (auto simp: flushPendingCloses_def wakeup_times_ok_def intro!: resolveSettled_valid)

text \<open>The observer is a probe, from the walk of \<open>Start\<close> over the wakeups of its reader, whose clock never reads
  the zero time.\<close>

type_synonym walked_files = "(string \<times> bool \<times> string option \<times> inodeKey option) list"

definition started :: "fs_config \<Rightarrow> walked_files \<Rightarrow> fs_state" where
  "started cfg files = Start_walk cfg files fs_new"

lemma Start_walk_keeps [simp]:
  "st_sent (Start_walk cfg files st) = st_sent st" "st_pendingCloses (Start_walk cfg files st) = st_pendingCloses st"
  "st_next (Start_walk cfg files st) = st_next st" "st_opened (Start_walk cfg files st) = st_opened st"
  "st_closed (Start_walk cfg files st) = st_closed st"
proof -
  let ?f = "\<lambda>(path, regular, digest, inode) st.
        if \<not> regular then st
        else case digest of
          None \<Rightarrow> st
        | Some h \<Rightarrow>
            let st1 = st\<lparr>st_shadowHashes := (st_shadowHashes st)(path \<mapsto> h)\<rparr>
            in case inode of
              None \<Rightarrow> st1
            | Some key \<Rightarrow> st1\<lparr>st_shadowHashesByInode := (st_shadowHashesByInode st1)(key \<mapsto> h)\<rparr>"
  have "st_sent (fold ?f files st) = st_sent st \<and> st_pendingCloses (fold ?f files st) = st_pendingCloses st \<and>
      st_next (fold ?f files st) = st_next st \<and> st_opened (fold ?f files st) = st_opened st \<and>
      st_closed (fold ?f files st) = st_closed st"
    by (induction files arbitrary: st) (auto simp: Let_def split: option.split)
  then show "st_sent (Start_walk cfg files st) = st_sent st" "st_pendingCloses (Start_walk cfg files st) = st_pendingCloses st"
    "st_next (Start_walk cfg files st) = st_next st" "st_opened (Start_walk cfg files st) = st_opened st"
    "st_closed (Start_walk cfg files st) = st_closed st"
    by (simp_all add: Start_walk_def)
qed

definition fs_runs :: "fs_config \<times> walked_files \<times> wakeup list \<Rightarrow> bool" where
  "fs_runs r \<longleftrightarrow> fc_PathFilter (fst r) \<noteq> '''' \<and> list_all wakeup_times_ok (snd (snd r))"

definition fs_delivers :: "fs_config \<times> walked_files \<times> wakeup list \<Rightarrow> GroundTruth" where
  "fs_delivers r = st_sent (fs_readLoop (fst r) (snd (snd r)) (started (fst r) (fst (snd r))))"

interpretation fs_probe: ground_truth_probe fs_runs fs_delivers
proof unfold_locales
  fix r assume r: "fs_runs r"
  have "reports_valid (started (fst r) files)" "pending_ok (settleSnapshot (started (fst r) files)) (started (fst r) files)" for files
    by (simp_all add: reports_valid_def pending_ok_def settleSnapshot_def started_def fs_new_def)
  from readLoop_valid [OF this(1) _ _ this(2)] show "list_all (\<lambda>ev. Validate_event ev = None) (fs_delivers r)"
    using r by (simp add: fs_runs_def fs_delivers_def reports_valid_def)
qed

section \<open>Witnesses\<close>

definition ex_cfg :: fs_config where
  "ex_cfg = \<lparr>fc_PathFilter = ''/w'', fc_PIDFilter = 0, fc_own_pid = 7, fc_mountFD = 3, fc_settleDelay = settleQuietWindow\<rparr>"

definition ex_event :: "u64 \<Rightarrow> s32 \<Rightarrow> string \<Rightarrow> rawEvent" where
  "ex_event m pid path = \<lparr>re_Mask = m, re_PID = pid, re_Path = path, re_Ambiguous = False, re_HandleType = 1,
     re_HandleData = Some [1]\<rparr>"

lemma ex_event_simps [simp]:
  "re_Mask (ex_event m pid path) = m" "re_PID (ex_event m pid path) = pid" "re_Path (ex_event m pid path) = path"
  "re_Ambiguous (ex_event m pid path) = False" "re_HandleData (ex_event m pid path) = Some [1]"
  by (simp_all add: ex_event_def)

definition ex_key :: inodeKey where "ex_key = \<lparr>ik_dev = 1, ik_ino = 99\<rparr>"

definition ex_view :: "int \<Rightarrow> kernel_view" where
  "ex_view fd = \<lparr>kv_inode = Some ex_key, kv_handle_fd = fd, kv_path_fd = -1\<rparr>"

text \<open>Two closes of one path in quick succession; at the stop the second is hashed.\<close>

definition ex_wakeups :: "wakeup list" where
  "ex_wakeups = [Woken [([(ex_event 0xa 42 ''/w/f'', ex_view 10), (ex_event 0xa 42 ''/w/f'', ex_view 11)], 5)] []]"

definition ex_visits :: "(string \<times> hash_env) list" where
  "ex_visits = [(''/w/f'', \<lparr>he_now = 6, he_link = ''/w/f'', he_hash = Some ''sha256:1'', he_drained = [], he_inode = Some ex_key\<rparr>)]"

lemma ex_process: "processRawEvent ex_cfg 5 (ex_event 0xa 42 ''/w/f'', ex_view fd) st =
    fold (dispatch ex_cfg (ex_event 0xa 42 ''/w/f'') (ex_view fd) 5) [FileWrite, FileClose] (note_write 0xa ''/w/f'' 5 st)"
proof -
  have m: "maskToActionTypes 0xa = [FileWrite, FileClose]" "(0xa :: u64) AND FAN_Q_OVERFLOW = 0" by code_simp+
  have n: "\<not> filtered ex_cfg (ex_event 0xa 42 ''/w/f'')" by code_simp
  have o: "\<not> own_open ex_cfg (ex_event 0xa 42 ''/w/f'') st" by (simp add: own_open_def ex_cfg_def ex_event_def)
  show ?thesis unfolding processRawEvent_def Let_def fst_conv snd_conv using n o m by (simp add: ex_event_def)
qed

lemma registerClose_dom: "dom (st_pendingCloses (registerClose cfg p ts amb h k st)) = insert p (dom (st_pendingCloses st))"
  by (simp add: registerClose_def Let_def split: option.split)

lemma ex_process_dom:
  "dom (st_pendingCloses (processRawEvent ex_cfg 5 (ex_event 0xa 42 ''/w/f'', ex_view fd) st)) =
    insert ''/w/f'' (dom (st_pendingCloses st))"
  unfolding ex_process by (simp add: dispatch_def registerClose_dom)

theorem every_close_reported_once_witness:
  "closes_sent ''/w/f'' (fs_readLoop ex_cfg (ex_wakeups @ [Stop_Signal ex_visits]) fs_new) = 2"
proof -
  let ?s = "fs_readLoop ex_cfg ex_wakeups fs_new"
  have "dom (st_pendingCloses ?s) \<subseteq> {''/w/f''} \<union> dom (st_pendingCloses fs_new)"
    unfolding ex_wakeups_def by (simp add: resolveSettled_def drainNonBlocking_def ex_process_dom)
  then have d: "dom (st_pendingCloses ?s) \<subseteq> set (map fst ex_visits)"
    by (simp add: ex_visits_def fs_new_def)
  have c: "closes_path ex_cfg ''/w/f'' (ex_event 0xa 42 ''/w/f'')" by code_simp
  have a: "run_arrivals ex_cfg ex_wakeups fs_new = [ex_event 0xa 42 ''/w/f'', ex_event 0xa 42 ''/w/f'']"
    by (simp add: ex_wakeups_def arrivals_def)
  have "list_all keeps_running ex_wakeups" by (simp add: ex_wakeups_def keeps_running_def)
  moreover have "\<forall>v\<in>set ex_visits. he_drained (snd v) = []" by (simp add: ex_visits_def)
  moreover have "st_sent fs_new = []" "st_pendingCloses fs_new = Map.empty" "st_opened fs_new = []" "st_closed fs_new = []"
    by (simp_all add: fs_new_def)
  ultimately show ?thesis
    using every_close_reported_once [of fs_new ex_wakeups ex_cfg ex_visits "''/w/f''"] d a c
    by (simp add: count_closes_def)
qed

definition ex_pending :: pendingClose where
  "ex_pending = \<lparr>pc_id = 0, pc_ts = 5, pc_ambiguous = False, pc_pathFD = 11\<rparr>"

definition ex_waiting :: fs_state where
  "ex_waiting = fs_new\<lparr>st_pendingCloses := [''/w/f'' \<mapsto> ex_pending], st_next := 1\<rparr>"

definition ex_hash :: "string option \<Rightarrow> batch list \<Rightarrow> hash_env" where
  "ex_hash h bs = \<lparr>he_now = 30000000, he_link = ''/w/f'', he_hash = h, he_drained = bs, he_inode = Some ex_key\<rparr>"


theorem shadow_hash_survives_rename_witness:
  "st_sent (processRawEvent ex_cfg 9 (ex_event FAN_OPEN 42 ''/w/g'', ex_view 12)
      (snd (hashSettledFD ex_cfg ''/w/f'' 11 (ex_hash (Some ''sha256:1'') []) fs_new))) =
    [fs_event 9 FileOpen ''/w/g'' False (Some ''sha256:1'') None]"
proof -
  let ?h = "hashSettledFD ex_cfg ''/w/f'' 11 (ex_hash (Some ''sha256:1'') []) fs_new"
  have h: "fst ?h = Some ''sha256:1''" "st_shadowHashes (snd ?h) ''/w/g'' = None" "st_sent (snd ?h) = []"
    by (simp_all add: hashSettledFD_def Let_def ex_hash_def fs_new_def generation_def add_open_def)
  have f: "\<not> filtered ex_cfg (ex_event FAN_OPEN 42 ''/w/g'')" by code_simp
  show ?thesis
    using shadow_hash_survives_rename [OF h(1) _ _ _ f, of ex_key "ex_view 12" 9] h(2,3)
    by (simp add: ex_hash_def ex_event_def ex_cfg_def ex_view_def)
qed

lemma unknown_content_reported_empty_witness:
  "\<exists>ev. st_sent (processRawEvent ex_cfg 9 (ex_event FAN_OPEN 42 ''/w/old'', ex_view 12) fs_new) = [ev] \<and>
     \<not> Faithful (Verify [\<lparr>te_Timestamp = 9, te_ActionType = FileOpen, te_Target = ''/w/old'',
       te_InputHash = Some ''sha256:1'', te_OutputHash = None, te_ExitCode = None, te_RequestHash = None\<rparr>] [ev] DefaultConfig)"
proof -
  have f: "\<not> filtered ex_cfg (ex_event FAN_OPEN 42 ''/w/old'')" by code_simp
  let ?t = "\<lparr>te_Timestamp = 9, te_ActionType = FileOpen, te_Target = ''/w/old'', te_InputHash = Some ''sha256:1'',
      te_OutputHash = None, te_ExitCode = None, te_RequestHash = None\<rparr>"
  show ?thesis
    using unknown_content_reported_empty [OF _ f, of fs_new "ex_view 12" ?t "''sha256:1''" 9 DefaultConfig]
    by (auto simp: ex_event_def ex_cfg_def fs_new_def ex_view_def emptyFileHash_def)
qed

theorem failed_read_spoils_next_hash_witness:
  "fst (hashSettledFD ex_cfg ''/w/f'' 11 (ex_hash (Some ''sha256:1'') [([(ex_event FAN_OPEN 7 ''/w/f'', ex_view 12)], 30000000)])
     (snd (hashSettledFD ex_cfg ''/w/f'' 10 (ex_hash None [([(ex_event FAN_OPEN 7 ''/w/f'', ex_view 12)], 30000000)]) fs_new))) = None"
proof -
  have f: "\<not> filtered ex_cfg (ex_event FAN_OPEN 7 ''/w/f'')" by code_simp
  show ?thesis
    using failed_read_spoils_next_hash [OF _ _ _ _ _ f _ _ refl refl refl refl, of 10 11 "''/w/f''" fs_new]
    by (simp add: ex_hash_def ex_event_def ex_cfg_def opens_of_def fs_new_def)
qed


definition ex_written :: fan_event where
  "ex_written = ex_fan\<lparr>fe_mask := FAN_MODIFY OR FAN_CLOSE_WRITE\<rparr>"

lemma ex_written_event: "event_of ex_resolve ex_written =
    \<lparr>re_Mask = 0xa, re_PID = 42, re_Path = ''/w/f'', re_Ambiguous = False, re_HandleType = 1, re_HandleData = Some [7, 8]\<rparr>"
  by code_simp

theorem observed_written_file_witness:
  "\<exists>b. read_batch ex_resolve (event_bytes ex_written) [ex_view 10] 5 = Some b \<and>
    st_sent (fs_readLoop ex_cfg [Woken [b] [], Woken [] [(''/w/f'',
        ex_hash (Some ''sha256:1'') [([(ex_event FAN_OPEN 7 ''/w/f'', ex_view 12)], 30000000)])]] fs_new) =
      [fs_event 5 FileWrite ''/w/f'' False None None, fs_event 5 FileClose ''/w/f'' False None (Some ''sha256:1'')]"
proof -
  have ok: "event_ok ex_written" using ex_fan_ok by (simp add: ex_written_def event_ok_def)
  have f: "\<not> filtered ex_cfg (event_of ex_resolve ex_written)" unfolding ex_written_event by code_simp
  have o: "\<not> filtered ex_cfg (ex_event FAN_OPEN 7 ''/w/f'')" by code_simp
  have q: "sint (fc_settleDelay ex_cfg) \<le> sint (time_Sub (he_now (ex_hash (Some ''sha256:1'')
      [([(ex_event FAN_OPEN 7 ''/w/f'', ex_view 12)], 30000000)])) 5)"
    by (simp add: ex_hash_def sint_time_Sub ex_cfg_def settleQuietWindow_def MinDuration_def MaxDuration_def)
  let ?he = "ex_hash (Some ''sha256:1'') [([(ex_event FAN_OPEN 7 ''/w/f'', ex_view 12)], 30000000)]"
  have i: "in_type (last (fe_infos ex_written)) = fanEventInfoTypeFid" "last (fe_infos ex_written) \<in> set (fe_infos ex_written)"
    by (simp_all add: ex_written_def ex_fan_def fanEventInfoTypeFid_def)
  have m: "fe_mask ex_written = FAN_MODIFY OR FAN_CLOSE_WRITE" by (simp add: ex_written_def)
  have p: "''/w/f'' = re_Path (event_of ex_resolve ex_written)" by (simp add: ex_written_event)
  have k: "0 \<le> kv_handle_fd (ex_view 10)" "st_pendingCloses fs_new ''/w/f'' = None" "opens_of ''/w/f'' fs_new = 0"
    by (simp_all add: ex_view_def fs_new_def opens_of_def)
  have own: "re_Mask (ex_event FAN_OPEN 7 ''/w/f'') = FAN_OPEN" "re_Path (ex_event FAN_OPEN 7 ''/w/f'') = ''/w/f''"
    "re_PID (ex_event FAN_OPEN 7 ''/w/f'') = fc_own_pid ex_cfg" by (simp_all add: ex_cfg_def)
  have he: "he_link ?he = ''/w/f''" "he_hash ?he = Some ''sha256:1''"
    "he_drained ?he = [([(ex_event FAN_OPEN 7 ''/w/f'', ex_view 12)], 30000000)]" "he_inode ?he = Some ex_key"
    by (simp_all add: ex_hash_def)
  have v: "kv_handle_fd (ex_view 10) = 10" "re_Ambiguous (event_of ex_resolve ex_written) = False"
    by (simp_all add: ex_view_def ex_written_event)
  show ?thesis
    using observed_written_file [OF ok m i refl p f k own o he q] unfolding Let_def v
    by (auto simp: fs_new_def simp del: fs_readLoop.simps)
qed

end
