(* ===== verification/Probe_Life.thy ===== *)
theory Probe_Life
  imports Prelude
begin

text \<open>
  What the life cycles of the three observers share: the resources a constructor acquires and gives back, and
  the contract under which a shutdown ends. A constructor is a sequence of calls into libraries any of which
  may fail; what it opened and closed is a trace.
\<close>

named_theorems life_simps \<open>resources held after a trace, constructors of observers\<close>

section \<open>Resources\<close>

datatype 'h life = Opens 'h | Closes 'h

fun still_open :: "'h list \<Rightarrow> 'h life list \<Rightarrow> 'h list" where
  "still_open hs [] = hs"
| "still_open hs (Opens h # tr) = still_open (hs @ [h]) tr"
| "still_open hs (Closes h # tr) = still_open (remove1 h hs) tr"

lemma still_open_append [life_simps]: "still_open hs (tr @ tr') = still_open (still_open hs tr) tr'"
  by (induction hs tr rule: still_open.induct) simp_all

lemma still_open_closes: "still_open hs (map Closes ks) = fold remove1 ks hs"
  by (induction ks arbitrary: hs) simp_all

text \<open>
  One call of a constructor: when it fails, what was opened so far is closed as the code lists it and the
  error is returned with its message; otherwise what the call opens is held.
\<close>

definition attempt ::
  "('c \<Rightarrow> string option) \<Rightarrow> 'c \<Rightarrow> string \<Rightarrow> 'h list \<Rightarrow> 'h list \<Rightarrow>
    ('h life list \<Rightarrow> (string + 'o) \<times> 'h life list) \<Rightarrow> 'h life list \<Rightarrow> (string + 'o) \<times> 'h life list" where
  "attempt env call msg cleanup opened next tr =
     (case env call of
        Some err \<Rightarrow> (Inl (msg @ err), tr @ map Closes cleanup)
      | None \<Rightarrow> next (tr @ map Opens opened))"

lemma attempt_simps [life_simps]:
  "env call = None \<Longrightarrow> attempt env call msg cleanup opened next tr = next (tr @ map Opens opened)"
  "env call = Some err \<Longrightarrow> attempt env call msg cleanup opened next tr = (Inl (msg @ err), tr @ map Closes cleanup)"
  by (simp_all add: attempt_def)

section \<open>Clocks\<close>

text \<open>
  \<open>computeBootOffsetNs\<close>, the same in both eBPF observers: the difference of a reading of the wall clock and
  one of the monotonic clock, which the call may fail to give.
\<close>

definition computeBootOffsetNs :: "string + s64 \<Rightarrow> s64 \<Rightarrow> string + s64" where
  "computeBootOffsetNs monotonic wallNs =
     (case monotonic of
        Inl err \<Rightarrow> Inl (''clock_gettime CLOCK_MONOTONIC: '' @ err)
      | Inr monoNs \<Rightarrow> Inr (wallNs - monoNs))"

section \<open>Shutdown\<close>

text \<open>
  A shutdown that ends: steps that each go down in a well-founded order, and one that is possible until it
  is over. Then no schedule goes on for ever, and wherever one cannot go on, the shutdown is over.
\<close>

locale shutdown =
  fixes inv :: "'s \<Rightarrow> bool" and step :: "'s \<Rightarrow> 's \<Rightarrow> bool" and over :: "'s \<Rightarrow> bool" and below :: "('s \<times> 's) set"
  assumes keeps: "inv s \<Longrightarrow> step s t \<Longrightarrow> inv t"
    and lowers: "inv s \<Longrightarrow> step s t \<Longrightarrow> (t, s) \<in> below"
    and goes_on: "inv s \<Longrightarrow> \<not> over s \<Longrightarrow> \<exists>t. step s t"
    and well_founded: "wf below"
begin

lemma keeps_steps: "step\<^sup>*\<^sup>* s t \<Longrightarrow> inv s \<Longrightarrow> inv t"
  by (induction rule: rtranclp_induct) (auto intro: keeps)

lemma over_when_stuck: "step\<^sup>*\<^sup>* s t \<Longrightarrow> inv s \<Longrightarrow> \<nexists>u. step t u \<Longrightarrow> over t"
  using keeps_steps goes_on by blast

lemma no_endless_run:
  assumes "inv (run 0)"
  shows "\<exists>i. \<not> step (run i) (run (Suc i))"
proof (rule ccontr)
  assume "\<nexists>i. \<not> step (run i) (run (Suc i))"
  then have s: "step (run i) (run (Suc i))" for i by blast
  have "inv (run i)" for i by (induction i) (use assms keeps s in auto)
  then have "(run (Suc i), run i) \<in> below" for i using lowers s by blast
  with well_founded show False unfolding wf_iff_no_infinite_down_chain by blast
qed

lemma can_end: "inv s \<Longrightarrow> \<exists>t. step\<^sup>*\<^sup>* s t \<and> over t"
proof (induction s rule: wf_induct_rule [OF well_founded])
  case (1 s)
  show ?case
  proof (cases "over s")
    case False
    then obtain t where t: "step s t" using goes_on 1(2) by blast
    obtain u where "step\<^sup>*\<^sup>* t u" "over u"
      using 1(1) [OF lowers [OF 1(2) t] keeps [OF 1(2) t]] by blast
    with t show ?thesis by (meson converse_rtranclp_into_rtranclp)
  qed blast
qed

end

end
