(* ===== verification/Proc_Life.thy ===== *)
theory Proc_Life
  imports Proc_Observer Probe_Life
begin

text \<open>
  The life of the process observer, \<open>pkg/probe/proc/observer.go\<close>: what \<open>New\<close> acquires, and gives back when one of
  its calls fails, and the goroutines between \<open>Start\<close> and the end of \<open>Stop\<close>. The functions of the eBPF
  library are calls that succeed or fail; a read of the ring buffer gives the next record until the
  reader is closed, and an error from then on.
\<close>

section \<open>New\<close>

datatype proc_handle = Proc_Objs | Fork_Link | Exec_Link | Exit_Group_Link | Exit_Link | Proc_Reader

datatype proc_call = Remove_Memlock | Load_Bpf_Objects | Update_config_map | Update_root_pid_map | Update_tracked_pids
  | Attach_task_newtask | Attach_sys_enter_execve | Attach_sys_enter_exit_group | Attach_sched_process_exit
  | New_Reader

record proc_config = Config_proc +
  EventBufSize :: s64

record proc_observer =
  po_cfg :: Config_proc
  po_maps :: proc_state
  po_bootOffsetNs :: s64
  po_buffer :: s64

text \<open>The three parts of \<open>New\<close>: seeding the maps, attaching the programs, and what comes before both.\<close>

definition seed_maps ::
  "(proc_call \<Rightarrow> string option) \<Rightarrow> Config_proc \<Rightarrow>
    (proc_handle life list \<Rightarrow> (string + 'o) \<times> proc_handle life list) \<Rightarrow> proc_handle life list \<Rightarrow>
    (string + 'o) \<times> proc_handle life list" where
  "seed_maps env cfg next =
     (let root = (if 0 <s PIDFilter cfg then
            attempt env Update_root_pid_map ''update root_pid_map: '' [Proc_Objs] []
              (attempt env Update_tracked_pids ''update tracked_pids: '' [Proc_Objs] [] next)
          else next)
      in if 0 <s PIDFilter cfg \<or> DeferRootPID cfg then
           attempt env Update_config_map ''update config_map: '' [Proc_Objs] [] root
         else root)"

definition attach_programs ::
  "(proc_call \<Rightarrow> string option) \<Rightarrow> (proc_handle life list \<Rightarrow> (string + 'o) \<times> proc_handle life list) \<Rightarrow>
    proc_handle life list \<Rightarrow> (string + 'o) \<times> proc_handle life list" where
  "attach_programs env next =
     attempt env Attach_task_newtask ''attach task_newtask: '' [Proc_Objs] [Fork_Link]
    (attempt env Attach_sys_enter_execve ''attach sys_enter_execve: '' [Proc_Objs] [Exec_Link]
    (attempt env Attach_sys_enter_exit_group ''attach sys_enter_exit_group: '' [Exec_Link, Proc_Objs] [Exit_Group_Link]
    (attempt env Attach_sched_process_exit ''attach sched_process_exit: '' [Exit_Group_Link, Exec_Link, Proc_Objs] [Exit_Link]
    (attempt env New_Reader ''open ring buffer: '' [Exit_Link, Exit_Group_Link, Exec_Link, Proc_Objs] [Proc_Reader] next))))"

definition New_proc ::
  "(proc_call \<Rightarrow> string option) \<Rightarrow> string + s64 \<Rightarrow> s64 \<Rightarrow> proc_config \<Rightarrow>
    (string + proc_observer) \<times> proc_handle life list" where
  "New_proc env monotonic wallNs cfg =
     (let c = Config_proc.truncate cfg;
          buffer = (if EventBufSize cfg \<le>s 0 then 4096 else EventBufSize cfg)
      in attempt env Remove_Memlock ''remove memlock rlimit: '' [] []
        (\<lambda>tr. case computeBootOffsetNs monotonic wallNs of
            Inl err \<Rightarrow> (Inl (''compute boot offset: '' @ err), tr)
          | Inr boot \<Rightarrow>
              attempt env Load_Bpf_Objects ''load eBPF objects: '' [] [Proc_Objs]
                (seed_maps env c (attach_programs env
                  (\<lambda>tr. (Inr \<lparr>po_cfg = c, po_maps = New_maps c, po_bootOffsetNs = boot, po_buffer = buffer\<rparr>, tr)))) tr)
        [])"

text \<open>\<open>SetRootPID\<close> on a running observer: the updates made before one fails stay.\<close>

definition SetRootPID_call :: "(proc_call \<Rightarrow> string option) \<Rightarrow> s32 \<Rightarrow> proc_observer \<Rightarrow> proc_observer \<times> string option" where
  "SetRootPID_call env pid o1 =
     (case env Update_config_map of
        Some err \<Rightarrow> (o1, Some (''update config_map: '' @ err))
      | None \<Rightarrow>
          let s1 = (po_maps o1)\<lparr>config_map := (config_map (po_maps o1))[0 := 1]\<rparr>
          in case env Update_root_pid_map of
            Some err \<Rightarrow> (o1\<lparr>po_maps := s1\<rparr>, Some (''update root_pid_map: '' @ err))
          | None \<Rightarrow>
              case env Update_tracked_pids of
                Some err \<Rightarrow>
                  (o1\<lparr>po_maps := s1\<lparr>root_pid_map := (root_pid_map s1)[0 := pid]\<rparr>\<rparr>, Some (''update tracked_pids: '' @ err))
              | None \<Rightarrow>
                  (o1\<lparr>po_cfg := (po_cfg o1)\<lparr>PIDFilter := pid, CommandFilter := ''''\<rparr>, po_maps := seed_root pid s1\<rparr>, None))"

lemma SetRootPID_call_ok:
  "SetRootPID_call (\<lambda>_. None) pid o1 =
    (o1\<lparr>po_cfg := fst (SetRootPID pid (po_cfg o1, po_maps o1)), po_maps := snd (SetRootPID pid (po_cfg o1, po_maps o1))\<rparr>, None)"
  by (simp add: SetRootPID_call_def SetRootPID_def Let_def)

lemma SetRootPID_call_error:
  assumes "SetRootPID_call env pid o1 = (o2, Some err)"
  shows "po_cfg o2 = po_cfg o1 \<and> tracked_pids (po_maps o2) = tracked_pids (po_maps o1) \<and> events (po_maps o2) = events (po_maps o1)"
  using assms by (auto simp: SetRootPID_call_def Let_def split: option.splits)

section \<open>The goroutines\<close>

text \<open>
  \<open>readLoop\<close> waits for a record or is about to send an event; \<open>Stop\<close> waits for it, closes the links one
  by one, or is over. The events channel holds what the consumer has not received; \<open>pr_read\<close> notes, for
  each record read, whether the channel had room, and \<open>pr_arrived\<close> every record the kernel has sent.
\<close>

datatype loop_pc = Unstarted | Reading | Sending bytes GroundTruthEvent | Exited

datatype stop_pc = Uncalled | Waiting_Loop | Releasing "proc_handle list" | Stop_Returned

record proc_run =
  pr_ring :: "bytes list"
  pr_loop :: loop_pc
  pr_chan :: "GroundTruthEvent list"
  pr_chan_closed :: bool
  pr_received :: "GroundTruthEvent list"
  pr_dropped :: u64
  pr_stopped :: bool
  pr_stop :: stop_pc
  pr_life :: "proc_handle life list"
  pr_panicked :: bool
  pr_read :: "(bytes \<times> bool) list"
  pr_arrived :: "bytes list"

definition run_init :: "proc_handle life list \<Rightarrow> proc_run" where
  "run_init tr = \<lparr>pr_ring = [], pr_loop = Unstarted, pr_chan = [], pr_chan_closed = False, pr_received = [],
     pr_dropped = 0, pr_stopped = False, pr_stop = Uncalled, pr_life = tr, pr_panicked = False, pr_read = [],
     pr_arrived = []\<rparr>"

definition stop_links :: "proc_handle list" where
  "stop_links = [Exit_Link, Exit_Group_Link, Fork_Link, Exec_Link, Proc_Objs]"

text \<open>Closing a channel twice panics, as a send on a closed one does.\<close>

definition close_events :: "proc_run \<Rightarrow> proc_run" where
  "close_events s = (if pr_chan_closed s then s\<lparr>pr_panicked := True\<rparr> else s\<lparr>pr_chan_closed := True\<rparr>)"

definition send_event :: "nat \<Rightarrow> bytes \<Rightarrow> GroundTruthEvent \<Rightarrow> proc_run \<Rightarrow> proc_run" where
  "send_event cap raw ev s =
     (if pr_chan_closed s then s\<lparr>pr_panicked := True, pr_loop := Exited\<rparr>
      else if length (pr_chan s) < cap then
        s\<lparr>pr_chan := pr_chan s @ [ev], pr_loop := Reading, pr_read := pr_read s @ [(raw, True)]\<rparr>
      else s\<lparr>pr_dropped := pr_dropped s + 1, pr_loop := Reading, pr_read := pr_read s @ [(raw, False)]\<rparr>)"

text \<open>The steps of the goroutines: the read loop, \<open>Stop\<close> and the consumer of the channel.\<close>

inductive po_step :: "proc_observer \<Rightarrow> proc_run \<Rightarrow> proc_run \<Rightarrow> bool" for o1 where
  skips: "pr_loop s = Reading \<Longrightarrow> pr_stop s = Uncalled \<Longrightarrow> pr_ring s = raw # rest \<Longrightarrow>
    read_record (po_cfg o1) (po_bootOffsetNs o1) raw = None \<Longrightarrow>
    po_step o1 s (s\<lparr>pr_ring := rest, pr_read := pr_read s @ [(raw, True)]\<rparr>)"
| reads: "pr_loop s = Reading \<Longrightarrow> pr_stop s = Uncalled \<Longrightarrow> pr_ring s = raw # rest \<Longrightarrow>
    read_record (po_cfg o1) (po_bootOffsetNs o1) raw = Some ev \<Longrightarrow>
    po_step o1 s (s\<lparr>pr_ring := rest, pr_loop := Sending raw ev\<rparr>)"
| sends: "pr_loop s = Sending raw ev \<Longrightarrow> po_step o1 s (send_event (unat (po_buffer o1)) raw ev s)"
| exits: "pr_loop s = Reading \<Longrightarrow> pr_stop s \<noteq> Uncalled \<Longrightarrow>
    po_step o1 s (s\<lparr>pr_loop := Exited, pr_stopped := True\<rparr>)"
| receives: "pr_chan s = ev # rest \<Longrightarrow>
    po_step o1 s (s\<lparr>pr_chan := rest, pr_received := pr_received s @ [ev]\<rparr>)"
| stop_goes_on: "pr_stop s = Waiting_Loop \<Longrightarrow> pr_stopped s \<Longrightarrow> po_step o1 s (s\<lparr>pr_stop := Releasing stop_links\<rparr>)"
| stop_closes: "pr_stop s = Releasing (h # hs) \<Longrightarrow>
    po_step o1 s (s\<lparr>pr_stop := Releasing hs, pr_life := pr_life s @ [Closes h]\<rparr>)"
| stop_ends: "pr_stop s = Releasing [] \<Longrightarrow> po_step o1 s ((close_events s)\<lparr>pr_stop := Stop_Returned\<rparr>)"

text \<open>
  What comes from outside: \<open>Start\<close>, called at most once, \<open>Stop\<close>, whose later calls do nothing, and records of
  the kernel. A read that fails for another reason than that the reader is closed is repeated.
\<close>

inductive po_call_step :: "proc_run \<Rightarrow> proc_run \<Rightarrow> bool" where
  call_start: "pr_loop s = Unstarted \<Longrightarrow> po_call_step s (s\<lparr>pr_loop := Reading\<rparr>)"
| call_stop: "pr_stop s = Uncalled \<Longrightarrow>
    po_call_step s (s\<lparr>pr_stop := Waiting_Loop, pr_life := pr_life s @ [Closes Proc_Reader]\<rparr>)"
| call_stop_again: "pr_stop s \<noteq> Uncalled \<Longrightarrow> po_call_step s s"
| record_arrives: "po_call_step s (s\<lparr>pr_ring := pr_ring s @ [raw], pr_arrived := pr_arrived s @ [raw]\<rparr>)"

inductive po_reached :: "proc_observer \<Rightarrow> proc_run \<Rightarrow> proc_run \<Rightarrow> bool" for o1 s where
  reached_init: "po_reached o1 s s"
| reached_step: "po_reached o1 s t \<Longrightarrow> po_step o1 t u \<Longrightarrow> po_reached o1 s u"
| reached_call: "po_reached o1 s t \<Longrightarrow> po_call_step t u \<Longrightarrow> po_reached o1 s u"

section \<open>What New leaves open\<close>

lemmas new_defs = New_proc_def seed_maps_def attach_programs_def computeBootOffsetNs_def

definition all_open :: "proc_handle list" where
  "all_open = [Proc_Objs, Fork_Link, Exec_Link, Exit_Group_Link, Exit_Link, Proc_Reader]"

text \<open>After a run of calls: success with everything open, or an error with nothing open but, once it was
  attached, the link of \<open>task_newtask\<close>.\<close>

definition left_open :: "(string + 'o) \<times> proc_handle life list \<Rightarrow> bool" where
  "left_open r =
     (still_open [] (snd r) =
       (case fst r of
          Inr o1 \<Rightarrow> all_open
        | Inl err \<Rightarrow> if Opens Fork_Link \<in> set (snd r) then [Fork_Link] else []))"

lemma attach_left_open:
  assumes "still_open [] tr = [Proc_Objs]" "Opens Fork_Link \<notin> set tr"
  shows "left_open (attach_programs env (\<lambda>tr. (Inr o1, tr)) tr)"
  using assms unfolding attach_programs_def attempt_def left_open_def all_open_def
  by (auto simp: still_open_append split: option.split)

lemma seed_left_open:
  fixes "next" :: "proc_handle life list \<Rightarrow> (string + 'o) \<times> proc_handle life list"
  assumes "\<And>tr. still_open [] tr = [Proc_Objs] \<Longrightarrow> Opens Fork_Link \<notin> set tr \<Longrightarrow> left_open (next tr)"
    and "still_open [] tr = [Proc_Objs]" "Opens Fork_Link \<notin> set tr"
  shows "left_open (seed_maps env cfg next tr)"
proof -
  have "left_open (Inl err :: string + 'o, tr @ map Closes [Proc_Objs])" for err
    using assms(2,3) by (auto simp: left_open_def still_open_append)
  then show ?thesis
    using assms by (simp add: seed_maps_def attempt_def Let_def split: option.split)
qed

lemma New_left_open: "left_open (New_proc env monotonic wallNs cfg)"
proof -
  have "left_open (seed_maps env c (attach_programs env (\<lambda>tr. (Inr o1, tr))) [Opens Proc_Objs])" for c o1
    by (rule seed_left_open) (auto intro: attach_left_open)
  then show ?thesis
    by (auto simp: New_proc_def attempt_def left_open_def [of "(Inl _, [])"] Let_def split: option.split sum.split)
qed

section \<open>Invariant\<close>

definition held_at :: "stop_pc \<Rightarrow> proc_handle multiset" where
  "held_at pc = (case pc of
      Uncalled \<Rightarrow> mset all_open
    | Waiting_Loop \<Rightarrow> mset stop_links
    | Releasing hs \<Rightarrow> mset hs
    | Stop_Returned \<Rightarrow> {#})"

definition in_hand :: "proc_run \<Rightarrow> bytes list" where
  "in_hand s = (case pr_loop s of Sending raw ev \<Rightarrow> [raw] | _ \<Rightarrow> [])"

definition control_inv :: "proc_run \<Rightarrow> bool" where
  "control_inv s \<longleftrightarrow>
     (pr_loop s = Exited \<longleftrightarrow> pr_stopped s) \<and>
     (pr_stopped s \<longrightarrow> pr_stop s \<noteq> Uncalled) \<and>
     (pr_stop s \<noteq> Uncalled \<and> pr_stop s \<noteq> Waiting_Loop \<longrightarrow> pr_stopped s) \<and>
     (pr_chan_closed s \<longleftrightarrow> pr_stop s = Stop_Returned) \<and> \<not> pr_panicked s \<and>
     mset (still_open [] (pr_life s)) = held_at (pr_stop s)"

definition data_inv :: "proc_observer \<Rightarrow> proc_run \<Rightarrow> bool" where
  "data_inv o1 s \<longleftrightarrow>
     length (pr_chan s) \<le> unat (po_buffer o1) \<and>
     (\<forall>raw ev. pr_loop s = Sending raw ev \<longrightarrow> read_record (po_cfg o1) (po_bootOffsetNs o1) raw = Some ev) \<and>
     readLoop (po_cfg o1) (po_bootOffsetNs o1) (pr_read s) ([], 0) = (pr_received s @ pr_chan s, pr_dropped s) \<and>
     map fst (pr_read s) @ in_hand s @ pr_ring s = pr_arrived s"

lemma control_init: "still_open [] tr = all_open \<Longrightarrow> control_inv (run_init tr)"
  by (simp add: control_inv_def run_init_def held_at_def)

lemma data_init: "data_inv o1 (run_init tr)"
  by (simp add: data_inv_def run_init_def in_hand_def)

lemma mset_still_open_closes: "mset (still_open hs (tr @ [Closes h])) = mset (still_open hs tr) - {#h#}"
  by (simp add: still_open_append)

lemma control_step: "po_step o1 s t \<Longrightarrow> control_inv s \<Longrightarrow> control_inv t"
  by (induction rule: po_step.induct)
    (auto simp: control_inv_def send_event_def close_events_def mset_still_open_closes held_at_def)

lemma control_call: "po_call_step s t \<Longrightarrow> control_inv s \<Longrightarrow> control_inv t"
  by (induction rule: po_call_step.induct)
    (auto simp: control_inv_def mset_still_open_closes held_at_def all_open_def stop_links_def)

lemma data_step: "po_step o1 s t \<Longrightarrow> control_inv s \<Longrightarrow> data_inv o1 s \<Longrightarrow> data_inv o1 t"
  by (induction rule: po_step.induct)
    (auto simp: data_inv_def control_inv_def send_event_def close_events_def in_hand_def readLoop_append)

lemma data_call: "po_call_step s t \<Longrightarrow> data_inv o1 s \<Longrightarrow> data_inv o1 t"
  by (induction rule: po_call_step.induct) (auto simp: data_inv_def in_hand_def)

lemma reached_inv:
  assumes "po_reached o1 (run_init tr) s" "still_open [] tr = all_open"
  shows "control_inv s \<and> data_inv o1 s"
  using assms
  by (induction rule: po_reached.induct)
    (auto intro: control_init data_init control_step control_call data_step data_call)

section \<open>Shutdown\<close>

definition stopping :: "proc_run \<Rightarrow> bool" where
  "stopping s \<longleftrightarrow> control_inv s \<and> pr_stop s \<noteq> Uncalled \<and> pr_loop s \<noteq> Unstarted"

definition stopped_all :: "proc_run \<Rightarrow> bool" where
  "stopped_all s \<longleftrightarrow> pr_stop s = Stop_Returned \<and> pr_chan s = []"

definition stop_rank :: "proc_run \<Rightarrow> nat" where
  "stop_rank s =
     (case pr_loop s of Sending raw ev \<Rightarrow> 3 | Reading \<Rightarrow> 1 | _ \<Rightarrow> 0) +
     (case pr_stop s of Releasing hs \<Rightarrow> length hs + 1 | Stop_Returned \<Rightarrow> 0 | _ \<Rightarrow> 7) + length (pr_chan s)"

lemma stopping_goes_on:
  assumes "stopping s" "\<not> stopped_all s"
  shows "\<exists>t. po_step o1 s t"
proof (cases "pr_chan s")
  case Nil
  show ?thesis
  proof (cases "pr_stop s")
    case Waiting_Loop
    then show ?thesis
      using assms(1) exits [of s o1] sends [of s _ _ o1] stop_goes_on [of s o1]
      by (cases "pr_loop s") (auto simp: stopping_def control_inv_def)
  next
    case (Releasing hs)
    then show ?thesis by (cases hs) (auto intro: po_step.intros)
  qed (use assms Nil in \<open>auto simp: stopping_def stopped_all_def\<close>)
qed (auto intro: po_step.intros)

lemma stopping_keeps: "po_step o1 s t \<Longrightarrow> stopping s \<Longrightarrow> stopping t"
  unfolding stopping_def
  by (frule control_step, simp, induction rule: po_step.induct)
    (auto simp: send_event_def close_events_def)

lemma stopping_lowers: "po_step o1 s t \<Longrightarrow> stopping s \<Longrightarrow> stop_rank t < stop_rank s"
  by (induction rule: po_step.induct)
    (auto simp: stopping_def control_inv_def stop_rank_def send_event_def close_events_def stop_links_def
      split: loop_pc.splits)

interpretation proc_stop: shutdown stopping "po_step o1" stopped_all "measure stop_rank" for o1
  by unfold_locales (auto intro: stopping_keeps stopping_lowers stopping_goes_on)

section \<open>Properties\<close>

lemma New_open:
  assumes "New_proc env monotonic wallNs cfg = (Inr o1, tr)"
  shows "still_open [] tr = all_open"
  using New_left_open [of env monotonic wallNs cfg] unfolding assms left_open_def by simp

text \<open>
  C21. The observer delivers what it read: at any time after \<open>New\<close>, whatever the schedule of its goroutines, of
  its consumer and of the calls of \<open>Start\<close> and \<open>Stop\<close>, nothing was sent on a closed channel, no channel was
  closed twice, the events received and still in the channel and the count of the dropped ones are
  those of the read loop over the records read, and these, in their order, are the first of the records
  that arrived.
\<close>

theorem observer_delivers_what_it_read:
  assumes "New_proc env monotonic wallNs cfg = (Inr o1, tr)" "po_reached o1 (run_init tr) s"
  shows "\<not> pr_panicked s \<and>
    readLoop (po_cfg o1) (po_bootOffsetNs o1) (pr_read s) ([], 0) = (pr_received s @ pr_chan s, pr_dropped s) \<and>
    (\<exists>rest. pr_arrived s = map fst (pr_read s) @ rest)"
  using reached_inv [OF assms(2) New_open [OF assms(1)]] unfolding control_inv_def data_inv_def by metis

text \<open>
  C22. \<open>Stop\<close> ends: once \<open>Start\<close> and \<open>Stop\<close> were called, no schedule runs for ever; and when nothing can run any
  more, \<open>Stop\<close> has returned, everything \<open>New\<close> acquired is closed and the consumer has received every event
  that was not dropped.
\<close>

theorem proc_stop_returns:
  assumes "New_proc env monotonic wallNs cfg = (Inr o1, tr)" "po_reached o1 (run_init tr) s"
    and "pr_stop s \<noteq> Uncalled" "pr_loop s \<noteq> Unstarted"
  shows "(run 0 = s \<longrightarrow> (\<exists>i. \<not> po_step o1 (run i) (run (Suc i)))) \<and>
    ((po_step o1)\<^sup>*\<^sup>* s t \<longrightarrow> (\<exists>u. po_step o1 t u) \<or>
      pr_stop t = Stop_Returned \<and> still_open [] (pr_life t) = [] \<and>
      pr_received t = proc_delivers (po_cfg o1, po_bootOffsetNs o1, pr_read t))"
proof (intro conjI impI)
  have i: "control_inv s" "data_inv o1 s" using reached_inv [OF assms(2) New_open [OF assms(1)]] by simp_all
  then have s: "stopping s" using assms(3,4) by (simp add: stopping_def)
  show "\<exists>i. \<not> po_step o1 (run i) (run (Suc i))" if "run 0 = s"
    using proc_stop.no_endless_run [of run o1] s that by simp
  show "(\<exists>u. po_step o1 t u) \<or> pr_stop t = Stop_Returned \<and> still_open [] (pr_life t) = [] \<and>
      pr_received t = proc_delivers (po_cfg o1, po_bootOffsetNs o1, pr_read t)" if st: "(po_step o1)\<^sup>*\<^sup>* s t"
  proof (cases "\<exists>u. po_step o1 t u")
    case False
    have "po_reached o1 (run_init tr) t" using st by induction (auto intro: assms(2) reached_step)
    from reached_inv [OF this New_open [OF assms(1)]] have t: "control_inv t" "data_inv o1 t" by simp_all
    have "stopped_all t" using proc_stop.over_when_stuck [OF st s False] .
    then show ?thesis using t by (simp add: stopped_all_def control_inv_def data_inv_def held_at_def proc_delivers_def)
  qed simp
qed

text \<open>
  \<open>Stop\<close> before \<open>Start\<close> waits for ever: it goes on only when \<open>Start\<close> is called after all.
\<close>

lemma stop_needs_start:
  assumes "New_proc env monotonic wallNs cfg = (Inr o1, tr)" "po_reached o1 (run_init tr) s"
    and "pr_stop s = Waiting_Loop" "pr_loop s = Unstarted" "(po_step o1)\<^sup>*\<^sup>* s t"
  shows "pr_stop t = Waiting_Loop \<and> pr_loop t = Unstarted"
proof -
  have "\<not> pr_stopped s" using reached_inv [OF assms(2) New_open [OF assms(1)]] assms(4) by (simp add: control_inv_def)
  from assms(5) have "pr_stop t = Waiting_Loop \<and> pr_loop t = Unstarted \<and> \<not> pr_stopped t"
  proof induction
    case (step t u)
    from step.hyps(2) step.IH show ?case by (induction rule: po_step.induct) simp_all
  qed (use assms(3,4) \<open>\<not> pr_stopped s\<close> in simp)
  then show ?thesis by simp
qed

text \<open>
  C40. When \<open>New\<close> fails after it attached the program of \<open>task_newtask\<close>, that link stays open, and nothing else;
  when it fails earlier, nothing stays open.
\<close>

theorem failed_New_forgets_fork:
  assumes "New_proc env monotonic wallNs cfg = (Inl err, tr)"
  shows "still_open [] tr = (if Opens Fork_Link \<in> set tr then [Fork_Link] else [])"
  using New_left_open [of env monotonic wallNs cfg] unfolding assms left_open_def by simp

section \<open>Witnesses\<close>

definition ex_config :: proc_config where
  "ex_config = \<lparr>PIDFilter = 100, CommandFilter = '''', DeferRootPID = False, EventBufSize = 0\<rparr>"

definition ex_observer :: proc_observer where
  "ex_observer = \<lparr>po_cfg = \<lparr>PIDFilter = 100, CommandFilter = '''', DeferRootPID = False\<rparr>,
     po_maps = New_maps \<lparr>PIDFilter = 100, CommandFilter = '''', DeferRootPID = False\<rparr>,
     po_bootOffsetNs = 300, po_buffer = 4096\<rparr>"

lemma ex_New: "New_proc (\<lambda>_. None) (Inr 700) 1000 ex_config = (Inr ex_observer, map Opens all_open)"
  by (simp add: New_proc_def seed_maps_def attach_programs_def attempt_def computeBootOffsetNs_def ex_config_def
      ex_observer_def all_open_def Config_proc.truncate_def Let_def)

text \<open>\<open>Stop\<close> called at once, before \<open>Start\<close>, and a run that is started and stopped.\<close>

definition ex_stopped :: proc_run where
  "ex_stopped = (run_init (map Opens all_open))
     \<lparr>pr_stop := Waiting_Loop, pr_life := map Opens all_open @ [Closes Proc_Reader]\<rparr>"

lemma ex_stopped_reached: "po_reached ex_observer (run_init (map Opens all_open)) ex_stopped"
  using call_stop [of "run_init (map Opens all_open)"]
  by (auto simp: run_init_def ex_stopped_def intro: reached_call [OF reached_init])

lemma stop_needs_start_witness:
  "pr_stop ex_stopped = Waiting_Loop \<and> pr_loop ex_stopped = Unstarted"
  by (rule stop_needs_start [OF ex_New ex_stopped_reached]) (simp_all add: ex_stopped_def run_init_def)

lemma ex_restarted_reached:
  "po_reached ex_observer (run_init (map Opens all_open)) (ex_stopped\<lparr>pr_loop := Reading\<rparr>)"
  by (rule reached_call [OF ex_stopped_reached]) (rule call_start, simp add: ex_stopped_def run_init_def)

lemma over_is_stuck: "stopping s \<Longrightarrow> stopped_all s \<Longrightarrow> \<nexists>t. po_step o1 s t"
  by (auto simp: stopping_def stopped_all_def control_inv_def elim!: po_step.cases)

theorem proc_stop_returns_witness:
  "\<exists>t. (po_step ex_observer)\<^sup>*\<^sup>* (ex_stopped\<lparr>pr_loop := Reading\<rparr>) t \<and> pr_stop t = Stop_Returned \<and>
     still_open [] (pr_life t) = []"
proof -
  let ?s = "ex_stopped\<lparr>pr_loop := Reading\<rparr>"
  have s: "stopping ?s"
    using reached_inv [OF ex_restarted_reached] by (simp add: stopping_def ex_stopped_def run_init_def all_open_def)
  then obtain t where t: "(po_step ex_observer)\<^sup>*\<^sup>* ?s t" "stopped_all t"
    using proc_stop.can_end [of ?s ex_observer] by blast
  have "\<nexists>u. po_step ex_observer t u" using over_is_stuck proc_stop.keeps_steps [OF t(1) s] t(2) by blast
  then show ?thesis
    using proc_stop_returns [OF ex_New ex_restarted_reached, of "\<lambda>_. t" t] t
    by (auto simp: ex_stopped_def run_init_def)
qed

theorem observer_delivers_what_it_read_witness:
  "\<not> pr_panicked ex_stopped \<and> (\<exists>rest. pr_arrived ex_stopped = map fst (pr_read ex_stopped) @ rest)"
  using observer_delivers_what_it_read [OF ex_New ex_stopped_reached] by simp

definition ex_fails :: "proc_call \<Rightarrow> string option" where
  "ex_fails c = (if c = Attach_sys_enter_execve then Some ''no such file'' else None)"

lemma ex_failed_New:
  "New_proc ex_fails (Inr 700) 1000 ex_config =
    (Inl ''attach sys_enter_execve: no such file'', [Opens Proc_Objs, Opens Fork_Link, Closes Proc_Objs])"
  by (simp add: New_proc_def seed_maps_def attach_programs_def attempt_def computeBootOffsetNs_def ex_config_def
      ex_fails_def Config_proc.truncate_def)

theorem failed_New_forgets_fork_witness: "still_open [] [Opens Proc_Objs, Opens Fork_Link, Closes Proc_Objs] = [Fork_Link]"
  using failed_New_forgets_fork [OF ex_failed_New] by simp

end
