(* ===== verification/Fs_Life.thy ===== *)
theory Fs_Life
  imports Fs_Observer Probe_Life
begin

text \<open>
  The life of the filesystem observer, \<open>pkg/probe/fs/observer.go\<close>: the descriptors \<open>New\<close> acquires, and gives back
  when one of its calls fails, and the goroutines between \<open>Start\<close> and the end of \<open>Stop\<close>. The reader handles a
  wakeup of its poll at a time and then sends the events one by one; a send waits for room.
\<close>

section \<open>New\<close>

datatype fs_handle = Fanotify_FD | Mount_FD | Stop_R | Stop_W

datatype fs_call = Fanotify_Init | Fanotify_Mark | Open_Mount | Pipe2

record fs_options =
  fo_Path :: string
  fo_PathFilter :: string
  fo_PIDFilter :: s32
  fo_EventBufSize :: s64

text \<open>The part of the observer that stays the same; the rest is \<open>fs_new\<close>.\<close>

record fs_observer =
  fo_cfg :: fs_config
  fo_buffer :: s64

definition initFanotify where
  "initFanotify env next = attempt env Fanotify_Init ''fanotify_init: '' [] [Fanotify_FD] next"

definition markFilesystem where
  "markFilesystem env path next = attempt env Fanotify_Mark (''fanotify_mark on '' @ path @ '': '') [Fanotify_FD] [] next"

definition openMountFD where
  "openMountFD env path next = attempt env Open_Mount (''open mount fd for '' @ path @ '': '') [Fanotify_FD] [Mount_FD] next"

definition New_fs ::
  "(fs_call \<Rightarrow> string option) \<Rightarrow> int \<Rightarrow> s32 \<Rightarrow> fs_options \<Rightarrow> (string + fs_observer) \<times> fs_handle life list" where
  "New_fs env mountFD own_pid opts =
     (if fo_Path opts = '''' then (Inl ''Config.Path is required'', [])
      else
        initFanotify env
       (markFilesystem env (fo_Path opts)
       (openMountFD env (fo_Path opts)
       (attempt env Pipe2 ''pipe2: '' [Fanotify_FD, Mount_FD] [Stop_R, Stop_W]
         (\<lambda>tr. (Inr \<lparr>fo_cfg = \<lparr>fc_PathFilter = fo_PathFilter opts, fc_PIDFilter = fo_PIDFilter opts, fc_own_pid = own_pid,
             fc_mountFD = mountFD, fc_settleDelay = settleQuietWindow\<rparr>,
             fo_buffer = (if fo_EventBufSize opts \<le>s 0 then 4096 else fo_EventBufSize opts)\<rparr>, tr))))) [])"

definition fs_open :: "fs_handle list" where
  "fs_open = [Fanotify_FD, Mount_FD, Stop_R, Stop_W]"

lemma New_fs_open:
  "still_open [] (snd (New_fs env mountFD own_pid opts)) =
    (case fst (New_fs env mountFD own_pid opts) of Inl err \<Rightarrow> [] | Inr o1 \<Rightarrow> fs_open)"
  by (simp add: New_fs_def initFanotify_def markFilesystem_def openMountFD_def attempt_def fs_open_def split: option.split)

section \<open>The goroutines\<close>

text \<open>The reader polls, or has seen the stop signal, or a failure of the poll, and ends; of the events it made
  \<open>fr_passed\<close> are in the channel or received.\<close>

datatype fs_loop_pc = Fs_Unstarted | Polling | Ending | Fs_Exited

datatype fs_stop_pc = Fs_Uncalled | Fs_Waiting | Fs_Releasing "fs_handle list" | Fs_Returned

record fs_run =
  fr_loop :: fs_loop_pc
  fr_state :: fs_state
  fr_passed :: nat
  fr_chan :: "GroundTruthEvent list"
  fr_closed :: bool
  fr_received :: "GroundTruthEvent list"
  fr_signal :: bool
  fr_stopped :: bool
  fr_stop :: fs_stop_pc
  fr_life :: "fs_handle life list"
  fr_panicked :: bool
  fr_files :: walked_files
  fr_wakeups :: "wakeup list"

definition fs_init :: "fs_handle life list \<Rightarrow> fs_run" where
  "fs_init tr = \<lparr>fr_loop = Fs_Unstarted, fr_state = fs_new, fr_passed = 0, fr_chan = [], fr_closed = False, fr_received = [],
     fr_signal = False, fr_stopped = False, fr_stop = Fs_Uncalled, fr_life = tr, fr_panicked = False, fr_files = [],
     fr_wakeups = []\<rparr>"

definition all_passed :: "fs_run \<Rightarrow> bool" where
  "all_passed s \<longleftrightarrow> fr_passed s = length (st_sent (fr_state s))"

definition pass_event :: "fs_run \<Rightarrow> fs_run" where
  "pass_event s =
     (if fr_closed s then s\<lparr>fr_panicked := True, fr_passed := fr_passed s + 1\<rparr>
      else s\<lparr>fr_chan := fr_chan s @ [st_sent (fr_state s) ! fr_passed s], fr_passed := fr_passed s + 1\<rparr>)"

definition wake :: "fs_config \<Rightarrow> wakeup \<Rightarrow> fs_run \<Rightarrow> fs_run" where
  "wake cfg w s = s\<lparr>fr_state := fs_readLoop cfg [w] (fr_state s), fr_wakeups := fr_wakeups s @ [w]\<rparr>"

inductive fs_step :: "fs_observer \<Rightarrow> fs_run \<Rightarrow> fs_run \<Rightarrow> bool" for o1 where
  sees_stop: "fr_loop s = Polling \<Longrightarrow> all_passed s \<Longrightarrow> fr_signal s \<Longrightarrow>
    fs_step o1 s ((wake (fo_cfg o1) (Stop_Signal visits) s)\<lparr>fr_loop := Ending\<rparr>)"
| passes: "fr_loop s \<in> {Polling, Ending} \<Longrightarrow> fr_passed s < length (st_sent (fr_state s)) \<Longrightarrow>
    length (fr_chan s) < unat (fo_buffer o1) \<Longrightarrow> fs_step o1 s (pass_event s)"
| exits: "fr_loop s = Ending \<Longrightarrow> all_passed s \<Longrightarrow> fs_step o1 s (s\<lparr>fr_loop := Fs_Exited, fr_stopped := True\<rparr>)"
| receives: "fr_chan s = ev # rest \<Longrightarrow> fs_step o1 s (s\<lparr>fr_chan := rest, fr_received := fr_received s @ [ev]\<rparr>)"
| stop_goes_on: "fr_stop s = Fs_Waiting \<Longrightarrow> fr_stopped s \<Longrightarrow> fs_step o1 s (s\<lparr>fr_stop := Fs_Releasing fs_open\<rparr>)"
| stop_closes: "fr_stop s = Fs_Releasing (h # hs) \<Longrightarrow>
    fs_step o1 s (s\<lparr>fr_stop := Fs_Releasing hs, fr_life := fr_life s @ [Closes h]\<rparr>)"
| stop_ends: "fr_stop s = Fs_Releasing [] \<Longrightarrow>
    fs_step o1 s (s\<lparr>fr_stop := Fs_Returned, fr_panicked := (fr_panicked s \<or> fr_closed s), fr_closed := True\<rparr>)"

text \<open>From outside: \<open>Start\<close> with what its walk finds, at most once; \<open>Stop\<close>, once; and, before the stop signal is seen,
  the wakeups of the poll, which may also fail.\<close>

inductive fs_call_step :: "fs_observer \<Rightarrow> fs_run \<Rightarrow> fs_run \<Rightarrow> bool" for o1 where
  calls_start: "fr_loop s = Fs_Unstarted \<Longrightarrow>
    fs_call_step o1 s (s\<lparr>fr_loop := Polling, fr_state := started (fo_cfg o1) files, fr_files := files\<rparr>)"
| calls_stop: "fr_stop s = Fs_Uncalled \<Longrightarrow> fs_call_step o1 s (s\<lparr>fr_stop := Fs_Waiting, fr_signal := True\<rparr>)"
| wakes: "fr_loop s = Polling \<Longrightarrow> all_passed s \<Longrightarrow> \<not> fr_signal s \<Longrightarrow>
    fs_call_step o1 s (wake (fo_cfg o1) (Woken batches visits) s)"
| interrupted: "fr_loop s = Polling \<Longrightarrow> all_passed s \<Longrightarrow> fs_call_step o1 s (wake (fo_cfg o1) Interrupted s)"
| poll_fails: "fr_loop s = Polling \<Longrightarrow> all_passed s \<Longrightarrow>
    fs_call_step o1 s ((wake (fo_cfg o1) (Poll_Failed visits) s)\<lparr>fr_loop := Ending\<rparr>)"

inductive fs_reached :: "fs_observer \<Rightarrow> fs_run \<Rightarrow> fs_run \<Rightarrow> bool" for o1 s where
  fs_reached_init: "fs_reached o1 s s"
| fs_reached_step: "fs_reached o1 s t \<Longrightarrow> fs_step o1 t u \<Longrightarrow> fs_reached o1 s u"
| fs_reached_call: "fs_reached o1 s t \<Longrightarrow> fs_call_step o1 t u \<Longrightarrow> fs_reached o1 s u"

section \<open>The reader only adds events\<close>

definition adds :: "(fs_state \<Rightarrow> fs_state) \<Rightarrow> bool" where
  "adds f \<longleftrightarrow> (\<forall>st. \<exists>evs. st_sent (f st) = st_sent st @ evs)"

lemma adds_fold: "(\<And>a. adds (f a)) \<Longrightarrow> adds (fold f xs)"
proof (induction xs)
  case (Cons x xs)
  show ?case
    unfolding adds_def
  proof
    fix st
    obtain a where "st_sent (f x st) = st_sent st @ a" using Cons.prems unfolding adds_def by blast
    moreover obtain b where "st_sent (fold f xs (f x st)) = st_sent (f x st) @ b"
      using Cons.IH [OF Cons.prems] unfolding adds_def by blast
    ultimately show "\<exists>evs. st_sent (fold f (x # xs) st) = st_sent st @ evs" by simp
  qed
qed (simp add: adds_def)

lemma drain_adds: "\<exists>evs. st_sent (drainNonBlocking cfg bs st) = st_sent st @ evs"
  using drain_plain unfolding sends_plain_def by blast

lemma resolve_one_adds: "adds (resolve_one cfg force before v)"
  unfolding adds_def
proof
  fix st
  have h: "\<exists>evs. st_sent (snd (hashSettledFD cfg p fd he s)) = st_sent s @ evs" for p fd he s
    using drain_adds [of cfg "he_drained he" "add_open q s" for q] drain_adds [of cfg "he_drained he" s]
    by (auto simp: hashSettledFD_def Let_def split: option.split)
  show "\<exists>evs. st_sent (resolve_one cfg force before v st) = st_sent st @ evs"
  proof (cases "before (fst v)")
    case (Some e)
    obtain evs where "st_sent (snd (hashSettledFD cfg (fst v) (pc_pathFD e) (snd v)
        (st\<lparr>st_pendingCloses := (st_pendingCloses st)(fst v := None)\<rparr>))) = st_sent st @ evs"
      using h [of "fst v" "pc_pathFD e" "snd v" "st\<lparr>st_pendingCloses := (st_pendingCloses st)(fst v := None)\<rparr>"] by auto
    then show ?thesis by (simp add: resolve_one_def Let_def Some)
  qed (simp add: resolve_one_def Let_def)
qed

lemma resolve_adds: "\<exists>evs. st_sent (resolveSettled cfg force before visits st) = st_sent st @ evs"
  using adds_fold [of "resolve_one cfg force before" visits, OF resolve_one_adds] unfolding adds_def resolveSettled_def by blast

lemma wake_adds: "\<exists>evs. st_sent (fs_readLoop cfg [w] st) = st_sent st @ evs"
proof (cases w)
  case (Woken bs visits)
  obtain a where "st_sent (drainNonBlocking cfg bs st) = st_sent st @ a" using drain_adds by blast
  moreover obtain b where "st_sent (resolveSettled cfg False (settleSnapshot st) visits (drainNonBlocking cfg bs st)) =
      st_sent (drainNonBlocking cfg bs st) @ b" using resolve_adds by blast
  ultimately show ?thesis using Woken by simp
qed (use resolve_adds in \<open>simp_all add: flushPendingCloses_def\<close>)

section \<open>Invariant\<close>

definition fs_held :: "fs_stop_pc \<Rightarrow> fs_handle multiset" where
  "fs_held pc = (case pc of Fs_Releasing hs \<Rightarrow> mset hs | Fs_Returned \<Rightarrow> {#} | _ \<Rightarrow> mset fs_open)"

definition fs_control :: "fs_run \<Rightarrow> bool" where
  "fs_control s \<longleftrightarrow>
     (fr_loop s = Fs_Exited \<longleftrightarrow> fr_stopped s) \<and> (fr_stop s \<notin> {Fs_Uncalled, Fs_Waiting} \<longrightarrow> fr_stopped s) \<and>
     (fr_closed s \<longleftrightarrow> fr_stop s = Fs_Returned) \<and> \<not> fr_panicked s \<and> (fr_signal s \<longleftrightarrow> fr_stop s \<noteq> Fs_Uncalled) \<and>
     mset (still_open [] (fr_life s)) = fs_held (fr_stop s)"

definition fs_data :: "fs_observer \<Rightarrow> fs_run \<Rightarrow> bool" where
  "fs_data o1 s \<longleftrightarrow>
     fr_passed s \<le> length (st_sent (fr_state s)) \<and> take (fr_passed s) (st_sent (fr_state s)) = fr_received s @ fr_chan s \<and>
     (if fr_loop s = Fs_Unstarted then fr_passed s = 0 \<and> fr_state s = fs_new \<and> fr_wakeups s = []
      else fr_state s = fs_readLoop (fo_cfg o1) (fr_wakeups s) (started (fo_cfg o1) (fr_files s))) \<and>
     (fr_loop s = Polling \<longrightarrow> list_all keeps_running (fr_wakeups s)) \<and> (fr_loop s = Fs_Exited \<longrightarrow> all_passed s)"

lemma readLoop_snoc:
  "list_all keeps_running ws \<Longrightarrow> fs_readLoop cfg (ws @ [w]) st = fs_readLoop cfg [w] (fs_readLoop cfg ws st)"
  by (induction cfg ws st rule: fs_readLoop.induct) (simp_all add: keeps_running_def)

lemma fs_control_step: "fs_step o1 s t \<Longrightarrow> fs_control s \<Longrightarrow> fs_control t"
  by (induction rule: fs_step.induct)
    (auto simp: fs_control_def fs_held_def pass_event_def wake_def still_open_append)

lemma fs_control_call: "fs_call_step o1 s t \<Longrightarrow> fs_control s \<Longrightarrow> fs_control t"
  by (induction rule: fs_call_step.induct) (auto simp: fs_control_def fs_held_def wake_def)

lemma wake_data:
  assumes "fs_data o1 s" "fr_loop s = Polling" "keeps_running w \<or> pc = Ending" "pc \<in> {Polling, Ending}"
  shows "fs_data o1 ((wake (fo_cfg o1) w s)\<lparr>fr_loop := pc\<rparr>)"
proof -
  obtain evs where e: "st_sent (fs_readLoop (fo_cfg o1) [w] (fr_state s)) = st_sent (fr_state s) @ evs"
    using wake_adds by blast
  have k: "list_all keeps_running (fr_wakeups s)" "fr_state s = fs_readLoop (fo_cfg o1) (fr_wakeups s) (started (fo_cfg o1) (fr_files s))"
    using assms(1,2) by (simp_all add: fs_data_def)
  show ?thesis
    using assms readLoop_snoc [OF k(1), of "fo_cfg o1" w "started (fo_cfg o1) (fr_files s)"] e
    unfolding fs_data_def by (auto simp: wake_def simp flip: k(2))
qed

lemma fs_data_step:
  assumes "fs_step o1 s t" "fs_control s" "fs_data o1 s"
  shows "fs_data o1 t"
  using assms(1)
proof cases
  case (sees_stop visits)
  then show ?thesis using wake_data [OF assms(3)] by simp
next
  case passes
  have "\<not> fr_closed s" using assms(2) passes(2) by (auto simp: fs_control_def)
  then show ?thesis
    using assms(3) passes by (auto simp: fs_data_def pass_event_def all_passed_def take_Suc_conv_app_nth)
qed (use assms(3) in \<open>auto simp: fs_data_def all_passed_def\<close>)

lemma fs_data_call:
  assumes "fs_call_step o1 s t" "fs_data o1 s"
  shows "fs_data o1 t"
  using assms(1)
proof cases
  case (calls_start files)
  then show ?thesis using assms(2) by (auto simp: fs_data_def started_def fs_new_def)
next
  case (wakes batches visits)
  then have "(wake (fo_cfg o1) (Woken batches visits) s)\<lparr>fr_loop := Polling\<rparr> = t" by (cases s) (simp add: wake_def)
  then show ?thesis using wake_data [OF assms(2) wakes(2), of "Woken batches visits" Polling] by (simp add: keeps_running_def)
next
  case interrupted
  then have "(wake (fo_cfg o1) Interrupted s)\<lparr>fr_loop := Polling\<rparr> = t" by (cases s) (simp add: wake_def)
  then show ?thesis using wake_data [OF assms(2) interrupted(2), of Interrupted Polling] by (simp add: keeps_running_def)
next
  case (poll_fails visits)
  then show ?thesis using wake_data [OF assms(2) poll_fails(2), of "Poll_Failed visits" Ending] by simp
qed (use assms(2) in \<open>auto simp: fs_data_def all_passed_def\<close>)

lemma fs_reached_inv:
  assumes "fs_reached o1 (fs_init tr) s" "still_open [] tr = fs_open"
  shows "fs_control s \<and> fs_data o1 s"
  using assms(1)
proof induction
  case fs_reached_init
  then show ?case using assms(2) by (simp add: fs_control_def fs_data_def fs_init_def fs_held_def fs_new_def)
next
  case (fs_reached_step t u)
  then show ?case using fs_control_step fs_data_step by blast
next
  case (fs_reached_call t u)
  then show ?case using fs_control_call fs_data_call by blast
qed

section \<open>Shutdown\<close>

definition fs_stopping :: "fs_observer \<Rightarrow> fs_run \<Rightarrow> bool" where
  "fs_stopping o1 s \<longleftrightarrow> fs_control s \<and> fs_data o1 s \<and> fr_stop s \<noteq> Fs_Uncalled \<and> fr_loop s \<noteq> Fs_Unstarted \<and>
     0 < unat (fo_buffer o1)"

definition fs_over :: "fs_run \<Rightarrow> bool" where
  "fs_over s \<longleftrightarrow> fr_stop s = Fs_Returned \<and> fr_chan s = []"

definition fs_pending :: "fs_run \<Rightarrow> nat" where
  "fs_pending s = 2 * (length (st_sent (fr_state s)) - fr_passed s) + length (fr_chan s)"

definition fs_phase :: "fs_run \<Rightarrow> nat" where
  "fs_phase s = (case fr_loop s of Polling \<Rightarrow> 2 | Ending \<Rightarrow> 1 | _ \<Rightarrow> 0) +
     (case fr_stop s of Fs_Waiting \<Rightarrow> 7 | Fs_Releasing hs \<Rightarrow> length hs + 1 | _ \<Rightarrow> 0)"

lemma fs_lowers: "fs_step o1 s t \<Longrightarrow> fs_stopping o1 s \<Longrightarrow> (t, s) \<in> measures [fs_phase, fs_pending]"
  by (induction rule: fs_step.induct)
    (auto simp: fs_phase_def fs_pending_def pass_event_def wake_def fs_open_def fs_stopping_def fs_control_def)

lemma fs_goes_on:
  assumes "fs_stopping o1 s" "\<not> fs_over s"
  shows "\<exists>t. fs_step o1 s t"
proof (cases "fr_chan s")
  case Nil
  have c: "fs_control s" "fs_data o1 s" "fr_stop s \<noteq> Fs_Uncalled" "fr_loop s \<noteq> Fs_Unstarted"
    "0 < unat (fo_buffer o1)"
    using assms(1) by (simp_all add: fs_stopping_def)
  show ?thesis
  proof (cases "fr_stop s")
    case Fs_Waiting
    show ?thesis
    proof (cases "fr_stopped s")
      case True
      then show ?thesis using Fs_Waiting by (blast intro: stop_goes_on)
    next
      case False
      then have l: "fr_loop s \<in> {Polling, Ending}" using c by (cases "fr_loop s") (auto simp: fs_control_def)
      show ?thesis
      proof (cases "all_passed s")
        case True
        have "fr_signal s" using c(1,3) by (simp add: fs_control_def)
        then show ?thesis using l True by (auto intro: sees_stop exits)
      next
        case False
        then have "fr_passed s < length (st_sent (fr_state s))" using c(2) by (simp add: fs_data_def all_passed_def)
        from passes [OF l this] show ?thesis using c(5) Nil by auto
      qed
    qed
  next
    case (Fs_Releasing hs)
    then show ?thesis by (cases hs) (blast intro: stop_closes stop_ends)+
  qed (use c Nil assms(2) in \<open>auto simp: fs_over_def\<close>)
qed (blast intro: receives)

lemma New_fs_buffer: "New_fs env mountFD own_pid opts = (Inr o1, tr) \<Longrightarrow> 0 < unat (fo_buffer o1)"
  by (auto simp: New_fs_def initFanotify_def markFilesystem_def openMountFD_def attempt_def unat_gt_0 split: option.splits if_splits)

lemma fs_stopping_keeps:
  assumes "fs_stopping o1 s" "fs_step o1 s t"
  shows "fs_stopping o1 t"
proof -
  have "fr_stop t \<noteq> Fs_Uncalled \<and> fr_loop t \<noteq> Fs_Unstarted"
    using assms(2) by cases (use assms(1) in \<open>simp_all add: fs_stopping_def pass_event_def wake_def\<close>)
  then show ?thesis using assms fs_control_step fs_data_step by (simp add: fs_stopping_def)
qed

interpretation fs_shutdown: shutdown "fs_stopping o1" "fs_step o1" fs_over "measures [fs_phase, fs_pending]" for o1
proof unfold_locales
  show "(t, s) \<in> measures [fs_phase, fs_pending]" if "fs_stopping o1 s" "fs_step o1 s t" for s t
    by (rule fs_lowers [OF that(2,1)])
  show "fs_stopping o1 t" if "fs_stopping o1 s" "fs_step o1 s t" for s t
    by (rule fs_stopping_keeps [OF that])
qed (auto intro: fs_goes_on)

section \<open>Properties\<close>

lemma New_fs_all_open: "New_fs env mountFD own_pid opts = (Inr o1, tr) \<Longrightarrow> still_open [] tr = fs_open"
  using New_fs_open [of env mountFD own_pid opts] by simp

text \<open>
  C20. The filesystem observer delivers all it saw, and ends: at any time after \<open>New\<close> what the consumer received
  and what is in the channel are the first of the events of the read loop over its wakeups, and nothing was
  sent on a closed channel. Once \<open>Start\<close> and \<open>Stop\<close> were called no schedule runs for ever, and when nothing
  can run any more, \<open>Stop\<close> has returned, every descriptor is closed and the consumer has received every event.
\<close>

theorem fs_delivers_all:
  assumes "New_fs env mountFD own_pid opts = (Inr o1, tr)" "fs_reached o1 (fs_init tr) s" "fr_loop s \<noteq> Fs_Unstarted"
  shows "\<not> fr_panicked s \<and>
    (\<exists>rest. fs_delivers (fo_cfg o1, fr_files s, fr_wakeups s) = fr_received s @ fr_chan s @ rest) \<and>
    (fr_stop s \<noteq> Fs_Uncalled \<longrightarrow>
      (run 0 = s \<longrightarrow> (\<exists>i. \<not> fs_step o1 (run i) (run (Suc i)))) \<and>
      ((fs_step o1)\<^sup>*\<^sup>* s t \<longrightarrow> (\<exists>u. fs_step o1 t u) \<or>
        fr_stop t = Fs_Returned \<and> still_open [] (fr_life t) = [] \<and>
        fr_received t = fs_delivers (fo_cfg o1, fr_files t, fr_wakeups t)))"
proof (intro conjI impI)
  note o = New_fs_all_open [OF assms(1)]
  have i: "fs_control s" "fs_data o1 s" using fs_reached_inv [OF assms(2) o] by simp_all
  show "\<not> fr_panicked s" using i(1) by (simp add: fs_control_def)
  have "take (fr_passed s) (st_sent (fr_state s)) = fr_received s @ fr_chan s"
    using i(2) unfolding fs_data_def by blast
  moreover have "fs_delivers (fo_cfg o1, fr_files s, fr_wakeups s) = st_sent (fr_state s)"
    using i(2) assms(3) by (simp add: fs_data_def fs_delivers_def)
  ultimately
  show "\<exists>rest. fs_delivers (fo_cfg o1, fr_files s, fr_wakeups s) = fr_received s @ fr_chan s @ rest"
    by (metis append.assoc append_take_drop_id)
  assume called: "fr_stop s \<noteq> Fs_Uncalled"
  then have s: "fs_stopping o1 s" using i assms(3) New_fs_buffer [OF assms(1)] by (simp add: fs_stopping_def)
  show "\<exists>i. \<not> fs_step o1 (run i) (run (Suc i))" if "run 0 = s"
    using fs_shutdown.no_endless_run [of o1 run] s that by simp
  assume st: "(fs_step o1)\<^sup>*\<^sup>* s t"
  show "(\<exists>u. fs_step o1 t u) \<or> fr_stop t = Fs_Returned \<and> still_open [] (fr_life t) = [] \<and>
      fr_received t = fs_delivers (fo_cfg o1, fr_files t, fr_wakeups t)"
  proof (cases "\<exists>u. fs_step o1 t u")
    case False
    have t: "fs_stopping o1 t" by (rule fs_shutdown.keeps_steps [OF st s])
    have v: "fs_over t" using fs_shutdown.over_when_stuck [OF st s False] .
    then have "fr_loop t = Fs_Exited" using t by (auto simp: fs_over_def fs_stopping_def fs_control_def)
    then show ?thesis
      using t v by (auto simp: fs_over_def fs_stopping_def fs_control_def fs_data_def fs_held_def all_passed_def fs_delivers_def)
  qed blast
qed

text \<open>When \<open>New\<close> fails, every descriptor it acquired is closed.\<close>

lemma failed_New_fs_closes_all:
  assumes "New_fs env mountFD own_pid opts = (Inl err, tr)"
  shows "still_open [] tr = []"
  using New_fs_open [of env mountFD own_pid opts] assms by simp

text \<open>\<open>Stop\<close> has no guard against a second call, as those of the other observers have: it closes the events channel
  again.\<close>

lemma second_stop_panics:
  assumes "fs_control s" "fr_stop s = Fs_Returned"
  shows "\<exists>t. (fs_step o1)\<^sup>*\<^sup>* (s\<lparr>fr_stop := Fs_Waiting\<rparr>) t \<and> fr_panicked t"
proof -
  have s: "fr_stopped s" "fr_closed s" using assms by (auto simp: fs_control_def)
  have close: "(fs_step o1)\<^sup>*\<^sup>* t (t\<lparr>fr_stop := Fs_Releasing [], fr_life := fr_life t @ map Closes hs\<rparr>)"
    if "fr_stop t = Fs_Releasing hs" for t hs
    using that
  proof (induction hs arbitrary: t)
    case (Cons h hs)
    let ?u = "t\<lparr>fr_stop := Fs_Releasing hs, fr_life := fr_life t @ [Closes h]\<rparr>"
    have "fs_step o1 t ?u" by (rule stop_closes [OF Cons.prems])
    with Cons.IH [of ?u] show ?case by (simp add: converse_rtranclp_into_rtranclp)
  next
    case Nil
    then have "t\<lparr>fr_stop := Fs_Releasing [], fr_life := fr_life t @ map Closes []\<rparr> = t" by (cases t) simp
    then show ?case by simp
  qed
  let ?w = "s\<lparr>fr_stop := Fs_Waiting\<rparr>"
  let ?r = "?w\<lparr>fr_stop := Fs_Releasing fs_open\<rparr>"
  let ?e = "?r\<lparr>fr_stop := Fs_Releasing [], fr_life := fr_life ?r @ map Closes fs_open\<rparr>"
  have "fs_step o1 ?w ?r" by (rule stop_goes_on) (simp_all add: s)
  moreover have "(fs_step o1)\<^sup>*\<^sup>* ?r ?e" by (rule close) simp
  moreover have "fs_step o1 ?e (?e\<lparr>fr_stop := Fs_Returned, fr_panicked := (fr_panicked ?e \<or> fr_closed ?e), fr_closed := True\<rparr>)"
    by (rule stop_ends) simp
  ultimately have "(fs_step o1)\<^sup>*\<^sup>* ?w (?e\<lparr>fr_stop := Fs_Returned, fr_panicked := (fr_panicked ?e \<or> fr_closed ?e), fr_closed := True\<rparr>)"
    by (meson converse_rtranclp_into_rtranclp rtranclp.rtrancl_into_rtrancl)
  moreover have "fr_panicked (?e\<lparr>fr_stop := Fs_Returned, fr_panicked := (fr_panicked ?e \<or> fr_closed ?e), fr_closed := True\<rparr>)"
    by (simp add: s)
  ultimately show ?thesis by blast
qed

section \<open>Witnesses\<close>

definition ex_options :: fs_options where
  "ex_options = \<lparr>fo_Path = ''/w'', fo_PathFilter = ''/w'', fo_PIDFilter = 0, fo_EventBufSize = 0\<rparr>"

definition ex_fs_observer :: fs_observer where
  "ex_fs_observer = \<lparr>fo_cfg = Fs_Observer.ex_cfg, fo_buffer = 4096\<rparr>"

lemma ex_New_fs: "New_fs (\<lambda>_. None) 3 7 ex_options = (Inr ex_fs_observer, map Opens fs_open)"
  by (simp add: New_fs_def initFanotify_def markFilesystem_def openMountFD_def attempt_def ex_options_def ex_fs_observer_def
      Fs_Observer.ex_cfg_def fs_open_def)

definition ex_started :: fs_run where
  "ex_started = (fs_init (map Opens fs_open))
     \<lparr>fr_loop := Polling, fr_state := started Fs_Observer.ex_cfg [], fr_stop := Fs_Waiting, fr_signal := True\<rparr>"

lemma ex_started_reached: "fs_reached ex_fs_observer (fs_init (map Opens fs_open)) ex_started"
proof -
  let ?i = "fs_init (map Opens fs_open)"
  let ?s = "?i\<lparr>fr_loop := Polling, fr_state := started Fs_Observer.ex_cfg []\<rparr>"
  have "fs_call_step ex_fs_observer ?i ?s"
    using calls_start [of ?i ex_fs_observer "[]"] by (simp add: fs_init_def ex_fs_observer_def)
  moreover have "fs_call_step ex_fs_observer ?s ex_started"
    using calls_stop [of ?s ex_fs_observer] by (simp add: fs_init_def ex_started_def)
  ultimately show ?thesis by (blast intro: fs_reached_init fs_reached_call)
qed

theorem fs_delivers_all_witness:
  "\<exists>t. (fs_step ex_fs_observer)\<^sup>*\<^sup>* ex_started t \<and> fr_stop t = Fs_Returned \<and> still_open [] (fr_life t) = []"
proof -
  note o = New_fs_all_open [OF ex_New_fs]
  have c: "fr_stop ex_started \<noteq> Fs_Uncalled" "fr_loop ex_started \<noteq> Fs_Unstarted" by (simp_all add: ex_started_def)
  then have s: "fs_stopping ex_fs_observer ex_started"
    using fs_reached_inv [OF ex_started_reached o] by (simp add: fs_stopping_def ex_fs_observer_def)
  then obtain t where t: "(fs_step ex_fs_observer)\<^sup>*\<^sup>* ex_started t" "fs_over t"
    using fs_shutdown.can_end [of ex_fs_observer ex_started] by blast
  have st: "fs_stopping ex_fs_observer t" by (rule fs_shutdown.keeps_steps [OF t(1) s])
  have "\<nexists>u. fs_step ex_fs_observer t u"
    using st t(2) by (auto simp: fs_stopping_def fs_over_def fs_control_def elim!: fs_step.cases)
  then show ?thesis
    using fs_delivers_all [OF ex_New_fs ex_started_reached c(2), of "\<lambda>_. t" t] t c by auto
qed

lemma failed_New_fs_closes_all_witness: "still_open [] [Opens Fanotify_FD, Opens Mount_FD, Closes Fanotify_FD, Closes Mount_FD] = []"
proof -
  have "New_fs (\<lambda>c. if c = Pipe2 then Some ''too many open files'' else None) 3 7 ex_options =
    (Inl ''pipe2: too many open files'', [Opens Fanotify_FD, Opens Mount_FD, Closes Fanotify_FD, Closes Mount_FD])"
    by (simp add: New_fs_def initFanotify_def markFilesystem_def openMountFD_def attempt_def ex_options_def)
  from failed_New_fs_closes_all [OF this] show ?thesis .
qed

end
