(* ===== verification/Net_Life.thy ===== *)
theory Net_Life
  imports Http_Correlator Tls_Offset Probe_Life
begin

text \<open>
  The life of the network observer, \<open>pkg/probe/net/observer.go\<close>: what \<open>New\<close> and \<open>prepareTLS\<close> acquire, and give back
  when one of their calls fails, and the goroutines between \<open>Start\<close> and the end of \<open>Stop\<close>: \<open>Start\<close> itself, which
  validates candidates for \<open>SSL_write\<close>, the two feeders, the correlator and \<open>Stop\<close>.
\<close>

section \<open>New\<close>

datatype net_handle = Net_Objs | Connect_Link | Write_Link | Sendto_Link | Sendmsg_Link | Close_Link | Net_Fork_Link
  | Net_Exit_Link | Net_Reader | Tls_Objs | Ssl_Reader | Tls_Fork_Link | Tls_Exit_Link | Ssl_Write_Link

datatype net_call = Remove_Net_Memlock | Load_Net_Objects | Update_net_tracked_pids | Attach_connect | Attach_write
  | Attach_sendto | Attach_sendmsg | Attach_close | Attach_net_task_newtask | Attach_net_process_exit
  | New_Net_Reader | Load_Tls_Objects | Update_tls_tracked_pids | Open_Executable | New_Ssl_Reader
  | Attach_tls_task_newtask | Attach_tls_process_exit

record net_config =
  nc_TrackedPID :: s32
  nc_EventBufSize :: s64
  nc_ExePath :: string

text \<open>What the scan of the executable and the lookup in the cache give.\<close>

record tls_scan =
  sc_result :: "string + Candidate list"
  sc_buildID :: string
  sc_cached :: "Target option"

record tls_setup =
  tl_candidates :: "Candidate list"
  tl_buildID :: string

record net_observer =
  no_cfg :: net_config
  no_bootOffsetNs :: s64
  no_buffer :: s64
  no_tls :: "tls_setup option"

text \<open>\<open>prepareTLS\<close>: from the loading of the objects on, an error also closes these (a deferred call).\<close>

definition prepareTLS ::
  "(net_call \<Rightarrow> string option) \<Rightarrow> tls_scan \<Rightarrow> net_config \<Rightarrow> net_handle life list \<Rightarrow>
    (string + tls_setup) \<times> net_handle life list" where
  "prepareTLS env scan cfg tr =
     (case sc_result scan of
        Inl err \<Rightarrow> (Inl (''scan ELF for SSL_write: '' @ err), tr)
      | Inr found \<Rightarrow>
          (case prepared_candidates (sc_cached scan) found of
             None \<Rightarrow> (Inl (''no SSL_write candidates found in '' @ nc_ExePath cfg), tr)
           | Some candidates \<Rightarrow>
               (let attach =
                     attempt env Open_Executable (''open executable '' @ nc_ExePath cfg @ '': '') [Tls_Objs] []
                    (attempt env New_Ssl_Reader ''open ssl ring buffer: '' [Tls_Objs] [Ssl_Reader]
                    (attempt env Attach_tls_task_newtask ''attach tls task_newtask: '' [Ssl_Reader, Tls_Objs] [Tls_Fork_Link]
                    (attempt env Attach_tls_process_exit ''attach tls sched_process_exit: ''
                       [Tls_Fork_Link, Ssl_Reader, Tls_Objs] [Tls_Exit_Link]
                      (\<lambda>tr. (Inr \<lparr>tl_candidates = candidates, tl_buildID = sc_buildID scan\<rparr>, tr)))))
                in attempt env Load_Tls_Objects ''load tls eBPF objects: '' [] [Tls_Objs]
                     (if 0 <s nc_TrackedPID cfg
                      then attempt env Update_tls_tracked_pids ''update tls tracked_pids: '' [Tls_Objs] [] attach
                      else attach) tr)))"

definition attach_net_programs ::
  "(net_call \<Rightarrow> string option) \<Rightarrow> (net_handle life list \<Rightarrow> (string + 'o) \<times> net_handle life list) \<Rightarrow>
    net_handle life list \<Rightarrow> (string + 'o) \<times> net_handle life list" where
  "attach_net_programs env next =
     attempt env Attach_connect ''attach sys_enter_connect: '' [Net_Objs] [Connect_Link]
    (attempt env Attach_write ''attach sys_enter_write: '' [Connect_Link, Net_Objs] [Write_Link]
    (attempt env Attach_sendto ''attach sys_enter_sendto: '' [Write_Link, Connect_Link, Net_Objs] [Sendto_Link]
    (attempt env Attach_sendmsg ''attach sys_enter_sendmsg: '' [Sendto_Link, Write_Link, Connect_Link, Net_Objs] [Sendmsg_Link]
    (attempt env Attach_close ''attach sys_enter_close: ''
       [Sendmsg_Link, Sendto_Link, Write_Link, Connect_Link, Net_Objs] [Close_Link]
    (attempt env Attach_net_task_newtask ''attach task_newtask: ''
       [Close_Link, Sendmsg_Link, Sendto_Link, Write_Link, Connect_Link, Net_Objs] [Net_Fork_Link]
    (attempt env Attach_net_process_exit ''attach sched_process_exit: ''
       [Net_Fork_Link, Close_Link, Sendmsg_Link, Sendto_Link, Write_Link, Connect_Link, Net_Objs] [Net_Exit_Link]
    (attempt env New_Net_Reader ''open ring buffer: ''
       [Net_Exit_Link, Net_Fork_Link, Close_Link, Sendmsg_Link, Sendto_Link, Write_Link, Connect_Link, Net_Objs]
       [Net_Reader] next)))))))"

text \<open>The end of \<open>New\<close>, when the tracepoints are attached.\<close>

definition finish_New ::
  "(net_call \<Rightarrow> string option) \<Rightarrow> tls_scan \<Rightarrow> net_observer \<Rightarrow> net_handle life list \<Rightarrow>
    (string + net_observer) \<times> net_handle life list" where
  "finish_New env scan o1 tr =
     (if nc_ExePath (no_cfg o1) = '''' then (Inr o1, tr)
      else case prepareTLS env scan (no_cfg o1) tr of
        (Inl err, tr1) \<Rightarrow>
          (Inl (''prepare SSL_write content capture: '' @ err),
           tr1 @ map Closes [Net_Reader, Close_Link, Sendmsg_Link, Sendto_Link, Write_Link, Connect_Link, Net_Objs])
      | (Inr setup, tr1) \<Rightarrow> (Inr (o1\<lparr>no_tls := Some setup\<rparr>), tr1))"

definition New_net ::
  "(net_call \<Rightarrow> string option) \<Rightarrow> string + s64 \<Rightarrow> s64 \<Rightarrow> tls_scan \<Rightarrow> net_config \<Rightarrow>
    (string + net_observer) \<times> net_handle life list" where
  "New_net env monotonic wallNs scan cfg =
     (let c = cfg\<lparr>nc_EventBufSize := (if nc_EventBufSize cfg \<le>s 0 then 4096 else nc_EventBufSize cfg)\<rparr>
      in attempt env Remove_Net_Memlock ''remove memlock rlimit: '' [] []
        (\<lambda>tr. case computeBootOffsetNs monotonic wallNs of
            Inl err \<Rightarrow> (Inl (''compute boot offset: '' @ err), tr)
          | Inr boot \<Rightarrow>
              (let attach = attach_net_programs env (finish_New env scan
                    \<lparr>no_cfg = c, no_bootOffsetNs = boot, no_buffer = nc_EventBufSize c, no_tls = None\<rparr>)
               in attempt env Load_Net_Objects ''load eBPF objects: '' [] [Net_Objs]
                    (if 0 <s nc_TrackedPID c
                     then attempt env Update_net_tracked_pids ''update tracked_pids: '' [Net_Objs] [] attach
                     else attach) tr))
        [])"

section \<open>What New leaves open\<close>

definition base_links :: "net_handle list" where
  "base_links = [Net_Objs, Connect_Link, Write_Link, Sendto_Link, Sendmsg_Link, Close_Link, Net_Fork_Link, Net_Exit_Link]"

definition tls_links :: "net_handle list" where
  "tls_links = [Tls_Objs, Ssl_Reader, Tls_Fork_Link, Tls_Exit_Link]"

lemma prepareTLS_open:
  assumes "still_open [] tr = hs" "distinct hs" "set hs \<inter> set tls_links = {}"
  shows "still_open [] (snd (prepareTLS env scan cfg tr)) =
    (case fst (prepareTLS env scan cfg tr) of Inl err \<Rightarrow> hs | Inr setup \<Rightarrow> hs @ tls_links)"
  using assms(2,3)
  by (auto simp: prepareTLS_def attempt_def Let_def still_open_append assms(1) tls_links_def remove1_append remove1_idem
      split: sum.split option.split)

definition net_open :: "net_observer \<Rightarrow> net_handle list" where
  "net_open o1 = base_links @ [Net_Reader] @ (if no_tls o1 = None then [] else tls_links)"

text \<open>After success everything is open; after an error nothing, or the links of \<open>task_newtask\<close> and
  \<open>sched_process_exit\<close> when the ring buffer was already open: only \<open>prepareTLS\<close> comes after that.\<close>

definition net_left_open :: "(string + net_observer) \<times> net_handle life list \<Rightarrow> bool" where
  "net_left_open r \<longleftrightarrow>
     still_open [] (snd r) =
       (case fst r of
          Inr o1 \<Rightarrow> net_open o1
        | Inl err \<Rightarrow> if Opens Net_Reader \<in> set (snd r) then [Net_Fork_Link, Net_Exit_Link] else [])"

lemma prepareTLS_trace:
  "\<exists>tr'. snd (prepareTLS env scan cfg tr) = tr @ tr' \<and> Opens Net_Reader \<notin> set tr'"
  by (auto simp: prepareTLS_def attempt_def Let_def split: sum.split option.split)

lemma attach_net_left_open:
  assumes "\<And>tr. still_open [] tr = base_links @ [Net_Reader] \<Longrightarrow> Opens Net_Reader \<in> set tr \<Longrightarrow> net_left_open (next tr)"
    and "still_open [] tr = [Net_Objs]" "Opens Net_Reader \<notin> set tr"
  shows "net_left_open (attach_net_programs env next tr)"
proof -
  have e: "net_left_open (Inl err, tr @ tr')" if "still_open [Net_Objs] tr' = []" "Opens Net_Reader \<notin> set tr'" for err tr'
    using assms(2,3) that by (simp add: net_left_open_def still_open_append)
  have n: "net_left_open (next (tr @ tr'))"
    if "still_open [Net_Objs] tr' = base_links @ [Net_Reader]" "Opens Net_Reader \<in> set tr'" for tr'
    using assms(1) [of "tr @ tr'"] assms(2) that by (simp add: still_open_append)
  show ?thesis
    unfolding attach_net_programs_def attempt_def
    by (auto simp: e n base_links_def split: option.split)
qed

lemma finish_left_open:
  assumes "still_open [] tr = base_links @ [Net_Reader]" "Opens Net_Reader \<in> set tr" "no_tls o1 = None"
  shows "net_left_open (finish_New env scan o1 tr)"
proof (cases "prepareTLS env scan (no_cfg o1) tr")
  case (Pair res tr1)
  have t: "Opens Net_Reader \<in> set tr1" using prepareTLS_trace [of env scan "no_cfg o1" tr] assms(2) Pair by auto
  have "still_open [] tr1 = (case res of Inl err \<Rightarrow> base_links @ [Net_Reader] | Inr setup \<Rightarrow> (base_links @ [Net_Reader]) @ tls_links)"
    using prepareTLS_open [OF assms(1), of env scan "no_cfg o1"] Pair by (simp add: base_links_def tls_links_def)
  then show ?thesis
    using t assms
    by (cases res) (auto simp: finish_New_def Pair net_left_open_def net_open_def still_open_append base_links_def)
qed

lemma New_net_left_open: "net_left_open (New_net env monotonic wallNs scan cfg)"
proof -
  have a: "net_left_open (attach_net_programs env (finish_New env scan
      \<lparr>no_cfg = c, no_bootOffsetNs = boot, no_buffer = b, no_tls = None\<rparr>) [Opens Net_Objs])" for c boot b
    by (rule attach_net_left_open) (auto intro: finish_left_open)
  have e: "net_left_open (Inl err, [])" "net_left_open (Inl err, [Opens Net_Objs, Closes Net_Objs])" for err
    by (simp_all add: net_left_open_def)
  show ?thesis
    unfolding New_net_def attempt_def Let_def by (simp add: a e split: option.split sum.split)
qed

section \<open>The goroutines\<close>

text \<open>
  \<open>Start\<close> tries the candidates in turn, each either not attached, or attached and waiting for a frame, and then
  closes \<open>tlsReady\<close>. A feeder waits for a record or holds one for its channel of 64, and closes the channel when
  its reader is closed. The correlator selects from the channels that are still open, then closes the
  events channel and \<open>stopped\<close>; a panic in it ends the process.
\<close>

datatype start_pc = Start_Uncalled | Trying "Candidate list" | Attached Candidate "Candidate list" | Start_Closing
  | Start_Returned

datatype 'r feed_pc = Feed_Unstarted | Feed_Waiting | Feed_Reading | Feed_Holding 'r | Feed_Ended

datatype corr_pc = Corr_Unstarted | Corr_Starting | Selecting bool bool | Corr_Closing | Corr_Ended | Corr_Crashed

datatype net_stop_pc = Net_Uncalled | Closing_Ssl | Waiting_Corr | Net_Releasing "net_handle list" | Net_Returned

record net_run =
  ng_start :: start_pc
  ng_tried :: "(Candidate \<times> bool \<times> bytes option) list"
  ng_ready :: bool
  ng_active :: bool
  ng_validation :: "frame option"
  ng_stored :: "Target option"
  ng_attach_error :: "attach_error option"
  ng_net_open :: bool
  ng_ssl_open :: bool
  ng_net_ring :: "bytes list"
  ng_ssl_ring :: "bytes list"
  ng_netfeed :: "netRecord feed_pc"
  ng_sslfeed :: "frame feed_pc"
  ng_netCh :: "netRecord list"
  ng_sslCh :: "frame list"
  ng_corr :: corr_pc
  ng_state :: correlator
  ng_received :: nat
  ng_events_closed :: bool
  ng_stopped :: bool
  ng_stop :: net_stop_pc
  ng_life :: "net_handle life list"
  ng_panicked :: bool
  ng_net_read :: "bytes list"
  ng_ssl_read :: "bytes list"
  ng_net_arrived :: "bytes list"
  ng_handled :: "feed list"

definition net_init :: "net_observer \<Rightarrow> net_handle life list \<Rightarrow> net_run" where
  "net_init o1 tr = \<lparr>ng_start = Start_Uncalled, ng_tried = [], ng_ready = False, ng_active = False, ng_validation = None,
     ng_stored = None, ng_attach_error = None, ng_net_open = True, ng_ssl_open = (no_tls o1 \<noteq> None), ng_net_ring = [],
     ng_ssl_ring = [], ng_netfeed = Feed_Unstarted, ng_sslfeed = Feed_Unstarted, ng_netCh = [], ng_sslCh = [],
     ng_corr = Corr_Unstarted, ng_state = new_correlator, ng_received = 0, ng_events_closed = False, ng_stopped = False,
     ng_stop = Net_Uncalled, ng_life = tr, ng_panicked = False, ng_net_read = [], ng_ssl_read = [], ng_net_arrived = [],
     ng_handled = []\<rparr>"

text \<open>What \<open>Stop\<close> closes after the correlator has ended; closing objects that were never loaded does nothing.\<close>

definition net_stop_links :: "net_observer \<Rightarrow> net_run \<Rightarrow> net_handle list" where
  "net_stop_links o1 s =
     (if ng_active s then [Ssl_Write_Link] else []) @
     (if no_tls o1 \<noteq> None then [Tls_Fork_Link, Tls_Exit_Link, Tls_Objs] else []) @
     [Close_Link, Sendmsg_Link, Sendto_Link, Write_Link, Connect_Link, Net_Fork_Link, Net_Exit_Link, Net_Objs]"

text \<open>The steps of \<open>Start\<close>.\<close>

inductive start_step :: "net_observer \<Rightarrow> net_run \<Rightarrow> net_run \<Rightarrow> bool" for o1 where
  not_attached: "ng_start s = Trying (c # cs) \<Longrightarrow>
    start_step o1 s (s\<lparr>ng_start := Trying cs, ng_tried := ng_tried s @ [(c, False, None)]\<rparr>)"
| attaches: "ng_start s = Trying (c # cs) \<Longrightarrow>
    start_step o1 s (s\<lparr>ng_start := Attached c cs, ng_life := ng_life s @ [Opens Ssl_Write_Link]\<rparr>)"
| no_frame: "ng_start s = Attached c cs \<Longrightarrow>
    start_step o1 s (s\<lparr>ng_start := Trying cs, ng_tried := ng_tried s @ [(c, True, None)],
      ng_life := ng_life s @ [Closes Ssl_Write_Link]\<rparr>)"
| rejects: "ng_start s = Attached c cs \<Longrightarrow> ng_ssl_open s \<Longrightarrow> ng_ssl_ring s = raw # rest \<Longrightarrow>
    fst (validateSSLWriteCandidate (Some raw)) = None \<Longrightarrow>
    start_step o1 s (s\<lparr>ng_start := Trying cs, ng_ssl_ring := rest, ng_tried := ng_tried s @ [(c, True, Some raw)],
      ng_life := ng_life s @ [Closes Ssl_Write_Link]\<rparr>)"
| validates: "ng_start s = Attached c cs \<Longrightarrow> ng_ssl_open s \<Longrightarrow> ng_ssl_ring s = raw # rest \<Longrightarrow>
    fst (validateSSLWriteCandidate (Some raw)) = Some f \<Longrightarrow> no_tls o1 = Some setup \<Longrightarrow>
    start_step o1 s (s\<lparr>ng_start := Start_Closing, ng_ssl_ring := rest, ng_tried := ng_tried s @ [(c, True, Some raw)],
      ng_validation := Some f, ng_active := True,
      ng_stored := Some \<lparr>tg_Path = nc_ExePath (no_cfg o1), tg_BuildID = tl_buildID setup, tg_SSLWrite = ca_FileOff c\<rparr>\<rparr>)"
| none_validated: "ng_start s = Trying [] \<Longrightarrow> attachAndValidateTLS (ng_tried s) = Inl err \<Longrightarrow>
    start_step o1 s (s\<lparr>ng_start := Start_Closing, ng_attach_error := Some err, ng_ssl_open := False,
      ng_life := ng_life s @ [Closes Ssl_Reader]\<rparr>)"
| start_returns: "ng_start s = Start_Closing \<Longrightarrow> start_step o1 s (s\<lparr>ng_start := Start_Returned, ng_ready := True\<rparr>)"

text \<open>The steps of the feeders.\<close>

inductive feed_step :: "net_run \<Rightarrow> net_run \<Rightarrow> bool" where
  net_skips: "ng_netfeed s = Feed_Reading \<Longrightarrow> ng_net_open s \<Longrightarrow> ng_net_ring s = raw # rest \<Longrightarrow> netFeed_decode raw = None \<Longrightarrow>
    feed_step s (s\<lparr>ng_net_ring := rest, ng_net_read := ng_net_read s @ [raw]\<rparr>)"
| net_reads: "ng_netfeed s = Feed_Reading \<Longrightarrow> ng_net_open s \<Longrightarrow> ng_net_ring s = raw # rest \<Longrightarrow> netFeed_decode raw = Some r \<Longrightarrow>
    feed_step s (s\<lparr>ng_net_ring := rest, ng_net_read := ng_net_read s @ [raw], ng_netfeed := Feed_Holding r\<rparr>)"
| net_passes: "ng_netfeed s = Feed_Holding r \<Longrightarrow> length (ng_netCh s) < 64 \<Longrightarrow>
    feed_step s (s\<lparr>ng_netCh := ng_netCh s @ [r], ng_netfeed := Feed_Reading\<rparr>)"
| net_feed_ends: "ng_netfeed s = Feed_Reading \<Longrightarrow> \<not> ng_net_open s \<Longrightarrow> feed_step s (s\<lparr>ng_netfeed := Feed_Ended\<rparr>)"
| ssl_inactive: "ng_sslfeed s = Feed_Waiting \<Longrightarrow> ng_ready s \<Longrightarrow> \<not> ng_active s \<Longrightarrow> feed_step s (s\<lparr>ng_sslfeed := Feed_Ended\<rparr>)"
| ssl_replays: "ng_sslfeed s = Feed_Waiting \<Longrightarrow> ng_ready s \<Longrightarrow> ng_active s \<Longrightarrow>
    feed_step s (s\<lparr>ng_sslfeed := (case ng_validation s of None \<Rightarrow> Feed_Reading | Some f \<Rightarrow> Feed_Holding f)\<rparr>)"
| ssl_skips: "ng_sslfeed s = Feed_Reading \<Longrightarrow> ng_ssl_open s \<Longrightarrow> ng_ssl_ring s = raw # rest \<Longrightarrow> sslFeed_decode raw = None \<Longrightarrow>
    feed_step s (s\<lparr>ng_ssl_ring := rest, ng_ssl_read := ng_ssl_read s @ [raw]\<rparr>)"
| ssl_reads: "ng_sslfeed s = Feed_Reading \<Longrightarrow> ng_ssl_open s \<Longrightarrow> ng_ssl_ring s = raw # rest \<Longrightarrow> sslFeed_decode raw = Some f \<Longrightarrow>
    feed_step s (s\<lparr>ng_ssl_ring := rest, ng_ssl_read := ng_ssl_read s @ [raw], ng_sslfeed := Feed_Holding f\<rparr>)"
| ssl_passes: "ng_sslfeed s = Feed_Holding f \<Longrightarrow> length (ng_sslCh s) < 64 \<Longrightarrow>
    feed_step s (s\<lparr>ng_sslCh := ng_sslCh s @ [f], ng_sslfeed := Feed_Reading\<rparr>)"
| ssl_feed_ends: "ng_sslfeed s = Feed_Reading \<Longrightarrow> \<not> ng_ssl_open s \<Longrightarrow> feed_step s (s\<lparr>ng_sslfeed := Feed_Ended\<rparr>)"

text \<open>The correlator, over a room of the events channel at each attempt to send; a send on the closed
  channel would panic.\<close>

definition handle_net :: "net_observer \<Rightarrow> channel_room \<Rightarrow> netRecord \<Rightarrow> net_run \<Rightarrow> net_run" where
  "handle_net o1 room r s =
     s\<lparr>ng_state := handleNetRecord (no_bootOffsetNs o1) r (has_room room (ng_state s)) (ng_state s),
       ng_handled := ng_handled s @ [FromNet r], ng_panicked := (ng_panicked s \<or> ng_events_closed s)\<rparr>"

definition handle_ssl :: "net_observer \<Rightarrow> channel_room \<Rightarrow> frame \<Rightarrow> net_run \<Rightarrow> net_run" where
  "handle_ssl o1 room f s =
     (let s1 = s\<lparr>ng_handled := ng_handled s @ [FromSSL f], ng_panicked := (ng_panicked s \<or> ng_events_closed s)\<rparr>
      in case handleSSLFrame (fr_tgid f) (fr_tid f) (fr_data f) (time_Unix (fr_ts f + no_bootOffsetNs o1)) room (ng_state s) of
        None \<Rightarrow> s1\<lparr>ng_corr := Corr_Crashed\<rparr>
      | Some c \<Rightarrow> s1\<lparr>ng_state := c\<rparr>)"

inductive corr_step :: "net_observer \<Rightarrow> channel_room \<Rightarrow> net_run \<Rightarrow> net_run \<Rightarrow> bool" for o1 room where
  corr_starts: "ng_corr s = Corr_Starting \<Longrightarrow>
    corr_step o1 room s (s\<lparr>ng_corr := Selecting True True, ng_netfeed := Feed_Reading, ng_sslfeed := Feed_Waiting\<rparr>)"
| takes_net: "ng_corr s = Selecting True b \<Longrightarrow> ng_netCh s = r # rest \<Longrightarrow>
    corr_step o1 room s (handle_net o1 room r (s\<lparr>ng_netCh := rest\<rparr>))"
| net_closed: "ng_corr s = Selecting True b \<Longrightarrow> ng_netCh s = [] \<Longrightarrow> ng_netfeed s = Feed_Ended \<Longrightarrow>
    corr_step o1 room s (s\<lparr>ng_corr := Selecting False b\<rparr>)"
| takes_ssl: "ng_corr s = Selecting a True \<Longrightarrow> ng_sslCh s = f # rest \<Longrightarrow>
    corr_step o1 room s (handle_ssl o1 room f (s\<lparr>ng_sslCh := rest\<rparr>))"
| ssl_closed: "ng_corr s = Selecting a True \<Longrightarrow> ng_sslCh s = [] \<Longrightarrow> ng_sslfeed s = Feed_Ended \<Longrightarrow>
    corr_step o1 room s (s\<lparr>ng_corr := Selecting a False\<rparr>)"
| closes_events: "ng_corr s = Selecting False False \<Longrightarrow>
    corr_step o1 room s (s\<lparr>ng_corr := Corr_Closing, ng_events_closed := True, ng_panicked := (ng_panicked s \<or> ng_events_closed s)\<rparr>)"
| closes_stopped: "ng_corr s = Corr_Closing \<Longrightarrow> corr_step o1 room s (s\<lparr>ng_corr := Corr_Ended, ng_stopped := True\<rparr>)"

inductive life_step :: "net_observer \<Rightarrow> channel_room \<Rightarrow> net_run \<Rightarrow> net_run \<Rightarrow> bool" for o1 room where
  starter: "start_step o1 s t \<Longrightarrow> life_step o1 room s t"
| feeder: "feed_step s t \<Longrightarrow> life_step o1 room s t"
| correlator: "corr_step o1 room s t \<Longrightarrow> life_step o1 room s t"
| net_receives: "ng_received s < length (co_sent (ng_state s)) \<Longrightarrow> life_step o1 room s (s\<lparr>ng_received := ng_received s + 1\<rparr>)"
| closes_ssl: "ng_stop s = Closing_Ssl \<Longrightarrow> life_step o1 room s
    (s\<lparr>ng_stop := Waiting_Corr, ng_ssl_open := False,
       ng_life := ng_life s @ (if no_tls o1 \<noteq> None then [Closes Ssl_Reader] else [])\<rparr>)"
| net_stop_goes_on: "ng_stop s = Waiting_Corr \<Longrightarrow> ng_stopped s \<Longrightarrow>
    life_step o1 room s (s\<lparr>ng_stop := Net_Releasing (net_stop_links o1 s)\<rparr>)"
| net_stop_closes: "ng_stop s = Net_Releasing (h # hs) \<Longrightarrow>
    life_step o1 room s (s\<lparr>ng_stop := Net_Releasing hs, ng_life := ng_life s @ [Closes h]\<rparr>)"
| net_stop_returns: "ng_stop s = Net_Releasing [] \<Longrightarrow> life_step o1 room s (s\<lparr>ng_stop := Net_Returned\<rparr>)"

text \<open>From outside: \<open>Start\<close>, at most once, \<open>Stop\<close>, and records of the two kernel programs.\<close>

inductive net_call_step :: "net_observer \<Rightarrow> net_run \<Rightarrow> net_run \<Rightarrow> bool" for o1 where
  calls_start: "ng_start s = Start_Uncalled \<Longrightarrow> net_call_step o1 s
    (s\<lparr>ng_corr := Corr_Starting,
       ng_start := (case no_tls o1 of None \<Rightarrow> Start_Closing | Some setup \<Rightarrow> Trying (tl_candidates setup))\<rparr>)"
| calls_stop: "ng_stop s = Net_Uncalled \<Longrightarrow>
    net_call_step o1 s (s\<lparr>ng_stop := Closing_Ssl, ng_net_open := False, ng_life := ng_life s @ [Closes Net_Reader]\<rparr>)"
| calls_stop_again: "ng_stop s \<noteq> Net_Uncalled \<Longrightarrow> net_call_step o1 s s"
| net_arrives: "net_call_step o1 s (s\<lparr>ng_net_ring := ng_net_ring s @ [raw], ng_net_arrived := ng_net_arrived s @ [raw]\<rparr>)"
| ssl_arrives: "net_call_step o1 s (s\<lparr>ng_ssl_ring := ng_ssl_ring s @ [raw]\<rparr>)"

inductive net_reached :: "net_observer \<Rightarrow> channel_room \<Rightarrow> net_run \<Rightarrow> net_run \<Rightarrow> bool" for o1 room s where
  net_reached_init: "net_reached o1 room s s"
| net_reached_step: "net_reached o1 room s t \<Longrightarrow> life_step o1 room t u \<Longrightarrow> net_reached o1 room s u"
| net_reached_call: "net_reached o1 room s t \<Longrightarrow> net_call_step o1 t u \<Longrightarrow> net_reached o1 room s u"

section \<open>Invariant\<close>

definition start_inv :: "net_observer \<Rightarrow> net_run \<Rightarrow> bool" where
  "start_inv o1 s \<longleftrightarrow>
     (ng_corr s = Corr_Unstarted \<longleftrightarrow> ng_start s = Start_Uncalled) \<and> (ng_ready s \<longleftrightarrow> ng_start s = Start_Returned) \<and>
     (ng_active s \<longrightarrow> ng_start s \<in> {Start_Closing, Start_Returned} \<and> ng_validation s \<noteq> None \<and> no_tls o1 \<noteq> None) \<and>
     (no_tls o1 = None \<longrightarrow> ng_start s \<in> {Start_Uncalled, Start_Closing, Start_Returned})"

definition feed_inv :: "net_run \<Rightarrow> bool" where
  "feed_inv s \<longleftrightarrow>
     (ng_netfeed s = Feed_Unstarted \<longleftrightarrow> ng_corr s \<in> {Corr_Unstarted, Corr_Starting}) \<and>
     (ng_sslfeed s = Feed_Unstarted \<longleftrightarrow> ng_corr s \<in> {Corr_Unstarted, Corr_Starting}) \<and>
     ng_netfeed s \<noteq> Feed_Waiting \<and> (ng_sslfeed s \<notin> {Feed_Unstarted, Feed_Waiting} \<longrightarrow> ng_ready s) \<and>
     (ng_sslfeed s \<notin> {Feed_Unstarted, Feed_Waiting, Feed_Ended} \<longrightarrow> ng_active s) \<and>
     (ng_netfeed s = Feed_Unstarted \<longrightarrow> ng_netCh s = []) \<and>
     (ng_sslfeed s \<in> {Feed_Unstarted, Feed_Waiting} \<longrightarrow> ng_sslCh s = [])"

definition corr_inv :: "net_run \<Rightarrow> bool" where
  "corr_inv s \<longleftrightarrow>
     (\<forall>a b. ng_corr s = Selecting a b \<longrightarrow>
        (\<not> a \<longrightarrow> ng_netfeed s = Feed_Ended \<and> ng_netCh s = []) \<and> (\<not> b \<longrightarrow> ng_sslfeed s = Feed_Ended \<and> ng_sslCh s = [])) \<and>
     (ng_corr s \<in> {Corr_Closing, Corr_Ended} \<longrightarrow>
        ng_netfeed s = Feed_Ended \<and> ng_netCh s = [] \<and> ng_sslfeed s = Feed_Ended \<and> ng_sslCh s = []) \<and>
     (ng_stopped s \<longleftrightarrow> ng_corr s = Corr_Ended) \<and> (ng_events_closed s \<longleftrightarrow> ng_corr s \<in> {Corr_Closing, Corr_Ended}) \<and>
     \<not> ng_panicked s \<and> ng_received s \<le> length (co_sent (ng_state s))"

definition stop_inv :: "net_observer \<Rightarrow> net_run \<Rightarrow> bool" where
  "stop_inv o1 s \<longleftrightarrow>
     (ng_net_open s \<longleftrightarrow> ng_stop s = Net_Uncalled) \<and> (ng_ssl_open s \<longrightarrow> ng_stop s \<in> {Net_Uncalled, Closing_Ssl} \<and> no_tls o1 \<noteq> None) \<and>
     (ng_stop s \<notin> {Net_Uncalled, Closing_Ssl, Waiting_Corr} \<longrightarrow> ng_stopped s)"

fun is_attached :: "start_pc \<Rightarrow> bool" where
  "is_attached (Attached c cs) = True"
| "is_attached _ = False"

definition net_held :: "net_observer \<Rightarrow> net_run \<Rightarrow> net_handle multiset" where
  "net_held o1 s =
     (case ng_stop s of
        Net_Releasing hs \<Rightarrow> mset hs
      | Net_Returned \<Rightarrow> {#}
      | _ \<Rightarrow> mset base_links + (if ng_stop s = Net_Uncalled then {#Net_Reader#} else {#}) +
          (if no_tls o1 \<noteq> None then {#Tls_Objs, Tls_Fork_Link, Tls_Exit_Link#} else {#}) +
          (if ng_ssl_open s then {#Ssl_Reader#} else {#}) +
          (if ng_active s \<or> is_attached (ng_start s) then {#Ssl_Write_Link#} else {#}))"

definition life_inv :: "net_observer \<Rightarrow> net_run \<Rightarrow> bool" where
  "life_inv o1 s \<longleftrightarrow> mset (still_open [] (ng_life s)) = net_held o1 s"

lemmas net_invs = start_inv_def feed_inv_def corr_inv_def stop_inv_def

definition net_control :: "net_observer \<Rightarrow> net_run \<Rightarrow> bool" where
  "net_control o1 s \<longleftrightarrow> start_inv o1 s \<and> feed_inv s \<and> corr_inv s \<and> stop_inv o1 s"

lemma net_control_init: "net_control o1 (net_init o1 tr)"
  by (auto simp: net_control_def net_invs net_init_def)

lemma sent_grows_net: "length (co_sent c) \<le> length (co_sent (handleNetRecord boot r room c))"
  by (auto simp: handleNetRecord_def Let_def emit_def send_def split: option.split sum.split)

lemma frame_loop_sent:
  "case frame_loop tgid ts room s c of Waiting s' c' \<Rightarrow> length (co_sent c) \<le> length (co_sent c')
     | Abandoned c' \<Rightarrow> length (co_sent c) \<le> length (co_sent c') | Crashed \<Rightarrow> True"
proof (induction tgid ts room s c rule: frame_loop.induct)
  case (1 tgid ts room s c)
  obtain r s1 where p: "ParseHTTP1 s = (r, s1)" by (cases "ParseHTTP1 s")
  have e: "length (co_sent c) \<le> length (co_sent (emitNetRequest tgid req ts room c))" for req
    by (auto simp: emitNetRequest_def Let_def count_unattributed_def send_def)
  show ?case
    using 1 e [THEN le_trans] by (subst frame_loop.simps) (auto simp: p count_unattributed_def split: parsed.split loop_end.splits)
qed

lemma sent_grows_ssl:
  "handleSSLFrame tgid tid data ts room c = Some c' \<Longrightarrow> length (co_sent c) \<le> length (co_sent c')"
  using frame_loop_sent [where tgid = tgid and ts = ts and room = room and c = c
      and s = "Append data (pending_stream c \<lparr>sk_tgid = tgid, sk_tid = tid\<rparr>)"]
  by (auto simp: handleSSLFrame_def Let_def split: loop_end.splits)

lemma handle_ssl_cases:
  obtains (crashed) "handle_ssl o1 room f s = s\<lparr>ng_handled := ng_handled s @ [FromSSL f],
      ng_panicked := (ng_panicked s \<or> ng_events_closed s), ng_corr := Corr_Crashed\<rparr>"
    "handleSSLFrame (fr_tgid f) (fr_tid f) (fr_data f) (time_Unix (fr_ts f + no_bootOffsetNs o1)) room (ng_state s) = None"
  | (handled) c where "handle_ssl o1 room f s = s\<lparr>ng_handled := ng_handled s @ [FromSSL f],
      ng_panicked := (ng_panicked s \<or> ng_events_closed s), ng_state := c\<rparr>"
    "handleSSLFrame (fr_tgid f) (fr_tid f) (fr_data f) (time_Unix (fr_ts f + no_bootOffsetNs o1)) room (ng_state s) = Some c"
    "length (co_sent (ng_state s)) \<le> length (co_sent c)"
  using sent_grows_ssl by (fastforce simp: handle_ssl_def Let_def split: option.splits)

text \<open>Each part of the invariant against each kind of step, with the other parts it needs.\<close>

lemma start_step_invs:
  "start_step o1 s t \<Longrightarrow> start_inv o1 s \<Longrightarrow> start_inv o1 t"
  "start_step o1 s t \<Longrightarrow> feed_inv s \<Longrightarrow> feed_inv t"
  "start_step o1 s t \<Longrightarrow> corr_inv s \<Longrightarrow> corr_inv t"
  "start_step o1 s t \<Longrightarrow> stop_inv o1 s \<Longrightarrow> stop_inv o1 t"
  by (induction rule: start_step.induct; simp add: net_invs)+

lemma feed_step_invs:
  "feed_step s t \<Longrightarrow> start_inv o1 s \<Longrightarrow> start_inv o1 t"
  "feed_step s t \<Longrightarrow> feed_inv s \<Longrightarrow> feed_inv t"
  "feed_step s t \<Longrightarrow> corr_inv s \<Longrightarrow> corr_inv t"
  "feed_step s t \<Longrightarrow> stop_inv o1 s \<Longrightarrow> stop_inv o1 t"
  subgoal by (induction rule: feed_step.induct) (simp_all add: net_invs)
  subgoal by (induction rule: feed_step.induct) (simp_all add: feed_inv_def split: option.split)
  subgoal by (induction rule: feed_step.induct) (simp_all add: corr_inv_def, (metis feed_pc.distinct)+)
  subgoal by (induction rule: feed_step.induct) (auto simp: stop_inv_def)
  done

lemma handle_net_keeps:
  "start_inv o1 (handle_net o1 room r s) = start_inv o1 s" "feed_inv (handle_net o1 room r s) = feed_inv s"
  "stop_inv o1 (handle_net o1 room r s) = stop_inv o1 s"
  by (simp_all add: handle_net_def net_invs)

lemma handle_net_corr: "corr_inv s \<Longrightarrow> \<not> ng_events_closed s \<Longrightarrow> corr_inv (handle_net o1 room r s)"
  using sent_grows_net [of "ng_state s" "no_bootOffsetNs o1" r "has_room room (ng_state s)"]
  by (simp add: handle_net_def corr_inv_def)

lemma handle_ssl_keeps:
  assumes "ng_corr s = Selecting a True"
  shows "start_inv o1 s \<Longrightarrow> start_inv o1 (handle_ssl o1 room f s)"
    and "feed_inv s \<Longrightarrow> feed_inv (handle_ssl o1 room f s)"
    and "stop_inv o1 s \<Longrightarrow> stop_inv o1 (handle_ssl o1 room f s)"
    and "corr_inv s \<Longrightarrow> corr_inv (handle_ssl o1 room f s)"
proof -
  show "start_inv o1 s \<Longrightarrow> start_inv o1 (handle_ssl o1 room f s)"
    using assms by (auto simp: handle_ssl_def Let_def start_inv_def split: option.split)
  show "feed_inv s \<Longrightarrow> feed_inv (handle_ssl o1 room f s)"
    using assms by (simp add: handle_ssl_def Let_def feed_inv_def split: option.split)
  show "stop_inv o1 s \<Longrightarrow> stop_inv o1 (handle_ssl o1 room f s)"
    using assms by (simp add: handle_ssl_def Let_def stop_inv_def split: option.split)
  assume c: "corr_inv s"
  then have r: "ng_received s \<le> length (co_sent (ng_state s))" and e: "\<not> ng_events_closed s" "\<not> ng_stopped s" "\<not> ng_panicked s"
    using assms by (simp_all add: corr_inv_def)
  show "corr_inv (handle_ssl o1 room f s)"
    by (cases rule: handle_ssl_cases [of o1 room f s]) (use c assms r e in \<open>simp_all add: corr_inv_def\<close>)
qed

lemma corr_step_invs:
  "corr_step o1 room s t \<Longrightarrow> start_inv o1 s \<Longrightarrow> start_inv o1 t"
  "corr_step o1 room s t \<Longrightarrow> feed_inv s \<Longrightarrow> feed_inv t"
  "corr_step o1 room s t \<Longrightarrow> corr_inv s \<Longrightarrow> corr_inv t"
  "corr_step o1 room s t \<Longrightarrow> stop_inv o1 s \<Longrightarrow> stop_inv o1 t"
  subgoal premises prems
    using prems
  proof (induction rule: corr_step.induct)
    case (takes_net s b r rest)
    then show ?case unfolding handle_net_keeps by (auto simp: start_inv_def)
  next
    case (takes_ssl s a f rest)
    then show ?case by (intro handle_ssl_keeps [where a = a]) (auto simp: start_inv_def)
  qed (auto simp: start_inv_def)
  subgoal premises prems
    using prems
  proof (induction rule: corr_step.induct)
    case (takes_net s b r rest)
    then show ?case unfolding handle_net_keeps by (simp add: feed_inv_def)
  next
    case (takes_ssl s a f rest)
    then show ?case by (intro handle_ssl_keeps [where a = a]) (auto simp: feed_inv_def)
  qed (auto simp: feed_inv_def)
  subgoal premises prems
    using prems
  proof (induction rule: corr_step.induct)
    case (takes_net s b r rest)
    then show ?case by (intro handle_net_corr) (auto simp: corr_inv_def)
  next
    case (takes_ssl s a f rest)
    then show ?case by (intro handle_ssl_keeps [where a = a]) (auto simp: corr_inv_def)
  qed (auto simp: corr_inv_def)
  subgoal premises prems
    using prems
  proof (induction rule: corr_step.induct)
    case (takes_net s b r rest)
    then show ?case unfolding handle_net_keeps by (simp add: stop_inv_def)
  next
    case (takes_ssl s a f rest)
    then show ?case by (intro handle_ssl_keeps [where a = a]) (auto simp: stop_inv_def)
  qed (auto simp: stop_inv_def)
  done

text \<open>\<open>Stop\<close>, the consumer and the kernel touch none of the goroutines.\<close>

lemma invs_cong:
  assumes "ng_start t = ng_start s" "ng_ready t = ng_ready s" "ng_active t = ng_active s" "ng_validation t = ng_validation s"
    "ng_netfeed t = ng_netfeed s" "ng_sslfeed t = ng_sslfeed s" "ng_netCh t = ng_netCh s" "ng_sslCh t = ng_sslCh s"
    "ng_corr t = ng_corr s"
  shows "start_inv o1 t = start_inv o1 s" "feed_inv t = feed_inv s"
    and "ng_stopped t = ng_stopped s \<Longrightarrow> ng_events_closed t = ng_events_closed s \<Longrightarrow> ng_panicked t = ng_panicked s \<Longrightarrow>
      ng_received t \<le> length (co_sent (ng_state t)) \<Longrightarrow> corr_inv s \<Longrightarrow> corr_inv t"
  unfolding net_invs assms by simp_all

lemma net_step_control:
  assumes "life_step o1 room s t" "net_control o1 s"
  shows "net_control o1 t"
proof -
  have c: "start_inv o1 s" "feed_inv s" "corr_inv s" "stop_inv o1 s" using assms(2) by (simp_all add: net_control_def)
  have r: "ng_received s \<le> length (co_sent (ng_state s))" using c(3) by (simp add: corr_inv_def)
  from assms(1) show ?thesis
  proof cases
    case starter
    then show ?thesis using c start_step_invs by (simp add: net_control_def)
  next
    case feeder
    then show ?thesis using c feed_step_invs by (simp add: net_control_def)
  next
    case correlator
    then show ?thesis using c corr_step_invs by (simp add: net_control_def)
  next
    case net_receives
    moreover have "corr_inv t" by (rule invs_cong(3) [OF _ _ _ _ _ _ _ _ _ _ _ _ _ c(3)]) (use net_receives in simp_all)
    ultimately show ?thesis using c invs_cong(1) [of t s o1] invs_cong(2) [of t s] by (simp add: net_control_def stop_inv_def)
  next
    case closes_ssl
    moreover have "corr_inv t" by (rule invs_cong(3) [OF _ _ _ _ _ _ _ _ _ _ _ _ _ c(3)]) (simp_all add: closes_ssl r)
    ultimately show ?thesis using c invs_cong(1) [of t s o1] invs_cong(2) [of t s] by (simp add: net_control_def stop_inv_def)
  next
    case net_stop_goes_on
    moreover have "corr_inv t" by (rule invs_cong(3) [OF _ _ _ _ _ _ _ _ _ _ _ _ _ c(3)]) (simp_all add: net_stop_goes_on r)
    ultimately show ?thesis using c invs_cong(1) [of t s o1] invs_cong(2) [of t s] by (simp add: net_control_def stop_inv_def)
  next
    case (net_stop_closes h hs)
    moreover have "corr_inv t" by (rule invs_cong(3) [OF _ _ _ _ _ _ _ _ _ _ _ _ _ c(3)]) (simp_all add: net_stop_closes r)
    ultimately show ?thesis using c invs_cong(1) [of t s o1] invs_cong(2) [of t s] by (simp add: net_control_def stop_inv_def)
  next
    case net_stop_returns
    moreover have "corr_inv t" by (rule invs_cong(3) [OF _ _ _ _ _ _ _ _ _ _ _ _ _ c(3)]) (simp_all add: net_stop_returns r)
    ultimately show ?thesis using c invs_cong(1) [of t s o1] invs_cong(2) [of t s] by (simp add: net_control_def stop_inv_def)
  qed
qed

lemma net_call_control:
  assumes "net_call_step o1 s t" "net_control o1 s"
  shows "net_control o1 t"
proof -
  have c: "start_inv o1 s" "feed_inv s" "corr_inv s" "stop_inv o1 s" using assms(2) by (simp_all add: net_control_def)
  have r: "ng_received s \<le> length (co_sent (ng_state s))" using c(3) by (simp add: corr_inv_def)
  from assms(1) show ?thesis
  proof cases
    case calls_start
    have pc: "ng_corr s = Corr_Unstarted" "\<not> ng_ready s" "\<not> ng_active s" using c(1) calls_start(2) by (auto simp: start_inv_def)
    have "start_inv o1 t" using calls_start(1) pc by (simp add: start_inv_def split: option.split)
    moreover have "feed_inv t" using calls_start(1) pc c(2) by (simp add: feed_inv_def)
    moreover have "corr_inv t" using calls_start(1) pc c(3) by (simp add: corr_inv_def)
    moreover have "stop_inv o1 t" using calls_start(1) c(4) by (simp add: stop_inv_def)
    ultimately show ?thesis by (simp add: net_control_def)
  next
    case calls_stop
    moreover have "corr_inv t" by (rule invs_cong(3) [OF _ _ _ _ _ _ _ _ _ _ _ _ _ c(3)]) (simp_all add: calls_stop r)
    ultimately show ?thesis using c invs_cong(1) [of t s o1] invs_cong(2) [of t s] by (simp add: net_control_def stop_inv_def)
  next
    case calls_stop_again
    then show ?thesis using assms(2) by simp
  next
    case (net_arrives raw)
    moreover have "corr_inv t" by (rule invs_cong(3) [OF _ _ _ _ _ _ _ _ _ _ _ _ _ c(3)]) (simp_all add: net_arrives r)
    ultimately show ?thesis using c invs_cong(1) [of t s o1] invs_cong(2) [of t s] by (simp add: net_control_def stop_inv_def)
  next
    case (ssl_arrives raw)
    moreover have "corr_inv t" by (rule invs_cong(3) [OF _ _ _ _ _ _ _ _ _ _ _ _ _ c(3)]) (simp_all add: ssl_arrives r)
    ultimately show ?thesis using c invs_cong(1) [of t s o1] invs_cong(2) [of t s] by (simp add: net_control_def stop_inv_def)
  qed
qed

text \<open>What is held: a step of the feeders or the correlator changes none of it.\<close>

lemma stopped_at_rest:
  assumes "net_control o1 s" "ng_stopped s"
  shows "ng_start s = Start_Returned"
proof -
  have "ng_sslfeed s = Feed_Ended" using assms by (auto simp: net_control_def corr_inv_def)
  then have "ng_ready s" using assms(1) by (simp add: net_control_def feed_inv_def)
  then show ?thesis using assms(1) by (simp add: net_control_def start_inv_def)
qed

lemma starting_not_released:
  "net_control o1 s \<Longrightarrow> ng_start s \<noteq> Start_Returned \<Longrightarrow> ng_stop s \<in> {Net_Uncalled, Closing_Ssl, Waiting_Corr}"
  using stopped_at_rest by (force simp: net_control_def stop_inv_def)

lemma held_unreleased:
  "ng_stop s \<in> {Net_Uncalled, Closing_Ssl, Waiting_Corr} \<Longrightarrow>
   net_held o1 s = mset base_links + (if ng_stop s = Net_Uncalled then {#Net_Reader#} else {#}) +
     (if no_tls o1 \<noteq> None then {#Tls_Objs, Tls_Fork_Link, Tls_Exit_Link#} else {#}) +
     (if ng_ssl_open s then {#Ssl_Reader#} else {#}) +
     (if ng_active s \<or> is_attached (ng_start s) then {#Ssl_Write_Link#} else {#})"
  by (auto simp: net_held_def)

lemma life_close: "mset (still_open [] (tr @ [Closes h])) = mset (still_open [] tr) - {#h#}"
  "mset (still_open [] (tr @ [Opens h])) = mset (still_open [] tr) + {#h#}"
  by (simp_all add: still_open_append)

lemma start_step_life:
  assumes "start_step o1 s t" "net_control o1 s" "life_inv o1 s"
  shows "life_inv o1 t"
proof -
  have "ng_start s \<noteq> Start_Returned" using assms(1) by cases simp_all
  then have u: "ng_stop s \<in> {Net_Uncalled, Closing_Ssl, Waiting_Corr}" by (rule starting_not_released [OF assms(2)])
  have c: "ng_active s \<Longrightarrow> ng_start s \<in> {Start_Closing, Start_Returned}" "ng_ssl_open s \<Longrightarrow> no_tls o1 \<noteq> None"
    using assms(2) by (simp_all add: net_control_def start_inv_def stop_inv_def)
  have l: "mset (still_open [] (ng_life s)) = net_held o1 s" using assms(3) by (simp add: life_inv_def)
  note l = l [unfolded held_unreleased [OF u]]
  from assms(1) show ?thesis
    unfolding life_inv_def
    by cases (use u c l in \<open>auto simp: held_unreleased life_close base_links_def\<close>)
qed

lemma net_held_cong:
  "ng_stop t = ng_stop s \<Longrightarrow> ng_ssl_open t = ng_ssl_open s \<Longrightarrow> ng_active t = ng_active s \<Longrightarrow> ng_start t = ng_start s \<Longrightarrow>
   net_held o1 t = net_held o1 s"
  by (simp add: net_held_def)

lemma handle_ssl_frame:
  "ng_stop (handle_ssl o1 room f s) = ng_stop s" "ng_ssl_open (handle_ssl o1 room f s) = ng_ssl_open s"
  "ng_active (handle_ssl o1 room f s) = ng_active s" "ng_start (handle_ssl o1 room f s) = ng_start s"
  "ng_life (handle_ssl o1 room f s) = ng_life s" "ng_validation (handle_ssl o1 room f s) = ng_validation s"
  "ng_net_read (handle_ssl o1 room f s) = ng_net_read s" "ng_net_ring (handle_ssl o1 room f s) = ng_net_ring s"
  "ng_net_arrived (handle_ssl o1 room f s) = ng_net_arrived s" "ng_ssl_read (handle_ssl o1 room f s) = ng_ssl_read s"
  "ng_ssl_ring (handle_ssl o1 room f s) = ng_ssl_ring s"
  "ng_netfeed (handle_ssl o1 room f s) = ng_netfeed s" "ng_sslfeed (handle_ssl o1 room f s) = ng_sslfeed s"
  "ng_netCh (handle_ssl o1 room f s) = ng_netCh s" "ng_sslCh (handle_ssl o1 room f s) = ng_sslCh s"
  "ng_handled (handle_ssl o1 room f s) = ng_handled s @ [FromSSL f]" "ng_tried (handle_ssl o1 room f s) = ng_tried s"
  "ng_attach_error (handle_ssl o1 room f s) = ng_attach_error s" "ng_stored (handle_ssl o1 room f s) = ng_stored s"
  "ng_received (handle_ssl o1 room f s) = ng_received s"
  by (simp_all add: handle_ssl_def Let_def split: option.split)

lemma feed_step_life: "feed_step s t \<Longrightarrow> life_inv o1 s \<Longrightarrow> life_inv o1 t"
  unfolding life_inv_def by (induction rule: feed_step.induct) (simp_all cong: net_held_cong add: net_held_def)

lemma corr_step_life: "corr_step o1 room s t \<Longrightarrow> life_inv o1 s \<Longrightarrow> life_inv o1 t"
  unfolding life_inv_def
  by (induction rule: corr_step.induct) (simp_all add: net_held_def handle_net_def handle_ssl_frame)

lemma net_step_life:
  assumes "life_step o1 room s t" "net_control o1 s" "life_inv o1 s"
  shows "life_inv o1 t"
  using assms(1)
proof cases
  case starter
  then show ?thesis using start_step_life assms(2,3) by blast
next
  case feeder
  then show ?thesis using feed_step_life assms(3) by blast
next
  case correlator
  then show ?thesis using corr_step_life assms(3) by blast
next
  case closes_ssl
  then show ?thesis
    using assms(2,3) by (auto simp: life_inv_def net_held_def life_close net_control_def stop_inv_def base_links_def)
next
  case net_stop_goes_on
  have r: "ng_start s = Start_Returned" by (rule stopped_at_rest [OF assms(2)]) (rule net_stop_goes_on)
  have o: "\<not> ng_ssl_open s" using assms(2) net_stop_goes_on(2) by (auto simp: net_control_def stop_inv_def)
  have a: "ng_active s \<Longrightarrow> no_tls o1 \<noteq> None" using assms(2) by (auto simp: net_control_def start_inv_def)
  show ?thesis
    using net_stop_goes_on assms(3) r o a
    by (auto simp: life_inv_def net_held_def net_stop_links_def base_links_def add_mset_commute)
qed (use assms(3) in \<open>simp_all add: life_inv_def net_held_def life_close\<close>)

lemma net_call_life:
  assumes "net_call_step o1 s t" "net_control o1 s" "life_inv o1 s"
  shows "life_inv o1 t"
  using assms(1)
proof cases
  case calls_start
  have "\<not> ng_active s" using calls_start assms(2) by (auto simp: net_control_def start_inv_def)
  then show ?thesis
    using calls_start assms(3) by (simp add: life_inv_def net_held_def split: option.split)
next
  case calls_stop
  then show ?thesis using assms(3) by (simp add: life_inv_def net_held_def life_close)
qed (use assms(3) in \<open>simp_all add: life_inv_def net_held_def\<close>)

section \<open>What is delivered\<close>

definition nets_of :: "feed list \<Rightarrow> netRecord list" where
  "nets_of = List.map_filter (\<lambda>f. case f of FromNet r \<Rightarrow> Some r | FromSSL _ \<Rightarrow> None)"

definition ssls_of :: "feed list \<Rightarrow> frame list" where
  "ssls_of = List.map_filter (\<lambda>f. case f of FromNet _ \<Rightarrow> None | FromSSL r \<Rightarrow> Some r)"

definition holding :: "'r feed_pc \<Rightarrow> 'r list" where
  "holding pc = (case pc of Feed_Holding r \<Rightarrow> [r] | _ \<Rightarrow> [])"

lemma feeds_append [simp]:
  "nets_of (fs @ [FromNet r]) = nets_of fs @ [r]" "nets_of (fs @ [FromSSL f]) = nets_of fs"
  "ssls_of (fs @ [FromNet r]) = ssls_of fs" "ssls_of (fs @ [FromSSL f]) = ssls_of fs @ [f]" "nets_of [] = []" "ssls_of [] = []"
  by (simp_all add: nets_of_def ssls_of_def List.map_filter_def)

lemma map_filter_snoc: "List.map_filter g (xs @ [x]) = List.map_filter g xs @ (case g x of None \<Rightarrow> [] | Some y \<Rightarrow> [y])"
  by (simp add: List.map_filter_def split: option.split)

lemma correlate_snoc:
  "correlate boot room (fs @ [f]) c = (case correlate boot room fs c of None \<Rightarrow> None | Some c' \<Rightarrow> correlate boot room [f] c')"
proof (induction boot room fs c rule: correlate.induct)
  case (3 boot room g fs c)
  then show ?case by (auto split: option.split)
qed (cases f; simp)+

definition handled_inv :: "net_observer \<Rightarrow> channel_room \<Rightarrow> net_run \<Rightarrow> bool" where
  "handled_inv o1 room s \<longleftrightarrow>
     correlate (no_bootOffsetNs o1) room (ng_handled s) new_correlator =
       (if ng_corr s = Corr_Crashed then None else Some (ng_state s))"

definition net_data_inv :: "net_run \<Rightarrow> bool" where
  "net_data_inv s \<longleftrightarrow>
     List.map_filter netFeed_decode (ng_net_read s) = nets_of (ng_handled s) @ ng_netCh s @ holding (ng_netfeed s) \<and>
     ng_net_read s @ ng_net_ring s = ng_net_arrived s"

definition ssl_data_inv :: "net_run \<Rightarrow> bool" where
  "ssl_data_inv s \<longleftrightarrow>
     ssls_of (ng_handled s) @ ng_sslCh s @ holding (ng_sslfeed s) =
       (if ng_sslfeed s \<in> {Feed_Unstarted, Feed_Waiting} then [] else sslFeed (ng_active s) (ng_validation s) (ng_ssl_read s)) \<and>
     (ng_sslfeed s \<in> {Feed_Unstarted, Feed_Waiting} \<longrightarrow> ng_ssl_read s = [])"

definition delivery_inv :: "net_observer \<Rightarrow> channel_room \<Rightarrow> net_run \<Rightarrow> bool" where
  "delivery_inv o1 room s \<longleftrightarrow> handled_inv o1 room s \<and> net_data_inv s \<and> ssl_data_inv s"

lemma start_step_delivery:
  assumes "start_step o1 s t" "net_control o1 s" "delivery_inv o1 room s"
  shows "delivery_inv o1 room t"
proof -
  have "ng_start s \<noteq> Start_Returned" using assms(1) by cases simp_all
  moreover have "ng_ready s \<longleftrightarrow> ng_start s = Start_Returned" "ng_sslfeed s \<notin> {Feed_Unstarted, Feed_Waiting} \<longrightarrow> ng_ready s"
    using assms(2) unfolding net_control_def start_inv_def feed_inv_def by blast+
  ultimately have f: "ng_sslfeed s \<in> {Feed_Unstarted, Feed_Waiting}" by blast
  then have "ssls_of (ng_handled s) @ ng_sslCh s @ holding (ng_sslfeed s) = []" "ng_ssl_read s = []"
    using assms(3) by (auto simp: delivery_inv_def ssl_data_inv_def)
  moreover have "ng_sslfeed t = ng_sslfeed s" "ng_handled t = ng_handled s" "ng_sslCh t = ng_sslCh s" "ng_ssl_read t = ng_ssl_read s"
    using assms(1) by (cases; simp)+
  ultimately have "ssl_data_inv t" using f by (simp add: ssl_data_inv_def)
  moreover have "handled_inv o1 room t \<and> net_data_inv t"
    using assms(1) by cases (use assms(3) in \<open>simp_all add: delivery_inv_def handled_inv_def net_data_inv_def\<close>)
  ultimately show ?thesis by (simp add: delivery_inv_def)
qed

lemma feed_step_delivery:
  assumes "feed_step s t" "net_control o1 s" "delivery_inv o1 room s"
  shows "delivery_inv o1 room t"
proof -
  have h: "handled_inv o1 room t" using assms(1,3) by cases (simp_all add: delivery_inv_def handled_inv_def)
  have n: "net_data_inv t"
    using assms(1,3) by cases (auto simp: delivery_inv_def net_data_inv_def holding_def map_filter_snoc)
  have r: "ng_sslfeed s \<notin> {Feed_Unstarted, Feed_Waiting} \<Longrightarrow> ng_ready s" "ng_sslfeed s = Feed_Waiting \<Longrightarrow> ng_sslCh s = []"
    "ng_active s \<Longrightarrow> ng_validation s \<noteq> None" "ng_sslfeed s \<notin> {Feed_Unstarted, Feed_Waiting, Feed_Ended} \<Longrightarrow> ng_active s"
    using assms(2) unfolding net_control_def feed_inv_def start_inv_def by blast+
  have "ssl_data_inv t"
    using assms(1)
  proof cases
    case ssl_inactive
    then show ?thesis using assms(3) r by (simp add: delivery_inv_def ssl_data_inv_def holding_def sslFeed_def)
  next
    case ssl_replays
    then show ?thesis
      using assms(3) r by (auto simp: delivery_inv_def ssl_data_inv_def holding_def sslFeed_def List.map_filter_def)
  qed (use assms(3) r(4) in \<open>auto simp: delivery_inv_def ssl_data_inv_def holding_def sslFeed_def map_filter_snoc split: if_splits\<close>)
  with h n show ?thesis by (simp add: delivery_inv_def)
qed

lemma handle_ssl_handled:
  assumes "handled_inv o1 room s" "ng_corr s = Selecting a True"
  shows "handled_inv o1 room (handle_ssl o1 room f s)"
  by (cases rule: handle_ssl_cases [of o1 room f s]) (use assms in \<open>simp_all add: handled_inv_def correlate_snoc\<close>)

lemma corr_step_delivery:
  assumes "corr_step o1 room s t" "net_control o1 s" "delivery_inv o1 room s"
  shows "delivery_inv o1 room t"
  using assms(1)
proof cases
  case corr_starts
  have "ng_netfeed s = Feed_Unstarted" "ng_sslfeed s = Feed_Unstarted"
    using assms(2) corr_starts by (simp_all add: net_control_def feed_inv_def)
  then show ?thesis
    using assms(3) corr_starts by (simp add: delivery_inv_def handled_inv_def net_data_inv_def ssl_data_inv_def holding_def)
next
  case (takes_net b r rest)
  then show ?thesis
    using assms(3)
    by (auto simp: delivery_inv_def handled_inv_def net_data_inv_def ssl_data_inv_def handle_net_def correlate_snoc)
next
  case (takes_ssl a f rest)
  have h: "handled_inv o1 room t"
    unfolding takes_ssl
    by (rule handle_ssl_handled) (use assms(3) takes_ssl in \<open>simp_all add: delivery_inv_def handled_inv_def\<close>)
  have "ng_sslfeed s \<notin> {Feed_Unstarted, Feed_Waiting}" using assms(2) takes_ssl by (auto simp: net_control_def feed_inv_def)
  then show ?thesis
    using h assms(3) takes_ssl by (auto simp: delivery_inv_def net_data_inv_def ssl_data_inv_def handle_ssl_frame)
qed (use assms(3) in \<open>auto simp: delivery_inv_def handled_inv_def net_data_inv_def ssl_data_inv_def\<close>)

lemma net_step_delivery:
  assumes "life_step o1 room s t" "net_control o1 s" "delivery_inv o1 room s"
  shows "delivery_inv o1 room t"
  using assms(1)
proof cases
  case starter
  then show ?thesis using start_step_delivery assms(2,3) by blast
next
  case feeder
  then show ?thesis using feed_step_delivery assms(2,3) by blast
next
  case correlator
  then show ?thesis using corr_step_delivery assms(2,3) by blast
qed (use assms(3) in \<open>simp_all add: delivery_inv_def handled_inv_def net_data_inv_def ssl_data_inv_def\<close>)

lemma net_call_delivery:
  assumes "net_call_step o1 s t" "net_control o1 s" "delivery_inv o1 room s"
  shows "delivery_inv o1 room t"
  using assms(1)
proof cases
  case calls_start
  then have "ng_corr s = Corr_Unstarted" using assms(2) by (simp add: net_control_def start_inv_def)
  then show ?thesis
    using calls_start assms(3) by (simp add: delivery_inv_def handled_inv_def net_data_inv_def ssl_data_inv_def)
qed (use assms(3) in \<open>auto simp: delivery_inv_def handled_inv_def net_data_inv_def ssl_data_inv_def\<close>)

text \<open>What \<open>attachAndValidateTLS\<close> leaves, over the candidates it tried.\<close>

definition tried_inv :: "net_observer \<Rightarrow> net_run \<Rightarrow> bool" where
  "tried_inv o1 s \<longleftrightarrow>
     (case ng_start s of
        Start_Uncalled \<Rightarrow> ng_tried s = []
      | Trying cs \<Rightarrow> fst (validate_candidates (ng_tried s) 0) = None
      | Attached c cs \<Rightarrow> fst (validate_candidates (ng_tried s) 0) = None
      | _ \<Rightarrow> no_tls o1 \<noteq> None \<longrightarrow>
          (case attachAndValidateTLS (ng_tried s) of
             Inl err \<Rightarrow> \<not> ng_active s \<and> ng_attach_error s = Some err
           | Inr (c, f) \<Rightarrow> ng_active s \<and> ng_validation s = Some f \<and> map_option tg_SSLWrite (ng_stored s) = Some (ca_FileOff c)))"

lemma validate_snoc:
  "fst (validate_candidates cs n) = None \<Longrightarrow>
   validate_candidates (cs @ [c]) n = validate_candidates [c] (snd (validate_candidates cs n))"
proof (induction cs n rule: validate_candidates.induct)
  case (2 c attached r cs seen)
  then show ?case by (auto split: prod.splits option.splits)
qed simp

lemma tried_same:
  assumes "tried_inv o1 s" "ng_start t = ng_start s" "ng_tried t = ng_tried s" "ng_active t = ng_active s"
    "ng_validation t = ng_validation s" "ng_attach_error t = ng_attach_error s" "ng_stored t = ng_stored s"
  shows "tried_inv o1 t"
  using assms(1) unfolding tried_inv_def assms(2-7) .

lemma validate_nothing [simp]: "validateSSLWriteCandidate None = (None, 0)"
  by (simp add: validateSSLWriteCandidate_def)

lemma tried_step:
  assumes "life_step o1 room s t" "net_control o1 s" "tried_inv o1 s"
  shows "tried_inv o1 t"
proof -
  have na: "ng_start s = Trying [] \<Longrightarrow> \<not> ng_active s" using assms(2) by (auto simp: net_control_def start_inv_def)
  from assms(1) show ?thesis
  proof cases
    case starter
    then show ?thesis
      by cases (use assms(3) na in \<open>auto simp: tried_inv_def validate_snoc attachAndValidateTLS_def split: option.splits prod.splits\<close>)
  next
    case feeder
    then show ?thesis by cases (rule tried_same [OF assms(3)]; simp)+
  next
    case correlator
    then show ?thesis by cases (rule tried_same [OF assms(3)]; simp add: handle_net_def handle_ssl_frame)+
  qed (rule tried_same [OF assms(3)]; simp)+
qed

lemma tried_call:
  assumes "net_call_step o1 s t" "tried_inv o1 s"
  shows "tried_inv o1 t"
  using assms(1)
proof cases
  case calls_start
  then show ?thesis using assms(2) by (auto simp: tried_inv_def split: option.split)
qed (rule tried_same [OF assms(2)]; simp)+

lemma net_reached_inv:
  assumes "net_reached o1 room (net_init o1 tr) s" "still_open [] tr = net_open o1"
  shows "net_control o1 s \<and> life_inv o1 s \<and> delivery_inv o1 room s \<and> tried_inv o1 s"
  using assms(1)
proof induction
  case net_reached_init
  have "life_inv o1 (net_init o1 tr)"
    using assms(2) by (auto simp: life_inv_def net_held_def net_init_def net_open_def tls_links_def)
  moreover have "delivery_inv o1 room (net_init o1 tr)" "tried_inv o1 (net_init o1 tr)"
    by (simp_all add: delivery_inv_def handled_inv_def net_data_inv_def ssl_data_inv_def holding_def net_init_def tried_inv_def
        List.map_filter_def)
  ultimately show ?case using net_control_init by blast
next
  case (net_reached_step s t)
  then show ?case using net_step_control net_step_life net_step_delivery tried_step by blast
next
  case (net_reached_call s t)
  then show ?case using net_call_control net_call_life net_call_delivery tried_call by blast
qed

section \<open>Shutdown\<close>

definition net_stopping :: "net_observer \<Rightarrow> net_run \<Rightarrow> bool" where
  "net_stopping o1 s \<longleftrightarrow> net_control o1 s \<and> tried_inv o1 s \<and> ng_stop s \<noteq> Net_Uncalled \<and> ng_start s \<noteq> Start_Uncalled"

text \<open>Over: \<open>Stop\<close> has returned and the consumer has everything, or the correlator has panicked.\<close>

definition net_over :: "net_run \<Rightarrow> bool" where
  "net_over s \<longleftrightarrow> ng_corr s = Corr_Crashed \<or>
     (ng_stop s = Net_Returned \<and> ng_received s = length (co_sent (ng_state s)))"

text \<open>The work left: what is in the rings and channels, and how far every goroutine has to go. A record handled
  may be several events, which are then left for the consumer.\<close>

definition net_work :: "net_run \<Rightarrow> nat" where
  "net_work s =
     (case ng_start s of Trying cs \<Rightarrow> 3 * length cs + 2 | Attached c cs \<Rightarrow> 3 * length cs + 4 | Start_Closing \<Rightarrow> 1 | _ \<Rightarrow> 0) +
     4 * length (ng_net_ring s) + 4 * length (ng_ssl_ring s) + 2 * length (ng_netCh s) + 2 * length (ng_sslCh s) +
     (case ng_netfeed s of Feed_Holding r \<Rightarrow> 4 | Feed_Reading \<Rightarrow> 1 | _ \<Rightarrow> 0) +
     (case ng_sslfeed s of Feed_Waiting \<Rightarrow> 5 | Feed_Holding r \<Rightarrow> 4 | Feed_Reading \<Rightarrow> 1 | _ \<Rightarrow> 0) +
     (case ng_corr s of Corr_Starting \<Rightarrow> 20 | Selecting a b \<Rightarrow> 5 + (if a then 1 else 0) + (if b then 1 else 0)
       | Corr_Closing \<Rightarrow> 2 | _ \<Rightarrow> 0) +
     (case ng_stop s of Closing_Ssl \<Rightarrow> 20 | Waiting_Corr \<Rightarrow> 18 | Net_Releasing hs \<Rightarrow> length hs + 1 | _ \<Rightarrow> 0)"

definition unreceived :: "net_run \<Rightarrow> nat" where
  "unreceived s = length (co_sent (ng_state s)) - ng_received s"

lemma start_work: "start_step o1 s t \<Longrightarrow> net_work t < net_work s"
  by (induction rule: start_step.induct) (simp_all add: net_work_def)

lemma feed_work: "feed_step s t \<Longrightarrow> net_work t < net_work s"
  by (induction rule: feed_step.induct) (simp_all add: net_work_def split: option.split)

lemma corr_work:
  assumes "corr_step o1 room s t" "net_control o1 s"
  shows "net_work t < net_work s"
  using assms(1)
proof cases
  case corr_starts
  have "ng_netfeed s = Feed_Unstarted" "ng_sslfeed s = Feed_Unstarted"
    using assms(2) corr_starts by (simp_all add: net_control_def feed_inv_def)
  then show ?thesis using corr_starts by (simp add: net_work_def)
next
  case (takes_ssl a f rest)
  then show ?thesis
    by (cases rule: handle_ssl_cases [of o1 room f "s\<lparr>ng_sslCh := rest\<rparr>"]) (simp_all add: net_work_def)
qed (simp_all add: net_work_def handle_net_def)

lemma net_lowers:
  assumes "life_step o1 room s t" "net_control o1 s"
  shows "(t, s) \<in> measures [net_work, unreceived]"
  using assms(1)
proof cases
  case starter
  then show ?thesis using start_work by simp
next
  case feeder
  then show ?thesis using feed_work by simp
next
  case correlator
  then show ?thesis using corr_work assms(2) by simp
next
  case net_receives
  then show ?thesis by (auto simp: net_work_def unreceived_def)
qed (simp_all add: net_work_def net_stop_links_def)

lemma start_goes_on:
  assumes "net_control o1 s" "tried_inv o1 s" "ng_start s \<notin> {Start_Uncalled, Start_Returned}"
  shows "\<exists>t. start_step o1 s t"
proof (cases "ng_start s")
  case (Trying cs)
  show ?thesis
  proof (cases cs)
    case Nil
    have "\<exists>err. attachAndValidateTLS (ng_tried s) = Inl err"
      using assms(2) Trying by (auto simp: tried_inv_def attachAndValidateTLS_def split: prod.split option.split)
    then show ?thesis using none_validated [of s] Trying Nil by blast
  next
    case (Cons c cs')
    then show ?thesis using not_attached [of s c cs'] Trying by blast
  qed
next
  case (Attached c cs)
  then show ?thesis using no_frame [of s c cs] by blast
next
  case Start_Closing
  then show ?thesis using start_returns [of s] by blast
qed (use assms in simp_all)

lemma feeds_go_on:
  assumes "net_control o1 s" "ng_ready s" "\<not> ng_net_open s" "\<not> ng_ssl_open s" "ng_corr s = Selecting a b"
  shows "\<exists>t. corr_step o1 room s t \<or> feed_step s t"
proof -
  have u: "ng_netfeed s \<noteq> Feed_Unstarted" "ng_netfeed s \<noteq> Feed_Waiting" "ng_sslfeed s \<noteq> Feed_Unstarted"
    using assms(1,5) by (simp_all add: net_control_def feed_inv_def)
  consider (net) r rest where "a" "ng_netCh s = r # rest" | (netfeed) "a" "ng_netCh s = []"
    | (ssl) f rest where "\<not> a" "b" "ng_sslCh s = f # rest" | (sslfeed) "\<not> a" "b" "ng_sslCh s = []" | (both) "\<not> a" "\<not> b"
    by (metis list.exhaust)
  then show ?thesis
  proof cases
    case net
    then show ?thesis using takes_net [of s b r rest o1 room] assms(5) by auto
  next
    case netfeed
    then show ?thesis
      using net_feed_ends [of s] net_passes [of s] net_closed [of s b o1 room] assms(3,5) u
      by (cases "ng_netfeed s") auto
  next
    case ssl
    then show ?thesis using takes_ssl [of s False f rest o1 room] assms(5) by auto
  next
    case sslfeed
    then show ?thesis
      using ssl_feed_ends [of s] ssl_passes [of s] ssl_closed [of s False o1 room] ssl_inactive [of s] ssl_replays [of s] assms(2,4,5) u
      by (cases "ng_sslfeed s") auto
  next
    case both
    then show ?thesis using closes_events [of s o1 room] assms(5) by auto
  qed
qed

lemma net_goes_on:
  assumes "net_stopping o1 s" "\<not> net_over s"
  shows "\<exists>t. life_step o1 room s t"
proof -
  have c: "net_control o1 s" "tried_inv o1 s" "ng_stop s \<noteq> Net_Uncalled" "ng_start s \<noteq> Start_Uncalled"
    using assms(1) by (simp_all add: net_stopping_def)
  have r: "ng_received s \<le> length (co_sent (ng_state s))" "ng_stopped s \<longleftrightarrow> ng_corr s = Corr_Ended"
    using c(1) by (simp_all add: net_control_def corr_inv_def)
  have o: "\<not> ng_net_open s" "ng_stop s \<noteq> Closing_Ssl \<Longrightarrow> \<not> ng_ssl_open s"
    using c(1,3) by (auto simp: net_control_def stop_inv_def)
  have k: "ng_corr s \<noteq> Corr_Unstarted" using c(1,4) by (auto simp: net_control_def start_inv_def)
  consider (start) "ng_start s \<noteq> Start_Returned" | (consumer) "ng_received s < length (co_sent (ng_state s))"
    | (closing) "ng_stop s = Closing_Ssl"
    | (corr) "ng_start s = Start_Returned" "ng_stop s = Waiting_Corr" "\<not> ng_stopped s"
    | (stop) "ng_stop s = Waiting_Corr" "ng_stopped s" | (releasing) hs where "ng_stop s = Net_Releasing hs"
    using assms(2) c(3) r(1) by (cases "ng_stop s") (auto simp: net_over_def)
  then show ?thesis
  proof cases
    case start
    then show ?thesis using start_goes_on [OF c(1,2)] c(4) starter by blast
  next
    case consumer
    then show ?thesis by (blast intro: net_receives)
  next
    case closing
    then show ?thesis by (blast intro: closes_ssl)
  next
    case corr
    have rd: "ng_ready s" using c(1) corr(1) unfolding net_control_def start_inv_def by blast
    show ?thesis
    proof (cases "ng_corr s")
      case (Selecting a b)
      have "\<not> ng_ssl_open s" using o(2) corr(2) by simp
      from feeds_go_on [OF c(1) rd o(1) this Selecting, of room] show ?thesis using feeder correlator by blast
    next
      case Corr_Starting
      then show ?thesis by (blast intro: correlator corr_starts)
    next
      case Corr_Closing
      then show ?thesis by (blast intro: correlator closes_stopped)
    qed (use k r corr assms(2) in \<open>auto simp: net_over_def\<close>)
  next
    case stop
    then show ?thesis by (blast intro: net_stop_goes_on)
  next
    case (releasing hs)
    then show ?thesis by (cases hs) (blast intro: net_stop_closes net_stop_returns)+
  qed
qed

interpretation net_shutdown: shutdown "net_stopping o1" "life_step o1 room" net_over "measures [net_work, unreceived]"
  for o1 room
proof unfold_locales
  show "net_stopping o1 t" if "net_stopping o1 s" "life_step o1 room s t" for s t
  proof -
    have "ng_stop t \<noteq> Net_Uncalled \<and> ng_start t \<noteq> Start_Uncalled"
      using that(2)
    proof cases
      case starter
      then show ?thesis by cases (use that(1) in \<open>simp_all add: net_stopping_def\<close>)
    next
      case feeder
      then show ?thesis by cases (use that(1) in \<open>simp_all add: net_stopping_def\<close>)
    next
      case correlator
      then show ?thesis by cases (use that(1) in \<open>simp_all add: net_stopping_def handle_net_def handle_ssl_frame\<close>)
    qed (use that(1) in \<open>simp_all add: net_stopping_def\<close>)
    then show ?thesis using that net_step_control tried_step by (simp add: net_stopping_def)
  qed
  show "(t, s) \<in> measures [net_work, unreceived]" if "net_stopping o1 s" "life_step o1 room s t" for s t
    using net_lowers [OF that(2)] that(1) unfolding net_stopping_def by blast
qed (auto intro: net_goes_on)

section \<open>Properties\<close>

lemma New_net_open:
  assumes "New_net env monotonic wallNs scan cfg = (Inr o1, tr)"
  shows "still_open [] tr = net_open o1"
  using New_net_left_open [of env monotonic wallNs scan cfg] unfolding assms net_left_open_def by simp

text \<open>
  C18. The network observer delivers what it read: at any time after \<open>New\<close>, whatever the schedule of its
  goroutines, of its consumer and of the calls of \<open>Start\<close> and \<open>Stop\<close>, nothing was sent on a closed channel and no
  channel was closed twice; the records that the correlator handled, with what is on the way to it, are
  in order the ones that decode of what was read from the one ring buffer and the frames of the
  other, which begin with the frame that validated the probe; and its state is that of \<open>correlate\<close> over them.
\<close>

theorem net_observer_delivers_what_it_read:
  assumes "New_net env monotonic wallNs scan cfg = (Inr o1, tr)" "net_reached o1 room (net_init o1 tr) s"
  shows "\<not> ng_panicked s \<and>
    (\<exists>inflight. List.map_filter netFeed_decode (ng_net_read s) = nets_of (ng_handled s) @ inflight) \<and>
    (\<exists>inflight. ssls_of (ng_handled s) @ inflight = [] \<or>
       ssls_of (ng_handled s) @ inflight = sslFeed (ng_active s) (ng_validation s) (ng_ssl_read s)) \<and>
    correlate (no_bootOffsetNs o1) room (ng_handled s) new_correlator =
      (if ng_corr s = Corr_Crashed then None else Some (ng_state s))"
proof -
  have i: "net_control o1 s" "delivery_inv o1 room s"
    using net_reached_inv [OF assms(2) New_net_open [OF assms(1)]] by simp_all
  have "\<not> ng_panicked s" using i(1) by (simp add: net_control_def corr_inv_def)
  moreover have "\<exists>inflight. List.map_filter netFeed_decode (ng_net_read s) = nets_of (ng_handled s) @ inflight"
    using i(2) unfolding delivery_inv_def net_data_inv_def by blast
  moreover have "\<exists>inflight. ssls_of (ng_handled s) @ inflight = [] \<or>
      ssls_of (ng_handled s) @ inflight = sslFeed (ng_active s) (ng_validation s) (ng_ssl_read s)"
    using i(2) unfolding delivery_inv_def ssl_data_inv_def by metis
  ultimately show ?thesis using i(2) unfolding delivery_inv_def handled_inv_def by blast
qed

text \<open>
  C19. \<open>Stop\<close> ends the network observer even while \<open>Start\<close> still validates candidates: once both were called, no
  schedule runs for ever; and when nothing can run any more, the correlator has panicked, or \<open>Stop\<close> has
  returned, everything \<open>New\<close> and \<open>Start\<close> acquired is closed, and the consumer has received every event of
  the records that were read.
\<close>

theorem net_stop_ends:
  assumes "New_net env monotonic wallNs scan cfg = (Inr o1, tr)" "net_reached o1 room (net_init o1 tr) s"
    and "ng_stop s \<noteq> Net_Uncalled" "ng_start s \<noteq> Start_Uncalled"
  shows "(run 0 = s \<longrightarrow> (\<exists>i. \<not> life_step o1 room (run i) (run (Suc i)))) \<and>
    ((life_step o1 room)\<^sup>*\<^sup>* s t \<longrightarrow> (\<exists>u. life_step o1 room t u) \<or> ng_corr t = Corr_Crashed \<or>
      ng_stop t = Net_Returned \<and> still_open [] (ng_life t) = [] \<and>
      nets_of (ng_handled t) = List.map_filter netFeed_decode (ng_net_read t) \<and>
      ssls_of (ng_handled t) = sslFeed (ng_active t) (ng_validation t) (ng_ssl_read t) \<and>
      take (ng_received t) (co_sent (ng_state t)) = net_delivers (no_bootOffsetNs o1, room, ng_handled t))"
proof (intro conjI impI)
  note o = New_net_open [OF assms(1)]
  have s: "net_stopping o1 s" using net_reached_inv [OF assms(2) o] assms(3,4) by (simp add: net_stopping_def)
  show "\<exists>i. \<not> life_step o1 room (run i) (run (Suc i))" if "run 0 = s"
    using net_shutdown.no_endless_run [of o1 run room] s that by simp
  assume st: "(life_step o1 room)\<^sup>*\<^sup>* s t"
  have "net_reached o1 room (net_init o1 tr) t" using st by induction (auto intro: assms(2) net_reached_step)
  from net_reached_inv [OF this o] have t: "net_control o1 t" "life_inv o1 t" "delivery_inv o1 room t" by simp_all
  show "(\<exists>u. life_step o1 room t u) \<or> ng_corr t = Corr_Crashed \<or>
      ng_stop t = Net_Returned \<and> still_open [] (ng_life t) = [] \<and>
      nets_of (ng_handled t) = List.map_filter netFeed_decode (ng_net_read t) \<and>
      ssls_of (ng_handled t) = sslFeed (ng_active t) (ng_validation t) (ng_ssl_read t) \<and>
      take (ng_received t) (co_sent (ng_state t)) = net_delivers (no_bootOffsetNs o1, room, ng_handled t)"
  proof (cases "(\<exists>u. life_step o1 room t u) \<or> ng_corr t = Corr_Crashed")
    case False
    then have r: "ng_stop t = Net_Returned" "ng_received t = length (co_sent (ng_state t))"
      using net_shutdown.over_when_stuck [OF st s] by (auto simp: net_over_def)
    have "ng_stopped t" using t(1) r(1) by (auto simp: net_control_def stop_inv_def)
    then have e: "ng_corr t = Corr_Ended" "ng_netfeed t = Feed_Ended" "ng_sslfeed t = Feed_Ended" "ng_netCh t = []" "ng_sslCh t = []"
      using t(1) by (auto simp: net_control_def corr_inv_def)
    have "still_open [] (ng_life t) = []" using t(2) r(1) by (simp add: life_inv_def net_held_def)
    then show ?thesis
      using t(3) r e
      by (simp add: delivery_inv_def handled_inv_def net_data_inv_def ssl_data_inv_def holding_def net_delivers_def)
  qed blast
qed

text \<open>
  When \<open>prepareTLS\<close> fails, \<open>New\<close> leaves the links of \<open>task_newtask\<close> and \<open>sched_process_exit\<close> open; any other
  failure leaves nothing open.
\<close>

lemma failed_New_net_forgets_links:
  assumes "New_net env monotonic wallNs scan cfg = (Inl err, tr)"
  shows "still_open [] tr = (if Opens Net_Reader \<in> set tr then [Net_Fork_Link, Net_Exit_Link] else [])"
  using New_net_left_open [of env monotonic wallNs scan cfg] unfolding assms net_left_open_def by simp

section \<open>Witnesses\<close>

definition ex_net_config :: net_config where
  "ex_net_config = \<lparr>nc_TrackedPID = 100, nc_EventBufSize = 0, nc_ExePath = ''''\<rparr>"

definition ex_scan :: tls_scan where
  "ex_scan = \<lparr>sc_result = Inr [], sc_buildID = '''', sc_cached = None\<rparr>"

definition ex_net_observer :: net_observer where
  "ex_net_observer = \<lparr>no_cfg = ex_net_config\<lparr>nc_EventBufSize := 4096\<rparr>, no_bootOffsetNs = 300, no_buffer = 4096, no_tls = None\<rparr>"

definition ex_net_trace :: "net_handle life list" where
  "ex_net_trace = map Opens (base_links @ [Net_Reader])"

lemma ex_New_net: "New_net (\<lambda>_. None) (Inr 700) 1000 ex_scan ex_net_config = (Inr ex_net_observer, ex_net_trace)"
  by (simp add: New_net_def attach_net_programs_def finish_New_def attempt_def computeBootOffsetNs_def ex_net_config_def
      ex_net_observer_def ex_net_trace_def base_links_def Let_def)

text \<open>\<open>Start\<close> and \<open>Stop\<close> called at once.\<close>

definition ex_both :: net_run where
  "ex_both = (net_init ex_net_observer ex_net_trace)\<lparr>ng_corr := Corr_Starting, ng_start := Start_Closing,
     ng_stop := Closing_Ssl, ng_net_open := False, ng_life := ex_net_trace @ [Closes Net_Reader]\<rparr>"

lemma ex_both_reached: "net_reached ex_net_observer room (net_init ex_net_observer ex_net_trace) ex_both"
proof -
  let ?i = "net_init ex_net_observer ex_net_trace"
  let ?s = "?i\<lparr>ng_corr := Corr_Starting, ng_start := Start_Closing\<rparr>"
  have "net_call_step ex_net_observer ?i ?s"
    using calls_start [of ?i ex_net_observer] by (simp add: net_init_def ex_net_observer_def)
  moreover have "net_call_step ex_net_observer ?s ex_both"
    using calls_stop [of ?s ex_net_observer] by (simp add: net_init_def ex_both_def)
  ultimately show ?thesis by (blast intro: net_reached_init net_reached_call)
qed

theorem net_observer_delivers_what_it_read_witness:
  "correlate 300 (\<lambda>_ _. True) (ng_handled ex_both) new_correlator = Some (ng_state ex_both) \<and> \<not> ng_panicked ex_both"
  using net_observer_delivers_what_it_read [OF ex_New_net ex_both_reached [of "\<lambda>_ _. True"]]
  by (simp add: ex_both_def ex_net_observer_def)

lemma net_only_never_crashes: "ssls_of fs = [] \<Longrightarrow> correlate boot room fs c \<noteq> None"
proof (induction boot room fs c rule: correlate.induct)
  case (3 boot room f fs c)
  then show ?case by (simp add: ssls_of_def)
qed (simp_all add: ssls_of_def)

lemma net_over_stuck:
  assumes "net_control o1 t" "ng_stop t = Net_Returned" "ng_received t = length (co_sent (ng_state t))"
  shows "\<nexists>u. life_step o1 room t u"
proof -
  have s: "ng_stopped t" using assms(1,2) by (auto simp: net_control_def stop_inv_def)
  then have e: "ng_corr t = Corr_Ended" "ng_netfeed t = Feed_Ended" "ng_sslfeed t = Feed_Ended"
    using assms(1) by (auto simp: net_control_def corr_inv_def)
  have r: "ng_start t = Start_Returned" by (rule stopped_at_rest [OF assms(1) s])
  show ?thesis
    using e r assms(2,3) by (auto elim!: life_step.cases start_step.cases feed_step.cases corr_step.cases)
qed

theorem net_stop_ends_witness:
  "\<exists>t. (life_step ex_net_observer (\<lambda>_ _. True))\<^sup>*\<^sup>* ex_both t \<and> ng_stop t = Net_Returned \<and> still_open [] (ng_life t) = []"
proof -
  let ?room = "\<lambda>_ _. True"
  have o: "still_open [] ex_net_trace = net_open ex_net_observer" by (rule New_net_open [OF ex_New_net])
  have c: "ng_stop ex_both \<noteq> Net_Uncalled" "ng_start ex_both \<noteq> Start_Uncalled" by (simp_all add: ex_both_def)
  then have s: "net_stopping ex_net_observer ex_both"
    using net_reached_inv [OF ex_both_reached o, of ?room] by (simp add: net_stopping_def)
  then obtain t where t: "(life_step ex_net_observer ?room)\<^sup>*\<^sup>* ex_both t" "net_over t"
    using net_shutdown.can_end [of ex_net_observer ex_both ?room] by blast
  have rt: "net_reached ex_net_observer ?room (net_init ex_net_observer ex_net_trace) t"
    using t(1) by induction (auto intro: ex_both_reached net_reached_step)
  from net_reached_inv [OF this o] have i: "net_control ex_net_observer t" "delivery_inv ex_net_observer ?room t"
    by simp_all
  have "\<not> ng_active t" using i(1) by (auto simp: net_control_def start_inv_def ex_net_observer_def)
  then have "ssls_of (ng_handled t) = []"
    using i(2) by (auto simp: delivery_inv_def ssl_data_inv_def sslFeed_def split: if_splits)
  then have "ng_corr t \<noteq> Corr_Crashed"
    using net_only_never_crashes i(2) unfolding delivery_inv_def handled_inv_def by metis
  then show ?thesis
    using net_stop_ends [OF ex_New_net ex_both_reached [of ?room] c, of "\<lambda>_. t" t] t net_over_stuck [OF i(1)]
    by (auto simp: net_over_def)
qed

text \<open>A failure of the scan.\<close>

lemma failed_New_net_forgets_links_witness:
  "still_open [] (snd (New_net (\<lambda>_. None) (Inr 700) 1000 (ex_scan\<lparr>sc_result := Inl ''no text''\<rparr>)
     (ex_net_config\<lparr>nc_ExePath := ''/agent''\<rparr>))) = [Net_Fork_Link, Net_Exit_Link]"
proof -
  have f: "New_net (\<lambda>_. None) (Inr 700) 1000 (ex_scan\<lparr>sc_result := Inl ''no text''\<rparr>) (ex_net_config\<lparr>nc_ExePath := ''/agent''\<rparr>) =
    (Inl (''prepare SSL_write content capture: '' @ ''scan ELF for SSL_write: '' @ ''no text''),
     ex_net_trace @ map Closes [Net_Reader, Close_Link, Sendmsg_Link, Sendto_Link, Write_Link, Connect_Link, Net_Objs])"
    by (simp add: New_net_def attach_net_programs_def finish_New_def prepareTLS_def attempt_def computeBootOffsetNs_def
        ex_net_config_def ex_net_trace_def base_links_def ex_scan_def Let_def)
  show ?thesis using failed_New_net_forgets_links [OF f] unfolding f by (simp add: ex_net_trace_def)
qed

end
