(* ===== verification/Cmd_Verify.thy ===== *)
theory Cmd_Verify
  imports Verification
begin

text \<open>
  The command \<open>verify\<close>, \<open>cmd/verify/main.go\<close>: it loads a trajectory and a ground truth, runs
  \<open>Verify\<close> and prints the report. The files, the JSON decoders and the notation of times and
  durations (which shows them in a zone the model of a time does not have) are arguments; the
  result is what is printed and the exit status.
\<close>

section \<open>Loading\<close>

record verify_env =
  ve_read :: "string \<Rightarrow> string + bytes"
  ve_trajectory :: "bytes \<Rightarrow> string + Trajectory"
  ve_ground_truth :: "bytes \<Rightarrow> string + GroundTruth"
  ve_time :: "Time \<Rightarrow> string"
  ve_duration :: "Duration \<Rightarrow> string"

definition loadTrajectory :: "verify_env \<Rightarrow> string \<Rightarrow> string + Trajectory" where
  "loadTrajectory env path =
     (case ve_read env path of
        Inl err \<Rightarrow> Inl (''read '' @ path @ '': '' @ err)
      | Inr data \<Rightarrow>
          (case ParseTrajectory (ve_trajectory env) data of
             Inl err \<Rightarrow> Inl (''parse trajectory '' @ path @ '': '' @ err)
           | Inr tr \<Rightarrow> Inr tr))"

definition loadGroundTruth :: "verify_env \<Rightarrow> string \<Rightarrow> string + GroundTruth" where
  "loadGroundTruth env path =
     (case ve_read env path of
        Inl err \<Rightarrow> Inl (''read '' @ path @ '': '' @ err)
      | Inr data \<Rightarrow>
          (case ParseGroundTruth (ve_ground_truth env) data of
             Inl err \<Rightarrow> Inl (''parse ground truth '' @ path @ '': '' @ err)
           | Inr gt \<Rightarrow> Inr gt))"

section \<open>Printing\<close>

text \<open>The printed text as its list of lines.\<close>

definition derefStr :: "string option \<Rightarrow> string" where
  "derefStr s = (case s of None \<Rightarrow> ''<nil>'' | Some x \<Rightarrow> x)"

definition derefInt :: "s32 option \<Rightarrow> string" where
  "derefInt i = (case i of None \<Rightarrow> ''<nil>'' | Some x \<Rightarrow> Itoa (sint x))"

definition pad14 :: "string \<Rightarrow> string" where
  "pad14 s = s @ replicate (14 - length s) CHR '' ''"

definition item_line :: "verify_env \<Rightarrow> Time \<Rightarrow> ActionType \<Rightarrow> string \<Rightarrow> string" where
  "item_line env t a target = ''  '' @ ve_time env t @ '' '' @ pad14 a @ '' '' @ target"

definition printEntries :: "verify_env \<Rightarrow> string \<Rightarrow> TrajectoryEntry list \<Rightarrow> string list" where
  "printEntries env label entries =
     (if entries = [] then []
      else [''''] @ [label @ '':''] @
        map (\<lambda>e. item_line env (te_Timestamp e) (te_ActionType e) (te_Target e)) entries)"

definition printEvents :: "verify_env \<Rightarrow> string \<Rightarrow> GroundTruthEvent list \<Rightarrow> string list" where
  "printEvents env label events =
     (if events = [] then []
      else [''''] @ [label @ '':''] @
        map (\<lambda>e. item_line env (ge_Timestamp e) (ge_ActionType e) (ge_Target e)) events)"

definition pair_lines :: "MatchedPair \<Rightarrow> string list" where
  "pair_lines p =
     [''  '' @ te_ActionType (Entry p) @ '' '' @ te_Target (Entry p),
      ''    claimed:  exit_code='' @ derefInt (te_ExitCode (Entry p)) @ '' input_hash='' @
        derefStr (te_InputHash (Entry p)) @ '' output_hash='' @ derefStr (te_OutputHash (Entry p)),
      ''    observed: exit_code='' @ derefInt (ge_ExitCode (Event p)) @ '' input_hash='' @
        derefStr (ge_InputHash (Event p)) @ '' output_hash='' @ derefStr (ge_OutputHash (Event p))]"

definition printMismatched :: "MatchedPair list \<Rightarrow> string list" where
  "printMismatched pairs = (if pairs = [] then [] else ['''', ''Mismatched:''] @ concat (map pair_lines pairs))"

definition report :: "verify_env \<Rightarrow> string \<Rightarrow> string \<Rightarrow> Duration \<Rightarrow> Trajectory \<Rightarrow> GroundTruth \<Rightarrow> Verdict \<Rightarrow> string list" where
  "report env tp gp delta tr gt verdict =
     [''=== Agent-Trace Verification Report ==='',
      ''trajectory:   '' @ tp @ '' ('' @ Itoa (int (length tr)) @ '' entries)'',
      ''ground truth: '' @ gp @ '' ('' @ Itoa (int (length gt)) @ '' events)'',
      ''delta:        '' @ ve_duration env delta,
      '''',
      ''Corroborated: '' @ Itoa (int (length (Corroborated verdict))),
      ''Unwitnessed:  '' @ Itoa (int (length (Unwitnessed verdict))) @ ''  (claimed by the agent, never observed)'',
      ''Unrecorded:   '' @ Itoa (int (length (Unrecorded verdict))) @ ''  (observed, never claimed)'',
      ''Mismatched:   '' @ Itoa (int (length (Mismatched verdict))) @ ''  (claimed and observed, details disagree)''] @
     printEntries env ''Unwitnessed'' (Unwitnessed verdict) @
     printEvents env ''Unrecorded'' (Unrecorded verdict) @
     printMismatched (Mismatched verdict) @
     ['''', if Faithful verdict then ''VERDICT: FAITHFUL'' else ''VERDICT: NOT FAITHFUL'']"

section \<open>The command\<close>

record run_result =
  rr_stdout :: "string list"
  rr_stderr :: "string list"
  rr_status :: int

definition Fatal :: "string \<Rightarrow> run_result" where
  "Fatal msg = \<lparr>rr_stdout = [], rr_stderr = [msg], rr_status = 1\<rparr>"

definition verify_main :: "verify_env \<Rightarrow> string \<Rightarrow> string \<Rightarrow> Duration \<Rightarrow> run_result" where
  "verify_main env trajectoryPath groundTruthPath delta =
     (if trajectoryPath = '''' \<or> groundTruthPath = '''' then Fatal ''--trajectory and --ground-truth are required''
      else case loadTrajectory env trajectoryPath of
        Inl err \<Rightarrow> Fatal err
      | Inr tr \<Rightarrow>
          (case loadGroundTruth env groundTruthPath of
             Inl err \<Rightarrow> Fatal err
           | Inr gt \<Rightarrow>
               let verdict = Verify tr gt \<lparr>Delta = delta\<rparr>
               in \<lparr>rr_stdout = report env trajectoryPath groundTruthPath delta tr gt verdict, rr_stderr = [],
                   rr_status = (if Faithful verdict then 0 else 1)\<rparr>))"


section \<open>Properties\<close>

lemma verify_main_loaded:
  assumes "tp \<noteq> ''''" "gp \<noteq> ''''" "loadTrajectory env tp = Inr tr" "loadGroundTruth env gp = Inr gt"
  shows "verify_main env tp gp delta = \<lparr>rr_stdout = report env tp gp delta tr gt (Verify tr gt \<lparr>Delta = delta\<rparr>),
    rr_stderr = [], rr_status = (if Faithful (Verify tr gt \<lparr>Delta = delta\<rparr>) then 0 else 1)\<rparr>"
  using assms by (simp add: verify_main_def Let_def)

lemma verify_main_0:
  assumes "rr_status (verify_main env tp gp delta) = 0"
  obtains tr gt where "loadTrajectory env tp = Inr tr" "loadGroundTruth env gp = Inr gt"
    "Faithful (Verify tr gt \<lparr>Delta = delta\<rparr>)"
  using assms by (auto simp: verify_main_def Fatal_def Let_def split: if_splits sum.splits)

lemma loaded_trajectory_valid: "loadTrajectory env tp = Inr tr \<Longrightarrow> \<forall>e\<in>set tr. Validate_entry e = None"
  by (auto simp: loadTrajectory_def ParseTrajectory_def first_error_None split: sum.splits option.splits)

lemma loaded_ground_truth_valid: "loadGroundTruth env gp = Inr gt \<Longrightarrow> \<forall>e\<in>set gt. Validate_event e = None"
  by (auto simp: loadGroundTruth_def ParseGroundTruth_def first_error_None split: sum.splits option.splits)

text \<open>
  C15. The exit status can be relied on: \<open>verify\<close> exits with 0 only after it loaded both files, found every
  entry and event in them valid, and the entries and the top-level events correspond one to one under
  the window given; a missing option, an unreadable or malformed file and an unfaithful
  trajectory all end with 1.
\<close>

theorem exit_status_reliable:
  "rr_status (verify_main env tp gp delta) \<in> {0, 1} \<and>
   (rr_status (verify_main env tp gp delta) = 1 \<or>
    (\<exists>tr gt f. loadTrajectory env tp = Inr tr \<and> loadGroundTruth env gp = Inr gt \<and>
      list_all (\<lambda>e. Validate_entry e = None) tr \<and> list_all (\<lambda>e. Validate_event e = None) gt \<and>
      bij_betw f {..<length tr} (top_indices gt) \<and>
      list_all (\<lambda>k. corresponds \<lparr>Delta = delta\<rparr> (tr ! k) (gt ! f k)) [0..<length tr]))"
proof -
  let ?r = "verify_main env tp gp delta"
  have s: "rr_status ?r \<in> {0, 1}"
    by (auto simp: verify_main_def Fatal_def Let_def split: sum.splits)
  moreover have "\<exists>tr gt f. loadTrajectory env tp = Inr tr \<and> loadGroundTruth env gp = Inr gt \<and>
      list_all (\<lambda>e. Validate_entry e = None) tr \<and> list_all (\<lambda>e. Validate_event e = None) gt \<and>
      bij_betw f {..<length tr} (top_indices gt) \<and>
      list_all (\<lambda>k. corresponds \<lparr>Delta = delta\<rparr> (tr ! k) (gt ! f k)) [0..<length tr]"
    if zero: "rr_status ?r = 0"
  proof -
    obtain tr gt where l: "loadTrajectory env tp = Inr tr" "loadGroundTruth env gp = Inr gt"
      and f: "Faithful (Verify tr gt \<lparr>Delta = delta\<rparr>)" using verify_main_0 [OF zero] by metis
    from bijection [OF f] obtain f where "bij_betw f {..<length tr} (top_indices gt)"
      "\<forall>k < length tr. corresponds \<lparr>Delta = delta\<rparr> (tr ! k) (gt ! f k)" by blast
    then show ?thesis
      using l loaded_trajectory_valid [OF l(1)] loaded_ground_truth_valid [OF l(2)]
      by (intro exI [of _ tr] exI [of _ gt] exI [of _ f]) (auto simp: list_all_iff)
  qed
  ultimately show ?thesis by auto
qed

text \<open>Where the report names a discrepancy.\<close>

lemma report_entries: "e \<in> set es \<Longrightarrow> item_line env (te_Timestamp e) (te_ActionType e) (te_Target e) \<in> set (printEntries env l es)"
  by (auto simp: printEntries_def)

lemma report_events: "e \<in> set es \<Longrightarrow> item_line env (ge_Timestamp e) (ge_ActionType e) (ge_Target e) \<in> set (printEvents env l es)"
  by (auto simp: printEvents_def)

lemma report_pairs: "p \<in> set ps \<Longrightarrow> set (pair_lines p) \<subseteq> set (printMismatched ps)"
  by (auto simp: printMismatched_def)

text \<open>
  The report accounts for the verdict: for files that load, the last line gives the verdict the status
  stands for, and it is not faithful exactly when the report lists something; every unwitnessed
  entry, unrecorded event and mismatched pair has its lines.
\<close>

theorem report_accounts_for_verdict:
  assumes "tp \<noteq> ''''" "gp \<noteq> ''''" "loadTrajectory env tp = Inr tr" "loadGroundTruth env gp = Inr gt"
    and "r = verify_main env tp gp delta" "v = Verify tr gt \<lparr>Delta = delta\<rparr>"
  shows "last (rr_stdout r) = (if rr_status r = 0 then ''VERDICT: FAITHFUL'' else ''VERDICT: NOT FAITHFUL'') \<and>
    (rr_status r = 1 \<longleftrightarrow> length (rr_stdout r) > 11) \<and>
    (\<forall>e\<in>set (Unwitnessed v). item_line env (te_Timestamp e) (te_ActionType e) (te_Target e) \<in> set (rr_stdout r)) \<and>
    (\<forall>ev\<in>set (Unrecorded v). item_line env (ge_Timestamp ev) (ge_ActionType ev) (ge_Target ev) \<in> set (rr_stdout r)) \<and>
    (\<forall>p\<in>set (Mismatched v). set (pair_lines p) \<subseteq> set (rr_stdout r))"
proof -
  have r: "r = \<lparr>rr_stdout = report env tp gp delta tr gt v, rr_stderr = [], rr_status = (if Faithful v then 0 else 1)\<rparr>"
    unfolding assms(5,6) by (rule verify_main_loaded [OF assms(1-4)])
  have f: "Faithful v \<longleftrightarrow> Unwitnessed v = [] \<and> Unrecorded v = [] \<and> Mismatched v = []"
    unfolding assms(6) by (auto simp: Verify_def Let_def split_beta)
  have n: "length (report env tp gp delta tr gt v) = 11 + length (printEntries env ''Unwitnessed'' (Unwitnessed v)) +
      length (printEvents env ''Unrecorded'' (Unrecorded v)) + length (printMismatched (Mismatched v))"
    by (simp add: report_def)
  have z: "printEntries env l es = [] \<longleftrightarrow> es = []" "printEvents env l evs = [] \<longleftrightarrow> evs = []"
    "printMismatched ps = [] \<longleftrightarrow> ps = []" for l es evs ps
    by (simp_all add: printEntries_def printEvents_def printMismatched_def)
  have "rr_status r = 1 \<longleftrightarrow> length (rr_stdout r) > 11"
    using f z(1) [of _ "Unwitnessed v"] z(2) [of _ "Unrecorded v"] z(3) [of "Mismatched v"] by (auto simp: r n)
  moreover have "last (rr_stdout r) = (if rr_status r = 0 then ''VERDICT: FAITHFUL'' else ''VERDICT: NOT FAITHFUL'')"
    by (simp add: r report_def)
  moreover have "set (printEntries env ''Unwitnessed'' (Unwitnessed v)) \<union> set (printEvents env ''Unrecorded'' (Unrecorded v)) \<union>
      set (printMismatched (Mismatched v)) \<subseteq> set (rr_stdout r)"
    by (auto simp: r report_def)
  ultimately show ?thesis using report_entries report_events report_pairs by blast
qed

section \<open>Witnesses\<close>

definition ex_files :: verify_env where
  "ex_files = \<lparr>ve_read = (\<lambda>p. if p = ''t'' then Inr [1] else if p = ''g'' then Inr [2] else Inl ''no such file''),
     ve_trajectory = (\<lambda>b. Inr [ex_entry]), ve_ground_truth = (\<lambda>b. Inr ex_truth),
     ve_time = (\<lambda>t. Itoa t), ve_duration = (\<lambda>d. Itoa (sint d))\<rparr>"

lemma ex_files_load: "loadTrajectory ex_files ''t'' = Inr [ex_entry]" "loadGroundTruth ex_files ''g'' = Inr ex_truth"
  by code_simp+

theorem report_accounts_for_verdict_witness:
  "last (rr_stdout (verify_main ex_files ''t'' ''g'' 2000000000)) = ''VERDICT: NOT FAITHFUL'' \<and>
   item_line ex_files (ge_Timestamp ex_exit) (ge_ActionType ex_exit) (ge_Target ex_exit) \<in>
     set (rr_stdout (verify_main ex_files ''t'' ''g'' 2000000000))"
proof -
  have u: "ex_exit \<in> set (Unrecorded (Verify [ex_entry] ex_truth \<lparr>Delta = 2000000000\<rparr>))"
    "\<not> Faithful (Verify [ex_entry] ex_truth \<lparr>Delta = 2000000000\<rparr>)"
    by code_simp+
  have "rr_status (verify_main ex_files ''t'' ''g'' 2000000000) = 1"
    using verify_main_loaded [OF _ _ ex_files_load] u(2) by simp
  then show ?thesis
    using report_accounts_for_verdict [OF _ _ ex_files_load refl refl, of 2000000000] u(1) by simp
qed

end
