(* ===== verification/Cmd_Simagent.thy ===== *)
theory Cmd_Simagent
  imports Verification Content
begin

text \<open>
  The simulated agent, \<open>cmd/simagent/main.go\<close>: it performs a fixed sequence of actions, reports them
  in a trajectory, and can falsify that trajectory in seven ways. The clock, the outcomes of its system
  calls and child processes and the parts of a parsed URL are arguments; \<open>Inl\<close> is a fatal
  error. The actions themselves happen in the world, so the model is of what is reported.
\<close>

section \<open>Options and the world\<close>

record sim_options =
  so_workspace :: string
  so_trajectoryOut :: string
  so_dropEntry :: int
  so_fileOnly :: bool
  so_attack :: string
  so_fetchURL :: string
  so_fetchMethod :: string
  so_fetchBody :: string
  so_emitNetRequest :: bool
  so_fetchViaCurl :: bool

text \<open>What \<open>url.Parse\<close> makes of a URL, and how a child process ends: it cannot be run, or with an exit
  code.\<close>

record url_parts =
  up_Scheme :: string
  up_Hostname :: string
  up_Port :: string
  up_Path :: string
  up_RawQuery :: string

record sim_env =
  se_clock :: "nat \<Rightarrow> Time"
  se_write :: "string option"
  se_rename :: "string option"
  se_wc_path :: "string + string"
  se_wc_run :: "string + s32"
  se_remove :: "string option"
  se_url :: "string \<Rightarrow> string + url_parts"
  se_curl_path :: "string + string"
  se_curl_run :: "s32 option"
  se_ips :: "string + string option list"
  se_request :: "string option"

record sim_state =
  ss_trajectory :: Trajectory
  ss_calls :: nat

section \<open>Reporting\<close>

text \<open>Each entry asks the clock once.\<close>

definition report_entry :: "sim_env \<Rightarrow> (Time \<Rightarrow> TrajectoryEntry) \<Rightarrow> sim_state \<Rightarrow> sim_state" where
  "report_entry env entry st =
     \<lparr>ss_trajectory = ss_trajectory st @ [entry (se_clock env (ss_calls st))], ss_calls = ss_calls st + 1\<rparr>"

definition plain_entry :: "ActionType \<Rightarrow> string \<Rightarrow> Time \<Rightarrow> TrajectoryEntry" where
  "plain_entry action target now =
     \<lparr>te_Timestamp = now, te_ActionType = action, te_Target = target, te_InputHash = None, te_OutputHash = None,
      te_ExitCode = None, te_RequestHash = None\<rparr>"

definition addEntry :: "sim_env \<Rightarrow> ActionType \<Rightarrow> string \<Rightarrow> sim_state \<Rightarrow> sim_state" where
  "addEntry env action target = report_entry env (plain_entry action target)"

definition addEntryWithOutputHash :: "sim_env \<Rightarrow> ActionType \<Rightarrow> string \<Rightarrow> string \<Rightarrow> sim_state \<Rightarrow> sim_state" where
  "addEntryWithOutputHash env action target h =
     report_entry env (\<lambda>now. (plain_entry action target now)\<lparr>te_OutputHash := Some h\<rparr>)"

definition addEntryWithInputHash :: "sim_env \<Rightarrow> ActionType \<Rightarrow> string \<Rightarrow> string \<Rightarrow> sim_state \<Rightarrow> sim_state" where
  "addEntryWithInputHash env action target h =
     report_entry env (\<lambda>now. (plain_entry action target now)\<lparr>te_InputHash := Some h\<rparr>)"

definition addEntryWithRequestHash :: "sim_env \<Rightarrow> ActionType \<Rightarrow> string \<Rightarrow> string \<Rightarrow> sim_state \<Rightarrow> sim_state" where
  "addEntryWithRequestHash env action target h =
     report_entry env (\<lambda>now. (plain_entry action target now)\<lparr>te_RequestHash := Some h\<rparr>)"

definition addExit :: "sim_env \<Rightarrow> string \<Rightarrow> s32 \<Rightarrow> sim_state \<Rightarrow> sim_state" where
  "addExit env target code =
     report_entry env (\<lambda>now. (plain_entry ProcessExit target now)\<lparr>te_ExitCode := Some code\<rparr>)"

section \<open>The steps\<close>

text \<open>\<open>filepath.Join\<close> drops empty elements; the file names are not empty.\<close>

definition join_path :: "string \<Rightarrow> string \<Rightarrow> string" where
  "join_path dir name = (if dir = '''' then Clean name else Clean (dir @ ''/'' @ name))"

definition emptyHash :: string where
  "emptyHash = ''sha256:e3b0c44298fc1c149afbf4c8996fb92427ae41e4649b934ca495991b7852b855''"

definition fileHash :: string where
  "fileHash = SHA256Bytes (bytes_of ''hello'')"

definition write_step :: "sim_env \<Rightarrow> string \<Rightarrow> sim_state \<Rightarrow> string + sim_state" where
  "write_step env f1 st =
     (let st1 = addEntry env FileWrite f1 (addEntry env FileWrite f1 (addEntryWithInputHash env FileOpen f1 emptyHash st))
      in case se_write env of
        Some err \<Rightarrow> Inl (''failed to write file: '' @ err)
      | None \<Rightarrow> Inr (addEntryWithOutputHash env FileClose f1 fileHash st1))"

definition rename_step :: "sim_env \<Rightarrow> string \<Rightarrow> sim_state \<Rightarrow> string + sim_state" where
  "rename_step env f1 st =
     (case se_rename env of
        Some err \<Rightarrow> Inl (''failed to rename file: '' @ err)
      | None \<Rightarrow> Inr (addEntry env FileRename f1 st))"

definition wc_step :: "sim_env \<Rightarrow> string \<Rightarrow> sim_state \<Rightarrow> string + sim_state" where
  "wc_step env f2 st =
     (case se_wc_path env of
        Inl err \<Rightarrow> Inl (''failed to find wc in PATH: '' @ err)
      | Inr wcPath \<Rightarrow>
          (let wcCmdLine = join_with '' '' [wcPath, ''-l'', f2];
               st1 = addEntryWithInputHash env FileOpen f2 fileHash (addEntry env ProcessExec wcCmdLine st)
           in case se_wc_run env of
             Inl err \<Rightarrow> Inl (''failed to run wc: '' @ err)
           | Inr code \<Rightarrow> Inr (addExit env wcCmdLine code st1)))"

definition remove_step :: "sim_env \<Rightarrow> string \<Rightarrow> sim_state \<Rightarrow> string + sim_state" where
  "remove_step env f2 st =
     (case se_remove env of
        Some err \<Rightarrow> Inl (''failed to remove file: '' @ err)
      | None \<Rightarrow> Inr (addEntry env FileDelete f2 st))"

text \<open>The first address that is an IPv4 one.\<close>

definition resolveSingleIPv4 :: "string + string option list \<Rightarrow> string option" where
  "resolveSingleIPv4 ips =
     (case ips of Inl err \<Rightarrow> None
      | Inr xs \<Rightarrow> (case find (\<lambda>x. x \<noteq> None) xs of None \<Rightarrow> None | Some v4 \<Rightarrow> v4))"

text \<open>\<open>strconv.Atoi\<close> on a port, which a parsed URL only has as digits; out of range it gives the largest
  integer, and its error is ignored.\<close>

definition Atoi_port :: "string \<Rightarrow> int" where
  "Atoi_port s = min (2 ^ 63 - 1) (int (foldl (\<lambda>n c. 10 * n + (of_char c - 48)) 0 s))"

definition curl_args :: "sim_env \<Rightarrow> sim_options \<Rightarrow> url_parts \<Rightarrow> string list" where
  "curl_args env opts u =
     [''--http1.1''] @
     (case resolveSingleIPv4 (se_ips env) of
        None \<Rightarrow> []
      | Some ip \<Rightarrow>
          let port = (if up_Port u = '''' then ''443'' else up_Port u)
          in [''--resolve'', up_Hostname u @ '':'' @ port @ '':'' @ ip]) @
     [''-s'', ''-o'', ''/dev/null'', ''-X'', so_fetchMethod opts] @
     (if so_fetchBody opts \<noteq> '''' then [''-d'', so_fetchBody opts] else []) @
     [so_fetchURL opts]"

definition curl_step :: "sim_env \<Rightarrow> sim_options \<Rightarrow> url_parts \<Rightarrow> sim_state \<Rightarrow> string + sim_state" where
  "curl_step env opts u st =
     (case se_curl_path env of
        Inl err \<Rightarrow> Inl (''failed to find curl in PATH: '' @ err)
      | Inr curlPath \<Rightarrow>
          (let curlCmdLine = join_with '' '' (curlPath # curl_args env opts u)
           in Inr (addExit env curlCmdLine (case se_curl_run env of None \<Rightarrow> 0 | Some code \<Rightarrow> code)
                (addEntry env ProcessExec curlCmdLine st))))"

definition net_request_step :: "sim_env \<Rightarrow> sim_options \<Rightarrow> url_parts \<Rightarrow> sim_state \<Rightarrow> sim_state" where
  "net_request_step env opts u st =
     (if \<not> so_emitNetRequest opts then st
      else
        let port = (if up_Port u \<noteq> '''' then Atoi_port (up_Port u) else if up_Scheme u = ''https'' then 443 else 0);
            target = CanonicalNetTarget (so_fetchMethod opts) (up_Hostname u) port (up_Path u) (up_RawQuery u)
        in if so_fetchBody opts \<noteq> ''''
           then addEntryWithRequestHash env NetRequest target (SHA256Bytes (bytes_of (so_fetchBody opts))) st
           else addEntry env NetRequest target st)"

definition fetch_step :: "sim_env \<Rightarrow> sim_options \<Rightarrow> sim_state \<Rightarrow> string + sim_state" where
  "fetch_step env opts st =
     (if so_fetchURL opts = '''' then Inr st
      else case se_url env (so_fetchURL opts) of
        Inl err \<Rightarrow> Inl (''invalid --fetch-url '' @ so_fetchURL opts @ '': '' @ err)
      | Inr u \<Rightarrow>
          (case (if so_fetchViaCurl opts then curl_step env opts u st
                 else case se_request env of Some err \<Rightarrow> Inl (''new request: '' @ err) | None \<Rightarrow> Inr st) of
             Inl err \<Rightarrow> Inl err
           | Inr st1 \<Rightarrow> Inr (net_request_step env opts u (addEntry env NetConnect (up_Hostname u) st1))))"

section \<open>Falsifying the trajectory\<close>

definition drop_entry :: "int \<Rightarrow> Trajectory \<Rightarrow> Trajectory" where
  "drop_entry i t = (if i \<ge> 0 \<and> i < int (length t) then take (nat i) t @ drop (nat i + 1) t else t)"

text \<open>The loops that change the first entry they find.\<close>

fun update_first :: "('a \<Rightarrow> bool) \<Rightarrow> ('a \<Rightarrow> 'a) \<Rightarrow> 'a list \<Rightarrow> 'a list" where
  "update_first found change [] = []"
| "update_first found change (x # xs) = (if found x then change x # xs else x # update_first found change xs)"

definition fakeHash :: string where
  "fakeHash = ''sha256:0000000000000000000000000000000000000000000000000000000000000000''"

definition apply_attack :: "string \<Rightarrow> int \<Rightarrow> Time \<Rightarrow> Trajectory \<Rightarrow> Trajectory" where
  "apply_attack attack dropEntry now t =
     (if attack = ''omission'' then (if dropEntry = -1 \<and> length t > 0 then tl t else t)
      else if attack = ''fabrication'' then t @ [plain_entry ProcessExec ''/usr/bin/curl https://example.com'' now]
      else if attack = ''substitution-exit'' then
        update_first (\<lambda>e. te_ActionType e = ProcessExit \<and> te_ExitCode e \<noteq> None)
          (\<lambda>e. e\<lparr>te_ExitCode := Some (the (te_ExitCode e) + 1)\<rparr>) t
      else if attack = ''substitution-hash'' then
        update_first (\<lambda>e. te_ActionType e = FileClose \<and> te_OutputHash e \<noteq> None)
          (\<lambda>e. e\<lparr>te_OutputHash := Some fakeHash\<rparr>) t
      else if attack = ''substitution-cmd'' then
        update_first (\<lambda>e. te_ActionType e = ProcessExec) (\<lambda>e. e\<lparr>te_Target := te_Target e @ '' --fake-flag''\<rparr>) t
      else if attack = ''net-omission'' then filter (\<lambda>e. te_ActionType e \<noteq> NetConnect) t
      else if attack = ''net-fabrication'' then t @ [plain_entry NetConnect ''ghost.example.invalid'' now]
      else t)"

section \<open>The command\<close>

definition sim_steps :: "sim_env \<Rightarrow> sim_options \<Rightarrow> string + sim_state" where
  "sim_steps env opts =
     (let f1 = join_path (so_workspace opts) ''file1.txt''; f2 = join_path (so_workspace opts) ''file2.txt'';
          st0 = \<lparr>ss_trajectory = [], ss_calls = 0\<rparr>
      in case write_step env f1 st0 of Inl err \<Rightarrow> Inl err | Inr st1 \<Rightarrow>
        (case rename_step env f1 st1 of Inl err \<Rightarrow> Inl err | Inr st2 \<Rightarrow>
          (case (if so_fileOnly opts then Inr st2 else wc_step env f2 st2) of Inl err \<Rightarrow> Inl err | Inr st3 \<Rightarrow>
            (case remove_step env f2 st3 of Inl err \<Rightarrow> Inl err | Inr st4 \<Rightarrow> fetch_step env opts st4))))"

text \<open>The trajectory that is written.\<close>

definition simagent :: "sim_env \<Rightarrow> sim_options \<Rightarrow> string + Trajectory" where
  "simagent env opts =
     (if so_workspace opts = '''' \<or> so_trajectoryOut opts = '''' then Inl ''--workspace and --trajectory-out are required''
      else case sim_steps env opts of
        Inl err \<Rightarrow> Inl err
      | Inr st \<Rightarrow> Inr (apply_attack (so_attack opts) (so_dropEntry opts) (se_clock env (ss_calls st))
          (drop_entry (so_dropEntry opts) (ss_trajectory st))))"


section \<open>What a faithful verdict fixes\<close>

text \<open>
  A faithful verdict fixes the collection of the keys of the entries, for any key that an entry shares with
  every event it corresponds to: two faithful trajectories of one ground truth have the same keys.
\<close>

lemma mset_top_indices: "mset (filter isTopLevel g) = image_mset ((!) g) (mset_set (top_indices g))"
  unfolding mset_top_events top_indices_filter mset_map by (subst mset_set_set) simp_all

lemma faithful_keys:
  assumes "Faithful (Verify t g cfg)"
    and "\<And>e ev. e \<in> set t \<Longrightarrow> ev \<in> set g \<Longrightarrow> isTopLevel ev \<Longrightarrow> corresponds cfg e ev \<Longrightarrow> ke e = kv ev"
  shows "image_mset ke (mset t) = image_mset kv (mset (filter isTopLevel g))"
proof -
  from bijection [OF assms(1)] obtain f where b: "bij_betw f {..<length t} (top_indices g)"
    and c: "\<forall>k < length t. corresponds cfg (t ! k) (g ! f k)" by blast
  have r: "mset_set (top_indices g) = image_mset f (mset_set {..<length t})"
    using b by (simp add: bij_betw_def image_mset_mset_set)
  have "ke (t ! k) = kv (g ! f k)" if "k < length t" for k
  proof -
    have "f k \<in> top_indices g" using b that by (auto simp: bij_betw_def)
    then show ?thesis using assms(2) c that by (simp add: top_indices_def)
  qed
  then have "image_mset (\<lambda>k. ke (t ! k)) (mset_set {..<length t}) = image_mset (\<lambda>k. kv (g ! f k)) (mset_set {..<length t})"
    by (intro image_mset_cong) simp
  also have "image_mset (\<lambda>k. kv (g ! f k)) (mset_set {..<length t}) = image_mset (\<lambda>j. kv (g ! j)) (mset_set (top_indices g))"
    unfolding r by (simp add: image_mset.compositionality comp_def)
  also have "\<dots> = image_mset kv (mset (filter isTopLevel g))"
    unfolding mset_top_indices by (simp add: image_mset.compositionality comp_def)
  finally have "image_mset (\<lambda>k. ke (t ! k)) (mset_set {..<length t}) = image_mset kv (mset (filter isTopLevel g))" .
  moreover have "mset t = image_mset ((!) t) (mset_set {..<length t})"
    unfolding mset_set_upto_eq_mset_upto mset_map [symmetric] map_nth ..
  ultimately show ?thesis by (simp add: image_mset.compositionality comp_def)
qed

lemma faithful_same_keys:
  assumes "Faithful (Verify t g cfg)" "Faithful (Verify t' g cfg)"
    and "\<And>e ev. e \<in> set t \<union> set t' \<Longrightarrow> ev \<in> set g \<Longrightarrow> isTopLevel ev \<Longrightarrow> corresponds cfg e ev \<Longrightarrow> ke e = kv ev"
  shows "image_mset ke (mset t) = image_mset ke (mset t')"
  using faithful_keys [OF assms(1), of ke kv] faithful_keys [OF assms(2), of ke kv] assms(3) by simp

lemma faithful_same_length:
  "Faithful (Verify t g cfg) \<Longrightarrow> Faithful (Verify t' g cfg) \<Longrightarrow> length t = length t'"
  using faithful_same_keys [of t g cfg t' "\<lambda>_. ()" "\<lambda>_. ()"] by (metis size_image_mset size_mset)

lemma update_first_mset:
  assumes "x \<in> set t" "found x"
  shows "\<exists>y\<in>set t. found y \<and> mset (update_first found change t) + {#y#} = mset t + {#change y#}"
  using assms
proof (induction t)
  case (Cons z t)
  show ?case
  proof (cases "found z")
    case False
    then obtain y where "y \<in> set t" "found y" "mset (update_first found change t) + {#y#} = mset t + {#change y#}"
      using Cons by auto
    then show ?thesis using False by (intro bexI [of _ y]) (auto simp: add_mset_commute)
  qed auto
qed simp

lemma update_first_keys:
  assumes "x \<in> set t" "found x" "\<And>y. y \<in> set t \<Longrightarrow> found y \<Longrightarrow> ke (change y) \<noteq> ke y"
  shows "image_mset ke (mset (update_first found change t)) \<noteq> image_mset ke (mset t)"
proof
  assume e: "image_mset ke (mset (update_first found change t)) = image_mset ke (mset t)"
  obtain y where y: "y \<in> set t" "found y" "mset (update_first found change t) + {#y#} = mset t + {#change y#}"
    using update_first_mset [of x t found change] assms(1,2) by blast
  from arg_cong [OF y(3), of "image_mset ke"] e assms(3) [OF y(1,2)] show False by simp
qed


section \<open>Properties\<close>

text \<open>When an attack changes what the verdict can see: there is something to falsify, and for the details, the
  probe captured the detail for every event it could be about.\<close>

definition attack_visible :: "string \<Rightarrow> Trajectory \<Rightarrow> GroundTruth \<Rightarrow> bool" where
  "attack_visible attack t g \<longleftrightarrow>
     attack \<in> {''omission'', ''fabrication'', ''net-fabrication''} \<or>
     (attack = ''net-omission'' \<and> list_ex (\<lambda>e. te_ActionType e = NetConnect) t) \<or>
     (attack = ''substitution-cmd'' \<and> list_ex (\<lambda>e. te_ActionType e = ProcessExec) t) \<or>
     (attack = ''substitution-exit'' \<and> list_ex (\<lambda>e. te_ActionType e = ProcessExit \<and> te_ExitCode e \<noteq> None) t \<and>
        list_all (\<lambda>ev. \<not> isTopLevel ev \<or> ge_ActionType ev \<noteq> ProcessExit \<or> ge_ExitCode ev \<noteq> None) g) \<or>
     (attack = ''substitution-hash'' \<and> list_ex (\<lambda>e. te_ActionType e = FileClose \<and> te_OutputHash e \<noteq> None) t \<and>
        list_all (\<lambda>e. te_OutputHash e \<noteq> Some fakeHash) t \<and>
        list_all (\<lambda>ev. \<not> isTopLevel ev \<or> ge_ActionType ev \<noteq> FileClose \<or> ge_OutputHash ev \<noteq> None) g)"

lemma corresponds_action: "corresponds cfg e ev \<Longrightarrow> te_ActionType e = ge_ActionType ev"
  by (auto simp: corresponds_def dest: MatchD(1))

lemma corresponds_command:
  "corresponds cfg e ev \<Longrightarrow> te_ActionType e = ProcessExec \<Longrightarrow> te_Target e = ge_Target ev"
  by (auto simp: corresponds_def targetsMatch_strict dest: MatchD(2))

lemma corresponds_exit_code:
  "corresponds cfg e ev \<Longrightarrow> te_ActionType e = ProcessExit \<Longrightarrow> ge_ExitCode ev = Some c \<Longrightarrow> te_ExitCode e = Some c"
  by (auto simp: corresponds_def detailsAgree_def exitCodesAgree_def Let_def split: if_splits)

lemma corresponds_output_hash:
  "corresponds cfg e ev \<Longrightarrow> te_ActionType e = FileClose \<Longrightarrow> ge_OutputHash ev = Some h \<Longrightarrow> te_OutputHash e = Some h"
  by (auto simp: corresponds_def detailsAgree_def hashesAgree_def Let_def split: if_splits)

text \<open>A change of the first entry of one action that changes what such an entry shares with its event.\<close>

lemma substitution_detected:
  assumes "Faithful (Verify t g cfg)" "list_ex found t"
    and "\<And>e. found e \<Longrightarrow> te_ActionType e = a \<and> te_ActionType (change e) = a"
    and "\<And>e. e \<in> set t \<Longrightarrow> found e \<Longrightarrow> ke (change e) \<noteq> ke e"
    and "\<And>e ev. ev \<in> set g \<Longrightarrow> isTopLevel ev \<Longrightarrow> corresponds cfg e ev \<Longrightarrow> te_ActionType e = a \<Longrightarrow> ke e = kv ev"
  shows "\<not> Faithful (Verify (update_first found change t) g cfg)"
proof
  let ?t = "update_first found change t"
  let ?ke = "\<lambda>e. (te_ActionType e, if te_ActionType e = a then Some (ke e) else None)"
  let ?kv = "\<lambda>ev. (ge_ActionType ev, if ge_ActionType ev = a then Some (kv ev) else None)"
  assume f: "Faithful (Verify ?t g cfg)"
  obtain e where e: "e \<in> set t" "found e" using assms(2) by (auto simp: list_ex_iff)
  have "image_mset ?ke (mset ?t) = image_mset ?ke (mset t)"
    by (rule faithful_same_keys [OF f assms(1), of _ ?kv]) (auto simp: assms(5) dest: corresponds_action)
  moreover have "?ke (change y) \<noteq> ?ke y" if "y \<in> set t" "found y" for y
    using assms(3) [OF that(2)] assms(4) [OF that] by simp
  ultimately show False using update_first_keys [where x = e and t = t and found = found and ke = ?ke and change = change] e by blast
qed

lemma attack_length:
  assumes "t \<noteq> []"
  shows "attack \<in> {''omission'', ''fabrication'', ''net-fabrication''} \<Longrightarrow> length (apply_attack attack (-1) now t) \<noteq> length t"
    and "attack = ''net-omission'' \<Longrightarrow> list_ex (\<lambda>e. te_ActionType e = NetConnect) t \<Longrightarrow>
      length (apply_attack attack (-1) now t) \<noteq> length t"
proof -
  obtain x xs where "t = x # xs" using assms by (cases t) auto
  then show "attack \<in> {''omission'', ''fabrication'', ''net-fabrication''} \<Longrightarrow> length (apply_attack attack (-1) now t) \<noteq> length t"
    by (elim insertE emptyE) (simp_all add: apply_attack_def)
  assume "list_ex (\<lambda>e. te_ActionType e = NetConnect) t" and a: "attack = ''net-omission''"
  then have "length (filter (\<lambda>e. te_ActionType e \<noteq> NetConnect) t) < length t"
    by (auto simp: list_ex_iff intro: length_filter_less)
  then show "length (apply_attack attack (-1) now t) \<noteq> length t" unfolding a by (simp add: apply_attack_def)
qed

lemma substitution_attacks:
  "apply_attack ''substitution-cmd'' d now t =
     update_first (\<lambda>e. te_ActionType e = ProcessExec) (\<lambda>e. e\<lparr>te_Target := te_Target e @ '' --fake-flag''\<rparr>) t"
  "apply_attack ''substitution-exit'' d now t =
     update_first (\<lambda>e. te_ActionType e = ProcessExit \<and> te_ExitCode e \<noteq> None)
       (\<lambda>e. e\<lparr>te_ExitCode := Some (the (te_ExitCode e) + 1)\<rparr>) t"
  "apply_attack ''substitution-hash'' d now t =
     update_first (\<lambda>e. te_ActionType e = FileClose \<and> te_OutputHash e \<noteq> None) (\<lambda>e. e\<lparr>te_OutputHash := Some fakeHash\<rparr>) t"
  by (simp_all add: apply_attack_def)

lemma attack_detected:
  assumes "Faithful (Verify t g cfg)" "t \<noteq> []" "attack_visible attack t g"
  shows "\<not> Faithful (Verify (apply_attack attack (-1) now t) g cfg)"
proof -
  let ?t = "apply_attack attack (-1) now t"
  consider (len) "length ?t \<noteq> length t"
    | (cmd) "attack = ''substitution-cmd''" "list_ex (\<lambda>e. te_ActionType e = ProcessExec) t"
    | (exit) "attack = ''substitution-exit''" "list_ex (\<lambda>e. te_ActionType e = ProcessExit \<and> te_ExitCode e \<noteq> None) t"
        "list_all (\<lambda>ev. \<not> isTopLevel ev \<or> ge_ActionType ev \<noteq> ProcessExit \<or> ge_ExitCode ev \<noteq> None) g"
    | (hash) "attack = ''substitution-hash''" "list_ex (\<lambda>e. te_ActionType e = FileClose \<and> te_OutputHash e \<noteq> None) t"
        "list_all (\<lambda>e. te_OutputHash e \<noteq> Some fakeHash) t"
        "list_all (\<lambda>ev. \<not> isTopLevel ev \<or> ge_ActionType ev \<noteq> FileClose \<or> ge_OutputHash ev \<noteq> None) g"
  proof -
    from assms(3) [unfolded attack_visible_def] show thesis
    proof (elim disjE conjE)
      show thesis if "attack \<in> {''omission'', ''fabrication'', ''net-fabrication''}"
        using attack_length(1) [OF assms(2) that] len by blast
      show thesis if "attack = ''net-omission''" "list_ex (\<lambda>e. te_ActionType e = NetConnect) t"
        using attack_length(2) [OF assms(2) that] len by blast
    qed (assumption | rule cmd exit hash)+
  qed
  then show ?thesis
  proof cases
    case len
    then show ?thesis using faithful_same_length [OF assms(1)] by metis
  next
    case cmd
    show ?thesis unfolding cmd(1) substitution_attacks
      by (rule substitution_detected [OF assms(1) cmd(2), where a = ProcessExec and ke = te_Target and kv = ge_Target])
        (auto dest: corresponds_command)
  next
    case exit
    have k: "te_ExitCode e = ge_ExitCode ev"
      if "ev \<in> set g" "isTopLevel ev" "corresponds cfg e ev" "te_ActionType e = ProcessExit" for e ev
    proof -
      have "ge_ActionType ev = ProcessExit" using corresponds_action [OF that(3)] that(4) by simp
      with exit(3) that(1,2) obtain c where "ge_ExitCode ev = Some c" by (auto simp: list_all_iff)
      then show ?thesis using corresponds_exit_code [OF that(3,4)] by simp
    qed
    show ?thesis unfolding exit(1) substitution_attacks
      by (rule substitution_detected [OF assms(1) exit(2), where a = ProcessExit and ke = te_ExitCode and kv = ge_ExitCode])
        (use k in auto)
  next
    case hash
    have k: "te_OutputHash e = ge_OutputHash ev"
      if "ev \<in> set g" "isTopLevel ev" "corresponds cfg e ev" "te_ActionType e = FileClose" for e ev
    proof -
      have "ge_ActionType ev = FileClose" using corresponds_action [OF that(3)] that(4) by simp
      with hash(4) that(1,2) obtain h where "ge_OutputHash ev = Some h" by (auto simp: list_all_iff)
      then show ?thesis using corresponds_output_hash [OF that(3,4)] by simp
    qed
    show ?thesis unfolding hash(1) substitution_attacks
      by (rule substitution_detected [OF assms(1) hash(2), where a = FileClose and ke = te_OutputHash and kv = ge_OutputHash])
        (use k hash(3) in \<open>auto simp: list_all_iff\<close>)
  qed
qed


lemma curl_args_attack [simp]: "curl_args env (opts\<lparr>so_attack := a\<rparr>) = curl_args env opts"
  by (simp add: curl_args_def fun_eq_iff)

lemma steps_attack [simp]:
  "curl_step env (opts\<lparr>so_attack := a\<rparr>) = curl_step env opts"
  "net_request_step env (opts\<lparr>so_attack := a\<rparr>) = net_request_step env opts"
  by (simp_all add: curl_step_def net_request_step_def fun_eq_iff cong: sum.case_cong if_cong)

lemma fetch_step_attack [simp]: "fetch_step env (opts\<lparr>so_attack := a\<rparr>) = fetch_step env opts"
  by (simp add: fetch_step_def fun_eq_iff cong: if_cong sum.case_cong)

lemma sim_steps_attack [simp]: "sim_steps env (opts\<lparr>so_attack := a\<rparr>) = sim_steps env opts"
  by (simp add: sim_steps_def cong: if_cong sum.case_cong)

lemma reports_grow [simp]:
  "ss_trajectory (addEntry env a x st) \<noteq> []" "ss_trajectory (addExit env x c st) \<noteq> []"
  "ss_trajectory (addEntryWithRequestHash env a x h st) \<noteq> []"
  by (simp_all add: addEntry_def addExit_def addEntryWithRequestHash_def report_entry_def)

lemma sim_steps_nonempty: "sim_steps env opts = Inr st \<Longrightarrow> ss_trajectory st \<noteq> []"
  by (auto simp: sim_steps_def remove_step_def fetch_step_def net_request_step_def Let_def
      split: sum.splits option.splits if_splits)


section \<open>Renames\<close>

text \<open>The simulated agent reports one rename, of the old name.\<close>

definition renames :: "Trajectory \<Rightarrow> string list" where
  "renames t = map te_Target (filter (\<lambda>e. te_ActionType e = FileRename) t)"

lemma renames_append [simp]: "renames (s @ t) = renames s @ renames t"
  by (simp add: renames_def)

lemma renames_reported [simp]:
  "renames (ss_trajectory (addEntry env a x st)) = renames (ss_trajectory st) @ (if a = FileRename then [x] else [])"
  "renames (ss_trajectory (addEntryWithInputHash env a x h st)) = renames (ss_trajectory st) @ (if a = FileRename then [x] else [])"
  "renames (ss_trajectory (addEntryWithOutputHash env a x h st)) = renames (ss_trajectory st) @ (if a = FileRename then [x] else [])"
  "renames (ss_trajectory (addEntryWithRequestHash env a x h st)) = renames (ss_trajectory st) @ (if a = FileRename then [x] else [])"
  "renames (ss_trajectory (addExit env x c st)) = renames (ss_trajectory st)"
  by (simp_all add: renames_def addEntry_def addEntryWithInputHash_def addEntryWithOutputHash_def
      addEntryWithRequestHash_def addExit_def report_entry_def plain_entry_def ProcessExit_def FileRename_def)

lemma not_renames [simp]: "FileOpen \<noteq> FileRename" "FileWrite \<noteq> FileRename" "FileClose \<noteq> FileRename" "FileDelete \<noteq> FileRename"
  "ProcessExec \<noteq> FileRename" "NetConnect \<noteq> FileRename" "NetRequest \<noteq> FileRename"
  by (simp_all add: action_defs)

lemma renames_steps:
  "write_step env f st = Inr st' \<Longrightarrow> renames (ss_trajectory st') = renames (ss_trajectory st)"
  "rename_step env f st = Inr st' \<Longrightarrow> renames (ss_trajectory st') = renames (ss_trajectory st) @ [f]"
  "wc_step env f st = Inr st' \<Longrightarrow> renames (ss_trajectory st') = renames (ss_trajectory st)"
  "remove_step env f st = Inr st' \<Longrightarrow> renames (ss_trajectory st') = renames (ss_trajectory st)"
  "curl_step env opts u st = Inr st' \<Longrightarrow> renames (ss_trajectory st') = renames (ss_trajectory st)"
  "renames (ss_trajectory (net_request_step env opts u st)) = renames (ss_trajectory st)"
  by (auto simp: write_step_def rename_step_def wc_step_def remove_step_def curl_step_def net_request_step_def Let_def
      split: sum.splits option.splits)

lemma renames_fetch: "fetch_step env opts st = Inr st' \<Longrightarrow> renames (ss_trajectory st') = renames (ss_trajectory st)"
  by (auto simp: fetch_step_def renames_steps(6) dest: renames_steps(5) split: if_splits sum.splits option.splits)

lemma one_rename:
  "sim_steps env opts = Inr st \<Longrightarrow> renames (ss_trajectory st) = [join_path (so_workspace opts) ''file1.txt'']"
  by (auto simp: sim_steps_def Let_def renames_def [of "[]"] dest!: renames_steps(1-5) renames_fetch
      split: sum.splits if_splits)

section \<open>Witnesses\<close>

definition ex_sim :: sim_env where
  "ex_sim = \<lparr>se_clock = (\<lambda>n. int n + 1), se_write = None, se_rename = None, se_wc_path = Inr ''/usr/bin/wc'', se_wc_run = Inr 0,
     se_remove = None, se_url = (\<lambda>u. Inl ''bad''), se_curl_path = Inl ''none'', se_curl_run = None, se_ips = Inr [],
     se_request = None\<rparr>"

definition ex_sim_opts :: sim_options where
  "ex_sim_opts = \<lparr>so_workspace = ''/w'', so_trajectoryOut = ''t'', so_dropEntry = -1, so_fileOnly = True, so_attack = '''',
     so_fetchURL = '''', so_fetchMethod = ''GET'', so_fetchBody = '''', so_emitNetRequest = False, so_fetchViaCurl = False\<rparr>"

text \<open>The honest report of the run, and a ground truth that repeats it.\<close>

definition ex_report :: Trajectory where
  "ex_report =
     [(plain_entry FileOpen ''/w/file1.txt'' 1)\<lparr>te_InputHash := Some emptyHash\<rparr>, plain_entry FileWrite ''/w/file1.txt'' 2,
      plain_entry FileWrite ''/w/file1.txt'' 3, (plain_entry FileClose ''/w/file1.txt'' 4)\<lparr>te_OutputHash := Some fileHash\<rparr>,
      plain_entry FileRename ''/w/file1.txt'' 5, plain_entry FileDelete ''/w/file2.txt'' 6]"

definition repeat_event :: "TrajectoryEntry \<Rightarrow> GroundTruthEvent" where
  "repeat_event e = \<lparr>ge_Timestamp = te_Timestamp e, ge_ActionType = te_ActionType e, ge_Target = te_Target e,
     ge_InputHash = te_InputHash e, ge_OutputHash = te_OutputHash e, ge_ExitCode = te_ExitCode e, ge_IsTopLevel = None,
     ge_PathIsAmbiguous = False, ge_RequestHash = te_RequestHash e\<rparr>"

lemma ex_sim_report: "simagent ex_sim ex_sim_opts = Inr ex_report"
proof -
  have j: "join_path ''/w'' ''file1.txt'' = ''/w/file1.txt''" "join_path ''/w'' ''file2.txt'' = ''/w/file2.txt''" by code_simp+
  show ?thesis
    by (simp add: simagent_def ex_sim_opts_def ex_sim_def sim_steps_def j write_step_def rename_step_def remove_step_def
        fetch_step_def addEntry_def addEntryWithInputHash_def addEntryWithOutputHash_def report_entry_def Let_def
        apply_attack_def drop_entry_def ex_report_def)
qed

lemma repeat_event_mirrors: "mirrors e (repeat_event e)"
  by (auto simp: mirrors_def repeat_event_def detailsAgree_def Let_def hashesAgree_def exitCodesAgree_def
      requestHashesAgree_def)

lemma ex_report_faithful: "Faithful (Verify ex_report (map repeat_event ex_report) \<lparr>Delta = 2000000000\<rparr>)"
proof (rule mirrored_faithful)
  let ?g = "map repeat_event ex_report"
  have len: "length ex_report = 6" by (simp add: ex_report_def)
  have top: "top_indices ?g = {..<6}"
    using len by (auto simp: top_indices_def isTopLevel_def repeat_event_def)
  have ts: "ge_Timestamp (?g ! i) = int i + 1" if "i < 6" for i
    using that by (simp add: ex_report_def plain_entry_def repeat_event_def numeral_eq_Suc less_Suc_eq)
      (elim disjE; simp)
  show "distinct_times ?g" unfolding distinct_times_def top using ts by simp
  show "times_in_range ?g" unfolding times_in_range_def top using ts by (auto simp: MinDuration_def)
  show "distinct [0..<6 :: nat]" "set [0..<6] = top_indices ?g" by (auto simp: top)
  show "list_all2 (\<lambda>e i. mirrors e (?g ! i)) ex_report [0..<6]"
    using len by (simp add: list_all2_conv_all_nth repeat_event_mirrors)
qed simp


end
