(* ===== verification/Cmd_Watch.thy ===== *)
theory Cmd_Watch
  imports Fs_Life Proc_Life Net_Life Http1 Cmd_Verify Cmd_Simagent "HOL-Library.List_Lexorder" "HOL-Library.Char_ord"
begin

text \<open>
  The recorder, \<open>cmd/watch/main.go\<close>: it builds the requested probes, starts and stops them around the run of
  the agent, and writes what they recorded. The probes are the components of the other theories; here
  each call on them is an action of a trace, so that their order is what the theorems are about.
\<close>

section \<open>Configuration\<close>

record watchConfig =
  wc_Workspace :: string
  wc_ProcFilter :: string
  wc_EventBufSize :: int
  wc_AncestryPending :: bool
  wc_NetExePath :: string
  wc_NetCachePath :: string

record watchOptions =
  wo_cfg :: watchConfig
  wo_probes :: string
  wo_out :: string
  wo_rootPID :: int
  wo_agentArgs :: "string list"

datatype probe_kind = Fs | Proc | Net

text \<open>The table of builders. The process of the recorder and the mount descriptor belong to the filesystem
  observer that is built.\<close>

definition probeBuilders :: "(string \<times> probe_kind) list" where
  "probeBuilders = [(''fs'', Fs), (''proc'', Proc), (''net'', Net)]"

definition build_fs :: "s32 \<Rightarrow> int \<Rightarrow> watchConfig \<Rightarrow> fs_config" where
  "build_fs own_pid mountFD cfg =
     \<lparr>fc_PathFilter = wc_Workspace cfg, fc_PIDFilter = 0, fc_own_pid = own_pid, fc_mountFD = mountFD,
      fc_settleDelay = settleQuietWindow\<rparr>"

definition build_proc :: "watchConfig \<Rightarrow> Config_proc" where
  "build_proc cfg = \<lparr>PIDFilter = 0, CommandFilter = wc_ProcFilter cfg, DeferRootPID = wc_AncestryPending cfg\<rparr>"

text \<open>The options the builders pass to the constructors of the observers.\<close>

definition fs_probe_options :: "watchConfig \<Rightarrow> fs_options" where
  "fs_probe_options cfg =
     \<lparr>fo_Path = wc_Workspace cfg, fo_PathFilter = wc_Workspace cfg, fo_PIDFilter = 0, fo_EventBufSize = of_int (wc_EventBufSize cfg)\<rparr>"

definition proc_probe_options :: "watchConfig \<Rightarrow> proc_config" where
  "proc_probe_options cfg = Config_proc.extend (build_proc cfg) \<lparr>EventBufSize = of_int (wc_EventBufSize cfg)\<rparr>"

definition net_probe_options :: "watchConfig \<Rightarrow> net_config" where
  "net_probe_options cfg =
     \<lparr>nc_TrackedPID = 0, nc_EventBufSize = of_int (wc_EventBufSize cfg), nc_ExePath = wc_NetExePath cfg\<rparr>"

lemma New_fs_cfg: "New_fs env mfd own (fs_probe_options cfg) = (Inr o1, tr) \<Longrightarrow> fo_cfg o1 = build_fs own mfd cfg"
  by (auto simp: New_fs_def initFanotify_def markFilesystem_def openMountFD_def attempt_def build_fs_def fs_probe_options_def
      split: option.splits if_splits)

lemma proc_probe_cfg: "Config_proc.truncate (proc_probe_options cfg) = build_proc cfg"
  by (simp add: proc_probe_options_def Config_proc.defs build_proc_def)

text \<open>The names of the table in order (\<open>sort.Strings\<close>).\<close>

definition availableProbes :: string where
  "availableProbes = join_with '', '' (sort (map fst probeBuilders))"

section \<open>The world and the trace\<close>

datatype agent_end = Agent_Exited "string option" | Interrupted_Early

text \<open>The answers of the calls: user id, the error of each builder in the order they are called, the process
  id of the agent or why it could not be started, the errors of \<open>SetRootPID\<close>, encoding and writing,
  how the agent ended, and what the collectors received until they were done.\<close>

record watch_env =
  we_uid :: int
  we_build :: "nat \<Rightarrow> string option"
  we_launch :: "string + int"
  we_set_root :: "string option"
  we_agent :: agent_end
  we_recorded :: GroundTruth
  we_sort :: "GroundTruth \<Rightarrow> GroundTruth"
  we_marshal :: "GroundTruth \<Rightarrow> string + bytes"
  we_write :: "string option"

text \<open>Observers are numbered in the order they are built.\<close>

datatype watch_action =
    Built nat probe_kind
  | Collecting nat
  | Started nat
  | Root_Set nat s32
  | Tracked nat s32
  | Stopped nat
  | Slept int
  | Launched "string list"
  | Killed
  | Waited
  | Signalled
  | Wrote string bytes

record watch_state =
  ws_others :: "nat list"
  ws_proc :: "nat option"
  ws_net :: "nat option"
  ws_procStarted :: bool
  ws_netStarted :: bool
  ws_next :: nat
  ws_trace :: "watch_action list"

definition act :: "watch_action \<Rightarrow> watch_state \<Rightarrow> watch_state" where
  "act a st = st\<lparr>ws_trace := ws_trace st @ [a]\<rparr>"

definition watch_init :: watch_state where
  "watch_init = \<lparr>ws_others = [], ws_proc = None, ws_net = None, ws_procStarted = False, ws_netStarted = False,
     ws_next = 0, ws_trace = []\<rparr>"

section \<open>The steps of runWatch\<close>

definition register_probe :: "probe_kind \<Rightarrow> watch_state \<Rightarrow> watch_state" where
  "register_probe kind st =
     (let i = ws_next st; st1 = (act (Built i kind) st)\<lparr>ws_next := i + 1\<rparr>
      in case kind of
        Proc \<Rightarrow> st1\<lparr>ws_proc := Some i\<rparr>
      | Net \<Rightarrow> st1\<lparr>ws_net := Some i\<rparr>
      | Fs \<Rightarrow> st1\<lparr>ws_others := ws_others st1 @ [i]\<rparr>)"

text \<open>The loop over the names of the option; the second part of a result is the error.\<close>

fun build_probes :: "watch_env \<Rightarrow> string list \<Rightarrow> watch_state \<Rightarrow> watch_state \<times> string option" where
  "build_probes env [] st = (st, None)"
| "build_probes env (n # names) st =
     (let name = str_of (TrimSpace (bytes_of n))
      in if name = '''' then build_probes env names st
         else case map_of probeBuilders name of
           None \<Rightarrow> (st, Some (''unknown probe '' @ [CHR 0x22] @ name @ [CHR 0x22] @ '' (available: '' @ availableProbes @ '')''))
         | Some kind \<Rightarrow>
             (case we_build env (ws_next st) of
                Some err \<Rightarrow> (st, Some (''start '' @ name @ '' probe: '' @ err))
              | None \<Rightarrow> build_probes env names (register_probe kind st)))"

definition collect :: "nat \<Rightarrow> watch_state \<Rightarrow> watch_state" where
  "collect i st = act (Collecting i) st"

definition start_others :: "watch_state \<Rightarrow> watch_state" where
  "start_others st = fold (\<lambda>i st. act (Started i) (collect i st)) (ws_others st) st"

definition collect_held :: "nat option \<Rightarrow> watch_state \<Rightarrow> watch_state" where
  "collect_held held st = (case held of None \<Rightarrow> st | Some i \<Rightarrow> collect i st)"

definition startProc :: "watch_state \<Rightarrow> watch_state" where
  "startProc st =
     (case ws_proc st of
        None \<Rightarrow> st
      | Some i \<Rightarrow> if ws_procStarted st then st else (act (Started i) st)\<lparr>ws_procStarted := True\<rparr>)"

text \<open>An error of \<open>TrackPID\<close> is only logged.\<close>

definition startNet :: "s32 \<Rightarrow> watch_state \<Rightarrow> watch_state" where
  "startNet pid st =
     (case ws_net st of
        None \<Rightarrow> st
      | Some i \<Rightarrow>
          if ws_netStarted st then st
          else
            let st1 = (if sint pid > 0 then act (Tracked i pid) st else st)
            in (act (Started i) st1)\<lparr>ws_netStarted := True\<rparr>)"

definition stop_held :: "nat option \<Rightarrow> watch_state \<Rightarrow> watch_state" where
  "stop_held held st = (case held of None \<Rightarrow> st | Some i \<Rightarrow> act (Stopped i) st)"

definition stopEverything :: "watch_state \<Rightarrow> watch_state" where
  "stopEverything st =
     (let st1 = startNet 0 (startProc st);
          st2 = fold (\<lambda>i. act (Stopped i)) (ws_others st1) st1
      in stop_held (ws_proc st2) (stop_held (ws_net st2) st2))"

text \<open>The run with an agent to launch, with a running root, and without either: the state after it, the error
  it returns early with, and the error of the agent.\<close>

definition setRoot :: "watch_env \<Rightarrow> s32 \<Rightarrow> watch_state \<Rightarrow> watch_state + watch_state" where
  "setRoot env pid st =
     (case ws_proc st of
        None \<Rightarrow> Inr st
      | Some i \<Rightarrow> (case we_set_root env of Some err \<Rightarrow> Inl st | None \<Rightarrow> Inr (act (Root_Set i pid) st)))"

definition run_agent :: "watch_env \<Rightarrow> watchOptions \<Rightarrow> watch_state \<Rightarrow> watch_state \<times> string option \<times> string option" where
  "run_agent env opts st0 =
     (let st = act (Slept 200) st0
      in case we_launch env of
        Inl err \<Rightarrow>
          (stopEverything st,
           Some (''start agent '' @ [CHR 0x22] @ wo_agentArgs opts ! 0 @ [CHR 0x22] @ '': '' @ err), None)
      | Inr pid \<Rightarrow>
          (case setRoot env (of_int pid) (act (Launched (wo_agentArgs opts)) st) of
             Inl st1 \<Rightarrow>
               (stopEverything (act Waited (act Killed st1)), Some (''set proc probe root pid: '' @ the (we_set_root env)), None)
           | Inr st1 \<Rightarrow>
               (let st2 = startNet (of_int pid) (startProc st1)
                in case we_agent env of
                  Agent_Exited agentErr \<Rightarrow> (act (Slept 300) (act Waited st2), None, agentErr)
                | Interrupted_Early \<Rightarrow> (act (Slept 300) (act Waited (act Killed st2)), None, None))))"

definition run_root :: "watch_env \<Rightarrow> watchOptions \<Rightarrow> watch_state \<Rightarrow> watch_state \<times> string option \<times> string option" where
  "run_root env opts st =
     (case setRoot env (of_int (wo_rootPID opts)) st of
        Inl st1 \<Rightarrow> (stopEverything st1, Some (''set proc probe root pid: '' @ the (we_set_root env)), None)
      | Inr st1 \<Rightarrow> (act Signalled (startNet (of_int (wo_rootPID opts)) (startProc st1)), None, None))"

definition run_free :: "watch_state \<Rightarrow> watch_state \<times> string option \<times> string option" where
  "run_free st = (act Signalled (startNet 0 (startProc st)), None, None)"

definition run_mode :: "watch_env \<Rightarrow> watchOptions \<Rightarrow> watch_state \<Rightarrow> watch_state \<times> string option \<times> string option" where
  "run_mode env opts st =
     (if length (wo_agentArgs opts) > 0 then run_agent env opts st
      else if wo_rootPID opts > 0 then run_root env opts st
      else run_free st)"

definition write_ground_truth :: "watch_env \<Rightarrow> watchOptions \<Rightarrow> string option \<Rightarrow> watch_state \<Rightarrow> watch_state \<times> string option" where
  "write_ground_truth env opts agentErr st =
     (case we_marshal env (we_sort env (we_recorded env)) of
        Inl err \<Rightarrow> (st, Some (''marshal ground truth: '' @ err))
      | Inr b \<Rightarrow>
          (case we_write env of
             Some err \<Rightarrow> (st, Some (''write '' @ wo_out opts @ '': '' @ err))
           | None \<Rightarrow> (act (Wrote (wo_out opts) b) st, map_option (\<lambda>err. ''agent exited with error: '' @ err) agentErr)))"

text \<open>The configuration the builders get: filtered from the start when a root will be named.\<close>

definition pending_cfg :: "watchOptions \<Rightarrow> watchConfig" where
  "pending_cfg opts = (wo_cfg opts)\<lparr>wc_AncestryPending := length (wo_agentArgs opts) > 0 \<or> wo_rootPID opts \<noteq> 0\<rparr>"

definition runWatch :: "watch_env \<Rightarrow> watchOptions \<Rightarrow> watch_state \<times> string option" where
  "runWatch env opts =
     (if wc_Workspace (wo_cfg opts) = '''' then (watch_init, Some ''--workspace is required'')
      else if wo_rootPID opts \<noteq> 0 \<and> length (wo_agentArgs opts) > 0 then
        (watch_init, Some ''--root-pid and a trailing `-- <command>` are mutually exclusive'')
      else if we_uid env \<noteq> 0 then
        (watch_init, Some ''watch requires root (fanotify + eBPF); rerun with sudo'')
      else case build_probes env (split_on CHR '','' (wo_probes opts)) watch_init of
        (st, Some err) \<Rightarrow> (st, Some err)
      | (st, None) \<Rightarrow>
          if length (ws_others st) = 0 \<and> ws_proc st = None \<and> ws_net st = None then (st, Some ''no probes selected'')
          else if wo_rootPID opts \<noteq> 0 \<and> ws_proc st = None then (st, Some ''--root-pid requires the proc probe'')
          else
            (case run_mode env opts (collect_held (ws_net st) (collect_held (ws_proc st) (start_others st))) of
               (st1, Some err, _) \<Rightarrow> (st1, Some err)
             | (st1, None, agentErr) \<Rightarrow> write_ground_truth env opts agentErr (stopEverything st1)))"


section \<open>The life of a probe\<close>

definition opt_list :: "'a option \<Rightarrow> 'a list" where
  "opt_list x = (case x of None \<Rightarrow> [] | Some a \<Rightarrow> [a])"

text \<open>The observers the recorder holds, and what the trace says of one.\<close>

definition held :: "watch_state \<Rightarrow> nat list" where
  "held st = ws_others st @ opt_list (ws_proc st) @ opt_list (ws_net st)"

definition probe_life :: "nat \<Rightarrow> watch_state \<Rightarrow> watch_action list" where
  "probe_life i st = filter (\<lambda>a. a \<in> {Collecting i, Started i, Stopped i}) (ws_trace st)"

definition is_started :: "watch_state \<Rightarrow> nat \<Rightarrow> bool" where
  "is_started st i \<longleftrightarrow> i \<in> set (ws_others st) \<or> (ws_proc st = Some i \<and> ws_procStarted st) \<or>
     (ws_net st = Some i \<and> ws_netStarted st)"

definition running :: "watch_state \<Rightarrow> bool" where
  "running st \<longleftrightarrow> distinct (held st) \<and>
     (\<forall>i\<in>set (held st). probe_life i st = Collecting i # (if is_started st i then [Started i] else []))"

definition is_built :: "watch_action \<Rightarrow> bool" where
  "is_built a = (case a of Built i kind \<Rightarrow> True | _ \<Rightarrow> False)"

definition fresh :: "watch_state \<Rightarrow> bool" where
  "fresh st \<longleftrightarrow> distinct (held st) \<and> (\<forall>i\<in>set (held st). i < ws_next st) \<and> list_all is_built (ws_trace st) \<and>
     \<not> ws_procStarted st \<and> \<not> ws_netStarted st"

lemma act_simps [simp]:
  "ws_others (act a st) = ws_others st" "ws_proc (act a st) = ws_proc st" "ws_net (act a st) = ws_net st"
  "ws_procStarted (act a st) = ws_procStarted st" "ws_netStarted (act a st) = ws_netStarted st"
  "ws_next (act a st) = ws_next st" "ws_trace (act a st) = ws_trace st @ [a]" "held (act a st) = held st"
  "is_started (act a st) = is_started st"
  by (simp_all add: act_def held_def is_started_def fun_eq_iff)

lemma probe_life_act [simp]:
  "probe_life i (act a st) = probe_life i st @ (if a \<in> {Collecting i, Started i, Stopped i} then [a] else [])"
  by (simp add: probe_life_def)

lemma held_simps [simp]:
  "held (st\<lparr>ws_procStarted := b\<rparr>) = held st" "held (st\<lparr>ws_netStarted := b\<rparr>) = held st"
  "probe_life i (st\<lparr>ws_procStarted := b\<rparr>) = probe_life i st" "probe_life i (st\<lparr>ws_netStarted := b\<rparr>) = probe_life i st"
  by (simp_all add: held_def probe_life_def)

lemma built_life: "list_all is_built (ws_trace st) \<Longrightarrow> probe_life i st = []"
  by (auto simp: probe_life_def is_built_def list_all_iff filter_empty_conv split: watch_action.splits)

lemma fresh_register: "fresh st \<Longrightarrow> fresh (register_probe kind st)"
  by (auto simp: fresh_def register_probe_def held_def opt_list_def Let_def is_built_def act_def less_Suc_eq
      split: probe_kind.splits option.splits)

lemma fresh_build: "fresh st \<Longrightarrow> fresh (fst (build_probes env names st))"
  by (induction env names st rule: build_probes.induct) (auto simp: Let_def fresh_register split: option.splits)

lemma fresh_init: "fresh watch_init"
  by (simp add: fresh_def watch_init_def held_def opt_list_def)

text \<open>The steps in terms of what they add to a life.\<close>

lemma start_others_life:
  assumes "distinct is"
  shows "probe_life i (fold (\<lambda>i st. act (Started i) (collect i st)) is st) =
      probe_life i st @ (if i \<in> set is then [Collecting i, Started i] else [])"
    and "held (fold (\<lambda>i st. act (Started i) (collect i st)) is st) = held st"
    and "ws_others (fold (\<lambda>i st. act (Started i) (collect i st)) is st) = ws_others st"
    and "ws_proc (fold (\<lambda>i st. act (Started i) (collect i st)) is st) = ws_proc st"
    and "ws_net (fold (\<lambda>i st. act (Started i) (collect i st)) is st) = ws_net st"
    and "ws_procStarted (fold (\<lambda>i st. act (Started i) (collect i st)) is st) = ws_procStarted st"
    and "ws_netStarted (fold (\<lambda>i st. act (Started i) (collect i st)) is st) = ws_netStarted st"
  using assms by (induction "is" arbitrary: st) (auto simp: collect_def)

lemma stop_fold_life:
  assumes "distinct is"
  shows "probe_life i (fold (\<lambda>i. act (Stopped i)) is st) = probe_life i st @ (if i \<in> set is then [Stopped i] else [])"
    and "held (fold (\<lambda>i. act (Stopped i)) is st) = held st"
    and "ws_proc (fold (\<lambda>i. act (Stopped i)) is st) = ws_proc st"
    and "ws_net (fold (\<lambda>i. act (Stopped i)) is st) = ws_net st"
  using assms by (induction "is" arbitrary: st) auto

lemma collect_held_simps [simp]:
  "probe_life i (collect_held h st) = probe_life i st @ (if h = Some i then [Collecting i] else [])"
  "held (collect_held h st) = held st" "is_started (collect_held h st) = is_started st"
  by (simp_all add: collect_held_def collect_def split: option.split)

lemma distinct_held:
  "distinct (held st) \<longleftrightarrow> distinct (ws_others st) \<and>
     (\<forall>i. ws_proc st = Some i \<or> ws_net st = Some i \<longrightarrow> i \<notin> set (ws_others st)) \<and>
     (\<forall>i. ws_proc st = Some i \<longrightarrow> ws_net st \<noteq> Some i)"
  by (auto simp: held_def opt_list_def split: option.splits)

lemma set_held: "i \<in> set (held st) \<longleftrightarrow> i \<in> set (ws_others st) \<or> ws_proc st = Some i \<or> ws_net st = Some i"
  by (auto simp: held_def opt_list_def split: option.splits)

lemma started_all: "fresh st \<Longrightarrow> running (collect_held (ws_net st) (collect_held (ws_proc st) (start_others st)))"
  unfolding running_def
proof (intro conjI ballI)
  let ?s = "collect_held (ws_net st) (collect_held (ws_proc st) (start_others st))"
  assume f: "fresh st"
  then have d: "distinct (held st)" "list_all is_built (ws_trace st)" "\<not> ws_procStarted st" "\<not> ws_netStarted st"
    by (auto simp: fresh_def)
  then have o: "distinct (ws_others st)" by (simp add: distinct_held)
  note s = start_others_life [OF o, where st = st, folded start_others_def]
  show "distinct (held ?s)" using d(1) by (simp add: s)
  fix i assume "i \<in> set (held ?s)"
  then have "i \<in> set (held st)" by (simp add: s)
  moreover have "is_started ?s i \<longleftrightarrow> i \<in> set (ws_others st)" using d(3,4) by (simp add: is_started_def s)
  ultimately show "probe_life i ?s = Collecting i # (if is_started ?s i then [Started i] else [])"
    using d(1) built_life [OF d(2), of i] by (auto simp: s set_held distinct_held)
qed

lemma running_act:
  "running st \<Longrightarrow> (\<And>i. a \<notin> {Collecting i, Started i, Stopped i}) \<Longrightarrow> running (act a st)"
  by (auto simp: running_def)


lemma running_started:
  assumes "running st" "i \<in> set (held st)" "\<not> is_started st i"
    and "held st' = held st" "\<And>j. probe_life j st' = probe_life j st @ (if j = i then [Started i] else [])"
    and "\<And>j. j \<in> set (held st) \<Longrightarrow> is_started st' j \<longleftrightarrow> is_started st j \<or> j = i"
  shows "running st'"
  using assms unfolding running_def by auto

lemma startProc_held [simp]: "held (startProc st) = held st" "ws_others (startProc st) = ws_others st"
  "ws_proc (startProc st) = ws_proc st" "ws_net (startProc st) = ws_net st"
  by (auto simp: startProc_def split: option.split)

lemma startNet_held [simp]: "held (startNet pid st) = held st" "ws_others (startNet pid st) = ws_others st"
  "ws_proc (startNet pid st) = ws_proc st" "ws_net (startNet pid st) = ws_net st"
  by (auto simp: startNet_def Let_def split: option.split)

lemma running_startProc:
  assumes "running st"
  shows "running (startProc st)"
proof (cases "\<exists>i. ws_proc st = Some i \<and> \<not> ws_procStarted st")
  case True
  then obtain i where i: "ws_proc st = Some i" "\<not> ws_procStarted st" by blast
  have d: "distinct (held st)" using assms by (simp add: running_def)
  show ?thesis
    by (rule running_started [OF assms, of i]) (use i d in \<open>auto simp: startProc_def set_held distinct_held is_started_def\<close>)
next
  case False
  then show ?thesis using assms by (auto simp: startProc_def split: option.split)
qed

lemma running_startNet:
  assumes "running st"
  shows "running (startNet pid st)"
proof (cases "\<exists>i. ws_net st = Some i \<and> \<not> ws_netStarted st")
  case True
  then obtain i where i: "ws_net st = Some i" "\<not> ws_netStarted st" by blast
  have d: "distinct (held st)" using assms by (simp add: running_def)
  show ?thesis
    by (rule running_started [OF assms, of i])
      (use i d in \<open>auto simp: startNet_def Let_def set_held distinct_held is_started_def\<close>)
next
  case False
  then show ?thesis using assms by (auto simp: startNet_def split: option.split)
qed

lemma all_started: "i \<in> set (held st) \<Longrightarrow> is_started (startNet pid (startProc st)) i"
  by (auto simp: is_started_def set_held startNet_def startProc_def Let_def split: option.splits)

text \<open>Stopping completes the life of every probe that is held, also of one that was not started yet.\<close>

definition all_over :: "watch_state \<Rightarrow> bool" where
  "all_over st \<longleftrightarrow> list_all (\<lambda>i. probe_life i st = [Collecting i, Started i, Stopped i]) (held st)"

lemma stop_held_simps [simp]:
  "probe_life i (stop_held h st) = probe_life i st @ (if h = Some i then [Stopped i] else [])"
  "held (stop_held h st) = held st" "ws_proc (stop_held h st) = ws_proc st" "ws_net (stop_held h st) = ws_net st"
  by (simp_all add: stop_held_def split: option.split)

lemma stopped_all:
  assumes "running st"
  shows "all_over (stopEverything st)"
proof -
  define st1 where "st1 = startNet 0 (startProc st)"
  have r: "running st1" unfolding st1_def by (intro running_startNet running_startProc assms)
  then have d: "distinct (held st1)" by (simp add: running_def)
  then have o: "distinct (ws_others st1)" by (simp add: distinct_held)
  note s = stop_fold_life [OF o, where st = st1]
  show ?thesis
    unfolding all_over_def list_all_iff
  proof
    fix i assume "i \<in> set (held (stopEverything st))"
    then have i: "i \<in> set (held st1)" unfolding stopEverything_def Let_def st1_def [symmetric] by (simp add: s)
    then have "probe_life i st1 = [Collecting i, Started i]"
      using r all_started [of i st 0] by (simp add: running_def st1_def)
    then show "probe_life i (stopEverything st) = [Collecting i, Started i, Stopped i]"
      unfolding stopEverything_def Let_def st1_def [symmetric] using i d by (auto simp: s set_held distinct_held)
  qed
qed


lemma running_neutral [intro]:
  "running st \<Longrightarrow> running (act (Slept n) st)" "running st \<Longrightarrow> running (act (Launched as) st)"
  "running st \<Longrightarrow> running (act Killed st)" "running st \<Longrightarrow> running (act Waited st)"
  "running st \<Longrightarrow> running (act Signalled st)" "running st \<Longrightarrow> running (act (Root_Set i pid) st)"
  by (auto intro: running_act)

lemma setRoot_cases:
  "setRoot env pid st = Inl st \<and> we_set_root env \<noteq> None \<or>
   setRoot env pid st = Inr (case ws_proc st of None \<Rightarrow> st | Some i \<Rightarrow> act (Root_Set i pid) st)"
  by (auto simp: setRoot_def split: option.splits)

lemma running_setRoot:
  "setRoot env pid st = Inl st1 \<Longrightarrow> running st \<Longrightarrow> running st1"
  "setRoot env pid st = Inr st1 \<Longrightarrow> running st \<Longrightarrow> running st1"
  by (auto simp: setRoot_def split: option.splits)

lemma run_mode_result:
  assumes "running st"
  shows "case run_mode env opts st of (st1, None, _) \<Rightarrow> running st1 | (st1, Some err, _) \<Rightarrow> all_over st1"
proof -
  have "case run_agent env opts st of (st1, None, _) \<Rightarrow> running st1 | (st1, Some err, _) \<Rightarrow> all_over st1"
    using assms
    by (auto simp: run_agent_def Let_def dest!: running_setRoot intro!: stopped_all running_startNet running_startProc running_neutral
        split: sum.splits agent_end.splits)
  moreover have "case run_root env opts st of (st1, None, _) \<Rightarrow> running st1 | (st1, Some err, _) \<Rightarrow> all_over st1"
    using assms by (auto simp: run_root_def dest!: running_setRoot intro!: stopped_all running_startNet running_startProc running_neutral split: sum.splits)
  moreover have "case run_free st of (st1, None, _) \<Rightarrow> running st1 | (st1, Some err, _) \<Rightarrow> all_over st1"
    using assms by (auto simp: run_free_def intro!: running_startNet running_startProc running_neutral)
  ultimately show ?thesis by (simp add: run_mode_def)
qed

lemma all_over_wrote: "all_over st \<Longrightarrow> all_over (act (Wrote f b) st)"
  by (simp add: all_over_def)

lemma fresh_built: "fresh st \<Longrightarrow> list_all is_built (ws_trace st)"
  by (simp add: fresh_def)

text \<open>
  C10. Every probe that is started is stopped: whatever options, answers of the system and ends of the agent,
  either the recorder returns an error before it started any probe, or each probe it holds lives
  exactly once through collecting, starting and stopping, in this order, so that \<open>Stop\<close> never
  waits for a loop that was not launched and no event is lost before its collector runs.
\<close>

theorem probe_life_cycle:
  "(\<exists>err. snd (runWatch env opts) = Some err \<and> list_all is_built (ws_trace (fst (runWatch env opts)))) \<or>
   all_over (fst (runWatch env opts))"
proof -
  obtain st e where b: "build_probes env (split_on CHR '','' (wo_probes opts)) watch_init = (st, e)" by fastforce
  have f: "fresh st" using fresh_build [OF fresh_init, of env "split_on CHR '','' (wo_probes opts)"] by (simp add: b)
  define st1 where "st1 = collect_held (ws_net st) (collect_held (ws_proc st) (start_others st))"
  have r: "running st1" unfolding st1_def by (rule started_all [OF f])
  obtain st2 e2 a2 where m: "run_mode env opts st1 = (st2, e2, a2)" by (metis prod_cases3)
  have m2: "e2 = None \<Longrightarrow> running st2" "e2 \<noteq> None \<Longrightarrow> all_over st2"
    using run_mode_result [OF r, of env opts] by (auto simp: m split: option.splits)
  have w: "all_over (fst (write_ground_truth env opts a2 (stopEverything st2)))" if "e2 = None"
    using stopped_all [OF m2(1) [OF that]] by (auto simp: write_ground_truth_def all_over_wrote split: sum.splits option.splits)
  have init: "list_all is_built (ws_trace watch_init)" by (simp add: watch_init_def)
  have "runWatch env opts = (st, x) \<and> x \<noteq> None \<or> runWatch env opts = (watch_init, x) \<and> x \<noteq> None \<or>
      runWatch env opts = (st2, e2) \<and> e2 \<noteq> None \<or>
      runWatch env opts = write_ground_truth env opts a2 (stopEverything st2) \<and> e2 = None"
    if "x = snd (runWatch env opts)" for x
    using that unfolding runWatch_def b st1_def [symmetric] prod.case m by (auto split: option.splits)
  then show ?thesis using fresh_built [OF f] init m2(2) w by fastforce
qed


section \<open>Scoping to the agent\<close>

lemma startProc_first: "ws_proc st = Some i \<Longrightarrow> \<not> ws_procStarted st \<Longrightarrow> ws_trace (startProc st) = ws_trace st @ [Started i]"
  by (simp add: startProc_def)

lemma startNet_trace: "\<exists>b. ws_trace (startNet pid st) = ws_trace st @ b"
  by (auto simp: startNet_def Let_def split: option.split)

lemma startProc_trace: "\<exists>b. ws_trace (startProc st) = ws_trace st @ b"
  by (auto simp: startProc_def split: option.split)

lemma stop_fold_trace: "\<exists>b. ws_trace (fold (\<lambda>i. act (Stopped i)) is st) = ws_trace st @ b"
proof (induction "is" arbitrary: st)
  case (Cons i "is")
  then show ?case by (metis act_simps(7) append_assoc fold_simps(2))
qed simp

lemma stopEverything_trace: "\<exists>b. ws_trace (stopEverything st) = ws_trace st @ b"
proof -
  obtain b1 where 1: "ws_trace (startProc st) = ws_trace st @ b1" using startProc_trace by blast
  obtain b2 where 2: "ws_trace (startNet 0 (startProc st)) = ws_trace st @ b1 @ b2"
    using startNet_trace [of 0 "startProc st"] 1 by auto
  let ?s = "startNet 0 (startProc st)"
  obtain b3 where 3: "ws_trace (fold (\<lambda>i. act (Stopped i)) (ws_others st) ?s) = ws_trace st @ b1 @ b2 @ b3"
    using stop_fold_trace [of "ws_others st" ?s] 2 by auto
  show ?thesis
    unfolding stopEverything_def Let_def stop_held_def by (auto simp: 3 split: option.split)
qed

lemma write_trace: "\<exists>b. ws_trace (fst (write_ground_truth env opts e st)) = ws_trace st @ b"
  by (auto simp: write_ground_truth_def split: sum.split option.split)

lemma probe_held [simp]: "ws_proc (stopEverything st) = ws_proc st" "ws_others (stopEverything st) = ws_others st"
proof -
  have "ws_proc (fold (\<lambda>i. act (Stopped i)) is st) = ws_proc st \<and>
      ws_others (fold (\<lambda>i. act (Stopped i)) is st) = ws_others st" for "is" st
    by (induction "is" arbitrary: st) auto
  then show "ws_proc (stopEverything st) = ws_proc st" "ws_others (stopEverything st) = ws_others st"
    by (simp_all add: stopEverything_def Let_def stop_held_def split: option.split)
qed

lemma write_held: "ws_proc (fst (write_ground_truth env opts e st)) = ws_proc st"
  "ws_others (fst (write_ground_truth env opts e st)) = ws_others st"
  by (auto simp: write_ground_truth_def split: sum.split option.split)

text \<open>A run with an agent that does not fail: what precedes the launch, and what follows it at once.\<close>

lemma agent_run:
  assumes "length (wo_agentArgs opts) > 0" "we_launch env = Inr pid" "run_mode env opts st = (st1, None, ae)"
    and "ws_proc st = Some p" "\<not> ws_procStarted st"
  shows "\<exists>b. ws_trace st1 = ws_trace st @ [Slept 200, Launched (wo_agentArgs opts), Root_Set p (of_int pid), Started p] @ b"
    and "ws_proc st1 = Some p" "ws_others st1 = ws_others st"
proof -
  let ?l = "act (Launched (wo_agentArgs opts)) (act (Slept 200) st)"
  have r: "run_agent env opts st = (st1, None, ae)" using assms(1,3) by (simp add: run_mode_def)
  then have s: "setRoot env (of_int pid) ?l = Inr (act (Root_Set p (of_int pid)) ?l)"
    using assms(2,4) by (auto simp: run_agent_def Let_def setRoot_def split: option.splits)
  let ?s = "startNet (of_int pid) (startProc (act (Root_Set p (of_int pid)) ?l))"
  have e: "\<exists>c. ws_trace st1 = ws_trace ?s @ c" "ws_proc st1 = ws_proc ?s" "ws_others st1 = ws_others ?s"
    using r unfolding run_agent_def Let_def assms(2) sum.case s by (auto split: agent_end.splits)
  then show "ws_proc st1 = Some p" "ws_others st1 = ws_others st" using assms(4) by simp_all
  obtain b where "ws_trace ?s = ws_trace (startProc (act (Root_Set p (of_int pid)) ?l)) @ b" using startNet_trace by blast
  then show "\<exists>b. ws_trace st1 = ws_trace st @ [Slept 200, Launched (wo_agentArgs opts), Root_Set p (of_int pid), Started p] @ b"
    using e(1) startProc_first [of "act (Root_Set p (of_int pid)) ?l" p] assms(4,5) by auto
qed

lemma start_others_trace:
  "\<exists>a. ws_trace (fold (\<lambda>i st. act (Started i) (collect i st)) is st) = ws_trace st @ a \<and>
     set a = Collecting ` set is \<union> Started ` set is"
proof (induction "is" arbitrary: st)
  case (Cons i "is")
  from Cons.IH [of "act (Started i) (collect i st)"] obtain a where
    "ws_trace (fold (\<lambda>i st. act (Started i) (collect i st)) is (act (Started i) (collect i st))) =
       ws_trace st @ [Collecting i, Started i] @ a" "set a = Collecting ` set is \<union> Started ` set is"
    by (auto simp: collect_def)
  then show ?case by (intro exI [of _ "[Collecting i, Started i] @ a"]) auto
qed simp


lemma setRoot_held:
  "setRoot env pid st = Inl st1 \<Longrightarrow> ws_proc st1 = ws_proc st"
  "setRoot env pid st = Inr st1 \<Longrightarrow> ws_proc st1 = ws_proc st"
  by (auto simp: setRoot_def split: option.splits)

lemma run_held: "ws_proc (fst (run_agent env opts st)) = ws_proc st" "ws_proc (fst (run_root env opts st)) = ws_proc st"
  "ws_proc (fst (run_free st)) = ws_proc st"
  by (auto simp: run_agent_def run_root_def run_free_def Let_def dest: setRoot_held split: sum.split agent_end.split)

lemma run_mode_held: "ws_proc (fst (run_mode env opts st)) = ws_proc st"
  by (simp add: run_mode_def run_held)

lemma build_cfg: "DeferRootPID (build_proc (pending_cfg opts)) \<longleftrightarrow> wo_agentArgs opts \<noteq> [] \<or> wo_rootPID opts \<noteq> 0"
  "\<not> 0 <s PIDFilter (build_proc (pending_cfg opts))"
  by (auto simp: build_proc_def pending_cfg_def)



definition no_root :: "watch_action \<Rightarrow> bool" where
  "no_root a = (case a of Root_Set i pid \<Rightarrow> False | _ \<Rightarrow> True)"

lemma no_root_simps [simp]: "no_root (Collecting i)" "no_root (Started i)" "no_root (Tracked i pid)" "no_root (Stopped i)"
  "no_root Signalled" "no_root (Wrote f b)"
  by (simp_all add: no_root_def)

lemma built_no_root: "is_built a \<Longrightarrow> no_root a"
  by (cases a) (simp_all add: is_built_def no_root_def)

lemma no_root_startProc: "list_all no_root (ws_trace st) \<Longrightarrow> list_all no_root (ws_trace (startProc st))"
  by (auto simp: startProc_def no_root_def split: option.split)

lemma no_root_startNet: "list_all no_root (ws_trace st) \<Longrightarrow> list_all no_root (ws_trace (startNet pid st))"
  by (auto simp: startNet_def Let_def no_root_def split: option.split)

lemma no_root_stop: "list_all no_root (ws_trace st) \<Longrightarrow> list_all no_root (ws_trace (stopEverything st))"
proof -
  assume n: "list_all no_root (ws_trace st)"
  let ?s = "startNet 0 (startProc st)"
  have "list_all no_root (ws_trace (fold (\<lambda>i. act (Stopped i)) (ws_others ?s) ?s))"
    by (rule fold_invariant [where Q = "\<lambda>_. True"]) (use n in \<open>auto simp: no_root_startProc no_root_startNet\<close>)
  then show ?thesis by (auto simp: stopEverything_def Let_def stop_held_def no_root_def split: option.split)
qed

lemma no_root_write: "list_all no_root (ws_trace st) \<Longrightarrow> list_all no_root (ws_trace (fst (write_ground_truth env opts e st)))"
  by (auto simp: write_ground_truth_def no_root_def split: sum.split option.split)

text \<open>
  A negative root silently records no process: with \<open>--root-pid\<close> below zero the recorder builds the proc
  probe filtered, as for a root to come, but then runs as if no root was given and never names one, so
  that the kernel program sends nothing whatever happens on the host.
\<close>

lemma negative_root_records_nothing:
  assumes "wo_rootPID opts < 0" "wo_agentArgs opts = []" "list_all call_ok calls"
  shows "list_all no_root (ws_trace (fst (runWatch env opts))) \<and>
    events (proc_run calls (New_maps (build_proc (pending_cfg opts)))) = []"
proof -
  have d: "DeferRootPID (build_proc (pending_cfg opts))" using assms(1) by (simp add: build_cfg)
  obtain st0 e where b: "build_probes env (split_on CHR '','' (wo_probes opts)) watch_init = (st0, e)" by fastforce
  have "list_all is_built (ws_trace st0)"
    using fresh_built [OF fresh_build [OF fresh_init, of env "split_on CHR '','' (wo_probes opts)"]] by (simp add: b)
  then have n0: "list_all no_root (ws_trace st0)" by (auto simp: list_all_iff built_no_root)
  define st1 where "st1 = collect_held (ws_net st0) (collect_held (ws_proc st0) (start_others st0))"
  have "list_all no_root (ws_trace (start_others st0))"
    unfolding start_others_def
    by (rule fold_invariant [where Q = "\<lambda>_. True"]) (use n0 in \<open>auto simp: collect_def\<close>)
  then have "list_all no_root (ws_trace st1)"
    by (auto simp: st1_def collect_held_def collect_def split: option.split)
  then have "list_all no_root (ws_trace (act Signalled (startNet 0 (startProc st1))))"
    by (auto simp: no_root_startProc no_root_startNet)
  moreover have "run_mode env opts st1 = (act Signalled (startNet 0 (startProc st1)), None, None)"
    using assms(1,2) by (simp add: run_mode_def run_free_def)
  ultimately have "list_all no_root (ws_trace (fst (runWatch env opts)))"
    unfolding runWatch_def b st1_def [symmetric] prod.case using n0
    by (auto simp: watch_init_def no_root_write no_root_stop split: option.split)
  moreover have "events (proc_run calls (New_maps (build_proc (pending_cfg opts)))) = []"
    using deferred_probe_has_no_window [OF d build_cfg(2), of 1 calls "[]"] assms(3) by (simp add: list_all_iff)
  ultimately show ?thesis ..
qed

section \<open>From the recording to the verdict\<close>

lemma mset_eq_map: "mset xs = mset (map f ys) \<Longrightarrow> \<exists>zs. mset zs = mset ys \<and> xs = map f zs"
proof (induction xs arbitrary: ys)
  case (Cons x xs)
  then have "x \<in> set (map f ys)" by (metis list.set_intros(1) set_mset_mset)
  then obtain y where y: "y \<in> set ys" "x = f y" by auto
  have "mset ys = add_mset y (mset (remove1 y ys))" using y(1) by simp
  then have "mset (map f ys) = add_mset x (mset (map f (remove1 y ys)))" using y(2) by (metis image_mset_add_mset mset_map)
  then have "mset xs = mset (map f (remove1 y ys))" using Cons.prems by simp
  from Cons.IH [OF this] obtain zs where "mset zs = mset (remove1 y ys)" "xs = map f zs" by blast
  then show ?case using y by (intro exI [of _ "y # zs"]) simp
qed simp

lemma top_events_indices:
  assumes "mset evs = mset (filter isTopLevel g)"
  shows "\<exists>is. distinct is \<and> set is = top_indices g \<and> evs = map ((!) g) is"
proof -
  let ?L = "filter (\<lambda>j. isTopLevel (g ! j)) [0..<length g]"
  obtain "is" where "is": "mset is = mset ?L" "evs = map ((!) g) is"
    using mset_eq_map [OF assms [unfolded mset_top_events]] by blast
  have "set is = top_indices g" using "is"(1) by (metis set_mset_mset top_indices_filter)
  moreover have "distinct is" using "is"(1) mset_eq_imp_distinct_iff by fastforce
  ultimately show ?thesis using "is"(2) by blast
qed

lemma wrote_at_end:
  assumes "runWatch env opts = (st, None)"
  obtains b where "we_marshal env (we_sort env (we_recorded env)) = Inr b" "Wrote (wo_out opts) b \<in> set (ws_trace st)"
  using assms
  by (auto simp: runWatch_def write_ground_truth_def split: if_splits option.splits prod.splits sum.splits)

text \<open>
  The recorder runs its probes side by side. What the file holds was received from a filesystem observer
  that \<open>New\<close> built with the options of the recorder, from a process observer, which may since have got its
  root, and from a network observer, over records of its kernel program. A panic in a correlator ends the
  recorder, so nothing comes from a crashed one.
\<close>

interpretation fs_and_proc: probe_pair fs_runs fs_delivers "\<lambda>_. True" proc_delivers
  by unfold_locales

interpretation all_probes: probe_pair
  "\<lambda>(r, s). fs_runs r \<and> True" "\<lambda>(r, s). fs_delivers r @ proc_delivers s" net_runs net_delivers
  by unfold_locales

definition fs_recorded :: "watchConfig \<Rightarrow> GroundTruthEvent \<Rightarrow> bool" where
  "fs_recorded cfg ev \<longleftrightarrow>
     (\<exists>env mfd own o1 tr s. New_fs env mfd own (fs_probe_options cfg) = (Inr o1, tr) \<and> fs_reached o1 (fs_init tr) s \<and>
        list_all wakeup_times_ok (fr_wakeups s) \<and> ev \<in> set (fr_received s))"

definition proc_recorded :: "watchConfig \<Rightarrow> GroundTruthEvent \<Rightarrow> bool" where
  "proc_recorded cfg ev \<longleftrightarrow>
     (\<exists>env monotonic wallNs o1 tr o2 s. New_proc env monotonic wallNs (proc_probe_options cfg) = (Inr o1, tr) \<and>
        (o2 = o1 \<or> (\<exists>env2 pid. o2 = fst (SetRootPID_call env2 pid o1))) \<and>
        po_reached o2 (run_init tr) s \<and> ev \<in> set (pr_received s))"

definition net_recorded :: "watchConfig \<Rightarrow> GroundTruthEvent \<Rightarrow> bool" where
  "net_recorded cfg ev \<longleftrightarrow>
     (\<exists>env monotonic wallNs scan o1 tr room s roots calls k. New_net env monotonic wallNs scan (net_probe_options cfg) = (Inr o1, tr) \<and>
        net_reached o1 room (net_init o1 tr) s \<and> net_start roots k \<and> (\<forall>c\<in>set calls. net_call_ok c) \<and>
        set (ng_net_arrived s) \<subseteq> set (net_events (net_run calls k)) \<and> ng_corr s \<noteq> Corr_Crashed \<and>
        ev \<in> set (take (ng_received s) (co_sent (ng_state s))))"

definition from_probes :: "watchConfig \<Rightarrow> GroundTruthEvent \<Rightarrow> bool" where
  "from_probes cfg ev \<longleftrightarrow> fs_recorded cfg ev \<or> proc_recorded cfg ev \<or> net_recorded cfg ev"

text \<open>Whatever an observer had received at some time of its life is of a run of its probe.\<close>

lemma fs_recorded_valid:
  assumes "fs_recorded cfg ev" "wc_Workspace cfg \<noteq> ''''"
  shows "Validate_event ev = None"
proof -
  obtain env mfd own o1 tr s where n: "New_fs env mfd own (fs_probe_options cfg) = (Inr o1, tr)"
    and r: "fs_reached o1 (fs_init tr) s" "list_all wakeup_times_ok (fr_wakeups s)" "ev \<in> set (fr_received s)"
    using assms(1) unfolding fs_recorded_def by blast
  have d: "fs_data o1 s" using fs_reached_inv [OF r(1) New_fs_all_open [OF n]] by simp
  have "take (fr_passed s) (st_sent (fr_state s)) = fr_received s @ fr_chan s" using d unfolding fs_data_def by blast
  then have e: "ev \<in> set (st_sent (fr_state s))" using r(3) by (metis Un_iff in_set_takeD set_append)
  have "fr_loop s \<noteq> Fs_Unstarted"
  proof
    assume "fr_loop s = Fs_Unstarted"
    then have "st_sent (fr_state s) = []" using d by (simp add: fs_data_def fs_new_def)
    with e show False by simp
  qed
  then have "ev \<in> set (fs_delivers (fo_cfg o1, fr_files s, fr_wakeups s))"
    using e d by (simp add: fs_data_def fs_delivers_def)
  moreover have "fs_runs (fo_cfg o1, fr_files s, fr_wakeups s)"
    using r(2) assms(2) by (simp add: fs_runs_def New_fs_cfg [OF n] build_fs_def)
  ultimately show ?thesis by (rule fs_probe.delivered_valid [rotated])
qed

lemma proc_recorded_valid:
  assumes "proc_recorded cfg ev"
  shows "Validate_event ev = None"
proof -
  obtain env monotonic wallNs o1 tr o2 s where n: "New_proc env monotonic wallNs (proc_probe_options cfg) = (Inr o1, tr)"
    and r: "po_reached o2 (run_init tr) s" "ev \<in> set (pr_received s)"
    using assms unfolding proc_recorded_def by blast
  have "data_inv o2 s" using Proc_Life.reached_inv [OF r(1) Proc_Life.New_open [OF n]] by simp
  then have "ev \<in> set (proc_delivers (po_cfg o2, po_bootOffsetNs o2, pr_read s))"
    using r(2) by (simp add: data_inv_def proc_delivers_def)
  then show ?thesis by (rule proc_probe.delivered_valid [OF TrueI])
qed

lemma net_recorded_valid:
  assumes "net_recorded cfg ev"
  shows "Validate_event ev = None"
proof -
  obtain env monotonic wallNs scan o1 tr room s roots calls k
    where n: "New_net env monotonic wallNs scan (net_probe_options cfg) = (Inr o1, tr)"
      and r: "net_reached o1 room (net_init o1 tr) s" "set (ng_net_arrived s) \<subseteq> set (net_events (net_run calls k))"
      and k: "net_start roots k" "\<forall>c\<in>set calls. net_call_ok c"
      and e: "ng_corr s \<noteq> Corr_Crashed" "ev \<in> set (co_sent (ng_state s))"
    using assms unfolding net_recorded_def by (blast dest: in_set_takeD)
  have i: "delivery_inv o1 room s" using net_reached_inv [OF r(1) New_net_open [OF n]] by simp
  have rd: "set (ng_net_read s) \<subseteq> set (ng_net_arrived s)"
    using i unfolding delivery_inv_def net_data_inv_def by (metis Un_upper1 set_append)
  have m: "set (nets_of (ng_handled s)) \<subseteq> set (List.map_filter netFeed_decode (ng_net_read s))"
    using i unfolding delivery_inv_def net_data_inv_def by (metis Un_upper1 set_append)
  have "feed_ok f" if "f \<in> set (ng_handled s)" for f
  proof (cases f)
    case (FromNet rec)
    then have "rec \<in> set (nets_of (ng_handled s))" using that by (force simp: nets_of_def List.map_filter_def)
    then obtain raw where "raw \<in> set (ng_net_read s)" "netFeed_decode raw = Some rec"
      using m by (auto simp: List.map_filter_def)
    then show ?thesis using kernel_records_feed_ok [OF k] rd r(2) FromNet by blast
  qed (simp add: feed_ok_def)
  then have f: "list_all feed_ok (ng_handled s)" by (simp add: list_all_iff)
  have "net_delivers (no_bootOffsetNs o1, room, ng_handled s) = co_sent (ng_state s)"
    using i e(1) by (simp add: delivery_inv_def handled_inv_def net_delivers_def)
  then show ?thesis
    using net_probe.delivered_valid [of "(no_bootOffsetNs o1, room, ng_handled s)" ev] e(2) f by (simp add: net_runs_def)
qed

lemma from_probes_valid: "from_probes cfg ev \<Longrightarrow> wc_Workspace cfg \<noteq> '''' \<Longrightarrow> Validate_event ev = None"
  unfolding from_probes_def using fs_recorded_valid proc_recorded_valid net_recorded_valid by blast

lemma workspace_given: "runWatch env opts = (st, None) \<Longrightarrow> wc_Workspace (wo_cfg opts) \<noteq> ''''"
  by (auto simp: runWatch_def)



section \<open>Renames\<close>

lemma process_rename:
  assumes "re_Mask e \<in> {FAN_MOVED_FROM, FAN_MOVED_TO}" "\<not> filtered cfg e"
  shows "st_sent (processRawEvent cfg ts (e, k) st) =
    st_sent st @ [fs_event ts FileRename (re_Path e) (re_Ambiguous e) None None]"
proof -
  have m: "maskToActionTypes FAN_MOVED_FROM = [FileRename]" "maskToActionTypes FAN_MOVED_TO = [FileRename]"
    "FAN_MOVED_FROM AND FAN_Q_OVERFLOW = 0" "FAN_MOVED_TO AND FAN_Q_OVERFLOW = 0"
    "FAN_MOVED_FROM AND FAN_OPEN = 0" "FAN_MOVED_TO AND FAN_OPEN = 0"
    by code_simp+
  have o: "\<not> own_open cfg e st" using assms(1) m(5,6) by (auto simp: own_open_def)
  have a: "maskToActionTypes (re_Mask e) = [FileRename]" "re_Mask e AND FAN_Q_OVERFLOW = 0" using assms(1) m by auto
  show ?thesis
    using assms(2) unfolding processRawEvent_def Let_def fst_conv snd_conv
    by (simp add: o a dispatch_def not_sym [OF action_types_distinct(9)] not_sym [OF action_types_distinct(2)])
qed

text \<open>
  A rename takes two entries: the kernel's events for the two names of a rename reach the ground truth as
  two actions, and the simulated agent reports one, so that even its honest trajectory is not judged
  faithful against a ground truth with both.
\<close>

theorem rename_takes_two_entries:
  assumes "simagent senv sopts = Inr t" "so_attack sopts = ''''" "so_dropEntry sopts = -1"
    and "re_Mask e1 = FAN_MOVED_FROM" "re_Mask e2 = FAN_MOVED_TO" "\<not> filtered cfg e1" "\<not> filtered cfg e2"
  shows "\<exists>r1 r2. st_sent (processRawEvent cfg ts2 (e2, k2) (processRawEvent cfg ts1 (e1, k1) st)) = st_sent st @ [r1, r2] \<and>
    ge_Target r1 = re_Path e1 \<and> ge_Target r2 = re_Path e2 \<and>
    \<not> Faithful (Verify t (before @ [r1] @ between @ [r2] @ after) vcfg)"
proof -
  let ?r1 = "fs_event ts1 FileRename (re_Path e1) (re_Ambiguous e1) None None"
  let ?r2 = "fs_event ts2 FileRename (re_Path e2) (re_Ambiguous e2) None None"
  let ?g = "before @ [?r1] @ between @ [?r2] @ after"
  have s: "st_sent (processRawEvent cfg ts2 (e2, k2) (processRawEvent cfg ts1 (e1, k1) st)) = st_sent st @ [?r1, ?r2]"
    using process_rename [of e1 cfg ts1 k1 st] process_rename [of e2 cfg ts2 k2 "processRawEvent cfg ts1 (e1, k1) st"]
      assms(4-7) by simp
  obtain sst where "sim_steps senv sopts = Inr sst" "t = ss_trajectory sst"
    using assms(1-3) by (auto simp: simagent_def apply_attack_def drop_entry_def split: sum.splits if_splits)
  then have "length (renames t) = 1" using one_rename by simp
  then have one: "count (mset (map te_ActionType t)) FileRename = 1"
    unfolding count_mset count_list_eq_length_filter by (simp add: renames_def filter_map comp_def eq_commute)
  have "\<not> Faithful (Verify t ?g vcfg)"
  proof
    assume "Faithful (Verify t ?g vcfg)"
    from faithful_keys [OF this, of te_ActionType ge_ActionType]
    have "mset (map te_ActionType t) = mset (map ge_ActionType (filter isTopLevel ?g))"
      by (simp add: corresponds_action)
    then have "count (mset (map ge_ActionType (filter isTopLevel ?g))) FileRename = 1" using one by simp
    then show False by simp
  qed
  with s show ?thesis by (intro exI [of _ ?r1] exI [of _ ?r2]) simp
qed


section \<open>Witnesses\<close>

text \<open>A recorder of the two default probes that launches an agent, on a system where every call succeeds.\<close>

definition ex_watch :: watchOptions where
  "ex_watch = \<lparr>wo_cfg = \<lparr>wc_Workspace = ''/w'', wc_ProcFilter = '''', wc_EventBufSize = 4096, wc_AncestryPending = False,
       wc_NetExePath = '''', wc_NetCachePath = ''''\<rparr>,
     wo_probes = ''fs,proc'', wo_out = ''g'', wo_rootPID = 0, wo_agentArgs = [''/bin/sh'']\<rparr>"

definition ex_open :: "rawEvent \<times> kernel_view" where
  "ex_open = (Fs_Observer.ex_event FAN_OPEN 42 ''/w/f'', ex_view 12)"

definition ex_reported :: GroundTruthEvent where
  "ex_reported = fs_event 5 FileOpen ''/w/f'' False (Some emptyFileHash) None"

definition ex_world :: watch_env where
  "ex_world = \<lparr>we_uid = 0, we_build = (\<lambda>i. None), we_launch = Inr 100, we_set_root = None, we_agent = Agent_Exited None,
     we_recorded = [ex_reported], we_sort = (\<lambda>g. g), we_marshal = (\<lambda>g. Inr [2]), we_write = None\<rparr>"

definition ex_trace :: "watch_action list" where
  "ex_trace = [Built 0 Fs, Built 1 Proc, Collecting 0, Started 0, Collecting 1, Slept 200, Launched [''/bin/sh''],
     Root_Set 1 100, Started 1, Waited, Slept 300, Stopped 0, Stopped 1, Wrote ''g'' [2]]"

lemma ex_built: "build_probes ex_world (split_on CHR '','' (wo_probes ex_watch)) watch_init =
    (\<lparr>ws_others = [0], ws_proc = Some 1, ws_net = None, ws_procStarted = False, ws_netStarted = False, ws_next = 2,
      ws_trace = [Built 0 Fs, Built 1 Proc]\<rparr>, None)"
  by code_simp

lemma ex_run: "runWatch ex_world ex_watch =
    (\<lparr>ws_others = [0], ws_proc = Some 1, ws_net = None, ws_procStarted = True, ws_netStarted = False, ws_next = 2,
      ws_trace = ex_trace\<rparr>, None)"
  unfolding runWatch_def ex_built prod.case option.case
  by (simp add: ex_watch_def ex_world_def run_mode_def run_agent_def Let_def setRoot_def startNet_def startProc_def
      stopEverything_def stop_held_def write_ground_truth_def collect_held_def collect_def start_others_def act_def ex_trace_def)


lemma negative_root_records_nothing_witness:
  "snd (runWatch ex_world (ex_watch\<lparr>wo_rootPID := -5, wo_agentArgs := []\<rparr>)) = None \<and>
   list_all no_root (ws_trace (fst (runWatch ex_world (ex_watch\<lparr>wo_rootPID := -5, wo_agentArgs := []\<rparr>)))) \<and>
   events (proc_run ex_calls (New_maps (build_proc (pending_cfg (ex_watch\<lparr>wo_rootPID := -5, wo_agentArgs := []\<rparr>))))) = []"
proof -
  let ?o = "ex_watch\<lparr>wo_rootPID := -5, wo_agentArgs := []\<rparr>"
  have p: "wo_probes ?o = wo_probes ex_watch" by simp
  have "snd (runWatch ex_world ?o) = None"
    unfolding runWatch_def p ex_built prod.case option.case
    by (simp add: ex_watch_def ex_world_def run_mode_def run_free_def Let_def write_ground_truth_def)
  then show ?thesis
    using negative_root_records_nothing [of ?o ex_calls ex_world] ex_calls_ok by (simp add: list_all_iff)
qed

definition ex_loader :: verify_env where
  "ex_loader = \<lparr>ve_read = (\<lambda>p. if p = ''t'' then Inr [1] else Inr [2]),
     ve_trajectory = (\<lambda>b. Inr [\<lparr>te_Timestamp = 5, te_ActionType = FileOpen, te_Target = ''/w/f'',
       te_InputHash = Some emptyFileHash, te_OutputHash = None, te_ExitCode = None, te_RequestHash = None\<rparr>]),
     ve_ground_truth = (\<lambda>b. Inr [ex_reported]), ve_time = (\<lambda>t. Itoa t), ve_duration = (\<lambda>d. Itoa (sint d))\<rparr>"

definition ex_fs :: fs_observer where
  "ex_fs = \<lparr>fo_cfg = Fs_Observer.ex_cfg, fo_buffer = 4096\<rparr>"

lemma ex_watch_New_fs: "New_fs (\<lambda>_. None) 3 7 (fs_probe_options (pending_cfg ex_watch)) = (Inr ex_fs, map Opens fs_open)"
  by (simp add: New_fs_def initFanotify_def markFilesystem_def openMountFD_def attempt_def fs_probe_options_def pending_cfg_def
      ex_watch_def ex_fs_def Fs_Observer.ex_cfg_def fs_open_def)

lemma ex_from_probes: "from_probes (pending_cfg ex_watch) ex_reported"
proof -
  let ?e = "Fs_Observer.ex_event FAN_OPEN 42 ''/w/f''" and ?w = "Woken [([ex_open], 5)] []"
  have f: "\<not> filtered Fs_Observer.ex_cfg ?e" by code_simp
  have o: "\<not> own_open Fs_Observer.ex_cfg ?e fs_new" by (simp add: own_open_def Fs_Observer.ex_cfg_def)
  have "st_sent (processRawEvent Fs_Observer.ex_cfg 5 ex_open fs_new) = [ex_reported]"
    using process_open [OF _ f o, of 5 "ex_view 12"]
    by (simp add: ex_open_def Let_def ex_reported_def lookupShadowHash_def fs_new_def ex_view_def note_write_def)
  then have sent: "st_sent (fs_readLoop Fs_Observer.ex_cfg [?w] fs_new) = [ex_reported]"
    by (simp add: drainNonBlocking_def resolveSettled_def)
  have n: "started Fs_Observer.ex_cfg [] = fs_new" by (simp add: started_def Start_walk_def)
  let ?s0 = "fs_init (map Opens fs_open)"
  define s1 where "s1 = ?s0\<lparr>fr_loop := Polling, fr_state := started Fs_Observer.ex_cfg [], fr_files := []\<rparr>"
  have c1: "fs_call_step ex_fs ?s0 s1"
    using fs_call_step.calls_start [of ?s0 ex_fs "[]"] by (simp add: s1_def fs_init_def ex_fs_def)
  have s1: "fr_loop s1 = Polling" "\<not> fr_signal s1" "all_passed s1" "fr_chan s1 = []" "\<not> fr_closed s1" "fr_received s1 = []"
    "fr_passed s1 = 0" "fr_state s1 = fs_new" "fr_wakeups s1 = []"
    by (simp_all add: s1_def fs_init_def all_passed_def n fs_new_def)
  define s2 where "s2 = wake Fs_Observer.ex_cfg ?w s1"
  have c2: "fs_call_step ex_fs s1 s2"
    using fs_call_step.wakes [OF s1(1,3,2), of ex_fs "[([ex_open], 5)]" "[]"] by (simp add: s2_def ex_fs_def)
  have s2: "fr_loop s2 = Polling" "fr_passed s2 = 0" "fr_chan s2 = []" "\<not> fr_closed s2" "fr_received s2 = []"
    "st_sent (fr_state s2) = [ex_reported]" "fr_wakeups s2 = [?w]"
    using s1 sent by (simp_all add: s2_def wake_def del: fs_readLoop.simps)
  have c3: "fs_step ex_fs s2 (pass_event s2)" using s2 by (intro fs_step.passes) (simp_all add: ex_fs_def)
  have s3: "fr_chan (pass_event s2) = [ex_reported]" "fr_received (pass_event s2) = []" "fr_wakeups (pass_event s2) = [?w]"
    using s2 by (simp_all add: pass_event_def)
  define s4 where "s4 = (pass_event s2)\<lparr>fr_chan := [], fr_received := [ex_reported]\<rparr>"
  have c4: "fs_step ex_fs (pass_event s2) s4" using fs_step.receives [OF s3(1), of ex_fs] s3(2) by (simp add: s4_def)
  have r: "fs_reached ex_fs ?s0 s4" by (rule fs_reached_step [OF fs_reached_step [OF fs_reached_call [OF fs_reached_call [OF fs_reached_init c1] c2] c3] c4])
  have "list_all wakeup_times_ok (fr_wakeups s4)" "ex_reported \<in> set (fr_received s4)"
    using s3(3) by (simp_all add: s4_def wakeup_times_Woken)
  then have "fs_recorded (pending_cfg ex_watch) ex_reported" using r ex_watch_New_fs unfolding fs_recorded_def by blast
  then show ?thesis by (simp add: from_probes_def)
qed



theorem rename_takes_two_entries_witness:
  "\<exists>r1 r2. st_sent (processRawEvent Fs_Observer.ex_cfg 6 (Fs_Observer.ex_event FAN_MOVED_TO 42 ''/w/file2.txt'', ex_view 12)
      (processRawEvent Fs_Observer.ex_cfg 5 (Fs_Observer.ex_event FAN_MOVED_FROM 42 ''/w/file1.txt'', ex_view 12) fs_new)) = [r1, r2] \<and>
    ge_Target r1 = ''/w/file1.txt'' \<and> ge_Target r2 = ''/w/file2.txt'' \<and>
    \<not> Faithful (Verify ex_report [r1, r2] DefaultConfig)"
proof -
  have o: "so_attack ex_sim_opts = ''''" "so_dropEntry ex_sim_opts = -1" by (simp_all add: ex_sim_opts_def)
  have f: "\<not> filtered Fs_Observer.ex_cfg (Fs_Observer.ex_event FAN_MOVED_FROM 42 ''/w/file1.txt'')"
    "\<not> filtered Fs_Observer.ex_cfg (Fs_Observer.ex_event FAN_MOVED_TO 42 ''/w/file2.txt'')" by code_simp+
  show ?thesis
    using rename_takes_two_entries [OF ex_sim_report o _ _ f, of 6 "ex_view 12" 5 "ex_view 12" fs_new "[]" "[]" "[]" DefaultConfig]
    by (simp add: fs_new_def)
qed

text \<open>A probe that is named twice is built twice, and the first of the two is never stopped.\<close>

lemma repeated_probe_leaks:
  "Built 0 Proc \<in> set (ws_trace (fst (runWatch ex_world (ex_watch\<lparr>wo_probes := ''proc,proc''\<rparr>)))) \<and>
   Stopped 0 \<notin> set (ws_trace (fst (runWatch ex_world (ex_watch\<lparr>wo_probes := ''proc,proc''\<rparr>))))"
proof -
  have b: "build_probes ex_world (split_on CHR '','' ''proc,proc'') watch_init =
      (\<lparr>ws_others = [], ws_proc = Some 1, ws_net = None, ws_procStarted = False, ws_netStarted = False, ws_next = 2,
        ws_trace = [Built 0 Proc, Built 1 Proc]\<rparr>, None)"
    by code_simp
  have p: "wo_probes (ex_watch\<lparr>wo_probes := ''proc,proc''\<rparr>) = ''proc,proc''" by simp
  show ?thesis
    unfolding runWatch_def p b prod.case option.case
    by (simp add: ex_watch_def ex_world_def run_mode_def run_agent_def Let_def setRoot_def startNet_def startProc_def
        stopEverything_def stop_held_def write_ground_truth_def collect_held_def collect_def start_others_def act_def)
qed

end
