(* ===== verification/C_Layout.thy ===== *)
theory C_Layout
  imports Prelude
begin

text \<open>
  Object layout of C types under the System V ABI for x86-64, as far as the declarations of
  \<open>vmlinux.h\<close> and of the eBPF programs use it: sizes and alignments of the basic types,
  structures with bit-fields and padding, packed structures, unions, arrays, and the offsets
  of members, including those of unnamed structures and unions. Positions are in bits.
\<close>

section \<open>Types\<close>

datatype prim = Cbool | Cchar | Cschar | Cuchar | Cshort | Cushort | Cint | Cuint
  | Clong | Culong | Cllong | Cullong | Cint128 | Cuint128

fun prim_size :: "prim \<Rightarrow> nat" where
  "prim_size Cbool = 1" | "prim_size Cchar = 1" | "prim_size Cschar = 1" | "prim_size Cuchar = 1"
| "prim_size Cshort = 2" | "prim_size Cushort = 2" | "prim_size Cint = 4" | "prim_size Cuint = 4"
| "prim_size Clong = 8" | "prim_size Culong = 8" | "prim_size Cllong = 8" | "prim_size Cullong = 8"
| "prim_size Cint128 = 16" | "prim_size Cuint128 = 16"

text \<open>An enumeration: the integer type that represents it and its enumerators.\<close>

record cenum =
  en_prim :: prim
  en_values :: "(string \<times> int) list"

text \<open>A pointer names its target; \<open>FunPtr\<close> is a pointer to a function. The flag of a structure or
  union is the attribute \<open>packed\<close>. The name of an unnamed member is empty.\<close>

datatype cty =
    Prim prim
  | Ptr string
  | FunPtr
  | Enum cenum
  | Arr nat cty
  | Struct bool "cfield list"
  | Union bool "cfield list"
and cfield =
    Mem string cty
  | Bit string cty nat

section \<open>Sizes and positions\<close>

text \<open>What the layout of a structure needs of a member: size and alignment, and for a bit-field
  whether it has a name and its width.\<close>

datatype slot = Whole nat nat | Bits bool nat nat nat

definition roundup :: "nat \<Rightarrow> nat \<Rightarrow> nat" where
  "roundup a n = (n + (a - 1)) div a * a"

fun slot_start :: "bool \<Rightarrow> nat \<Rightarrow> slot \<Rightarrow> nat" where
  "slot_start packed pos (Whole s a) = roundup (8 * (if packed then 1 else a)) pos"
| "slot_start packed pos (Bits named s a w) =
     (if w = 0 then roundup (8 * a) pos
      else if packed then pos
      else if pos div (8 * s) = (pos + w - 1) div (8 * s) then pos
      else roundup (8 * s) pos)"

fun slot_bits :: "slot \<Rightarrow> nat" where
  "slot_bits (Whole s a) = 8 * s"
| "slot_bits (Bits named s a w) = w"

text \<open>An unnamed bit-field does not raise the alignment of the structure.\<close>

fun slot_align :: "bool \<Rightarrow> slot \<Rightarrow> nat" where
  "slot_align packed (Whole s a) = (if packed then 1 else a)"
| "slot_align packed (Bits named s a w) = (if packed \<or> \<not> named then 1 else a)"

fun slots_align :: "bool \<Rightarrow> slot list \<Rightarrow> nat" where
  "slots_align packed [] = 1"
| "slots_align packed (x # xs) = max (slot_align packed x) (slots_align packed xs)"

fun starts :: "bool \<Rightarrow> nat \<Rightarrow> slot list \<Rightarrow> nat list" where
  "starts packed pos [] = []"
| "starts packed pos (x # xs) =
     slot_start packed pos x # starts packed (slot_start packed pos x + slot_bits x) xs"

fun end_pos :: "bool \<Rightarrow> nat \<Rightarrow> slot list \<Rightarrow> nat" where
  "end_pos packed pos [] = pos"
| "end_pos packed pos (x # xs) = end_pos packed (slot_start packed pos x + slot_bits x) xs"

fun max_bits :: "slot list \<Rightarrow> nat" where
  "max_bits [] = 0"
| "max_bits (x # xs) = max (slot_bits x) (max_bits xs)"

definition struct_meas :: "bool \<Rightarrow> slot list \<Rightarrow> nat \<times> nat" where
  "struct_meas packed xs =
     (let a = slots_align packed xs in (roundup a (roundup 8 (end_pos packed 0 xs) div 8), a))"

definition union_meas :: "bool \<Rightarrow> slot list \<Rightarrow> nat \<times> nat" where
  "union_meas packed xs =
     (let a = slots_align packed xs in (roundup a (roundup 8 (max_bits xs) div 8), a))"

text \<open>Size and alignment of a type, in bytes.\<close>

primrec meas :: "cty \<Rightarrow> nat \<times> nat" and slot_of :: "cfield \<Rightarrow> slot" where
  "meas (Prim p) = (prim_size p, prim_size p)"
| "meas (Ptr n) = (8, 8)"
| "meas FunPtr = (8, 8)"
| "meas (Enum e) = (prim_size (en_prim e), prim_size (en_prim e))"
| "meas (Arr n t) = (n * fst (meas t), snd (meas t))"
| "meas (Struct packed fs) = struct_meas packed (map slot_of fs)"
| "meas (Union packed fs) = union_meas packed (map slot_of fs)"
| "slot_of (Mem n t) = Whole (fst (meas t)) (snd (meas t))"
| "slot_of (Bit n t w) = Bits (n \<noteq> '''') (fst (meas t)) (snd (meas t)) w"

definition sizeof :: "cty \<Rightarrow> nat" where "sizeof t = fst (meas t)"
definition alignof :: "cty \<Rightarrow> nat" where "alignof t = snd (meas t)"

text \<open>The members a name can select, with their position and width: those of an unnamed structure or
  union are members of the enclosing type.\<close>

definition shift :: "nat \<Rightarrow> (string \<times> nat \<times> nat) list \<Rightarrow> (string \<times> nat \<times> nat) list" where
  "shift b ms = map (\<lambda>(n, p, w). (n, b + p, w)) ms"

fun place :: "bool \<Rightarrow> nat \<Rightarrow> slot list \<Rightarrow> (string \<times> nat \<times> nat) list list \<Rightarrow> (string \<times> nat \<times> nat) list" where
  "place packed pos (x # xs) (m # ms) =
     shift (slot_start packed pos x) m @ place packed (slot_start packed pos x + slot_bits x) xs ms"
| "place packed pos _ _ = []"

primrec members :: "cty \<Rightarrow> (string \<times> nat \<times> nat) list"
  and field_members :: "cfield \<Rightarrow> (string \<times> nat \<times> nat) list" where
  "members (Prim p) = []"
| "members (Ptr n) = []"
| "members FunPtr = []"
| "members (Enum e) = []"
| "members (Arr n t) = []"
| "members (Struct packed fs) =
     place packed 0 (map slot_of fs) (map field_members fs)"
| "members (Union packed fs) = concat (map field_members fs)"
| "field_members (Mem n t) = (if n = '''' then members t else [(n, 0, 8 * fst (meas t))])"
| "field_members (Bit n t w) = (if n = '''' then [] else [(n, 0, w)])"

text \<open>Offset and size in bytes of a member.\<close>

definition member_at :: "cty \<Rightarrow> string \<Rightarrow> (nat \<times> nat) option" where
  "member_at t n = map_option (\<lambda>(p, w). (p div 8, w div 8)) (map_of (members t) n)"

section \<open>Evaluation\<close>

text \<open>Runs of unnamed 64-bit fields, with which \<open>vmlinux.h\<close> pads to cache lines and pages.\<close>

lemma end_pos_append: "end_pos packed pos (xs @ ys) = end_pos packed (end_pos packed pos xs) ys"
  by (induction xs arbitrary: pos) simp_all

lemma slots_align_pos: "0 < slots_align packed xs"
  by (induction xs) (auto simp: less_max_iff_disj)

lemma slots_align_append: "slots_align packed (xs @ ys) = max (slots_align packed xs) (slots_align packed ys)"
proof (induction xs)
  case Nil
  have "1 \<le> slots_align packed ys" using slots_align_pos [of packed ys] by linarith
  then show ?case by simp
qed (simp add: max.assoc)

lemma slots_align_padding: "slots_align packed (replicate n (Bits False s a w)) = 1"
  by (induction n) simp_all

lemma roundup_dvd [simp]: "a dvd roundup a n"
  by (simp add: roundup_def)

lemma roundup_1: "roundup (Suc 0) n = n" "roundup 1 n = n" "roundup (Suc (Suc 0)) n = (n + 1) div 2 * 2"
  by (simp_all only: roundup_def numeral_2_eq_2 [symmetric]) simp_all

lemma roundup_numeral: "roundup (numeral a) n = (n + (numeral a - 1)) div numeral a * numeral a"
  by (simp add: roundup_def)

lemma end_pos_padding_aligned: "64 dvd pos \<Longrightarrow>
    end_pos packed pos (replicate n (Bits False 8 8 64)) = pos + 64 * n"
proof (induction n arbitrary: pos)
  case (Suc n)
  from Suc.prems obtain k where "pos = 64 * k" by (rule dvdE)
  then have "slot_start packed pos (Bits False 8 8 64) = pos" by (cases packed) simp_all
  moreover have "64 dvd pos + 64" using Suc.prems by simp
  ultimately show ?case using Suc.IH [of "pos + 64"] by (simp del: slot_start.simps)
qed simp

lemma end_pos_padding: "end_pos False pos (replicate n (Bits False 8 8 64)) =
    (if n = 0 then pos else roundup 64 pos + 64 * n)"
proof (cases n)
  case (Suc m)
  have "slot_start False pos (Bits False 8 8 64) = roundup 64 pos"
  proof (cases "pos mod 64 = 0")
    case True
    then obtain k where "pos = 64 * k" by (auto elim: dvdE)
    then show ?thesis by (simp add: roundup_numeral)
  next
    case False
    have "pos div 64 * 64 + pos mod 64 = pos" by simp
    with False have "(pos + 64 - 1) div 64 \<noteq> pos div 64" by linarith
    then show ?thesis by (simp add: eq_commute [of "pos div 64"] add.commute [of 63])
  qed
  moreover have "64 dvd roundup 64 pos + 64" by simp
  ultimately show ?thesis
    using Suc end_pos_padding_aligned [of "roundup 64 pos + 64" False m] by (simp del: slot_start.simps)
qed simp

lemma place_append: "length xs = length ms \<Longrightarrow>
    place packed pos (xs @ ys) (ms @ ns) = place packed pos xs ms @ place packed (end_pos packed pos xs) ys ns"
  by (induction packed pos xs ms rule: place.induct) simp_all

lemma place_padding: "place packed pos (replicate n x) (replicate n []) = []"
  by (induction n arbitrary: pos) (simp_all add: shift_def)

lemmas layout_eval = place_append place_padding struct_meas_def union_meas_def roundup_1 roundup_numeral Let_def map_replicate
  end_pos_append slots_align_append slots_align_padding end_pos_padding

section \<open>Soundness of the layout\<close>

lemma roundup_le: "0 < a \<Longrightarrow> n \<le> roundup a n"
proof -
  assume a: "0 < a"
  have "(n + (a - 1)) mod a < a" using a by simp
  moreover have "(n + (a - 1)) div a * a + (n + (a - 1)) mod a = n + (a - 1)" by simp
  ultimately show ?thesis unfolding roundup_def by linarith
qed

lemma prim_size_pos [simp]: "0 < prim_size p"
  by (cases p) simp_all

text \<open>Every alignment is positive.\<close>

definition slot_ok :: "slot \<Rightarrow> bool" where
  "slot_ok x = (case x of Whole s a \<Rightarrow> 0 < a | Bits named s a w \<Rightarrow> 0 < a)"

lemma meas_pos: "0 < snd (meas t)" and slot_of_ok: "slot_ok (slot_of f)"
  by (induction t and f) (auto simp: struct_meas_def union_meas_def Let_def slots_align_pos slot_ok_def)

lemma slot_start_le: "slot_ok x \<Longrightarrow> pos \<le> slot_start packed pos x"
proof (cases x)
  case (Bits named s a w)
  assume "slot_ok x"
  then show ?thesis using Bits
    by (cases "s = 0") (auto simp: slot_ok_def intro: roundup_le)
qed (auto simp: slot_ok_def intro: roundup_le)

lemma starts_ge: "list_all slot_ok xs \<Longrightarrow> b \<in> set (starts packed pos xs) \<Longrightarrow> pos \<le> b"
proof (induction xs arbitrary: pos)
  case (Cons x xs)
  have s: "pos \<le> slot_start packed pos x" using Cons.prems by (simp add: slot_start_le)
  let ?q = "slot_start packed pos x + slot_bits x"
  have "b = slot_start packed pos x \<or> b \<in> set (starts packed ?q xs)"
    using Cons.prems by (auto simp: Let_def)
  moreover have "b \<in> set (starts packed ?q xs) \<Longrightarrow> ?q \<le> b" using Cons by simp
  ultimately show ?case using s by linarith
qed simp

lemma end_pos_ge: "list_all slot_ok xs \<Longrightarrow> pos \<le> end_pos packed pos xs"
proof (induction xs arbitrary: pos)
  case (Cons x xs)
  have "pos \<le> slot_start packed pos x" using Cons.prems by (simp add: slot_start_le)
  also have "\<dots> \<le> end_pos packed (slot_start packed pos x + slot_bits x) xs"
    using Cons.IH [of "slot_start packed pos x + slot_bits x"] Cons.prems by simp
  finally show ?case by simp
qed simp

text \<open>The extents of the members of a structure: where each starts and how many bits it takes.\<close>

definition extents :: "bool \<Rightarrow> slot list \<Rightarrow> (nat \<times> nat) list" where
  "extents packed xs = zip (starts packed 0 xs) (map slot_bits xs)"

definition before :: "nat \<times> nat \<Rightarrow> nat \<times> nat \<Rightarrow> bool" where
  "before x y \<longleftrightarrow> fst x + snd x \<le> fst y"

lemma length_starts [simp]: "length (starts packed pos xs) = length xs"
  by (induction xs arbitrary: pos) (simp_all add: Let_def)

lemma extents_ordered:
  "list_all slot_ok xs \<Longrightarrow> sorted_wrt before (zip (starts packed pos xs) (map slot_bits xs))"
proof (induction xs arbitrary: pos)
  case (Cons x xs)
  then show ?case
    by (auto simp: Let_def before_def dest!: set_zip_leftD dest: starts_ge)
qed simp

lemma extents_end:
  "list_all slot_ok xs \<Longrightarrow> (b, n) \<in> set (zip (starts packed pos xs) (map slot_bits xs)) \<Longrightarrow>
   b + n \<le> end_pos packed pos xs"
proof (induction xs arbitrary: pos)
  case (Cons x xs)
  then show ?case using end_pos_ge [of xs "slot_start packed pos x + slot_bits x" packed]
    by (auto simp: Let_def)
qed simp

text \<open>What a layout promises: in every structure in a type the members lie one after the other, without
  overlap, inside the object; whole members start on bytes, and at multiples of their alignment unless
  the structure is packed; the size of the type is a multiple of its alignment.\<close>

fun aligned_at :: "bool \<Rightarrow> nat \<Rightarrow> slot \<Rightarrow> bool" where
  "aligned_at packed b (Whole s a) \<longleftrightarrow> 8 * (if packed then 1 else a) dvd b"
| "aligned_at packed b (Bits named s a w) \<longleftrightarrow> True"

definition struct_sound :: "bool \<Rightarrow> slot list \<Rightarrow> bool" where
  "struct_sound packed xs \<longleftrightarrow>
     sorted_wrt before (extents packed xs) \<and>
     list_all (\<lambda>(b, n). b + n \<le> 8 * fst (struct_meas packed xs)) (extents packed xs) \<and>
     list_all2 (aligned_at packed) (starts packed 0 xs) xs \<and>
     snd (struct_meas packed xs) dvd fst (struct_meas packed xs)"

definition union_sound :: "bool \<Rightarrow> slot list \<Rightarrow> bool" where
  "union_sound packed xs \<longleftrightarrow>
     list_all (\<lambda>x. slot_bits x \<le> 8 * fst (union_meas packed xs)) xs \<and>
     snd (union_meas packed xs) dvd fst (union_meas packed xs)"

primrec layout_sound :: "cty \<Rightarrow> bool" and field_sound :: "cfield \<Rightarrow> bool" where
  "layout_sound (Prim p) = True"
| "layout_sound (Ptr n) = True"
| "layout_sound FunPtr = True"
| "layout_sound (Enum e) = True"
| "layout_sound (Arr n t) = layout_sound t"
| "layout_sound (Struct packed fs) = (struct_sound packed (map slot_of fs) \<and> list_all id (map field_sound fs))"
| "layout_sound (Union packed fs) = (union_sound packed (map slot_of fs) \<and> list_all id (map field_sound fs))"
| "field_sound (Mem n t) = layout_sound t"
| "field_sound (Bit n t w) = layout_sound t"

lemma slot_start_aligned: "aligned_at packed (slot_start packed pos x) x"
  by (cases x) (simp_all only: slot_start.simps aligned_at.simps roundup_dvd)

lemma starts_aligned: "list_all2 (aligned_at packed) (starts packed pos xs) xs"
  by (induction xs arbitrary: pos) (simp_all add: Let_def slot_start_aligned)

lemma bytes_cover: "n \<le> 8 * roundup a (roundup 8 n div 8)" if "0 < a"
proof -
  have "n \<le> roundup 8 n" by (rule roundup_le) simp
  also have "\<dots> = 8 * (roundup 8 n div 8)" using roundup_dvd [of 8 n] by (metis dvd_mult_div_cancel)
  also have "\<dots> \<le> 8 * roundup a (roundup 8 n div 8)"
    by (rule mult_le_mono2, rule roundup_le [OF that])
  finally show ?thesis .
qed

lemma struct_soundI: "list_all slot_ok xs \<Longrightarrow> struct_sound packed xs"
proof -
  assume ok: "list_all slot_ok xs"
  have "end_pos packed 0 xs \<le> 8 * fst (struct_meas packed xs)"
    by (simp add: struct_meas_def Let_def bytes_cover slots_align_pos)
  then have "list_all (\<lambda>(b, n). b + n \<le> 8 * fst (struct_meas packed xs)) (extents packed xs)"
    using extents_end [OF ok, of _ _ packed 0] by (fastforce simp: list_all_iff extents_def)
  then show ?thesis
    using extents_ordered [OF ok] starts_aligned
    by (simp add: struct_sound_def extents_def struct_meas_def Let_def)
qed

lemma max_bits_ge: "x \<in> set xs \<Longrightarrow> slot_bits x \<le> max_bits xs"
  by (induction xs) (auto simp: le_max_iff_disj)

lemma union_soundI: "union_sound packed xs"
proof -
  have "max_bits xs \<le> 8 * fst (union_meas packed xs)"
    by (simp add: union_meas_def Let_def bytes_cover slots_align_pos)
  then show ?thesis
    by (auto simp: union_sound_def list_all_iff union_meas_def Let_def dest!: max_bits_ge)
qed

theorem layouts_are_sound: "layout_sound t" and fields_are_sound: "field_sound f"
  by (induction t and f)
    (auto simp: list_all_iff struct_soundI union_soundI slot_of_ok)

end
