(* ===== verification/Kernel_Events.thy ===== *)
theory Kernel_Events
  imports C_Layout
begin

text \<open>
  The declarations of \<open>vmlinux.h\<close> behind the contexts and the user-space structures the eBPF
  programs read: tracepoint records, saved registers, socket addresses and message headers.
  Type names keep their C names with the prefixes \<open>struct_\<close>, \<open>union_\<close>, \<open>enum_\<close> and, for a
  typedef, \<open>t_\<close>; qualifiers are dropped, and a pointer keeps the name of its target.
\<close>

section \<open>Tracepoint records\<close>

definition struct_trace_entry :: cty where
  "struct_trace_entry = Struct False
    [Mem ''type'' (Prim Cushort),
     Mem ''flags'' (Prim Cuchar),
     Mem ''preempt_count'' (Prim Cuchar),
     Mem ''pid'' (Prim Cint)]"

lemma meas_struct_trace_entry [simp]: "meas struct_trace_entry = (8, 4)"
  by (simp add: struct_trace_entry_def layout_eval)

definition struct_trace_event_raw_sys_enter :: cty where
  "struct_trace_event_raw_sys_enter = Struct False
    [Mem ''ent'' struct_trace_entry,
     Mem ''id'' (Prim Clong),
     Mem ''args'' (Arr 6 (Prim Culong)),
     Mem ''__data'' (Arr 0 (Prim Cchar))]"

lemma meas_struct_trace_event_raw_sys_enter [simp]: "meas struct_trace_event_raw_sys_enter = (64, 8)"
  by (simp add: struct_trace_event_raw_sys_enter_def layout_eval)

definition struct_syscall_tp_t___2 :: cty where
  "struct_syscall_tp_t___2 = Struct False
    [Mem ''ent'' struct_trace_entry,
     Mem ''syscall_nr'' (Prim Cint),
     Mem ''args'' (Arr 6 (Prim Culong))]"

lemma meas_struct_syscall_tp_t___2 [simp]: "meas struct_syscall_tp_t___2 = (64, 8)"
  by (simp add: struct_syscall_tp_t___2_def layout_eval)

definition struct_syscall_trace_enter :: cty where
  "struct_syscall_trace_enter = Struct False
    [Mem ''ent'' struct_trace_entry,
     Mem ''nr'' (Prim Cint),
     Mem ''args'' (Arr 0 (Prim Culong))]"

lemma meas_struct_syscall_trace_enter [simp]: "meas struct_syscall_trace_enter = (16, 8)"
  by (simp add: struct_syscall_trace_enter_def layout_eval)

definition t___kernel_pid_t :: cty where
  "t___kernel_pid_t = Prim Cint"

lemma meas_t___kernel_pid_t [simp]: "meas t___kernel_pid_t = (4, 4)"
  by (simp add: t___kernel_pid_t_def layout_eval)

definition t_pid_t :: cty where
  "t_pid_t = t___kernel_pid_t"

lemma meas_t_pid_t [simp]: "meas t_pid_t = (4, 4)"
  by (simp add: t_pid_t_def layout_eval)

definition struct_trace_event_raw_task_newtask :: cty where
  "struct_trace_event_raw_task_newtask = Struct False
    [Mem ''ent'' struct_trace_entry,
     Mem ''pid'' t_pid_t,
     Mem ''comm'' (Arr 16 (Prim Cchar)),
     Mem ''clone_flags'' (Prim Culong),
     Mem ''oom_score_adj'' (Prim Cshort),
     Mem ''__data'' (Arr 0 (Prim Cchar))]"

lemma meas_struct_trace_event_raw_task_newtask [simp]: "meas struct_trace_event_raw_task_newtask = (48, 8)"
  by (simp add: struct_trace_event_raw_task_newtask_def layout_eval)

definition t_bool :: cty where
  "t_bool = Prim Cbool"

lemma meas_t_bool [simp]: "meas t_bool = (1, 1)"
  by (simp add: t_bool_def layout_eval)

definition struct_trace_event_raw_sched_process_exit :: cty where
  "struct_trace_event_raw_sched_process_exit = Struct False
    [Mem ''ent'' struct_trace_entry,
     Mem ''comm'' (Arr 16 (Prim Cchar)),
     Mem ''pid'' t_pid_t,
     Mem ''prio'' (Prim Cint),
     Mem ''group_dead'' t_bool,
     Mem ''__data'' (Arr 0 (Prim Cchar))]"

lemma meas_struct_trace_event_raw_sched_process_exit [simp]: "meas struct_trace_event_raw_sched_process_exit = (36, 4)"
  by (simp add: struct_trace_event_raw_sched_process_exit_def layout_eval)

section \<open>Registers\<close>

definition t___u16 :: cty where
  "t___u16 = Prim Cushort"

lemma meas_t___u16 [simp]: "meas t___u16 = (2, 2)"
  by (simp add: t___u16_def layout_eval)

definition t_u16 :: cty where
  "t_u16 = t___u16"

lemma meas_t_u16 [simp]: "meas t_u16 = (2, 2)"
  by (simp add: t_u16_def layout_eval)

definition t___u64 :: cty where
  "t___u64 = Prim Cullong"

lemma meas_t___u64 [simp]: "meas t___u64 = (8, 8)"
  by (simp add: t___u64_def layout_eval)

definition t_u64 :: cty where
  "t_u64 = t___u64"

lemma meas_t_u64 [simp]: "meas t_u64 = (8, 8)"
  by (simp add: t_u64_def layout_eval)

definition struct_fred_cs :: cty where
  "struct_fred_cs = Struct False
    [Bit ''cs'' t_u64 16,
     Bit ''sl'' t_u64 2,
     Bit ''wfe'' t_u64 1]"

lemma meas_struct_fred_cs [simp]: "meas struct_fred_cs = (8, 8)"
  by (simp add: struct_fred_cs_def layout_eval)

definition struct_fred_ss :: cty where
  "struct_fred_ss = Struct False
    [Bit ''ss'' t_u64 16,
     Bit ''sti'' t_u64 1,
     Bit ''swevent'' t_u64 1,
     Bit ''nmi'' t_u64 1,
     Bit '''' (Prim Cint) 13,
     Bit ''vector'' t_u64 8,
     Bit '''' (Prim Cshort) 8,
     Bit ''type'' t_u64 4,
     Bit '''' (Prim Cchar) 4,
     Bit ''enclave'' t_u64 1,
     Bit ''lm'' t_u64 1,
     Bit ''nested'' t_u64 1,
     Bit '''' (Prim Cchar) 1,
     Bit ''insnlen'' t_u64 4]"

lemma meas_struct_fred_ss [simp]: "meas struct_fred_ss = (8, 8)"
  by (simp add: struct_fred_ss_def layout_eval)

definition struct_pt_regs :: cty where
  "struct_pt_regs = Struct False
    [Mem ''r15'' (Prim Culong),
     Mem ''r14'' (Prim Culong),
     Mem ''r13'' (Prim Culong),
     Mem ''r12'' (Prim Culong),
     Mem ''bp'' (Prim Culong),
     Mem ''bx'' (Prim Culong),
     Mem ''r11'' (Prim Culong),
     Mem ''r10'' (Prim Culong),
     Mem ''r9'' (Prim Culong),
     Mem ''r8'' (Prim Culong),
     Mem ''ax'' (Prim Culong),
     Mem ''cx'' (Prim Culong),
     Mem ''dx'' (Prim Culong),
     Mem ''si'' (Prim Culong),
     Mem ''di'' (Prim Culong),
     Mem ''orig_ax'' (Prim Culong),
     Mem ''ip'' (Prim Culong),
     Mem '''' (Union False
       [Mem ''cs'' t_u16,
        Mem ''csx'' t_u64,
        Mem ''fred_cs'' struct_fred_cs]),
     Mem ''flags'' (Prim Culong),
     Mem ''sp'' (Prim Culong),
     Mem '''' (Union False
       [Mem ''ss'' t_u16,
        Mem ''ssx'' t_u64,
        Mem ''fred_ss'' struct_fred_ss])]"

lemma meas_struct_pt_regs [simp]: "meas struct_pt_regs = (168, 8)"
  by (simp add: struct_pt_regs_def layout_eval)

section \<open>Socket addresses and vectors\<close>

definition t___kernel_sa_family_t :: cty where
  "t___kernel_sa_family_t = Prim Cushort"

lemma meas_t___kernel_sa_family_t [simp]: "meas t___kernel_sa_family_t = (2, 2)"
  by (simp add: t___kernel_sa_family_t_def layout_eval)

definition t___be16 :: cty where
  "t___be16 = t___u16"

lemma meas_t___be16 [simp]: "meas t___be16 = (2, 2)"
  by (simp add: t___be16_def layout_eval)

definition t___u32 :: cty where
  "t___u32 = Prim Cuint"

lemma meas_t___u32 [simp]: "meas t___u32 = (4, 4)"
  by (simp add: t___u32_def layout_eval)

definition t___be32 :: cty where
  "t___be32 = t___u32"

lemma meas_t___be32 [simp]: "meas t___be32 = (4, 4)"
  by (simp add: t___be32_def layout_eval)

definition struct_in_addr :: cty where
  "struct_in_addr = Struct False
    [Mem ''s_addr'' t___be32]"

lemma meas_struct_in_addr [simp]: "meas struct_in_addr = (4, 4)"
  by (simp add: struct_in_addr_def layout_eval)

definition struct_sockaddr_in :: cty where
  "struct_sockaddr_in = Struct False
    [Mem ''sin_family'' t___kernel_sa_family_t,
     Mem ''sin_port'' t___be16,
     Mem ''sin_addr'' struct_in_addr,
     Mem ''__pad'' (Arr 8 (Prim Cuchar))]"

lemma meas_struct_sockaddr_in [simp]: "meas struct_sockaddr_in = (16, 4)"
  by (simp add: struct_sockaddr_in_def layout_eval)

definition t___u8 :: cty where
  "t___u8 = Prim Cuchar"

lemma meas_t___u8 [simp]: "meas t___u8 = (1, 1)"
  by (simp add: t___u8_def layout_eval)

definition struct_in6_addr :: cty where
  "struct_in6_addr = Struct False
    [Mem ''in6_u'' (Union False
       [Mem ''u6_addr8'' (Arr 16 t___u8),
        Mem ''u6_addr16'' (Arr 8 t___be16),
        Mem ''u6_addr32'' (Arr 4 t___be32)])]"

lemma meas_struct_in6_addr [simp]: "meas struct_in6_addr = (16, 4)"
  by (simp add: struct_in6_addr_def layout_eval)

definition struct_sockaddr_in6 :: cty where
  "struct_sockaddr_in6 = Struct False
    [Mem ''sin6_family'' (Prim Cushort),
     Mem ''sin6_port'' t___be16,
     Mem ''sin6_flowinfo'' t___be32,
     Mem ''sin6_addr'' struct_in6_addr,
     Mem ''sin6_scope_id'' t___u32]"

lemma meas_struct_sockaddr_in6 [simp]: "meas struct_sockaddr_in6 = (28, 4)"
  by (simp add: struct_sockaddr_in6_def layout_eval)

definition struct___kernel_sockaddr_storage :: cty where
  "struct___kernel_sockaddr_storage = Struct False
    [Mem '''' (Union False
       [Mem '''' (Struct False
          [Mem ''ss_family'' t___kernel_sa_family_t,
           Mem ''__data'' (Arr 126 (Prim Cchar))]),
        Mem ''__align'' (Ptr ''void'')])]"

lemma meas_struct___kernel_sockaddr_storage [simp]: "meas struct___kernel_sockaddr_storage = (128, 8)"
  by (simp add: struct___kernel_sockaddr_storage_def layout_eval)

definition t___kernel_ulong_t :: cty where
  "t___kernel_ulong_t = Prim Culong"

lemma meas_t___kernel_ulong_t [simp]: "meas t___kernel_ulong_t = (8, 8)"
  by (simp add: t___kernel_ulong_t_def layout_eval)

definition t___kernel_size_t :: cty where
  "t___kernel_size_t = t___kernel_ulong_t"

lemma meas_t___kernel_size_t [simp]: "meas t___kernel_size_t = (8, 8)"
  by (simp add: t___kernel_size_t_def layout_eval)

definition struct_iovec :: cty where
  "struct_iovec = Struct False
    [Mem ''iov_base'' (Ptr ''void''),
     Mem ''iov_len'' t___kernel_size_t]"

lemma meas_struct_iovec [simp]: "meas struct_iovec = (16, 8)"
  by (simp add: struct_iovec_def layout_eval)

definition struct_user_msghdr :: cty where
  "struct_user_msghdr = Struct False
    [Mem ''msg_name'' (Ptr ''void''),
     Mem ''msg_namelen'' (Prim Cint),
     Mem ''msg_iov'' (Ptr ''struct iovec''),
     Mem ''msg_iovlen'' t___kernel_size_t,
     Mem ''msg_control'' (Ptr ''void''),
     Mem ''msg_controllen'' t___kernel_size_t,
     Mem ''msg_flags'' (Prim Cuint)]"

lemma meas_struct_user_msghdr [simp]: "meas struct_user_msghdr = (56, 8)"
  by (simp add: struct_user_msghdr_def layout_eval)

end
