(* ===== verification/Kernel_Bpf.thy ===== *)
theory Kernel_Bpf
  imports Kernel_Events
begin

text \<open>
  The declarations of \<open>vmlinux.h\<close> for the objects behind the maps, programs and links the probes load:
  the argument of the \<open>bpf\<close> system call and its enumerations, hash, array and ring-buffer maps, programs
  and uprobes.
\<close>

section \<open>The interface of the bpf system call\<close>

definition t___s32 :: cty where
  "t___s32 = Prim Cint"

lemma meas_t___s32 [simp]: "meas t___s32 = (4, 4)"
  by (simp add: t___s32_def layout_eval)

definition union_bpf_attr :: cty where
  "union_bpf_attr = Union False
    [Mem '''' (Struct False
       [Mem ''map_type'' t___u32,
        Mem ''key_size'' t___u32,
        Mem ''value_size'' t___u32,
        Mem ''max_entries'' t___u32,
        Mem ''map_flags'' t___u32,
        Mem ''inner_map_fd'' t___u32,
        Mem ''numa_node'' t___u32,
        Mem ''map_name'' (Arr 16 (Prim Cchar)),
        Mem ''map_ifindex'' t___u32,
        Mem ''btf_fd'' t___u32,
        Mem ''btf_key_type_id'' t___u32,
        Mem ''btf_value_type_id'' t___u32,
        Mem ''btf_vmlinux_value_type_id'' t___u32,
        Mem ''map_extra'' t___u64,
        Mem ''value_type_btf_obj_fd'' t___s32,
        Mem ''map_token_fd'' t___s32]),
     Mem '''' (Struct False
       [Mem ''map_fd'' t___u32,
        Mem ''key'' t___u64,
        Mem '''' (Union False
          [Mem ''value'' t___u64,
           Mem ''next_key'' t___u64]),
        Mem ''flags'' t___u64]),
     Mem ''batch'' (Struct False
       [Mem ''in_batch'' t___u64,
        Mem ''out_batch'' t___u64,
        Mem ''keys'' t___u64,
        Mem ''values'' t___u64,
        Mem ''count'' t___u32,
        Mem ''map_fd'' t___u32,
        Mem ''elem_flags'' t___u64,
        Mem ''flags'' t___u64]),
     Mem '''' (Struct False
       [Mem ''prog_type'' t___u32,
        Mem ''insn_cnt'' t___u32,
        Mem ''insns'' t___u64,
        Mem ''license'' t___u64,
        Mem ''log_level'' t___u32,
        Mem ''log_size'' t___u32,
        Mem ''log_buf'' t___u64,
        Mem ''kern_version'' t___u32,
        Mem ''prog_flags'' t___u32,
        Mem ''prog_name'' (Arr 16 (Prim Cchar)),
        Mem ''prog_ifindex'' t___u32,
        Mem ''expected_attach_type'' t___u32,
        Mem ''prog_btf_fd'' t___u32,
        Mem ''func_info_rec_size'' t___u32,
        Mem ''func_info'' t___u64,
        Mem ''func_info_cnt'' t___u32,
        Mem ''line_info_rec_size'' t___u32,
        Mem ''line_info'' t___u64,
        Mem ''line_info_cnt'' t___u32,
        Mem ''attach_btf_id'' t___u32,
        Mem '''' (Union False
          [Mem ''attach_prog_fd'' t___u32,
           Mem ''attach_btf_obj_fd'' t___u32]),
        Mem ''core_relo_cnt'' t___u32,
        Mem ''fd_array'' t___u64,
        Mem ''core_relos'' t___u64,
        Mem ''core_relo_rec_size'' t___u32,
        Mem ''log_true_size'' t___u32,
        Mem ''prog_token_fd'' t___s32,
        Mem ''fd_array_cnt'' t___u32]),
     Mem '''' (Struct False
       [Mem ''pathname'' t___u64,
        Mem ''bpf_fd'' t___u32,
        Mem ''file_flags'' t___u32,
        Mem ''path_fd'' t___s32]),
     Mem '''' (Struct False
       [Mem '''' (Union False
          [Mem ''target_fd'' t___u32,
           Mem ''target_ifindex'' t___u32]),
        Mem ''attach_bpf_fd'' t___u32,
        Mem ''attach_type'' t___u32,
        Mem ''attach_flags'' t___u32,
        Mem ''replace_bpf_fd'' t___u32,
        Mem '''' (Union False
          [Mem ''relative_fd'' t___u32,
           Mem ''relative_id'' t___u32]),
        Mem ''expected_revision'' t___u64]),
     Mem ''test'' (Struct False
       [Mem ''prog_fd'' t___u32,
        Mem ''retval'' t___u32,
        Mem ''data_size_in'' t___u32,
        Mem ''data_size_out'' t___u32,
        Mem ''data_in'' t___u64,
        Mem ''data_out'' t___u64,
        Mem ''repeat'' t___u32,
        Mem ''duration'' t___u32,
        Mem ''ctx_size_in'' t___u32,
        Mem ''ctx_size_out'' t___u32,
        Mem ''ctx_in'' t___u64,
        Mem ''ctx_out'' t___u64,
        Mem ''flags'' t___u32,
        Mem ''cpu'' t___u32,
        Mem ''batch_size'' t___u32]),
     Mem '''' (Struct False
       [Mem '''' (Union False
          [Mem ''start_id'' t___u32,
           Mem ''prog_id'' t___u32,
           Mem ''map_id'' t___u32,
           Mem ''btf_id'' t___u32,
           Mem ''link_id'' t___u32]),
        Mem ''next_id'' t___u32,
        Mem ''open_flags'' t___u32,
        Mem ''fd_by_id_token_fd'' t___s32]),
     Mem ''info'' (Struct False
       [Mem ''bpf_fd'' t___u32,
        Mem ''info_len'' t___u32,
        Mem ''info'' t___u64]),
     Mem ''query'' (Struct False
       [Mem '''' (Union False
          [Mem ''target_fd'' t___u32,
           Mem ''target_ifindex'' t___u32]),
        Mem ''attach_type'' t___u32,
        Mem ''query_flags'' t___u32,
        Mem ''attach_flags'' t___u32,
        Mem ''prog_ids'' t___u64,
        Mem '''' (Union False
          [Mem ''prog_cnt'' t___u32,
           Mem ''count'' t___u32]),
        Mem ''prog_attach_flags'' t___u64,
        Mem ''link_ids'' t___u64,
        Mem ''link_attach_flags'' t___u64,
        Mem ''revision'' t___u64]),
     Mem ''raw_tracepoint'' (Struct False
       [Mem ''name'' t___u64,
        Mem ''prog_fd'' t___u32,
        Mem ''cookie'' t___u64]),
     Mem '''' (Struct False
       [Mem ''btf'' t___u64,
        Mem ''btf_log_buf'' t___u64,
        Mem ''btf_size'' t___u32,
        Mem ''btf_log_size'' t___u32,
        Mem ''btf_log_level'' t___u32,
        Mem ''btf_log_true_size'' t___u32,
        Mem ''btf_flags'' t___u32,
        Mem ''btf_token_fd'' t___s32]),
     Mem ''task_fd_query'' (Struct False
       [Mem ''pid'' t___u32,
        Mem ''fd'' t___u32,
        Mem ''flags'' t___u32,
        Mem ''buf_len'' t___u32,
        Mem ''buf'' t___u64,
        Mem ''prog_id'' t___u32,
        Mem ''fd_type'' t___u32,
        Mem ''probe_offset'' t___u64,
        Mem ''probe_addr'' t___u64]),
     Mem ''link_create'' (Struct False
       [Mem '''' (Union False
          [Mem ''prog_fd'' t___u32,
           Mem ''map_fd'' t___u32]),
        Mem '''' (Union False
          [Mem ''target_fd'' t___u32,
           Mem ''target_ifindex'' t___u32]),
        Mem ''attach_type'' t___u32,
        Mem ''flags'' t___u32,
        Mem '''' (Union False
          [Mem ''target_btf_id'' t___u32,
           Mem '''' (Struct False
             [Mem ''iter_info'' t___u64,
              Mem ''iter_info_len'' t___u32]),
           Mem ''perf_event'' (Struct False
             [Mem ''bpf_cookie'' t___u64]),
           Mem ''kprobe_multi'' (Struct False
             [Mem ''flags'' t___u32,
              Mem ''cnt'' t___u32,
              Mem ''syms'' t___u64,
              Mem ''addrs'' t___u64,
              Mem ''cookies'' t___u64]),
           Mem ''tracing'' (Struct False
             [Mem ''target_btf_id'' t___u32,
              Mem ''cookie'' t___u64]),
           Mem ''netfilter'' (Struct False
             [Mem ''pf'' t___u32,
              Mem ''hooknum'' t___u32,
              Mem ''priority'' t___s32,
              Mem ''flags'' t___u32]),
           Mem ''tcx'' (Struct False
             [Mem '''' (Union False
                [Mem ''relative_fd'' t___u32,
                 Mem ''relative_id'' t___u32]),
              Mem ''expected_revision'' t___u64]),
           Mem ''uprobe_multi'' (Struct False
             [Mem ''path'' t___u64,
              Mem ''offsets'' t___u64,
              Mem ''ref_ctr_offsets'' t___u64,
              Mem ''cookies'' t___u64,
              Mem ''cnt'' t___u32,
              Mem ''flags'' t___u32,
              Mem ''pid'' t___u32]),
           Mem ''netkit'' (Struct False
             [Mem '''' (Union False
                [Mem ''relative_fd'' t___u32,
                 Mem ''relative_id'' t___u32]),
              Mem ''expected_revision'' t___u64]),
           Mem ''cgroup'' (Struct False
             [Mem '''' (Union False
                [Mem ''relative_fd'' t___u32,
                 Mem ''relative_id'' t___u32]),
              Mem ''expected_revision'' t___u64])])]),
     Mem ''link_update'' (Struct False
       [Mem ''link_fd'' t___u32,
        Mem '''' (Union False
          [Mem ''new_prog_fd'' t___u32,
           Mem ''new_map_fd'' t___u32]),
        Mem ''flags'' t___u32,
        Mem '''' (Union False
          [Mem ''old_prog_fd'' t___u32,
           Mem ''old_map_fd'' t___u32])]),
     Mem ''link_detach'' (Struct False
       [Mem ''link_fd'' t___u32]),
     Mem ''enable_stats'' (Struct False
       [Mem ''type'' t___u32]),
     Mem ''iter_create'' (Struct False
       [Mem ''link_fd'' t___u32,
        Mem ''flags'' t___u32]),
     Mem ''prog_bind_map'' (Struct False
       [Mem ''prog_fd'' t___u32,
        Mem ''map_fd'' t___u32,
        Mem ''flags'' t___u32]),
     Mem ''token_create'' (Struct False
       [Mem ''flags'' t___u32,
        Mem ''bpffs_fd'' t___u32]),
     Mem ''prog_stream_read'' (Struct False
       [Mem ''stream_buf'' t___u64,
        Mem ''stream_buf_len'' t___u32,
        Mem ''stream_id'' t___u32,
        Mem ''prog_fd'' t___u32])]"

lemma meas_union_bpf_attr [simp]: "meas union_bpf_attr = (152, 8)"
  by (simp add: union_bpf_attr_def layout_eval)

definition enum_bpf_map_type :: cenum where
  "enum_bpf_map_type =
    \<lparr>en_prim = Cuint, en_values =
      [(''BPF_MAP_TYPE_UNSPEC'', 0),
       (''BPF_MAP_TYPE_HASH'', 1),
       (''BPF_MAP_TYPE_ARRAY'', 2),
       (''BPF_MAP_TYPE_PROG_ARRAY'', 3),
       (''BPF_MAP_TYPE_PERF_EVENT_ARRAY'', 4),
       (''BPF_MAP_TYPE_PERCPU_HASH'', 5),
       (''BPF_MAP_TYPE_PERCPU_ARRAY'', 6),
       (''BPF_MAP_TYPE_STACK_TRACE'', 7),
       (''BPF_MAP_TYPE_CGROUP_ARRAY'', 8),
       (''BPF_MAP_TYPE_LRU_HASH'', 9),
       (''BPF_MAP_TYPE_LRU_PERCPU_HASH'', 10),
       (''BPF_MAP_TYPE_LPM_TRIE'', 11),
       (''BPF_MAP_TYPE_ARRAY_OF_MAPS'', 12),
       (''BPF_MAP_TYPE_HASH_OF_MAPS'', 13),
       (''BPF_MAP_TYPE_DEVMAP'', 14),
       (''BPF_MAP_TYPE_SOCKMAP'', 15),
       (''BPF_MAP_TYPE_CPUMAP'', 16),
       (''BPF_MAP_TYPE_XSKMAP'', 17),
       (''BPF_MAP_TYPE_SOCKHASH'', 18),
       (''BPF_MAP_TYPE_CGROUP_STORAGE_DEPRECATED'', 19),
       (''BPF_MAP_TYPE_CGROUP_STORAGE'', 19),
       (''BPF_MAP_TYPE_REUSEPORT_SOCKARRAY'', 20),
       (''BPF_MAP_TYPE_PERCPU_CGROUP_STORAGE_DEPRECATED'', 21),
       (''BPF_MAP_TYPE_PERCPU_CGROUP_STORAGE'', 21),
       (''BPF_MAP_TYPE_QUEUE'', 22),
       (''BPF_MAP_TYPE_STACK'', 23),
       (''BPF_MAP_TYPE_SK_STORAGE'', 24),
       (''BPF_MAP_TYPE_DEVMAP_HASH'', 25),
       (''BPF_MAP_TYPE_STRUCT_OPS'', 26),
       (''BPF_MAP_TYPE_RINGBUF'', 27),
       (''BPF_MAP_TYPE_INODE_STORAGE'', 28),
       (''BPF_MAP_TYPE_TASK_STORAGE'', 29),
       (''BPF_MAP_TYPE_BLOOM_FILTER'', 30),
       (''BPF_MAP_TYPE_USER_RINGBUF'', 31),
       (''BPF_MAP_TYPE_CGRP_STORAGE'', 32),
       (''BPF_MAP_TYPE_ARENA'', 33),
       (''__MAX_BPF_MAP_TYPE'', 34)]\<rparr>"

lemma en_prim_enum_bpf_map_type [simp]: "en_prim enum_bpf_map_type = Cuint"
  by (simp add: enum_bpf_map_type_def)

definition enum_bpf_prog_type :: cenum where
  "enum_bpf_prog_type =
    \<lparr>en_prim = Cuint, en_values =
      [(''BPF_PROG_TYPE_UNSPEC'', 0),
       (''BPF_PROG_TYPE_SOCKET_FILTER'', 1),
       (''BPF_PROG_TYPE_KPROBE'', 2),
       (''BPF_PROG_TYPE_SCHED_CLS'', 3),
       (''BPF_PROG_TYPE_SCHED_ACT'', 4),
       (''BPF_PROG_TYPE_TRACEPOINT'', 5),
       (''BPF_PROG_TYPE_XDP'', 6),
       (''BPF_PROG_TYPE_PERF_EVENT'', 7),
       (''BPF_PROG_TYPE_CGROUP_SKB'', 8),
       (''BPF_PROG_TYPE_CGROUP_SOCK'', 9),
       (''BPF_PROG_TYPE_LWT_IN'', 10),
       (''BPF_PROG_TYPE_LWT_OUT'', 11),
       (''BPF_PROG_TYPE_LWT_XMIT'', 12),
       (''BPF_PROG_TYPE_SOCK_OPS'', 13),
       (''BPF_PROG_TYPE_SK_SKB'', 14),
       (''BPF_PROG_TYPE_CGROUP_DEVICE'', 15),
       (''BPF_PROG_TYPE_SK_MSG'', 16),
       (''BPF_PROG_TYPE_RAW_TRACEPOINT'', 17),
       (''BPF_PROG_TYPE_CGROUP_SOCK_ADDR'', 18),
       (''BPF_PROG_TYPE_LWT_SEG6LOCAL'', 19),
       (''BPF_PROG_TYPE_LIRC_MODE2'', 20),
       (''BPF_PROG_TYPE_SK_REUSEPORT'', 21),
       (''BPF_PROG_TYPE_FLOW_DISSECTOR'', 22),
       (''BPF_PROG_TYPE_CGROUP_SYSCTL'', 23),
       (''BPF_PROG_TYPE_RAW_TRACEPOINT_WRITABLE'', 24),
       (''BPF_PROG_TYPE_CGROUP_SOCKOPT'', 25),
       (''BPF_PROG_TYPE_TRACING'', 26),
       (''BPF_PROG_TYPE_STRUCT_OPS'', 27),
       (''BPF_PROG_TYPE_EXT'', 28),
       (''BPF_PROG_TYPE_LSM'', 29),
       (''BPF_PROG_TYPE_SK_LOOKUP'', 30),
       (''BPF_PROG_TYPE_SYSCALL'', 31),
       (''BPF_PROG_TYPE_NETFILTER'', 32),
       (''__MAX_BPF_PROG_TYPE'', 33)]\<rparr>"

lemma en_prim_enum_bpf_prog_type [simp]: "en_prim enum_bpf_prog_type = Cuint"
  by (simp add: enum_bpf_prog_type_def)

definition enum_bpf_attach_type :: cenum where
  "enum_bpf_attach_type =
    \<lparr>en_prim = Cuint, en_values =
      [(''BPF_CGROUP_INET_INGRESS'', 0),
       (''BPF_CGROUP_INET_EGRESS'', 1),
       (''BPF_CGROUP_INET_SOCK_CREATE'', 2),
       (''BPF_CGROUP_SOCK_OPS'', 3),
       (''BPF_SK_SKB_STREAM_PARSER'', 4),
       (''BPF_SK_SKB_STREAM_VERDICT'', 5),
       (''BPF_CGROUP_DEVICE'', 6),
       (''BPF_SK_MSG_VERDICT'', 7),
       (''BPF_CGROUP_INET4_BIND'', 8),
       (''BPF_CGROUP_INET6_BIND'', 9),
       (''BPF_CGROUP_INET4_CONNECT'', 10),
       (''BPF_CGROUP_INET6_CONNECT'', 11),
       (''BPF_CGROUP_INET4_POST_BIND'', 12),
       (''BPF_CGROUP_INET6_POST_BIND'', 13),
       (''BPF_CGROUP_UDP4_SENDMSG'', 14),
       (''BPF_CGROUP_UDP6_SENDMSG'', 15),
       (''BPF_LIRC_MODE2'', 16),
       (''BPF_FLOW_DISSECTOR'', 17),
       (''BPF_CGROUP_SYSCTL'', 18),
       (''BPF_CGROUP_UDP4_RECVMSG'', 19),
       (''BPF_CGROUP_UDP6_RECVMSG'', 20),
       (''BPF_CGROUP_GETSOCKOPT'', 21),
       (''BPF_CGROUP_SETSOCKOPT'', 22),
       (''BPF_TRACE_RAW_TP'', 23),
       (''BPF_TRACE_FENTRY'', 24),
       (''BPF_TRACE_FEXIT'', 25),
       (''BPF_MODIFY_RETURN'', 26),
       (''BPF_LSM_MAC'', 27),
       (''BPF_TRACE_ITER'', 28),
       (''BPF_CGROUP_INET4_GETPEERNAME'', 29),
       (''BPF_CGROUP_INET6_GETPEERNAME'', 30),
       (''BPF_CGROUP_INET4_GETSOCKNAME'', 31),
       (''BPF_CGROUP_INET6_GETSOCKNAME'', 32),
       (''BPF_XDP_DEVMAP'', 33),
       (''BPF_CGROUP_INET_SOCK_RELEASE'', 34),
       (''BPF_XDP_CPUMAP'', 35),
       (''BPF_SK_LOOKUP'', 36),
       (''BPF_XDP'', 37),
       (''BPF_SK_SKB_VERDICT'', 38),
       (''BPF_SK_REUSEPORT_SELECT'', 39),
       (''BPF_SK_REUSEPORT_SELECT_OR_MIGRATE'', 40),
       (''BPF_PERF_EVENT'', 41),
       (''BPF_TRACE_KPROBE_MULTI'', 42),
       (''BPF_LSM_CGROUP'', 43),
       (''BPF_STRUCT_OPS'', 44),
       (''BPF_NETFILTER'', 45),
       (''BPF_TCX_INGRESS'', 46),
       (''BPF_TCX_EGRESS'', 47),
       (''BPF_TRACE_UPROBE_MULTI'', 48),
       (''BPF_CGROUP_UNIX_CONNECT'', 49),
       (''BPF_CGROUP_UNIX_SENDMSG'', 50),
       (''BPF_CGROUP_UNIX_RECVMSG'', 51),
       (''BPF_CGROUP_UNIX_GETPEERNAME'', 52),
       (''BPF_CGROUP_UNIX_GETSOCKNAME'', 53),
       (''BPF_NETKIT_PRIMARY'', 54),
       (''BPF_NETKIT_PEER'', 55),
       (''BPF_TRACE_KPROBE_SESSION'', 56),
       (''BPF_TRACE_UPROBE_SESSION'', 57),
       (''__MAX_BPF_ATTACH_TYPE'', 58)]\<rparr>"

lemma en_prim_enum_bpf_attach_type [simp]: "en_prim enum_bpf_attach_type = Cuint"
  by (simp add: enum_bpf_attach_type_def)

definition enum_bpf_func_id :: cenum where
  "enum_bpf_func_id =
    \<lparr>en_prim = Cuint, en_values =
      [(''BPF_FUNC_unspec'', 0),
       (''BPF_FUNC_map_lookup_elem'', 1),
       (''BPF_FUNC_map_update_elem'', 2),
       (''BPF_FUNC_map_delete_elem'', 3),
       (''BPF_FUNC_probe_read'', 4),
       (''BPF_FUNC_ktime_get_ns'', 5),
       (''BPF_FUNC_trace_printk'', 6),
       (''BPF_FUNC_get_prandom_u32'', 7),
       (''BPF_FUNC_get_smp_processor_id'', 8),
       (''BPF_FUNC_skb_store_bytes'', 9),
       (''BPF_FUNC_l3_csum_replace'', 10),
       (''BPF_FUNC_l4_csum_replace'', 11),
       (''BPF_FUNC_tail_call'', 12),
       (''BPF_FUNC_clone_redirect'', 13),
       (''BPF_FUNC_get_current_pid_tgid'', 14),
       (''BPF_FUNC_get_current_uid_gid'', 15),
       (''BPF_FUNC_get_current_comm'', 16),
       (''BPF_FUNC_get_cgroup_classid'', 17),
       (''BPF_FUNC_skb_vlan_push'', 18),
       (''BPF_FUNC_skb_vlan_pop'', 19),
       (''BPF_FUNC_skb_get_tunnel_key'', 20),
       (''BPF_FUNC_skb_set_tunnel_key'', 21),
       (''BPF_FUNC_perf_event_read'', 22),
       (''BPF_FUNC_redirect'', 23),
       (''BPF_FUNC_get_route_realm'', 24),
       (''BPF_FUNC_perf_event_output'', 25),
       (''BPF_FUNC_skb_load_bytes'', 26),
       (''BPF_FUNC_get_stackid'', 27),
       (''BPF_FUNC_csum_diff'', 28),
       (''BPF_FUNC_skb_get_tunnel_opt'', 29),
       (''BPF_FUNC_skb_set_tunnel_opt'', 30),
       (''BPF_FUNC_skb_change_proto'', 31),
       (''BPF_FUNC_skb_change_type'', 32),
       (''BPF_FUNC_skb_under_cgroup'', 33),
       (''BPF_FUNC_get_hash_recalc'', 34),
       (''BPF_FUNC_get_current_task'', 35),
       (''BPF_FUNC_probe_write_user'', 36),
       (''BPF_FUNC_current_task_under_cgroup'', 37),
       (''BPF_FUNC_skb_change_tail'', 38),
       (''BPF_FUNC_skb_pull_data'', 39),
       (''BPF_FUNC_csum_update'', 40),
       (''BPF_FUNC_set_hash_invalid'', 41),
       (''BPF_FUNC_get_numa_node_id'', 42),
       (''BPF_FUNC_skb_change_head'', 43),
       (''BPF_FUNC_xdp_adjust_head'', 44),
       (''BPF_FUNC_probe_read_str'', 45),
       (''BPF_FUNC_get_socket_cookie'', 46),
       (''BPF_FUNC_get_socket_uid'', 47),
       (''BPF_FUNC_set_hash'', 48),
       (''BPF_FUNC_setsockopt'', 49),
       (''BPF_FUNC_skb_adjust_room'', 50),
       (''BPF_FUNC_redirect_map'', 51),
       (''BPF_FUNC_sk_redirect_map'', 52),
       (''BPF_FUNC_sock_map_update'', 53),
       (''BPF_FUNC_xdp_adjust_meta'', 54),
       (''BPF_FUNC_perf_event_read_value'', 55),
       (''BPF_FUNC_perf_prog_read_value'', 56),
       (''BPF_FUNC_getsockopt'', 57),
       (''BPF_FUNC_override_return'', 58),
       (''BPF_FUNC_sock_ops_cb_flags_set'', 59),
       (''BPF_FUNC_msg_redirect_map'', 60),
       (''BPF_FUNC_msg_apply_bytes'', 61),
       (''BPF_FUNC_msg_cork_bytes'', 62),
       (''BPF_FUNC_msg_pull_data'', 63),
       (''BPF_FUNC_bind'', 64),
       (''BPF_FUNC_xdp_adjust_tail'', 65),
       (''BPF_FUNC_skb_get_xfrm_state'', 66),
       (''BPF_FUNC_get_stack'', 67),
       (''BPF_FUNC_skb_load_bytes_relative'', 68),
       (''BPF_FUNC_fib_lookup'', 69),
       (''BPF_FUNC_sock_hash_update'', 70),
       (''BPF_FUNC_msg_redirect_hash'', 71),
       (''BPF_FUNC_sk_redirect_hash'', 72),
       (''BPF_FUNC_lwt_push_encap'', 73),
       (''BPF_FUNC_lwt_seg6_store_bytes'', 74),
       (''BPF_FUNC_lwt_seg6_adjust_srh'', 75),
       (''BPF_FUNC_lwt_seg6_action'', 76),
       (''BPF_FUNC_rc_repeat'', 77),
       (''BPF_FUNC_rc_keydown'', 78),
       (''BPF_FUNC_skb_cgroup_id'', 79),
       (''BPF_FUNC_get_current_cgroup_id'', 80),
       (''BPF_FUNC_get_local_storage'', 81),
       (''BPF_FUNC_sk_select_reuseport'', 82),
       (''BPF_FUNC_skb_ancestor_cgroup_id'', 83),
       (''BPF_FUNC_sk_lookup_tcp'', 84),
       (''BPF_FUNC_sk_lookup_udp'', 85),
       (''BPF_FUNC_sk_release'', 86),
       (''BPF_FUNC_map_push_elem'', 87),
       (''BPF_FUNC_map_pop_elem'', 88),
       (''BPF_FUNC_map_peek_elem'', 89),
       (''BPF_FUNC_msg_push_data'', 90),
       (''BPF_FUNC_msg_pop_data'', 91),
       (''BPF_FUNC_rc_pointer_rel'', 92),
       (''BPF_FUNC_spin_lock'', 93),
       (''BPF_FUNC_spin_unlock'', 94),
       (''BPF_FUNC_sk_fullsock'', 95),
       (''BPF_FUNC_tcp_sock'', 96),
       (''BPF_FUNC_skb_ecn_set_ce'', 97),
       (''BPF_FUNC_get_listener_sock'', 98),
       (''BPF_FUNC_skc_lookup_tcp'', 99),
       (''BPF_FUNC_tcp_check_syncookie'', 100),
       (''BPF_FUNC_sysctl_get_name'', 101),
       (''BPF_FUNC_sysctl_get_current_value'', 102),
       (''BPF_FUNC_sysctl_get_new_value'', 103),
       (''BPF_FUNC_sysctl_set_new_value'', 104),
       (''BPF_FUNC_strtol'', 105),
       (''BPF_FUNC_strtoul'', 106),
       (''BPF_FUNC_sk_storage_get'', 107),
       (''BPF_FUNC_sk_storage_delete'', 108),
       (''BPF_FUNC_send_signal'', 109),
       (''BPF_FUNC_tcp_gen_syncookie'', 110),
       (''BPF_FUNC_skb_output'', 111),
       (''BPF_FUNC_probe_read_user'', 112),
       (''BPF_FUNC_probe_read_kernel'', 113),
       (''BPF_FUNC_probe_read_user_str'', 114),
       (''BPF_FUNC_probe_read_kernel_str'', 115),
       (''BPF_FUNC_tcp_send_ack'', 116),
       (''BPF_FUNC_send_signal_thread'', 117),
       (''BPF_FUNC_jiffies64'', 118),
       (''BPF_FUNC_read_branch_records'', 119),
       (''BPF_FUNC_get_ns_current_pid_tgid'', 120),
       (''BPF_FUNC_xdp_output'', 121),
       (''BPF_FUNC_get_netns_cookie'', 122),
       (''BPF_FUNC_get_current_ancestor_cgroup_id'', 123),
       (''BPF_FUNC_sk_assign'', 124),
       (''BPF_FUNC_ktime_get_boot_ns'', 125),
       (''BPF_FUNC_seq_printf'', 126),
       (''BPF_FUNC_seq_write'', 127),
       (''BPF_FUNC_sk_cgroup_id'', 128),
       (''BPF_FUNC_sk_ancestor_cgroup_id'', 129),
       (''BPF_FUNC_ringbuf_output'', 130),
       (''BPF_FUNC_ringbuf_reserve'', 131),
       (''BPF_FUNC_ringbuf_submit'', 132),
       (''BPF_FUNC_ringbuf_discard'', 133),
       (''BPF_FUNC_ringbuf_query'', 134),
       (''BPF_FUNC_csum_level'', 135),
       (''BPF_FUNC_skc_to_tcp6_sock'', 136),
       (''BPF_FUNC_skc_to_tcp_sock'', 137),
       (''BPF_FUNC_skc_to_tcp_timewait_sock'', 138),
       (''BPF_FUNC_skc_to_tcp_request_sock'', 139),
       (''BPF_FUNC_skc_to_udp6_sock'', 140),
       (''BPF_FUNC_get_task_stack'', 141),
       (''BPF_FUNC_load_hdr_opt'', 142),
       (''BPF_FUNC_store_hdr_opt'', 143),
       (''BPF_FUNC_reserve_hdr_opt'', 144),
       (''BPF_FUNC_inode_storage_get'', 145),
       (''BPF_FUNC_inode_storage_delete'', 146),
       (''BPF_FUNC_d_path'', 147),
       (''BPF_FUNC_copy_from_user'', 148),
       (''BPF_FUNC_snprintf_btf'', 149),
       (''BPF_FUNC_seq_printf_btf'', 150),
       (''BPF_FUNC_skb_cgroup_classid'', 151),
       (''BPF_FUNC_redirect_neigh'', 152),
       (''BPF_FUNC_per_cpu_ptr'', 153),
       (''BPF_FUNC_this_cpu_ptr'', 154),
       (''BPF_FUNC_redirect_peer'', 155),
       (''BPF_FUNC_task_storage_get'', 156),
       (''BPF_FUNC_task_storage_delete'', 157),
       (''BPF_FUNC_get_current_task_btf'', 158),
       (''BPF_FUNC_bprm_opts_set'', 159),
       (''BPF_FUNC_ktime_get_coarse_ns'', 160),
       (''BPF_FUNC_ima_inode_hash'', 161),
       (''BPF_FUNC_sock_from_file'', 162),
       (''BPF_FUNC_check_mtu'', 163),
       (''BPF_FUNC_for_each_map_elem'', 164),
       (''BPF_FUNC_snprintf'', 165),
       (''BPF_FUNC_sys_bpf'', 166),
       (''BPF_FUNC_btf_find_by_name_kind'', 167),
       (''BPF_FUNC_sys_close'', 168),
       (''BPF_FUNC_timer_init'', 169),
       (''BPF_FUNC_timer_set_callback'', 170),
       (''BPF_FUNC_timer_start'', 171),
       (''BPF_FUNC_timer_cancel'', 172),
       (''BPF_FUNC_get_func_ip'', 173),
       (''BPF_FUNC_get_attach_cookie'', 174),
       (''BPF_FUNC_task_pt_regs'', 175),
       (''BPF_FUNC_get_branch_snapshot'', 176),
       (''BPF_FUNC_trace_vprintk'', 177),
       (''BPF_FUNC_skc_to_unix_sock'', 178),
       (''BPF_FUNC_kallsyms_lookup_name'', 179),
       (''BPF_FUNC_find_vma'', 180),
       (''BPF_FUNC_loop'', 181),
       (''BPF_FUNC_strncmp'', 182),
       (''BPF_FUNC_get_func_arg'', 183),
       (''BPF_FUNC_get_func_ret'', 184),
       (''BPF_FUNC_get_func_arg_cnt'', 185),
       (''BPF_FUNC_get_retval'', 186),
       (''BPF_FUNC_set_retval'', 187),
       (''BPF_FUNC_xdp_get_buff_len'', 188),
       (''BPF_FUNC_xdp_load_bytes'', 189),
       (''BPF_FUNC_xdp_store_bytes'', 190),
       (''BPF_FUNC_copy_from_user_task'', 191),
       (''BPF_FUNC_skb_set_tstamp'', 192),
       (''BPF_FUNC_ima_file_hash'', 193),
       (''BPF_FUNC_kptr_xchg'', 194),
       (''BPF_FUNC_map_lookup_percpu_elem'', 195),
       (''BPF_FUNC_skc_to_mptcp_sock'', 196),
       (''BPF_FUNC_dynptr_from_mem'', 197),
       (''BPF_FUNC_ringbuf_reserve_dynptr'', 198),
       (''BPF_FUNC_ringbuf_submit_dynptr'', 199),
       (''BPF_FUNC_ringbuf_discard_dynptr'', 200),
       (''BPF_FUNC_dynptr_read'', 201),
       (''BPF_FUNC_dynptr_write'', 202),
       (''BPF_FUNC_dynptr_data'', 203),
       (''BPF_FUNC_tcp_raw_gen_syncookie_ipv4'', 204),
       (''BPF_FUNC_tcp_raw_gen_syncookie_ipv6'', 205),
       (''BPF_FUNC_tcp_raw_check_syncookie_ipv4'', 206),
       (''BPF_FUNC_tcp_raw_check_syncookie_ipv6'', 207),
       (''BPF_FUNC_ktime_get_tai_ns'', 208),
       (''BPF_FUNC_user_ringbuf_drain'', 209),
       (''BPF_FUNC_cgrp_storage_get'', 210),
       (''BPF_FUNC_cgrp_storage_delete'', 211),
       (''__BPF_FUNC_MAX_ID'', 212)]\<rparr>"

lemma en_prim_enum_bpf_func_id [simp]: "en_prim enum_bpf_func_id = Cuint"
  by (simp add: enum_bpf_func_id_def)

definition enum_bpf_link_type :: cenum where
  "enum_bpf_link_type =
    \<lparr>en_prim = Cuint, en_values =
      [(''BPF_LINK_TYPE_UNSPEC'', 0),
       (''BPF_LINK_TYPE_RAW_TRACEPOINT'', 1),
       (''BPF_LINK_TYPE_TRACING'', 2),
       (''BPF_LINK_TYPE_CGROUP'', 3),
       (''BPF_LINK_TYPE_ITER'', 4),
       (''BPF_LINK_TYPE_NETNS'', 5),
       (''BPF_LINK_TYPE_XDP'', 6),
       (''BPF_LINK_TYPE_PERF_EVENT'', 7),
       (''BPF_LINK_TYPE_KPROBE_MULTI'', 8),
       (''BPF_LINK_TYPE_STRUCT_OPS'', 9),
       (''BPF_LINK_TYPE_NETFILTER'', 10),
       (''BPF_LINK_TYPE_TCX'', 11),
       (''BPF_LINK_TYPE_UPROBE_MULTI'', 12),
       (''BPF_LINK_TYPE_NETKIT'', 13),
       (''BPF_LINK_TYPE_SOCKMAP'', 14),
       (''__MAX_BPF_LINK_TYPE'', 15)]\<rparr>"

lemma en_prim_enum_bpf_link_type [simp]: "en_prim enum_bpf_link_type = Cuint"
  by (simp add: enum_bpf_link_type_def)

definition struct_bpf_map_info :: cty where
  "struct_bpf_map_info = Struct False
    [Mem ''type'' t___u32,
     Mem ''id'' t___u32,
     Mem ''key_size'' t___u32,
     Mem ''value_size'' t___u32,
     Mem ''max_entries'' t___u32,
     Mem ''map_flags'' t___u32,
     Mem ''name'' (Arr 16 (Prim Cchar)),
     Mem ''ifindex'' t___u32,
     Mem ''btf_vmlinux_value_type_id'' t___u32,
     Mem ''netns_dev'' t___u64,
     Mem ''netns_ino'' t___u64,
     Mem ''btf_id'' t___u32,
     Mem ''btf_key_type_id'' t___u32,
     Mem ''btf_value_type_id'' t___u32,
     Mem ''btf_vmlinux_id'' t___u32,
     Mem ''map_extra'' t___u64]"

lemma meas_struct_bpf_map_info [simp]: "meas struct_bpf_map_info = (88, 8)"
  by (simp add: struct_bpf_map_info_def layout_eval)

definition struct_bpf_prog_info :: cty where
  "struct_bpf_prog_info = Struct False
    [Mem ''type'' t___u32,
     Mem ''id'' t___u32,
     Mem ''tag'' (Arr 8 t___u8),
     Mem ''jited_prog_len'' t___u32,
     Mem ''xlated_prog_len'' t___u32,
     Mem ''jited_prog_insns'' t___u64,
     Mem ''xlated_prog_insns'' t___u64,
     Mem ''load_time'' t___u64,
     Mem ''created_by_uid'' t___u32,
     Mem ''nr_map_ids'' t___u32,
     Mem ''map_ids'' t___u64,
     Mem ''name'' (Arr 16 (Prim Cchar)),
     Mem ''ifindex'' t___u32,
     Bit ''gpl_compatible'' t___u32 1,
     Mem ''netns_dev'' t___u64,
     Mem ''netns_ino'' t___u64,
     Mem ''nr_jited_ksyms'' t___u32,
     Mem ''nr_jited_func_lens'' t___u32,
     Mem ''jited_ksyms'' t___u64,
     Mem ''jited_func_lens'' t___u64,
     Mem ''btf_id'' t___u32,
     Mem ''func_info_rec_size'' t___u32,
     Mem ''func_info'' t___u64,
     Mem ''nr_func_info'' t___u32,
     Mem ''nr_line_info'' t___u32,
     Mem ''line_info'' t___u64,
     Mem ''jited_line_info'' t___u64,
     Mem ''nr_jited_line_info'' t___u32,
     Mem ''line_info_rec_size'' t___u32,
     Mem ''jited_line_info_rec_size'' t___u32,
     Mem ''nr_prog_tags'' t___u32,
     Mem ''prog_tags'' t___u64,
     Mem ''run_time_ns'' t___u64,
     Mem ''run_cnt'' t___u64,
     Mem ''recursion_misses'' t___u64,
     Mem ''verified_insns'' t___u32,
     Mem ''attach_btf_obj_id'' t___u32,
     Mem ''attach_btf_id'' t___u32]"

lemma meas_struct_bpf_prog_info [simp]: "meas struct_bpf_prog_info = (232, 8)"
  by (simp add: struct_bpf_prog_info_def layout_eval)

definition struct_bpf_link_info :: cty where
  "struct_bpf_link_info = Struct False
    [Mem ''type'' t___u32,
     Mem ''id'' t___u32,
     Mem ''prog_id'' t___u32,
     Mem '''' (Union False
       [Mem ''raw_tracepoint'' (Struct False
          [Mem ''tp_name'' t___u64,
           Mem ''tp_name_len'' t___u32,
           Mem ''cookie'' t___u64]),
        Mem ''tracing'' (Struct False
          [Mem ''attach_type'' t___u32,
           Mem ''target_obj_id'' t___u32,
           Mem ''target_btf_id'' t___u32,
           Mem ''cookie'' t___u64]),
        Mem ''cgroup'' (Struct False
          [Mem ''cgroup_id'' t___u64,
           Mem ''attach_type'' t___u32]),
        Mem ''iter'' (Struct False
          [Mem ''target_name'' t___u64,
           Mem ''target_name_len'' t___u32,
           Mem '''' (Union False
             [Mem ''map'' (Struct False
                [Mem ''map_id'' t___u32])]),
           Mem '''' (Union False
             [Mem ''cgroup'' (Struct False
                [Mem ''cgroup_id'' t___u64,
                 Mem ''order'' t___u32]),
              Mem ''task'' (Struct False
                [Mem ''tid'' t___u32,
                 Mem ''pid'' t___u32])])]),
        Mem ''netns'' (Struct False
          [Mem ''netns_ino'' t___u32,
           Mem ''attach_type'' t___u32]),
        Mem ''xdp'' (Struct False
          [Mem ''ifindex'' t___u32]),
        Mem ''struct_ops'' (Struct False
          [Mem ''map_id'' t___u32]),
        Mem ''netfilter'' (Struct False
          [Mem ''pf'' t___u32,
           Mem ''hooknum'' t___u32,
           Mem ''priority'' t___s32,
           Mem ''flags'' t___u32]),
        Mem ''kprobe_multi'' (Struct False
          [Mem ''addrs'' t___u64,
           Mem ''count'' t___u32,
           Mem ''flags'' t___u32,
           Mem ''missed'' t___u64,
           Mem ''cookies'' t___u64]),
        Mem ''uprobe_multi'' (Struct False
          [Mem ''path'' t___u64,
           Mem ''offsets'' t___u64,
           Mem ''ref_ctr_offsets'' t___u64,
           Mem ''cookies'' t___u64,
           Mem ''path_size'' t___u32,
           Mem ''count'' t___u32,
           Mem ''flags'' t___u32,
           Mem ''pid'' t___u32]),
        Mem ''perf_event'' (Struct False
          [Mem ''type'' t___u32,
           Mem '''' (Union False
             [Mem ''uprobe'' (Struct False
                [Mem ''file_name'' t___u64,
                 Mem ''name_len'' t___u32,
                 Mem ''offset'' t___u32,
                 Mem ''cookie'' t___u64,
                 Mem ''ref_ctr_offset'' t___u64]),
              Mem ''kprobe'' (Struct False
                [Mem ''func_name'' t___u64,
                 Mem ''name_len'' t___u32,
                 Mem ''offset'' t___u32,
                 Mem ''addr'' t___u64,
                 Mem ''missed'' t___u64,
                 Mem ''cookie'' t___u64]),
              Mem ''tracepoint'' (Struct False
                [Mem ''tp_name'' t___u64,
                 Mem ''name_len'' t___u32,
                 Mem ''cookie'' t___u64]),
              Mem ''event'' (Struct False
                [Mem ''config'' t___u64,
                 Mem ''type'' t___u32,
                 Mem ''cookie'' t___u64])])]),
        Mem ''tcx'' (Struct False
          [Mem ''ifindex'' t___u32,
           Mem ''attach_type'' t___u32]),
        Mem ''netkit'' (Struct False
          [Mem ''ifindex'' t___u32,
           Mem ''attach_type'' t___u32]),
        Mem ''sockmap'' (Struct False
          [Mem ''map_id'' t___u32,
           Mem ''attach_type'' t___u32])])]"

lemma meas_struct_bpf_link_info [simp]: "meas struct_bpf_link_info = (64, 8)"
  by (simp add: struct_bpf_link_info_def layout_eval)

definition t___s16 :: cty where
  "t___s16 = Prim Cshort"

lemma meas_t___s16 [simp]: "meas t___s16 = (2, 2)"
  by (simp add: t___s16_def layout_eval)

definition struct_bpf_insn :: cty where
  "struct_bpf_insn = Struct False
    [Mem ''code'' t___u8,
     Bit ''dst_reg'' t___u8 4,
     Bit ''src_reg'' t___u8 4,
     Mem ''off'' t___s16,
     Mem ''imm'' t___s32]"

lemma meas_struct_bpf_insn [simp]: "meas struct_bpf_insn = (8, 4)"
  by (simp add: struct_bpf_insn_def layout_eval)

section \<open>Maps\<close>

definition t_u32 :: cty where
  "t_u32 = t___u32"

lemma meas_t_u32 [simp]: "meas t_u32 = (4, 4)"
  by (simp add: t_u32_def layout_eval)

definition t___s64 :: cty where
  "t___s64 = Prim Cllong"

lemma meas_t___s64 [simp]: "meas t___s64 = (8, 8)"
  by (simp add: t___s64_def layout_eval)

definition t_s64 :: cty where
  "t_s64 = t___s64"

lemma meas_t_s64 [simp]: "meas t_s64 = (8, 8)"
  by (simp add: t_s64_def layout_eval)

definition t_atomic64_t :: cty where
  "t_atomic64_t = Struct False
    [Mem ''counter'' t_s64]"

lemma meas_t_atomic64_t [simp]: "meas t_atomic64_t = (8, 8)"
  by (simp add: t_atomic64_t_def layout_eval)

definition t_atomic_long_t :: cty where
  "t_atomic_long_t = t_atomic64_t"

lemma meas_t_atomic_long_t [simp]: "meas t_atomic_long_t = (8, 8)"
  by (simp add: t_atomic_long_t_def layout_eval)

definition t_atomic_t :: cty where
  "t_atomic_t = Struct False
    [Mem ''counter'' (Prim Cint)]"

lemma meas_t_atomic_t [simp]: "meas t_atomic_t = (4, 4)"
  by (simp add: t_atomic_t_def layout_eval)

definition t_u8 :: cty where
  "t_u8 = t___u8"

lemma meas_t_u8 [simp]: "meas t_u8 = (1, 1)"
  by (simp add: t_u8_def layout_eval)

definition struct_qspinlock :: cty where
  "struct_qspinlock = Struct False
    [Mem '''' (Union False
       [Mem ''val'' t_atomic_t,
        Mem '''' (Struct False
          [Mem ''locked'' t_u8,
           Mem ''pending'' t_u8]),
        Mem '''' (Struct False
          [Mem ''locked_pending'' t_u16,
           Mem ''tail'' t_u16])])]"

lemma meas_struct_qspinlock [simp]: "meas struct_qspinlock = (4, 4)"
  by (simp add: struct_qspinlock_def layout_eval)

definition t_arch_spinlock_t :: cty where
  "t_arch_spinlock_t = struct_qspinlock"

lemma meas_t_arch_spinlock_t [simp]: "meas t_arch_spinlock_t = (4, 4)"
  by (simp add: t_arch_spinlock_t_def layout_eval)

definition struct_raw_spinlock :: cty where
  "struct_raw_spinlock = Struct False
    [Mem ''raw_lock'' t_arch_spinlock_t]"

lemma meas_struct_raw_spinlock [simp]: "meas struct_raw_spinlock = (4, 4)"
  by (simp add: struct_raw_spinlock_def layout_eval)

definition t_raw_spinlock_t :: cty where
  "t_raw_spinlock_t = struct_raw_spinlock"

lemma meas_t_raw_spinlock_t [simp]: "meas t_raw_spinlock_t = (4, 4)"
  by (simp add: t_raw_spinlock_t_def layout_eval)

definition struct_optimistic_spin_queue :: cty where
  "struct_optimistic_spin_queue = Struct False
    [Mem ''tail'' t_atomic_t]"

lemma meas_struct_optimistic_spin_queue [simp]: "meas struct_optimistic_spin_queue = (4, 4)"
  by (simp add: struct_optimistic_spin_queue_def layout_eval)

definition struct_list_head :: cty where
  "struct_list_head = Struct False
    [Mem ''next'' (Ptr ''struct list_head''),
     Mem ''prev'' (Ptr ''struct list_head'')]"

lemma meas_struct_list_head [simp]: "meas struct_list_head = (16, 8)"
  by (simp add: struct_list_head_def layout_eval)

definition struct_mutex :: cty where
  "struct_mutex = Struct False
    [Mem ''owner'' t_atomic_long_t,
     Mem ''wait_lock'' t_raw_spinlock_t,
     Mem ''osq'' struct_optimistic_spin_queue,
     Mem ''wait_list'' struct_list_head]"

lemma meas_struct_mutex [simp]: "meas struct_mutex = (32, 8)"
  by (simp add: struct_mutex_def layout_eval)

definition t_work_func_t :: cty where
  "t_work_func_t = FunPtr"

lemma meas_t_work_func_t [simp]: "meas t_work_func_t = (8, 8)"
  by (simp add: t_work_func_t_def layout_eval)

definition struct_work_struct :: cty where
  "struct_work_struct = Struct False
    [Mem ''data'' t_atomic_long_t,
     Mem ''entry'' struct_list_head,
     Mem ''func'' t_work_func_t]"

lemma meas_struct_work_struct [simp]: "meas struct_work_struct = (32, 8)"
  by (simp add: struct_work_struct_def layout_eval)

definition struct_callback_head :: cty where
  "struct_callback_head = Struct False
    [Mem ''next'' (Ptr ''struct callback_head''),
     Mem ''func'' FunPtr]"

lemma meas_struct_callback_head [simp]: "meas struct_callback_head = (16, 8)"
  by (simp add: struct_callback_head_def layout_eval)

definition struct_spinlock :: cty where
  "struct_spinlock = Struct False
    [Mem '''' (Union False
       [Mem ''rlock'' struct_raw_spinlock])]"

lemma meas_struct_spinlock [simp]: "meas struct_spinlock = (4, 4)"
  by (simp add: struct_spinlock_def layout_eval)

definition t_spinlock_t :: cty where
  "t_spinlock_t = struct_spinlock"

lemma meas_t_spinlock_t [simp]: "meas t_spinlock_t = (4, 4)"
  by (simp add: t_spinlock_t_def layout_eval)

definition struct_bpf_map :: cty where
  "struct_bpf_map = Struct False
    [Mem ''ops'' (Ptr ''struct bpf_map_ops''),
     Mem ''inner_map_meta'' (Ptr ''struct bpf_map''),
     Mem ''security'' (Ptr ''void''),
     Mem ''map_type'' (Enum enum_bpf_map_type),
     Mem ''key_size'' t_u32,
     Mem ''value_size'' t_u32,
     Mem ''max_entries'' t_u32,
     Mem ''map_extra'' t_u64,
     Mem ''map_flags'' t_u32,
     Mem ''id'' t_u32,
     Mem ''record'' (Ptr ''struct btf_record''),
     Mem ''numa_node'' (Prim Cint),
     Mem ''btf_key_type_id'' t_u32,
     Mem ''btf_value_type_id'' t_u32,
     Mem ''btf_vmlinux_value_type_id'' t_u32,
     Mem ''btf'' (Ptr ''struct btf''),
     Mem ''objcg'' (Ptr ''struct obj_cgroup''),
     Mem ''name'' (Arr 16 (Prim Cchar)),
     Mem ''freeze_mutex'' struct_mutex,
     Mem ''refcnt'' t_atomic64_t,
     Mem ''usercnt'' t_atomic64_t,
     Mem '''' (Union False
       [Mem ''work'' struct_work_struct,
        Mem ''rcu'' struct_callback_head]),
     Mem ''writecnt'' t_atomic64_t,
     Mem ''owner_lock'' t_spinlock_t,
     Mem ''owner'' (Ptr ''struct bpf_map_owner''),
     Mem ''bypass_spec_v1'' t_bool,
     Mem ''frozen'' t_bool,
     Mem ''free_after_mult_rcu_gp'' t_bool,
     Mem ''free_after_rcu_gp'' t_bool,
     Mem ''sleepable_refcnt'' t_atomic64_t,
     Mem ''elem_count'' (Ptr ''s64''),
     Mem ''cookie'' t_u64]"

lemma meas_struct_bpf_map [simp]: "meas struct_bpf_map = (248, 8)"
  by (simp add: struct_bpf_map_def layout_eval)

definition struct_bpf_mem_alloc :: cty where
  "struct_bpf_mem_alloc = Struct False
    [Mem ''caches'' (Ptr ''struct bpf_mem_caches''),
     Mem ''cache'' (Ptr ''struct bpf_mem_cache''),
     Mem ''objcg'' (Ptr ''struct obj_cgroup''),
     Mem ''percpu'' t_bool,
     Mem ''work'' struct_work_struct]"

lemma meas_struct_bpf_mem_alloc [simp]: "meas struct_bpf_mem_alloc = (64, 8)"
  by (simp add: struct_bpf_mem_alloc_def layout_eval)

definition struct_pcpu_freelist :: cty where
  "struct_pcpu_freelist = Struct False
    [Mem ''freelist'' (Ptr ''struct pcpu_freelist_head'')]"

lemma meas_struct_pcpu_freelist [simp]: "meas struct_pcpu_freelist = (8, 8)"
  by (simp add: struct_pcpu_freelist_def layout_eval)

definition struct_bpf_lru_list :: cty where
  "struct_bpf_lru_list = Struct False
    ([Mem ''lists'' (Arr 3 struct_list_head),
     Mem ''counts'' (Arr 2 (Prim Cuint)),
     Mem ''next_inactive_rotation'' (Ptr ''struct list_head''),
     Mem ''lock'' t_raw_spinlock_t] @
    replicate 7 (Bit '''' (Prim Clong) 64))"

lemma meas_struct_bpf_lru_list [simp]: "meas struct_bpf_lru_list = (128, 8)"
  by (simp add: struct_bpf_lru_list_def layout_eval)

definition struct_bpf_common_lru :: cty where
  "struct_bpf_common_lru = Struct False
    ([Mem ''lru_list'' struct_bpf_lru_list,
     Mem ''local_list'' (Ptr ''struct bpf_lru_locallist'')] @
    replicate 7 (Bit '''' (Prim Clong) 64))"

lemma meas_struct_bpf_common_lru [simp]: "meas struct_bpf_common_lru = (192, 8)"
  by (simp add: struct_bpf_common_lru_def layout_eval)

definition t_del_from_htab_func :: cty where
  "t_del_from_htab_func = FunPtr"

lemma meas_t_del_from_htab_func [simp]: "meas t_del_from_htab_func = (8, 8)"
  by (simp add: t_del_from_htab_func_def layout_eval)

definition struct_bpf_lru :: cty where
  "struct_bpf_lru = Struct False
    [Mem '''' (Union False
       [Mem ''common_lru'' struct_bpf_common_lru,
        Mem ''percpu_lru'' (Ptr ''struct bpf_lru_list'')]),
     Mem ''del_from_htab'' t_del_from_htab_func,
     Mem ''del_arg'' (Ptr ''void''),
     Mem ''hash_offset'' (Prim Cuint),
     Mem ''target_free'' (Prim Cuint),
     Mem ''nr_scans'' (Prim Cuint),
     Mem ''percpu'' t_bool,
     Bit '''' (Prim Clong) 64,
     Bit '''' (Prim Clong) 64,
     Bit '''' (Prim Clong) 64,
     Bit '''' (Prim Clong) 64]"

lemma meas_struct_bpf_lru [simp]: "meas struct_bpf_lru = (256, 8)"
  by (simp add: struct_bpf_lru_def layout_eval)

definition struct_percpu_counter :: cty where
  "struct_percpu_counter = Struct False
    [Mem ''lock'' t_raw_spinlock_t,
     Mem ''count'' t_s64,
     Mem ''list'' struct_list_head,
     Mem ''counters'' (Ptr ''s32'')]"

lemma meas_struct_percpu_counter [simp]: "meas struct_percpu_counter = (40, 8)"
  by (simp add: struct_percpu_counter_def layout_eval)

definition struct_bpf_htab :: cty where
  "struct_bpf_htab = Struct False
    ([Mem ''map'' struct_bpf_map,
     Mem ''ma'' struct_bpf_mem_alloc,
     Mem ''pcpu_ma'' struct_bpf_mem_alloc,
     Mem ''buckets'' (Ptr ''struct bucket''),
     Mem ''elems'' (Ptr ''void'')] @
    replicate 7 (Bit '''' (Prim Clong) 64) @
    [Mem '''' (Union False
       [Mem ''freelist'' struct_pcpu_freelist,
        Mem ''lru'' struct_bpf_lru]),
     Mem ''extra_elems'' (Ptr ''struct htab_elem *''),
     Mem ''pcount'' struct_percpu_counter,
     Mem ''count'' t_atomic_t,
     Mem ''use_percpu_counter'' t_bool,
     Mem ''n_buckets'' t_u32,
     Mem ''elem_size'' t_u32,
     Mem ''hashrnd'' t_u32] @
    replicate 7 (Bit '''' (Prim Clong) 64))"

lemma meas_struct_bpf_htab [simp]: "meas struct_bpf_htab = (832, 8)"
  by (simp add: struct_bpf_htab_def layout_eval)

definition struct_bpf_array :: cty where
  "struct_bpf_array = Struct False
    [Mem ''map'' struct_bpf_map,
     Mem ''elem_size'' t_u32,
     Mem ''index_mask'' t_u32,
     Mem ''aux'' (Ptr ''struct bpf_array_aux''),
     Mem '''' (Union False
       [Mem '''' (Struct False
          [Mem ''__empty_value'' (Struct False
             []),
           Mem ''value'' (Arr 0 (Prim Cchar))]),
        Mem '''' (Struct False
          [Mem ''__empty_ptrs'' (Struct False
             []),
           Mem ''ptrs'' (Arr 0 (Ptr ''void''))]),
        Mem '''' (Struct False
          [Mem ''__empty_pptrs'' (Struct False
             []),
           Mem ''pptrs'' (Arr 0 (Ptr ''void''))])])]"

lemma meas_struct_bpf_array [simp]: "meas struct_bpf_array = (264, 8)"
  by (simp add: struct_bpf_array_def layout_eval)

definition struct_wait_queue_head :: cty where
  "struct_wait_queue_head = Struct False
    [Mem ''lock'' t_spinlock_t,
     Mem ''head'' struct_list_head]"

lemma meas_struct_wait_queue_head [simp]: "meas struct_wait_queue_head = (24, 8)"
  by (simp add: struct_wait_queue_head_def layout_eval)

definition t_wait_queue_head_t :: cty where
  "t_wait_queue_head_t = struct_wait_queue_head"

lemma meas_t_wait_queue_head_t [simp]: "meas t_wait_queue_head_t = (24, 8)"
  by (simp add: t_wait_queue_head_t_def layout_eval)

definition struct_llist_node :: cty where
  "struct_llist_node = Struct False
    [Mem ''next'' (Ptr ''struct llist_node'')]"

lemma meas_struct_llist_node [simp]: "meas struct_llist_node = (8, 8)"
  by (simp add: struct_llist_node_def layout_eval)

definition struct___call_single_node :: cty where
  "struct___call_single_node = Struct False
    [Mem ''llist'' struct_llist_node,
     Mem '''' (Union False
       [Mem ''u_flags'' (Prim Cuint),
        Mem ''a_flags'' t_atomic_t]),
     Mem ''src'' t_u16,
     Mem ''dst'' t_u16]"

lemma meas_struct___call_single_node [simp]: "meas struct___call_single_node = (16, 8)"
  by (simp add: struct___call_single_node_def layout_eval)

definition struct_rcuwait :: cty where
  "struct_rcuwait = Struct False
    [Mem ''task'' (Ptr ''struct task_struct'')]"

lemma meas_struct_rcuwait [simp]: "meas struct_rcuwait = (8, 8)"
  by (simp add: struct_rcuwait_def layout_eval)

definition struct_irq_work :: cty where
  "struct_irq_work = Struct False
    [Mem ''node'' struct___call_single_node,
     Mem ''func'' FunPtr,
     Mem ''irqwait'' struct_rcuwait]"

lemma meas_struct_irq_work [simp]: "meas struct_irq_work = (32, 8)"
  by (simp add: struct_irq_work_def layout_eval)

definition t_rqspinlock_t :: cty where
  "t_rqspinlock_t = struct_qspinlock"

lemma meas_t_rqspinlock_t [simp]: "meas t_rqspinlock_t = (4, 4)"
  by (simp add: t_rqspinlock_t_def layout_eval)

definition struct_bpf_ringbuf :: cty where
  "struct_bpf_ringbuf = Struct False
    ([Mem ''waitq'' t_wait_queue_head_t,
     Mem ''work'' struct_irq_work,
     Mem ''mask'' t_u64,
     Mem ''pages'' (Ptr ''struct page *''),
     Mem ''nr_pages'' (Prim Cint)] @
    replicate 6 (Bit '''' (Prim Clong) 64) @
    [Mem ''spinlock'' t_rqspinlock_t] @
    replicate 7 (Bit '''' (Prim Clong) 64) @
    [Mem ''busy'' t_atomic_t] @
    replicate 487 (Bit '''' (Prim Clong) 64) @
    [Mem ''consumer_pos'' (Prim Culong)] @
    replicate 511 (Bit '''' (Prim Clong) 64) @
    [Mem ''producer_pos'' (Prim Culong),
     Mem ''pending_pos'' (Prim Culong)] @
    replicate 510 (Bit '''' (Prim Clong) 64) @
    [Mem ''data'' (Arr 0 (Prim Cchar))])"

lemma meas_struct_bpf_ringbuf [simp]: "meas struct_bpf_ringbuf = (12288, 8)"
  by (simp add: struct_bpf_ringbuf_def layout_eval)

definition struct_bpf_ringbuf_map :: cty where
  "struct_bpf_ringbuf_map = Struct False
    [Mem ''map'' struct_bpf_map,
     Mem ''rb'' (Ptr ''struct bpf_ringbuf'')]"

lemma meas_struct_bpf_ringbuf_map [simp]: "meas struct_bpf_ringbuf_map = (256, 8)"
  by (simp add: struct_bpf_ringbuf_map_def layout_eval)

section \<open>Programs and probes\<close>

definition struct_sock_filter :: cty where
  "struct_sock_filter = Struct False
    [Mem ''code'' t___u16,
     Mem ''jt'' t___u8,
     Mem ''jf'' t___u8,
     Mem ''k'' t___u32]"

lemma meas_struct_sock_filter [simp]: "meas struct_sock_filter = (8, 4)"
  by (simp add: struct_sock_filter_def layout_eval)

definition struct_bpf_prog :: cty where
  "struct_bpf_prog = Struct False
    [Mem ''pages'' t_u16,
     Bit ''jited'' t_u16 1,
     Bit ''jit_requested'' t_u16 1,
     Bit ''gpl_compatible'' t_u16 1,
     Bit ''cb_access'' t_u16 1,
     Bit ''dst_needed'' t_u16 1,
     Bit ''blinding_requested'' t_u16 1,
     Bit ''blinded'' t_u16 1,
     Bit ''is_func'' t_u16 1,
     Bit ''kprobe_override'' t_u16 1,
     Bit ''has_callchain_buf'' t_u16 1,
     Bit ''enforce_expected_attach_type'' t_u16 1,
     Bit ''call_get_stack'' t_u16 1,
     Bit ''call_get_func_ip'' t_u16 1,
     Bit ''tstamp_type_access'' t_u16 1,
     Bit ''sleepable'' t_u16 1,
     Mem ''type'' (Enum enum_bpf_prog_type),
     Mem ''expected_attach_type'' (Enum enum_bpf_attach_type),
     Mem ''len'' t_u32,
     Mem ''jited_len'' t_u32,
     Mem ''tag'' (Arr 8 t_u8),
     Mem ''stats'' (Ptr ''struct bpf_prog_stats''),
     Mem ''active'' (Ptr ''int''),
     Mem ''bpf_func'' FunPtr,
     Mem ''aux'' (Ptr ''struct bpf_prog_aux''),
     Mem ''orig_prog'' (Ptr ''struct sock_fprog_kern''),
     Mem '''' (Union False
       [Mem '''' (Struct False
          [Mem ''__empty_insns'' (Struct False
             []),
           Mem ''insns'' (Arr 0 struct_sock_filter)]),
        Mem '''' (Struct False
          [Mem ''__empty_insnsi'' (Struct False
             []),
           Mem ''insnsi'' (Arr 0 struct_bpf_insn)])])]"

lemma meas_struct_bpf_prog [simp]: "meas struct_bpf_prog = (72, 8)"
  by (simp add: struct_bpf_prog_def layout_eval)

definition struct_rb_node :: cty where
  "struct_rb_node = Struct False
    [Mem ''__rb_parent_color'' (Prim Culong),
     Mem ''rb_right'' (Ptr ''struct rb_node''),
     Mem ''rb_left'' (Ptr ''struct rb_node'')]"

lemma meas_struct_rb_node [simp]: "meas struct_rb_node = (24, 8)"
  by (simp add: struct_rb_node_def layout_eval)

definition struct_latch_tree_node :: cty where
  "struct_latch_tree_node = Struct False
    [Mem ''node'' (Arr 2 struct_rb_node)]"

lemma meas_struct_latch_tree_node [simp]: "meas struct_latch_tree_node = (48, 8)"
  by (simp add: struct_latch_tree_node_def layout_eval)

definition struct_bpf_ksym :: cty where
  "struct_bpf_ksym = Struct False
    [Mem ''start'' (Prim Culong),
     Mem ''end'' (Prim Culong),
     Mem ''name'' (Arr 512 (Prim Cchar)),
     Mem ''lnode'' struct_list_head,
     Mem ''tnode'' struct_latch_tree_node,
     Mem ''prog'' t_bool]"

lemma meas_struct_bpf_ksym [simp]: "meas struct_bpf_ksym = (600, 8)"
  by (simp add: struct_bpf_ksym_def layout_eval)

definition struct_llist_head :: cty where
  "struct_llist_head = Struct False
    [Mem ''first'' (Ptr ''struct llist_node'')]"

lemma meas_struct_llist_head [simp]: "meas struct_llist_head = (8, 8)"
  by (simp add: struct_llist_head_def layout_eval)

definition struct_bpf_stream :: cty where
  "struct_bpf_stream = Struct False
    [Mem ''capacity'' t_atomic_t,
     Mem ''log'' struct_llist_head,
     Mem ''lock'' struct_mutex,
     Mem ''backlog_head'' (Ptr ''struct llist_node''),
     Mem ''backlog_tail'' (Ptr ''struct llist_node'')]"

lemma meas_struct_bpf_stream [simp]: "meas struct_bpf_stream = (64, 8)"
  by (simp add: struct_bpf_stream_def layout_eval)

definition struct_bpf_prog_aux :: cty where
  "struct_bpf_prog_aux = Struct False
    [Mem ''refcnt'' t_atomic64_t,
     Mem ''used_map_cnt'' t_u32,
     Mem ''used_btf_cnt'' t_u32,
     Mem ''max_ctx_offset'' t_u32,
     Mem ''max_pkt_offset'' t_u32,
     Mem ''max_tp_access'' t_u32,
     Mem ''stack_depth'' t_u32,
     Mem ''id'' t_u32,
     Mem ''func_cnt'' t_u32,
     Mem ''real_func_cnt'' t_u32,
     Mem ''func_idx'' t_u32,
     Mem ''attach_btf_id'' t_u32,
     Mem ''attach_st_ops_member_off'' t_u32,
     Mem ''ctx_arg_info_size'' t_u32,
     Mem ''max_rdonly_access'' t_u32,
     Mem ''max_rdwr_access'' t_u32,
     Mem ''attach_btf'' (Ptr ''struct btf''),
     Mem ''ctx_arg_info'' (Ptr ''struct bpf_ctx_arg_aux''),
     Mem ''priv_stack_ptr'' (Ptr ''void''),
     Mem ''dst_mutex'' struct_mutex,
     Mem ''dst_prog'' (Ptr ''struct bpf_prog''),
     Mem ''dst_trampoline'' (Ptr ''struct bpf_trampoline''),
     Mem ''saved_dst_prog_type'' (Enum enum_bpf_prog_type),
     Mem ''saved_dst_attach_type'' (Enum enum_bpf_attach_type),
     Mem ''verifier_zext'' t_bool,
     Mem ''dev_bound'' t_bool,
     Mem ''offload_requested'' t_bool,
     Mem ''attach_btf_trace'' t_bool,
     Mem ''attach_tracing_prog'' t_bool,
     Mem ''func_proto_unreliable'' t_bool,
     Mem ''tail_call_reachable'' t_bool,
     Mem ''xdp_has_frags'' t_bool,
     Mem ''exception_cb'' t_bool,
     Mem ''exception_boundary'' t_bool,
     Mem ''is_extended'' t_bool,
     Mem ''jits_use_priv_stack'' t_bool,
     Mem ''priv_stack_requested'' t_bool,
     Mem ''changes_pkt_data'' t_bool,
     Mem ''might_sleep'' t_bool,
     Mem ''prog_array_member_cnt'' t_u64,
     Mem ''ext_mutex'' struct_mutex,
     Mem ''arena'' (Ptr ''struct bpf_arena''),
     Mem ''recursion_detected'' FunPtr,
     Mem ''attach_func_proto'' (Ptr ''struct btf_type''),
     Mem ''attach_func_name'' (Ptr ''char''),
     Mem ''func'' (Ptr ''struct bpf_prog *''),
     Mem ''jit_data'' (Ptr ''void''),
     Mem ''poke_tab'' (Ptr ''struct bpf_jit_poke_descriptor''),
     Mem ''kfunc_tab'' (Ptr ''struct bpf_kfunc_desc_tab''),
     Mem ''kfunc_btf_tab'' (Ptr ''struct bpf_kfunc_btf_tab''),
     Mem ''size_poke_tab'' t_u32,
     Mem ''ksym'' struct_bpf_ksym,
     Mem ''ops'' (Ptr ''struct bpf_prog_ops''),
     Mem ''st_ops'' (Ptr ''struct bpf_struct_ops''),
     Mem ''used_maps'' (Ptr ''struct bpf_map *''),
     Mem ''used_maps_mutex'' struct_mutex,
     Mem ''used_btfs'' (Ptr ''struct btf_mod_pair''),
     Mem ''prog'' (Ptr ''struct bpf_prog''),
     Mem ''user'' (Ptr ''struct user_struct''),
     Mem ''load_time'' t_u64,
     Mem ''verified_insns'' t_u32,
     Mem ''cgroup_atype'' (Prim Cint),
     Mem ''cgroup_storage'' (Arr 2 (Ptr ''struct bpf_map'')),
     Mem ''name'' (Arr 16 (Prim Cchar)),
     Mem ''bpf_exception_cb'' FunPtr,
     Mem ''security'' (Ptr ''void''),
     Mem ''token'' (Ptr ''struct bpf_token''),
     Mem ''offload'' (Ptr ''struct bpf_prog_offload''),
     Mem ''btf'' (Ptr ''struct btf''),
     Mem ''func_info'' (Ptr ''struct bpf_func_info''),
     Mem ''func_info_aux'' (Ptr ''struct bpf_func_info_aux''),
     Mem ''linfo'' (Ptr ''struct bpf_line_info''),
     Mem ''jited_linfo'' (Ptr ''void *''),
     Mem ''func_info_cnt'' t_u32,
     Mem ''nr_linfo'' t_u32,
     Mem ''linfo_idx'' t_u32,
     Mem ''mod'' (Ptr ''struct module''),
     Mem ''num_exentries'' t_u32,
     Mem ''extable'' (Ptr ''struct exception_table_entry''),
     Mem '''' (Union False
       [Mem ''work'' struct_work_struct,
        Mem ''rcu'' struct_callback_head]),
     Mem ''stream'' (Arr 2 struct_bpf_stream)]"

lemma meas_struct_bpf_prog_aux [simp]: "meas struct_bpf_prog_aux = (1288, 8)"
  by (simp add: struct_bpf_prog_aux_def layout_eval)

definition struct_bpf_link :: cty where
  "struct_bpf_link = Struct False
    [Mem ''refcnt'' t_atomic64_t,
     Mem ''id'' t_u32,
     Mem ''type'' (Enum enum_bpf_link_type),
     Mem ''ops'' (Ptr ''struct bpf_link_ops''),
     Mem ''prog'' (Ptr ''struct bpf_prog''),
     Mem ''flags'' t_u32,
     Mem ''attach_type'' (Enum enum_bpf_attach_type),
     Mem '''' (Union False
       [Mem ''rcu'' struct_callback_head,
        Mem ''work'' struct_work_struct]),
     Mem ''sleepable'' t_bool]"

lemma meas_struct_bpf_link [simp]: "meas struct_bpf_link = (80, 8)"
  by (simp add: struct_bpf_link_def layout_eval)

definition struct_bpf_raw_tp_link :: cty where
  "struct_bpf_raw_tp_link = Struct False
    [Mem ''link'' struct_bpf_link,
     Mem ''btp'' (Ptr ''struct bpf_raw_event_map''),
     Mem ''cookie'' t_u64]"

lemma meas_struct_bpf_raw_tp_link [simp]: "meas struct_bpf_raw_tp_link = (96, 8)"
  by (simp add: struct_bpf_raw_tp_link_def layout_eval)

definition struct_refcount_struct :: cty where
  "struct_refcount_struct = Struct False
    [Mem ''refs'' t_atomic_t]"

lemma meas_struct_refcount_struct [simp]: "meas struct_refcount_struct = (4, 4)"
  by (simp add: struct_refcount_struct_def layout_eval)

definition t_refcount_t :: cty where
  "t_refcount_t = struct_refcount_struct"

lemma meas_t_refcount_t [simp]: "meas t_refcount_t = (4, 4)"
  by (simp add: t_refcount_t_def layout_eval)

definition struct_rw_semaphore :: cty where
  "struct_rw_semaphore = Struct False
    [Mem ''count'' t_atomic_long_t,
     Mem ''owner'' t_atomic_long_t,
     Mem ''osq'' struct_optimistic_spin_queue,
     Mem ''wait_lock'' t_raw_spinlock_t,
     Mem ''wait_list'' struct_list_head]"

lemma meas_struct_rw_semaphore [simp]: "meas struct_rw_semaphore = (40, 8)"
  by (simp add: struct_rw_semaphore_def layout_eval)

definition t___kernel_loff_t :: cty where
  "t___kernel_loff_t = Prim Cllong"

lemma meas_t___kernel_loff_t [simp]: "meas t___kernel_loff_t = (8, 8)"
  by (simp add: t___kernel_loff_t_def layout_eval)

definition t_loff_t :: cty where
  "t_loff_t = t___kernel_loff_t"

lemma meas_t_loff_t [simp]: "meas t_loff_t = (8, 8)"
  by (simp add: t_loff_t_def layout_eval)

definition t_s32 :: cty where
  "t_s32 = t___s32"

lemma meas_t_s32 [simp]: "meas t_s32 = (4, 4)"
  by (simp add: t_s32_def layout_eval)

definition struct_arch_uprobe :: cty where
  "struct_arch_uprobe = Struct False
    [Mem '''' (Union False
       [Mem ''insn'' (Arr 16 t_u8),
        Mem ''ixol'' (Arr 16 t_u8)]),
     Mem ''ops'' (Ptr ''struct uprobe_xol_ops''),
     Mem '''' (Union False
       [Mem ''branch'' (Struct False
          [Mem ''offs'' t_s32,
           Mem ''ilen'' t_u8,
           Mem ''opc1'' t_u8]),
        Mem ''defparam'' (Struct False
          [Mem ''fixups'' t_u8,
           Mem ''ilen'' t_u8]),
        Mem ''push'' (Struct False
          [Mem ''reg_offset'' t_u8,
           Mem ''ilen'' t_u8])])]"

lemma meas_struct_arch_uprobe [simp]: "meas struct_arch_uprobe = (32, 8)"
  by (simp add: struct_arch_uprobe_def layout_eval)

definition struct_uprobe :: cty where
  "struct_uprobe = Struct False
    [Mem ''rb_node'' struct_rb_node,
     Mem ''ref'' t_refcount_t,
     Mem ''register_rwsem'' struct_rw_semaphore,
     Mem ''consumer_rwsem'' struct_rw_semaphore,
     Mem ''pending_list'' struct_list_head,
     Mem ''consumers'' struct_list_head,
     Mem ''inode'' (Ptr ''struct inode''),
     Mem '''' (Union False
       [Mem ''rcu'' struct_callback_head,
        Mem ''work'' struct_work_struct]),
     Mem ''offset'' t_loff_t,
     Mem ''ref_ctr_offset'' t_loff_t,
     Mem ''flags'' (Prim Culong),
     Mem ''arch'' struct_arch_uprobe]"

lemma meas_struct_uprobe [simp]: "meas struct_uprobe = (240, 8)"
  by (simp add: struct_uprobe_def layout_eval)

definition struct_path :: cty where
  "struct_path = Struct False
    [Mem ''mnt'' (Ptr ''struct vfsmount''),
     Mem ''dentry'' (Ptr ''struct dentry'')]"

lemma meas_struct_path [simp]: "meas struct_path = (16, 8)"
  by (simp add: struct_path_def layout_eval)

definition struct_bpf_uprobe_multi_link :: cty where
  "struct_bpf_uprobe_multi_link = Struct False
    [Mem ''path'' struct_path,
     Mem ''link'' struct_bpf_link,
     Mem ''cnt'' t_u32,
     Mem ''uprobes'' (Ptr ''struct bpf_uprobe''),
     Mem ''task'' (Ptr ''struct task_struct'')]"

lemma meas_struct_bpf_uprobe_multi_link [simp]: "meas struct_bpf_uprobe_multi_link = (120, 8)"
  by (simp add: struct_bpf_uprobe_multi_link_def layout_eval)

definition struct_hlist_node :: cty where
  "struct_hlist_node = Struct False
    [Mem ''next'' (Ptr ''struct hlist_node''),
     Mem ''pprev'' (Ptr ''struct hlist_node *'')]"

lemma meas_struct_hlist_node [simp]: "meas struct_hlist_node = (16, 8)"
  by (simp add: struct_hlist_node_def layout_eval)

definition struct_trace_event :: cty where
  "struct_trace_event = Struct False
    [Mem ''node'' struct_hlist_node,
     Mem ''type'' (Prim Cint),
     Mem ''funcs'' (Ptr ''struct trace_event_functions'')]"

lemma meas_struct_trace_event [simp]: "meas struct_trace_event = (32, 8)"
  by (simp add: struct_trace_event_def layout_eval)

definition struct_trace_event_call :: cty where
  "struct_trace_event_call = Struct False
    [Mem ''list'' struct_list_head,
     Mem ''class'' (Ptr ''struct trace_event_class''),
     Mem '''' (Union False
       [Mem ''name'' (Ptr ''char''),
        Mem ''tp'' (Ptr ''struct tracepoint'')]),
     Mem ''event'' struct_trace_event,
     Mem ''print_fmt'' (Ptr ''char''),
     Mem '''' (Union False
       [Mem ''module'' (Ptr ''void''),
        Mem ''refcnt'' t_atomic_t]),
     Mem ''data'' (Ptr ''void''),
     Mem ''flags'' (Prim Cint),
     Mem ''perf_refcount'' (Prim Cint),
     Mem ''perf_events'' (Ptr ''struct hlist_head''),
     Mem ''prog_array'' (Ptr ''struct bpf_prog_array''),
     Mem ''perf_perm'' FunPtr]"

lemma meas_struct_trace_event_call [simp]: "meas struct_trace_event_call = (120, 8)"
  by (simp add: struct_trace_event_call_def layout_eval)

definition struct_trace_event_class :: cty where
  "struct_trace_event_class = Struct False
    [Mem ''system'' (Ptr ''char''),
     Mem ''probe'' (Ptr ''void''),
     Mem ''perf_probe'' (Ptr ''void''),
     Mem ''reg'' FunPtr,
     Mem ''fields_array'' (Ptr ''struct trace_event_fields''),
     Mem ''get_fields'' FunPtr,
     Mem ''fields'' struct_list_head,
     Mem ''raw_init'' FunPtr]"

lemma meas_struct_trace_event_class [simp]: "meas struct_trace_event_class = (72, 8)"
  by (simp add: struct_trace_event_class_def layout_eval)

end
