(* ===== verification/Kernel_Task.thy ===== *)
theory Kernel_Task
  imports Kernel_Bpf
begin

text \<open>
  The declarations of \<open>vmlinux.h\<close> for the processes the probes follow: tasks, their identifiers, signals,
  credentials and memory.
\<close>

section \<open>Tasks\<close>

definition struct_thread_info :: cty where
  "struct_thread_info = Struct False
    [Mem ''flags'' (Prim Culong),
     Mem ''syscall_work'' (Prim Culong),
     Mem ''status'' t_u32,
     Mem ''cpu'' t_u32]"

lemma meas_struct_thread_info [simp]: "meas struct_thread_info = (24, 8)"
  by (simp add: struct_thread_info_def layout_eval)

definition struct_load_weight :: cty where
  "struct_load_weight = Struct False
    [Mem ''weight'' (Prim Culong),
     Mem ''inv_weight'' t_u32]"

lemma meas_struct_load_weight [simp]: "meas struct_load_weight = (16, 8)"
  by (simp add: struct_load_weight_def layout_eval)

definition struct_sched_avg :: cty where
  "struct_sched_avg = Struct False
    [Mem ''last_update_time'' t_u64,
     Mem ''load_sum'' t_u64,
     Mem ''runnable_sum'' t_u64,
     Mem ''util_sum'' t_u32,
     Mem ''period_contrib'' t_u32,
     Mem ''load_avg'' (Prim Culong),
     Mem ''runnable_avg'' (Prim Culong),
     Mem ''util_avg'' (Prim Culong),
     Mem ''util_est'' (Prim Cuint)]"

lemma meas_struct_sched_avg [simp]: "meas struct_sched_avg = (64, 8)"
  by (simp add: struct_sched_avg_def layout_eval)

definition struct_sched_entity :: cty where
  "struct_sched_entity = Struct False
    [Mem ''load'' struct_load_weight,
     Mem ''run_node'' struct_rb_node,
     Mem ''deadline'' t_u64,
     Mem ''min_vruntime'' t_u64,
     Mem ''min_slice'' t_u64,
     Mem ''group_node'' struct_list_head,
     Mem ''on_rq'' (Prim Cuchar),
     Mem ''sched_delayed'' (Prim Cuchar),
     Mem ''rel_deadline'' (Prim Cuchar),
     Mem ''custom_slice'' (Prim Cuchar),
     Mem ''exec_start'' t_u64,
     Mem ''sum_exec_runtime'' t_u64,
     Mem ''prev_sum_exec_runtime'' t_u64,
     Mem ''vruntime'' t_u64,
     Mem '''' (Union False
       [Mem ''vlag'' t_s64,
        Mem ''vprot'' t_u64]),
     Mem ''slice'' t_u64,
     Mem ''nr_migrations'' t_u64,
     Mem ''depth'' (Prim Cint),
     Mem ''parent'' (Ptr ''struct sched_entity''),
     Mem ''cfs_rq'' (Ptr ''struct cfs_rq''),
     Mem ''my_q'' (Ptr ''struct cfs_rq''),
     Mem ''runnable_weight'' (Prim Culong),
     Bit '''' (Prim Clong) 64,
     Mem ''avg'' struct_sched_avg]"

lemma meas_struct_sched_entity [simp]: "meas struct_sched_entity = (256, 8)"
  by (simp add: struct_sched_entity_def layout_eval)

definition struct_sched_rt_entity :: cty where
  "struct_sched_rt_entity = Struct False
    [Mem ''run_list'' struct_list_head,
     Mem ''timeout'' (Prim Culong),
     Mem ''watchdog_stamp'' (Prim Culong),
     Mem ''time_slice'' (Prim Cuint),
     Mem ''on_rq'' (Prim Cushort),
     Mem ''on_list'' (Prim Cushort),
     Mem ''back'' (Ptr ''struct sched_rt_entity'')]"

lemma meas_struct_sched_rt_entity [simp]: "meas struct_sched_rt_entity = (48, 8)"
  by (simp add: struct_sched_rt_entity_def layout_eval)

definition t_ktime_t :: cty where
  "t_ktime_t = t_s64"

lemma meas_t_ktime_t [simp]: "meas t_ktime_t = (8, 8)"
  by (simp add: t_ktime_t_def layout_eval)

definition struct_timerqueue_node :: cty where
  "struct_timerqueue_node = Struct False
    [Mem ''node'' struct_rb_node,
     Mem ''expires'' t_ktime_t]"

lemma meas_struct_timerqueue_node [simp]: "meas struct_timerqueue_node = (32, 8)"
  by (simp add: struct_timerqueue_node_def layout_eval)

definition struct_hrtimer :: cty where
  "struct_hrtimer = Struct False
    [Mem ''node'' struct_timerqueue_node,
     Mem ''_softexpires'' t_ktime_t,
     Mem ''function'' FunPtr,
     Mem ''base'' (Ptr ''struct hrtimer_clock_base''),
     Mem ''state'' t_u8,
     Mem ''is_rel'' t_u8,
     Mem ''is_soft'' t_u8,
     Mem ''is_hard'' t_u8]"

lemma meas_struct_hrtimer [simp]: "meas struct_hrtimer = (64, 8)"
  by (simp add: struct_hrtimer_def layout_eval)

definition t_dl_server_pick_f :: cty where
  "t_dl_server_pick_f = FunPtr"

lemma meas_t_dl_server_pick_f [simp]: "meas t_dl_server_pick_f = (8, 8)"
  by (simp add: t_dl_server_pick_f_def layout_eval)

definition struct_sched_dl_entity :: cty where
  "struct_sched_dl_entity = Struct False
    [Mem ''rb_node'' struct_rb_node,
     Mem ''dl_runtime'' t_u64,
     Mem ''dl_deadline'' t_u64,
     Mem ''dl_period'' t_u64,
     Mem ''dl_bw'' t_u64,
     Mem ''dl_density'' t_u64,
     Mem ''runtime'' t_s64,
     Mem ''deadline'' t_u64,
     Mem ''flags'' (Prim Cuint),
     Bit ''dl_throttled'' (Prim Cuint) 1,
     Bit ''dl_yielded'' (Prim Cuint) 1,
     Bit ''dl_non_contending'' (Prim Cuint) 1,
     Bit ''dl_overrun'' (Prim Cuint) 1,
     Bit ''dl_server'' (Prim Cuint) 1,
     Bit ''dl_server_active'' (Prim Cuint) 1,
     Bit ''dl_defer'' (Prim Cuint) 1,
     Bit ''dl_defer_armed'' (Prim Cuint) 1,
     Bit ''dl_defer_running'' (Prim Cuint) 1,
     Mem ''dl_timer'' struct_hrtimer,
     Mem ''inactive_timer'' struct_hrtimer,
     Mem ''rq'' (Ptr ''struct rq''),
     Mem ''server_pick_task'' t_dl_server_pick_f,
     Mem ''pi_se'' (Ptr ''struct sched_dl_entity'')]"

lemma meas_struct_sched_dl_entity [simp]: "meas struct_sched_dl_entity = (240, 8)"
  by (simp add: struct_sched_dl_entity_def layout_eval)

definition struct_scx_dsq_list_node :: cty where
  "struct_scx_dsq_list_node = Struct False
    [Mem ''node'' struct_list_head,
     Mem ''flags'' t_u32,
     Mem ''priv'' t_u32]"

lemma meas_struct_scx_dsq_list_node [simp]: "meas struct_scx_dsq_list_node = (24, 8)"
  by (simp add: struct_scx_dsq_list_node_def layout_eval)

definition struct_sched_ext_entity :: cty where
  "struct_sched_ext_entity = Struct False
    [Mem ''dsq'' (Ptr ''struct scx_dispatch_q''),
     Mem ''dsq_list'' struct_scx_dsq_list_node,
     Mem ''dsq_priq'' struct_rb_node,
     Mem ''dsq_seq'' t_u32,
     Mem ''dsq_flags'' t_u32,
     Mem ''flags'' t_u32,
     Mem ''weight'' t_u32,
     Mem ''sticky_cpu'' t_s32,
     Mem ''holding_cpu'' t_s32,
     Mem ''selected_cpu'' t_s32,
     Mem ''kf_mask'' t_u32,
     Mem ''kf_tasks'' (Arr 2 (Ptr ''struct task_struct'')),
     Mem ''ops_state'' t_atomic_long_t,
     Mem ''runnable_node'' struct_list_head,
     Mem ''runnable_at'' (Prim Culong),
     Mem ''core_sched_at'' t_u64,
     Mem ''ddsp_dsq_id'' t_u64,
     Mem ''ddsp_enq_flags'' t_u64,
     Mem ''slice'' t_u64,
     Mem ''dsq_vtime'' t_u64,
     Mem ''disallow'' t_bool,
     Mem ''cgrp_moving_from'' (Ptr ''struct cgroup''),
     Mem ''tasks_node'' struct_list_head]"

lemma meas_struct_sched_ext_entity [simp]: "meas struct_sched_ext_entity = (208, 8)"
  by (simp add: struct_sched_ext_entity_def layout_eval)

definition struct_uclamp_se :: cty where
  "struct_uclamp_se = Struct False
    [Bit ''value'' (Prim Cuint) 11,
     Bit ''bucket_id'' (Prim Cuint) 3,
     Bit ''active'' (Prim Cuint) 1,
     Bit ''user_defined'' (Prim Cuint) 1]"

lemma meas_struct_uclamp_se [simp]: "meas struct_uclamp_se = (4, 4)"
  by (simp add: struct_uclamp_se_def layout_eval)

definition struct_sched_statistics :: cty where
  "struct_sched_statistics = Struct False
    [Mem ''wait_start'' t_u64,
     Mem ''wait_max'' t_u64,
     Mem ''wait_count'' t_u64,
     Mem ''wait_sum'' t_u64,
     Mem ''iowait_count'' t_u64,
     Mem ''iowait_sum'' t_u64,
     Mem ''sleep_start'' t_u64,
     Mem ''sleep_max'' t_u64,
     Mem ''sum_sleep_runtime'' t_s64,
     Mem ''block_start'' t_u64,
     Mem ''block_max'' t_u64,
     Mem ''sum_block_runtime'' t_s64,
     Mem ''exec_max'' t_s64,
     Mem ''slice_max'' t_u64,
     Mem ''nr_migrations_cold'' t_u64,
     Mem ''nr_failed_migrations_affine'' t_u64,
     Mem ''nr_failed_migrations_running'' t_u64,
     Mem ''nr_failed_migrations_hot'' t_u64,
     Mem ''nr_forced_migrations'' t_u64,
     Mem ''nr_wakeups'' t_u64,
     Mem ''nr_wakeups_sync'' t_u64,
     Mem ''nr_wakeups_migrate'' t_u64,
     Mem ''nr_wakeups_local'' t_u64,
     Mem ''nr_wakeups_remote'' t_u64,
     Mem ''nr_wakeups_affine'' t_u64,
     Mem ''nr_wakeups_affine_attempts'' t_u64,
     Mem ''nr_wakeups_passive'' t_u64,
     Mem ''nr_wakeups_idle'' t_u64,
     Mem ''core_forceidle_sum'' t_u64,
     Bit '''' (Prim Clong) 64,
     Bit '''' (Prim Clong) 64,
     Bit '''' (Prim Clong) 64]"

lemma meas_struct_sched_statistics [simp]: "meas struct_sched_statistics = (256, 8)"
  by (simp add: struct_sched_statistics_def layout_eval)

definition struct_hlist_head :: cty where
  "struct_hlist_head = Struct False
    [Mem ''first'' (Ptr ''struct hlist_node'')]"

lemma meas_struct_hlist_head [simp]: "meas struct_hlist_head = (8, 8)"
  by (simp add: struct_hlist_head_def layout_eval)

definition struct_cpumask :: cty where
  "struct_cpumask = Struct False
    [Mem ''bits'' (Arr 128 (Prim Culong))]"

lemma meas_struct_cpumask [simp]: "meas struct_cpumask = (1024, 8)"
  by (simp add: struct_cpumask_def layout_eval)

definition t_cpumask_t :: cty where
  "t_cpumask_t = struct_cpumask"

lemma meas_t_cpumask_t [simp]: "meas t_cpumask_t = (1024, 8)"
  by (simp add: t_cpumask_t_def layout_eval)

definition union_rcu_special :: cty where
  "union_rcu_special = Union False
    [Mem ''b'' (Struct False
       [Mem ''blocked'' t_u8,
        Mem ''need_qs'' t_u8,
        Mem ''exp_hint'' t_u8,
        Mem ''need_mb'' t_u8]),
     Mem ''s'' t_u32]"

lemma meas_union_rcu_special [simp]: "meas union_rcu_special = (4, 4)"
  by (simp add: union_rcu_special_def layout_eval)

definition struct_sched_info :: cty where
  "struct_sched_info = Struct False
    [Mem ''pcount'' (Prim Culong),
     Mem ''run_delay'' (Prim Cullong),
     Mem ''max_run_delay'' (Prim Cullong),
     Mem ''min_run_delay'' (Prim Cullong),
     Mem ''last_arrival'' (Prim Cullong),
     Mem ''last_queued'' (Prim Cullong)]"

lemma meas_struct_sched_info [simp]: "meas struct_sched_info = (48, 8)"
  by (simp add: struct_sched_info_def layout_eval)

definition struct_plist_node :: cty where
  "struct_plist_node = Struct False
    [Mem ''prio'' (Prim Cint),
     Mem ''prio_list'' struct_list_head,
     Mem ''node_list'' struct_list_head]"

lemma meas_struct_plist_node [simp]: "meas struct_plist_node = (40, 8)"
  by (simp add: struct_plist_node_def layout_eval)

definition t___kernel_clockid_t :: cty where
  "t___kernel_clockid_t = Prim Cint"

lemma meas_t___kernel_clockid_t [simp]: "meas t___kernel_clockid_t = (4, 4)"
  by (simp add: t___kernel_clockid_t_def layout_eval)

definition t_clockid_t :: cty where
  "t_clockid_t = t___kernel_clockid_t"

lemma meas_t_clockid_t [simp]: "meas t_clockid_t = (4, 4)"
  by (simp add: t_clockid_t_def layout_eval)

definition enum_timespec_type :: cenum where
  "enum_timespec_type =
    \<lparr>en_prim = Cuint, en_values =
      [(''TT_NONE'', 0),
       (''TT_NATIVE'', 1),
       (''TT_COMPAT'', 2)]\<rparr>"

lemma en_prim_enum_timespec_type [simp]: "en_prim enum_timespec_type = Cuint"
  by (simp add: enum_timespec_type_def)

definition struct_restart_block :: cty where
  "struct_restart_block = Struct False
    [Mem ''arch_data'' (Prim Culong),
     Mem ''fn'' FunPtr,
     Mem '''' (Union False
       [Mem ''futex'' (Struct False
          [Mem ''uaddr'' (Ptr ''u32''),
           Mem ''val'' t_u32,
           Mem ''flags'' t_u32,
           Mem ''bitset'' t_u32,
           Mem ''time'' t_u64,
           Mem ''uaddr2'' (Ptr ''u32'')]),
        Mem ''nanosleep'' (Struct False
          [Mem ''clockid'' t_clockid_t,
           Mem ''type'' (Enum enum_timespec_type),
           Mem '''' (Union False
             [Mem ''rmtp'' (Ptr ''struct __kernel_timespec''),
              Mem ''compat_rmtp'' (Ptr ''struct old_timespec32'')]),
           Mem ''expires'' t_u64]),
        Mem ''poll'' (Struct False
          [Mem ''ufds'' (Ptr ''struct pollfd''),
           Mem ''nfds'' (Prim Cint),
           Mem ''has_timeout'' (Prim Cint),
           Mem ''tv_sec'' (Prim Culong),
           Mem ''tv_nsec'' (Prim Culong)])])]"

lemma meas_struct_restart_block [simp]: "meas struct_restart_block = (56, 8)"
  by (simp add: struct_restart_block_def layout_eval)

definition struct_prev_cputime :: cty where
  "struct_prev_cputime = Struct False
    [Mem ''utime'' t_u64,
     Mem ''stime'' t_u64,
     Mem ''lock'' t_raw_spinlock_t]"

lemma meas_struct_prev_cputime [simp]: "meas struct_prev_cputime = (24, 8)"
  by (simp add: struct_prev_cputime_def layout_eval)

definition struct_seqcount :: cty where
  "struct_seqcount = Struct False
    [Mem ''sequence'' (Prim Cuint)]"

lemma meas_struct_seqcount [simp]: "meas struct_seqcount = (4, 4)"
  by (simp add: struct_seqcount_def layout_eval)

definition t_seqcount_t :: cty where
  "t_seqcount_t = struct_seqcount"

lemma meas_t_seqcount_t [simp]: "meas t_seqcount_t = (4, 4)"
  by (simp add: t_seqcount_t_def layout_eval)

definition enum_vtime_state :: cenum where
  "enum_vtime_state =
    \<lparr>en_prim = Cuint, en_values =
      [(''VTIME_INACTIVE'', 0),
       (''VTIME_IDLE'', 1),
       (''VTIME_SYS'', 2),
       (''VTIME_USER'', 3),
       (''VTIME_GUEST'', 4)]\<rparr>"

lemma en_prim_enum_vtime_state [simp]: "en_prim enum_vtime_state = Cuint"
  by (simp add: enum_vtime_state_def)

definition struct_vtime :: cty where
  "struct_vtime = Struct False
    [Mem ''seqcount'' t_seqcount_t,
     Mem ''starttime'' (Prim Cullong),
     Mem ''state'' (Enum enum_vtime_state),
     Mem ''cpu'' (Prim Cuint),
     Mem ''utime'' t_u64,
     Mem ''stime'' t_u64,
     Mem ''gtime'' t_u64]"

lemma meas_struct_vtime [simp]: "meas struct_vtime = (48, 8)"
  by (simp add: struct_vtime_def layout_eval)

definition struct_rb_root :: cty where
  "struct_rb_root = Struct False
    [Mem ''rb_node'' (Ptr ''struct rb_node'')]"

lemma meas_struct_rb_root [simp]: "meas struct_rb_root = (8, 8)"
  by (simp add: struct_rb_root_def layout_eval)

definition struct_rb_root_cached :: cty where
  "struct_rb_root_cached = Struct False
    [Mem ''rb_root'' struct_rb_root,
     Mem ''rb_leftmost'' (Ptr ''struct rb_node'')]"

lemma meas_struct_rb_root_cached [simp]: "meas struct_rb_root_cached = (16, 8)"
  by (simp add: struct_rb_root_cached_def layout_eval)

definition struct_timerqueue_head :: cty where
  "struct_timerqueue_head = Struct False
    [Mem ''rb_root'' struct_rb_root_cached]"

lemma meas_struct_timerqueue_head [simp]: "meas struct_timerqueue_head = (16, 8)"
  by (simp add: struct_timerqueue_head_def layout_eval)

definition struct_posix_cputimer_base :: cty where
  "struct_posix_cputimer_base = Struct False
    [Mem ''nextevt'' t_u64,
     Mem ''tqhead'' struct_timerqueue_head]"

lemma meas_struct_posix_cputimer_base [simp]: "meas struct_posix_cputimer_base = (24, 8)"
  by (simp add: struct_posix_cputimer_base_def layout_eval)

definition struct_posix_cputimers :: cty where
  "struct_posix_cputimers = Struct False
    [Mem ''bases'' (Arr 3 struct_posix_cputimer_base),
     Mem ''timers_active'' (Prim Cuint),
     Mem ''expiry_active'' (Prim Cuint)]"

lemma meas_struct_posix_cputimers [simp]: "meas struct_posix_cputimers = (80, 8)"
  by (simp add: struct_posix_cputimers_def layout_eval)

definition struct_posix_cputimers_work :: cty where
  "struct_posix_cputimers_work = Struct False
    [Mem ''work'' struct_callback_head,
     Mem ''mutex'' struct_mutex,
     Mem ''scheduled'' (Prim Cuint)]"

lemma meas_struct_posix_cputimers_work [simp]: "meas struct_posix_cputimers_work = (56, 8)"
  by (simp add: struct_posix_cputimers_work_def layout_eval)

definition struct_sysv_sem :: cty where
  "struct_sysv_sem = Struct False
    [Mem ''undo_list'' (Ptr ''struct sem_undo_list'')]"

lemma meas_struct_sysv_sem [simp]: "meas struct_sysv_sem = (8, 8)"
  by (simp add: struct_sysv_sem_def layout_eval)

definition struct_sysv_shm :: cty where
  "struct_sysv_shm = Struct False
    [Mem ''shm_clist'' struct_list_head]"

lemma meas_struct_sysv_shm [simp]: "meas struct_sysv_shm = (16, 8)"
  by (simp add: struct_sysv_shm_def layout_eval)

definition t_sigset_t :: cty where
  "t_sigset_t = Struct False
    [Mem ''sig'' (Arr 1 (Prim Culong))]"

lemma meas_t_sigset_t [simp]: "meas t_sigset_t = (8, 8)"
  by (simp add: t_sigset_t_def layout_eval)

definition struct_sigpending :: cty where
  "struct_sigpending = Struct False
    [Mem ''list'' struct_list_head,
     Mem ''signal'' t_sigset_t]"

lemma meas_struct_sigpending [simp]: "meas struct_sigpending = (24, 8)"
  by (simp add: struct_sigpending_def layout_eval)

definition t_size_t :: cty where
  "t_size_t = t___kernel_size_t"

lemma meas_t_size_t [simp]: "meas t_size_t = (8, 8)"
  by (simp add: t_size_t_def layout_eval)

definition t___kernel_uid32_t :: cty where
  "t___kernel_uid32_t = Prim Cuint"

lemma meas_t___kernel_uid32_t [simp]: "meas t___kernel_uid32_t = (4, 4)"
  by (simp add: t___kernel_uid32_t_def layout_eval)

definition t_uid_t :: cty where
  "t_uid_t = t___kernel_uid32_t"

lemma meas_t_uid_t [simp]: "meas t_uid_t = (4, 4)"
  by (simp add: t_uid_t_def layout_eval)

definition t_kuid_t :: cty where
  "t_kuid_t = Struct False
    [Mem ''val'' t_uid_t]"

lemma meas_t_kuid_t [simp]: "meas t_kuid_t = (4, 4)"
  by (simp add: t_kuid_t_def layout_eval)

definition struct_seccomp :: cty where
  "struct_seccomp = Struct False
    [Mem ''mode'' (Prim Cint),
     Mem ''filter_count'' t_atomic_t,
     Mem ''filter'' (Ptr ''struct seccomp_filter'')]"

lemma meas_struct_seccomp [simp]: "meas struct_seccomp = (16, 8)"
  by (simp add: struct_seccomp_def layout_eval)

definition struct_syscall_user_dispatch :: cty where
  "struct_syscall_user_dispatch = Struct False
    [Mem ''selector'' (Ptr ''char''),
     Mem ''offset'' (Prim Culong),
     Mem ''len'' (Prim Culong),
     Mem ''on_dispatch'' t_bool]"

lemma meas_struct_syscall_user_dispatch [simp]: "meas struct_syscall_user_dispatch = (32, 8)"
  by (simp add: struct_syscall_user_dispatch_def layout_eval)

definition struct_wake_q_node :: cty where
  "struct_wake_q_node = Struct False
    [Mem ''next'' (Ptr ''struct wake_q_node'')]"

lemma meas_struct_wake_q_node [simp]: "meas struct_wake_q_node = (8, 8)"
  by (simp add: struct_wake_q_node_def layout_eval)

definition struct_task_io_accounting :: cty where
  "struct_task_io_accounting = Struct False
    [Mem ''rchar'' t_u64,
     Mem ''wchar'' t_u64,
     Mem ''syscr'' t_u64,
     Mem ''syscw'' t_u64,
     Mem ''read_bytes'' t_u64,
     Mem ''write_bytes'' t_u64,
     Mem ''cancelled_write_bytes'' t_u64]"

lemma meas_struct_task_io_accounting [simp]: "meas struct_task_io_accounting = (56, 8)"
  by (simp add: struct_task_io_accounting_def layout_eval)

definition t_nodemask_t :: cty where
  "t_nodemask_t = Struct False
    [Mem ''bits'' (Arr 16 (Prim Culong))]"

lemma meas_t_nodemask_t [simp]: "meas t_nodemask_t = (128, 8)"
  by (simp add: t_nodemask_t_def layout_eval)

definition struct_seqcount_spinlock :: cty where
  "struct_seqcount_spinlock = Struct False
    [Mem ''seqcount'' t_seqcount_t]"

lemma meas_struct_seqcount_spinlock [simp]: "meas struct_seqcount_spinlock = (4, 4)"
  by (simp add: struct_seqcount_spinlock_def layout_eval)

definition t_seqcount_spinlock_t :: cty where
  "t_seqcount_spinlock_t = struct_seqcount_spinlock"

lemma meas_t_seqcount_spinlock_t [simp]: "meas t_seqcount_spinlock_t = (4, 4)"
  by (simp add: t_seqcount_spinlock_t_def layout_eval)

definition struct_arch_tlbflush_unmap_batch :: cty where
  "struct_arch_tlbflush_unmap_batch = Struct False
    [Mem ''cpumask'' struct_cpumask,
     Mem ''unmapped_pages'' t_bool]"

lemma meas_struct_arch_tlbflush_unmap_batch [simp]: "meas struct_arch_tlbflush_unmap_batch = (1032, 8)"
  by (simp add: struct_arch_tlbflush_unmap_batch_def layout_eval)

definition struct_tlbflush_unmap_batch :: cty where
  "struct_tlbflush_unmap_batch = Struct False
    [Mem ''arch'' struct_arch_tlbflush_unmap_batch,
     Mem ''flush_required'' t_bool,
     Mem ''writable'' t_bool]"

lemma meas_struct_tlbflush_unmap_batch [simp]: "meas struct_tlbflush_unmap_batch = (1040, 8)"
  by (simp add: struct_tlbflush_unmap_batch_def layout_eval)

definition struct_page_frag :: cty where
  "struct_page_frag = Struct False
    [Mem ''page'' (Ptr ''struct page''),
     Mem ''offset'' t___u32,
     Mem ''size'' t___u32]"

lemma meas_struct_page_frag [simp]: "meas struct_page_frag = (16, 8)"
  by (simp add: struct_page_frag_def layout_eval)

definition struct_latency_record :: cty where
  "struct_latency_record = Struct False
    [Mem ''backtrace'' (Arr 12 (Prim Culong)),
     Mem ''count'' (Prim Cuint),
     Mem ''time'' (Prim Culong),
     Mem ''max'' (Prim Culong)]"

lemma meas_struct_latency_record [simp]: "meas struct_latency_record = (120, 8)"
  by (simp add: struct_latency_record_def layout_eval)

definition struct_kmap_ctrl :: cty where
  "struct_kmap_ctrl = Struct False
    []"

lemma meas_struct_kmap_ctrl [simp]: "meas struct_kmap_ctrl = (0, 1)"
  by (simp add: struct_kmap_ctrl_def layout_eval)

definition struct_timer_list :: cty where
  "struct_timer_list = Struct False
    [Mem ''entry'' struct_hlist_node,
     Mem ''expires'' (Prim Culong),
     Mem ''function'' FunPtr,
     Mem ''flags'' t_u32]"

lemma meas_struct_timer_list [simp]: "meas struct_timer_list = (40, 8)"
  by (simp add: struct_timer_list_def layout_eval)

definition struct_da_monitor :: cty where
  "struct_da_monitor = Struct False
    [Mem ''monitoring'' t_bool,
     Mem ''curr_state'' (Prim Cuint)]"

lemma meas_struct_da_monitor [simp]: "meas struct_da_monitor = (8, 4)"
  by (simp add: struct_da_monitor_def layout_eval)

definition struct_ltl_monitor :: cty where
  "struct_ltl_monitor = Struct False
    []"

lemma meas_struct_ltl_monitor [simp]: "meas struct_ltl_monitor = (0, 1)"
  by (simp add: struct_ltl_monitor_def layout_eval)

definition union_rv_task_monitor :: cty where
  "union_rv_task_monitor = Union False
    [Mem ''da_mon'' struct_da_monitor,
     Mem ''ltl_mon'' struct_ltl_monitor]"

lemma meas_union_rv_task_monitor [simp]: "meas union_rv_task_monitor = (8, 4)"
  by (simp add: union_rv_task_monitor_def layout_eval)

definition struct_desc_struct :: cty where
  "struct_desc_struct = Struct False
    [Mem ''limit0'' t_u16,
     Mem ''base0'' t_u16,
     Bit ''base1'' t_u16 8,
     Bit ''type'' t_u16 4,
     Bit ''s'' t_u16 1,
     Bit ''dpl'' t_u16 2,
     Bit ''p'' t_u16 1,
     Bit ''limit1'' t_u16 4,
     Bit ''avl'' t_u16 1,
     Bit ''l'' t_u16 1,
     Bit ''d'' t_u16 1,
     Bit ''g'' t_u16 1,
     Bit ''base2'' t_u16 8]"

lemma meas_struct_desc_struct [simp]: "meas struct_desc_struct = (8, 2)"
  by (simp add: struct_desc_struct_def layout_eval)

definition struct_thread_shstk :: cty where
  "struct_thread_shstk = Struct False
    [Mem ''base'' t_u64,
     Mem ''size'' t_u64]"

lemma meas_struct_thread_shstk [simp]: "meas struct_thread_shstk = (16, 8)"
  by (simp add: struct_thread_shstk_def layout_eval)

definition struct_thread_struct :: cty where
  "struct_thread_struct = Struct False
    [Mem ''tls_array'' (Arr 3 struct_desc_struct),
     Mem ''sp'' (Prim Culong),
     Mem ''es'' (Prim Cushort),
     Mem ''ds'' (Prim Cushort),
     Mem ''fsindex'' (Prim Cushort),
     Mem ''gsindex'' (Prim Cushort),
     Mem ''fsbase'' (Prim Culong),
     Mem ''gsbase'' (Prim Culong),
     Mem ''ptrace_bps'' (Arr 4 (Ptr ''struct perf_event'')),
     Mem ''virtual_dr6'' (Prim Culong),
     Mem ''ptrace_dr7'' (Prim Culong),
     Mem ''cr2'' (Prim Culong),
     Mem ''trap_nr'' (Prim Culong),
     Mem ''error_code'' (Prim Culong),
     Mem ''io_bitmap'' (Ptr ''struct io_bitmap''),
     Mem ''iopl_emul'' (Prim Culong),
     Bit ''iopl_warn'' (Prim Cuint) 1,
     Mem ''pkru'' t_u32,
     Mem ''features'' (Prim Culong),
     Mem ''features_locked'' (Prim Culong),
     Mem ''shstk'' struct_thread_shstk]"

lemma meas_struct_thread_struct [simp]: "meas struct_thread_struct = (184, 8)"
  by (simp add: struct_thread_struct_def layout_eval)

definition struct_task_struct :: cty where
  "struct_task_struct = Struct False
    [Mem ''thread_info'' struct_thread_info,
     Mem ''__state'' (Prim Cuint),
     Mem ''saved_state'' (Prim Cuint),
     Mem ''stack'' (Ptr ''void''),
     Mem ''usage'' t_refcount_t,
     Mem ''flags'' (Prim Cuint),
     Mem ''ptrace'' (Prim Cuint),
     Mem ''on_cpu'' (Prim Cint),
     Mem ''wake_entry'' struct___call_single_node,
     Mem ''wakee_flips'' (Prim Cuint),
     Mem ''wakee_flip_decay_ts'' (Prim Culong),
     Mem ''last_wakee'' (Ptr ''struct task_struct''),
     Mem ''recent_used_cpu'' (Prim Cint),
     Mem ''wake_cpu'' (Prim Cint),
     Mem ''on_rq'' (Prim Cint),
     Mem ''prio'' (Prim Cint),
     Mem ''static_prio'' (Prim Cint),
     Mem ''normal_prio'' (Prim Cint),
     Mem ''rt_priority'' (Prim Cuint),
     Mem ''se'' struct_sched_entity,
     Mem ''rt'' struct_sched_rt_entity,
     Mem ''dl'' struct_sched_dl_entity,
     Mem ''dl_server'' (Ptr ''struct sched_dl_entity''),
     Mem ''scx'' struct_sched_ext_entity,
     Mem ''sched_class'' (Ptr ''struct sched_class''),
     Mem ''core_node'' struct_rb_node,
     Mem ''core_cookie'' (Prim Culong),
     Mem ''core_occupation'' (Prim Cuint),
     Mem ''sched_task_group'' (Ptr ''struct task_group''),
     Mem ''uclamp_req'' (Arr 2 struct_uclamp_se),
     Mem ''uclamp'' (Arr 2 struct_uclamp_se),
     Mem ''stats'' struct_sched_statistics,
     Mem ''preempt_notifiers'' struct_hlist_head,
     Mem ''btrace_seq'' (Prim Cuint),
     Mem ''policy'' (Prim Cuint),
     Mem ''max_allowed_capacity'' (Prim Culong),
     Mem ''nr_cpus_allowed'' (Prim Cint),
     Mem ''cpus_ptr'' (Ptr ''cpumask_t''),
     Mem ''user_cpus_ptr'' (Ptr ''cpumask_t''),
     Mem ''cpus_mask'' t_cpumask_t,
     Mem ''migration_pending'' (Ptr ''void''),
     Mem ''migration_disabled'' (Prim Cushort),
     Mem ''migration_flags'' (Prim Cushort),
     Mem ''rcu_read_lock_nesting'' (Prim Cint),
     Mem ''rcu_read_unlock_special'' union_rcu_special,
     Mem ''rcu_node_entry'' struct_list_head,
     Mem ''rcu_blocked_node'' (Ptr ''struct rcu_node''),
     Mem ''rcu_tasks_nvcsw'' (Prim Culong),
     Mem ''rcu_tasks_holdout'' t_u8,
     Mem ''rcu_tasks_idx'' t_u8,
     Mem ''rcu_tasks_idle_cpu'' (Prim Cint),
     Mem ''rcu_tasks_holdout_list'' struct_list_head,
     Mem ''rcu_tasks_exit_cpu'' (Prim Cint),
     Mem ''rcu_tasks_exit_list'' struct_list_head,
     Mem ''trc_reader_nesting'' (Prim Cint),
     Mem ''trc_ipi_to_cpu'' (Prim Cint),
     Mem ''trc_reader_special'' union_rcu_special,
     Mem ''trc_holdout_list'' struct_list_head,
     Mem ''trc_blkd_node'' struct_list_head,
     Mem ''trc_blkd_cpu'' (Prim Cint),
     Mem ''sched_info'' struct_sched_info,
     Mem ''tasks'' struct_list_head,
     Mem ''pushable_tasks'' struct_plist_node,
     Mem ''pushable_dl_tasks'' struct_rb_node,
     Mem ''mm'' (Ptr ''struct mm_struct''),
     Mem ''active_mm'' (Ptr ''struct mm_struct''),
     Mem ''faults_disabled_mapping'' (Ptr ''struct address_space''),
     Mem ''exit_state'' (Prim Cint),
     Mem ''exit_code'' (Prim Cint),
     Mem ''exit_signal'' (Prim Cint),
     Mem ''pdeath_signal'' (Prim Cint),
     Mem ''jobctl'' (Prim Culong),
     Mem ''personality'' (Prim Cuint),
     Bit ''sched_reset_on_fork'' (Prim Cuint) 1,
     Bit ''sched_contributes_to_load'' (Prim Cuint) 1,
     Bit ''sched_migrated'' (Prim Cuint) 1,
     Bit ''sched_task_hot'' (Prim Cuint) 1,
     Bit '''' (Prim Clong) 28,
     Bit ''sched_remote_wakeup'' (Prim Cuint) 1,
     Bit ''sched_rt_mutex'' (Prim Cuint) 1,
     Bit ''user_dumpable'' (Prim Cuint) 1,
     Bit ''in_execve'' (Prim Cuint) 1,
     Bit ''in_iowait'' (Prim Cuint) 1,
     Bit ''restore_sigmask'' (Prim Cuint) 1,
     Bit ''in_lru_fault'' (Prim Cuint) 1,
     Bit ''no_cgroup_migration'' (Prim Cuint) 1,
     Bit ''frozen'' (Prim Cuint) 1,
     Bit ''use_memdelay'' (Prim Cuint) 1,
     Bit ''in_memstall'' (Prim Cuint) 1,
     Bit ''in_eventfd'' (Prim Cuint) 1,
     Bit ''pasid_activated'' (Prim Cuint) 1,
     Bit ''reported_split_lock'' (Prim Cuint) 1,
     Bit ''in_thrashing'' (Prim Cuint) 1,
     Bit ''in_nf_duplicate'' (Prim Cuint) 1,
     Mem ''atomic_flags'' (Prim Culong),
     Mem ''restart_block'' struct_restart_block,
     Mem ''pid'' t_pid_t,
     Mem ''tgid'' t_pid_t,
     Mem ''stack_canary'' (Prim Culong),
     Mem ''real_parent'' (Ptr ''struct task_struct''),
     Mem ''parent'' (Ptr ''struct task_struct''),
     Mem ''children'' struct_list_head,
     Mem ''sibling'' struct_list_head,
     Mem ''group_leader'' (Ptr ''struct task_struct''),
     Mem ''ptraced'' struct_list_head,
     Mem ''ptrace_entry'' struct_list_head,
     Mem ''thread_pid'' (Ptr ''struct pid''),
     Mem ''pid_links'' (Arr 4 struct_hlist_node),
     Mem ''thread_node'' struct_list_head,
     Mem ''vfork_done'' (Ptr ''struct completion''),
     Mem ''set_child_tid'' (Ptr ''int''),
     Mem ''clear_child_tid'' (Ptr ''int''),
     Mem ''worker_private'' (Ptr ''void''),
     Mem ''utime'' t_u64,
     Mem ''stime'' t_u64,
     Mem ''gtime'' t_u64,
     Mem ''prev_cputime'' struct_prev_cputime,
     Mem ''vtime'' struct_vtime,
     Mem ''tick_dep_mask'' t_atomic_t,
     Mem ''nvcsw'' (Prim Culong),
     Mem ''nivcsw'' (Prim Culong),
     Mem ''start_time'' t_u64,
     Mem ''start_boottime'' t_u64,
     Mem ''min_flt'' (Prim Culong),
     Mem ''maj_flt'' (Prim Culong),
     Mem ''posix_cputimers'' struct_posix_cputimers,
     Mem ''posix_cputimers_work'' struct_posix_cputimers_work,
     Mem ''ptracer_cred'' (Ptr ''struct cred''),
     Mem ''real_cred'' (Ptr ''struct cred''),
     Mem ''cred'' (Ptr ''struct cred''),
     Mem ''cached_requested_key'' (Ptr ''struct key''),
     Mem ''comm'' (Arr 16 (Prim Cchar)),
     Mem ''nameidata'' (Ptr ''struct nameidata''),
     Mem ''sysvsem'' struct_sysv_sem,
     Mem ''sysvshm'' struct_sysv_shm,
     Mem ''last_switch_count'' (Prim Culong),
     Mem ''last_switch_time'' (Prim Culong),
     Mem ''fs'' (Ptr ''struct fs_struct''),
     Mem ''files'' (Ptr ''struct files_struct''),
     Mem ''io_uring'' (Ptr ''struct io_uring_task''),
     Mem ''nsproxy'' (Ptr ''struct nsproxy''),
     Mem ''signal'' (Ptr ''struct signal_struct''),
     Mem ''sighand'' (Ptr ''struct sighand_struct''),
     Mem ''blocked'' t_sigset_t,
     Mem ''real_blocked'' t_sigset_t,
     Mem ''saved_sigmask'' t_sigset_t,
     Mem ''pending'' struct_sigpending,
     Mem ''sas_ss_sp'' (Prim Culong),
     Mem ''sas_ss_size'' t_size_t,
     Mem ''sas_ss_flags'' (Prim Cuint),
     Mem ''task_works'' (Ptr ''struct callback_head''),
     Mem ''audit_context'' (Ptr ''struct audit_context''),
     Mem ''loginuid'' t_kuid_t,
     Mem ''sessionid'' (Prim Cuint),
     Mem ''seccomp'' struct_seccomp,
     Mem ''syscall_dispatch'' struct_syscall_user_dispatch,
     Mem ''parent_exec_id'' t_u64,
     Mem ''self_exec_id'' t_u64,
     Mem ''alloc_lock'' t_spinlock_t,
     Mem ''pi_lock'' t_raw_spinlock_t,
     Mem ''wake_q'' struct_wake_q_node,
     Mem ''pi_waiters'' struct_rb_root_cached,
     Mem ''pi_top_task'' (Ptr ''struct task_struct''),
     Mem ''pi_blocked_on'' (Ptr ''struct rt_mutex_waiter''),
     Mem ''blocked_on'' (Ptr ''struct mutex''),
     Mem ''blocker'' (Prim Culong),
     Mem ''in_ubsan'' (Prim Cuint),
     Mem ''journal_info'' (Ptr ''void''),
     Mem ''bio_list'' (Ptr ''struct bio_list''),
     Mem ''plug'' (Ptr ''struct blk_plug''),
     Mem ''reclaim_state'' (Ptr ''struct reclaim_state''),
     Mem ''io_context'' (Ptr ''struct io_context''),
     Mem ''capture_control'' (Ptr ''struct capture_control''),
     Mem ''ptrace_message'' (Prim Culong),
     Mem ''last_siginfo'' (Ptr ''kernel_siginfo_t''),
     Mem ''ioac'' struct_task_io_accounting,
     Mem ''psi_flags'' (Prim Cuint),
     Mem ''acct_rss_mem1'' t_u64,
     Mem ''acct_vm_mem1'' t_u64,
     Mem ''acct_timexpd'' t_u64,
     Mem ''mems_allowed'' t_nodemask_t,
     Mem ''mems_allowed_seq'' t_seqcount_spinlock_t,
     Mem ''cpuset_mem_spread_rotor'' (Prim Cint),
     Mem ''cgroups'' (Ptr ''struct css_set''),
     Mem ''cg_list'' struct_list_head,
     Mem ''closid'' t_u32,
     Mem ''rmid'' t_u32,
     Mem ''robust_list'' (Ptr ''struct robust_list_head''),
     Mem ''compat_robust_list'' (Ptr ''struct compat_robust_list_head''),
     Mem ''pi_state_list'' struct_list_head,
     Mem ''pi_state_cache'' (Ptr ''struct futex_pi_state''),
     Mem ''futex_exit_mutex'' struct_mutex,
     Mem ''futex_state'' (Prim Cuint),
     Mem ''perf_recursion'' (Arr 4 t_u8),
     Mem ''perf_event_ctxp'' (Ptr ''struct perf_event_context''),
     Mem ''perf_event_mutex'' struct_mutex,
     Mem ''perf_event_list'' struct_list_head,
     Mem ''perf_ctx_data'' (Ptr ''struct perf_ctx_data''),
     Mem ''mempolicy'' (Ptr ''struct mempolicy''),
     Mem ''il_prev'' (Prim Cshort),
     Mem ''il_weight'' t_u8,
     Mem ''pref_node_fork'' (Prim Cshort),
     Mem ''numa_scan_seq'' (Prim Cint),
     Mem ''numa_scan_period'' (Prim Cuint),
     Mem ''numa_scan_period_max'' (Prim Cuint),
     Mem ''numa_preferred_nid'' (Prim Cint),
     Mem ''numa_migrate_retry'' (Prim Culong),
     Mem ''node_stamp'' t_u64,
     Mem ''last_task_numa_placement'' t_u64,
     Mem ''last_sum_exec_runtime'' t_u64,
     Mem ''numa_work'' struct_callback_head,
     Mem ''numa_group'' (Ptr ''struct numa_group''),
     Mem ''numa_faults'' (Ptr ''long unsigned int''),
     Mem ''total_numa_faults'' (Prim Culong),
     Mem ''numa_faults_locality'' (Arr 3 (Prim Culong)),
     Mem ''numa_pages_migrated'' (Prim Culong),
     Mem ''rseq'' (Ptr ''struct rseq''),
     Mem ''rseq_len'' t_u32,
     Mem ''rseq_sig'' t_u32,
     Mem ''rseq_event_mask'' (Prim Culong),
     Mem ''mm_cid'' (Prim Cint),
     Mem ''last_mm_cid'' (Prim Cint),
     Mem ''migrate_from_cpu'' (Prim Cint),
     Mem ''mm_cid_active'' (Prim Cint),
     Mem ''cid_work'' struct_callback_head,
     Mem ''tlb_ubc'' struct_tlbflush_unmap_batch,
     Mem ''splice_pipe'' (Ptr ''struct pipe_inode_info''),
     Mem ''task_frag'' struct_page_frag,
     Mem ''delays'' (Ptr ''struct task_delay_info''),
     Mem ''nr_dirtied'' (Prim Cint),
     Mem ''nr_dirtied_pause'' (Prim Cint),
     Mem ''dirty_paused_when'' (Prim Culong),
     Mem ''latency_record_count'' (Prim Cint),
     Mem ''latency_record'' (Arr 32 struct_latency_record),
     Mem ''timer_slack_ns'' t_u64,
     Mem ''default_timer_slack_ns'' t_u64,
     Mem ''curr_ret_stack'' (Prim Cint),
     Mem ''curr_ret_depth'' (Prim Cint),
     Mem ''ret_stack'' (Ptr ''long unsigned int''),
     Mem ''ftrace_timestamp'' (Prim Cullong),
     Mem ''ftrace_sleeptime'' (Prim Cullong),
     Mem ''trace_overrun'' t_atomic_t,
     Mem ''tracing_graph_pause'' t_atomic_t,
     Mem ''trace_recursion'' (Prim Culong),
     Mem ''memcg_nr_pages_over_high'' (Prim Cuint),
     Mem ''active_memcg'' (Ptr ''struct mem_cgroup''),
     Mem ''objcg'' (Ptr ''struct obj_cgroup''),
     Mem ''throttle_disk'' (Ptr ''struct gendisk''),
     Mem ''utask'' (Ptr ''struct uprobe_task''),
     Mem ''sequential_io'' (Prim Cuint),
     Mem ''sequential_io_avg'' (Prim Cuint),
     Mem ''kmap_ctrl'' struct_kmap_ctrl,
     Mem ''rcu'' struct_callback_head,
     Mem ''rcu_users'' t_refcount_t,
     Mem ''pagefault_disabled'' (Prim Cint),
     Mem ''oom_reaper_list'' (Ptr ''struct task_struct''),
     Mem ''oom_reaper_timer'' struct_timer_list,
     Mem ''stack_vm_area'' (Ptr ''struct vm_struct''),
     Mem ''stack_refcount'' t_refcount_t,
     Mem ''patch_state'' (Prim Cint),
     Mem ''security'' (Ptr ''void''),
     Mem ''bpf_storage'' (Ptr ''struct bpf_local_storage''),
     Mem ''bpf_ctx'' (Ptr ''struct bpf_run_ctx''),
     Mem ''bpf_net_context'' (Ptr ''struct bpf_net_context''),
     Mem ''mce_vaddr'' (Ptr ''void''),
     Mem ''mce_kflags'' t___u64,
     Mem ''mce_addr'' t_u64,
     Bit ''mce_ripv'' t___u64 1,
     Bit ''mce_whole_page'' t___u64 1,
     Bit ''__mce_reserved'' t___u64 62,
     Mem ''mce_kill_me'' struct_callback_head,
     Mem ''mce_count'' (Prim Cint),
     Mem ''kretprobe_instances'' struct_llist_head,
     Mem ''rethooks'' struct_llist_head,
     Mem ''l1d_flush_kill'' struct_callback_head,
     Mem ''rv'' (Arr 2 union_rv_task_monitor),
     Mem ''user_event_mm'' (Ptr ''struct user_event_mm''),
     Mem ''thread'' struct_thread_struct,
     Bit '''' (Prim Clong) 64,
     Bit '''' (Prim Clong) 64]"

lemma meas_struct_task_struct [simp]: "meas struct_task_struct = (9728, 8)"
  by (simp add: struct_task_struct_def layout_eval)

section \<open>Process identifiers, signals and credentials\<close>

definition struct_upid :: cty where
  "struct_upid = Struct False
    [Mem ''nr'' (Prim Cint),
     Mem ''ns'' (Ptr ''struct pid_namespace'')]"

lemma meas_struct_upid [simp]: "meas struct_upid = (16, 8)"
  by (simp add: struct_upid_def layout_eval)

definition struct_pid :: cty where
  "struct_pid = Struct False
    [Mem ''count'' t_refcount_t,
     Mem ''level'' (Prim Cuint),
     Mem ''lock'' t_spinlock_t,
     Mem '''' (Struct False
       [Mem ''ino'' t_u64,
        Mem ''pidfs_node'' struct_rb_node,
        Mem ''stashed'' (Ptr ''struct dentry''),
        Mem ''attr'' (Ptr ''struct pidfs_attr'')]),
     Mem ''tasks'' (Arr 4 struct_hlist_head),
     Mem ''inodes'' struct_hlist_head,
     Mem ''wait_pidfd'' t_wait_queue_head_t,
     Mem ''rcu'' struct_callback_head,
     Mem ''numbers'' (Arr 0 struct_upid)]"

lemma meas_struct_pid [simp]: "meas struct_pid = (144, 8)"
  by (simp add: struct_pid_def layout_eval)

definition struct_cpu_itimer :: cty where
  "struct_cpu_itimer = Struct False
    [Mem ''expires'' t_u64,
     Mem ''incr'' t_u64]"

lemma meas_struct_cpu_itimer [simp]: "meas struct_cpu_itimer = (16, 8)"
  by (simp add: struct_cpu_itimer_def layout_eval)

definition struct_task_cputime_atomic :: cty where
  "struct_task_cputime_atomic = Struct False
    [Mem ''utime'' t_atomic64_t,
     Mem ''stime'' t_atomic64_t,
     Mem ''sum_exec_runtime'' t_atomic64_t]"

lemma meas_struct_task_cputime_atomic [simp]: "meas struct_task_cputime_atomic = (24, 8)"
  by (simp add: struct_task_cputime_atomic_def layout_eval)

definition struct_thread_group_cputimer :: cty where
  "struct_thread_group_cputimer = Struct False
    [Mem ''cputime_atomic'' struct_task_cputime_atomic]"

lemma meas_struct_thread_group_cputimer [simp]: "meas struct_thread_group_cputimer = (24, 8)"
  by (simp add: struct_thread_group_cputimer_def layout_eval)

definition t_seqlock_t :: cty where
  "t_seqlock_t = Struct False
    [Mem ''seqcount'' t_seqcount_spinlock_t,
     Mem ''lock'' t_spinlock_t]"

lemma meas_t_seqlock_t [simp]: "meas t_seqlock_t = (8, 4)"
  by (simp add: t_seqlock_t_def layout_eval)

definition struct_rlimit :: cty where
  "struct_rlimit = Struct False
    [Mem ''rlim_cur'' t___kernel_ulong_t,
     Mem ''rlim_max'' t___kernel_ulong_t]"

lemma meas_struct_rlimit [simp]: "meas struct_rlimit = (16, 8)"
  by (simp add: struct_rlimit_def layout_eval)

definition struct_pacct_struct :: cty where
  "struct_pacct_struct = Struct False
    [Mem ''ac_flag'' (Prim Cint),
     Mem ''ac_exitcode'' (Prim Clong),
     Mem ''ac_mem'' (Prim Culong),
     Mem ''ac_utime'' t_u64,
     Mem ''ac_stime'' t_u64,
     Mem ''ac_minflt'' (Prim Culong),
     Mem ''ac_majflt'' (Prim Culong)]"

lemma meas_struct_pacct_struct [simp]: "meas struct_pacct_struct = (56, 8)"
  by (simp add: struct_pacct_struct_def layout_eval)

definition struct_signal_struct :: cty where
  "struct_signal_struct = Struct False
    [Mem ''sigcnt'' t_refcount_t,
     Mem ''live'' t_atomic_t,
     Mem ''nr_threads'' (Prim Cint),
     Mem ''quick_threads'' (Prim Cint),
     Mem ''thread_head'' struct_list_head,
     Mem ''wait_chldexit'' t_wait_queue_head_t,
     Mem ''curr_target'' (Ptr ''struct task_struct''),
     Mem ''shared_pending'' struct_sigpending,
     Mem ''multiprocess'' struct_hlist_head,
     Mem ''group_exit_code'' (Prim Cint),
     Mem ''notify_count'' (Prim Cint),
     Mem ''group_exec_task'' (Ptr ''struct task_struct''),
     Mem ''group_stop_count'' (Prim Cint),
     Mem ''flags'' (Prim Cuint),
     Mem ''core_state'' (Ptr ''struct core_state''),
     Bit ''is_child_subreaper'' (Prim Cuint) 1,
     Bit ''has_child_subreaper'' (Prim Cuint) 1,
     Bit ''timer_create_restore_ids'' (Prim Cuint) 1,
     Mem ''next_posix_timer_id'' t_atomic_t,
     Mem ''posix_timers'' struct_hlist_head,
     Mem ''ignored_posix_timers'' struct_hlist_head,
     Mem ''real_timer'' struct_hrtimer,
     Mem ''it_real_incr'' t_ktime_t,
     Mem ''it'' (Arr 2 struct_cpu_itimer),
     Mem ''cputimer'' struct_thread_group_cputimer,
     Mem ''posix_cputimers'' struct_posix_cputimers,
     Mem ''pids'' (Arr 4 (Ptr ''struct pid'')),
     Mem ''tick_dep_mask'' t_atomic_t,
     Mem ''tty_old_pgrp'' (Ptr ''struct pid''),
     Mem ''leader'' (Prim Cint),
     Mem ''tty'' (Ptr ''struct tty_struct''),
     Mem ''autogroup'' (Ptr ''struct autogroup''),
     Mem ''stats_lock'' t_seqlock_t,
     Mem ''utime'' t_u64,
     Mem ''stime'' t_u64,
     Mem ''cutime'' t_u64,
     Mem ''cstime'' t_u64,
     Mem ''gtime'' t_u64,
     Mem ''cgtime'' t_u64,
     Mem ''prev_cputime'' struct_prev_cputime,
     Mem ''nvcsw'' (Prim Culong),
     Mem ''nivcsw'' (Prim Culong),
     Mem ''cnvcsw'' (Prim Culong),
     Mem ''cnivcsw'' (Prim Culong),
     Mem ''min_flt'' (Prim Culong),
     Mem ''maj_flt'' (Prim Culong),
     Mem ''cmin_flt'' (Prim Culong),
     Mem ''cmaj_flt'' (Prim Culong),
     Mem ''inblock'' (Prim Culong),
     Mem ''oublock'' (Prim Culong),
     Mem ''cinblock'' (Prim Culong),
     Mem ''coublock'' (Prim Culong),
     Mem ''maxrss'' (Prim Culong),
     Mem ''cmaxrss'' (Prim Culong),
     Mem ''ioac'' struct_task_io_accounting,
     Mem ''sum_sched_runtime'' (Prim Cullong),
     Mem ''rlim'' (Arr 16 struct_rlimit),
     Mem ''pacct'' struct_pacct_struct,
     Mem ''stats'' (Ptr ''struct taskstats''),
     Mem ''audit_tty'' (Prim Cuint),
     Mem ''tty_audit_buf'' (Ptr ''struct tty_audit_buf''),
     Mem ''oom_flag_origin'' t_bool,
     Mem ''oom_score_adj'' (Prim Cshort),
     Mem ''oom_score_adj_min'' (Prim Cshort),
     Mem ''oom_mm'' (Ptr ''struct mm_struct''),
     Mem ''cred_guard_mutex'' struct_mutex,
     Mem ''exec_update_lock'' struct_rw_semaphore]"

lemma meas_struct_signal_struct [simp]: "meas struct_signal_struct = (1112, 8)"
  by (simp add: struct_signal_struct_def layout_eval)

definition t___sighandler_t :: cty where
  "t___sighandler_t = Ptr ''__signalfn_t''"

lemma meas_t___sighandler_t [simp]: "meas t___sighandler_t = (8, 8)"
  by (simp add: t___sighandler_t_def layout_eval)

definition t___sigrestore_t :: cty where
  "t___sigrestore_t = Ptr ''__restorefn_t''"

lemma meas_t___sigrestore_t [simp]: "meas t___sigrestore_t = (8, 8)"
  by (simp add: t___sigrestore_t_def layout_eval)

definition struct_sigaction :: cty where
  "struct_sigaction = Struct False
    [Mem ''sa_handler'' t___sighandler_t,
     Mem ''sa_flags'' (Prim Culong),
     Mem ''sa_restorer'' t___sigrestore_t,
     Mem ''sa_mask'' t_sigset_t]"

lemma meas_struct_sigaction [simp]: "meas struct_sigaction = (32, 8)"
  by (simp add: struct_sigaction_def layout_eval)

definition struct_k_sigaction :: cty where
  "struct_k_sigaction = Struct False
    [Mem ''sa'' struct_sigaction]"

lemma meas_struct_k_sigaction [simp]: "meas struct_k_sigaction = (32, 8)"
  by (simp add: struct_k_sigaction_def layout_eval)

definition struct_sighand_struct :: cty where
  "struct_sighand_struct = Struct False
    [Mem ''siglock'' t_spinlock_t,
     Mem ''count'' t_refcount_t,
     Mem ''signalfd_wqh'' t_wait_queue_head_t,
     Mem ''action'' (Arr 64 struct_k_sigaction)]"

lemma meas_struct_sighand_struct [simp]: "meas struct_sighand_struct = (2080, 8)"
  by (simp add: struct_sighand_struct_def layout_eval)

definition t___kernel_gid32_t :: cty where
  "t___kernel_gid32_t = Prim Cuint"

lemma meas_t___kernel_gid32_t [simp]: "meas t___kernel_gid32_t = (4, 4)"
  by (simp add: t___kernel_gid32_t_def layout_eval)

definition t_gid_t :: cty where
  "t_gid_t = t___kernel_gid32_t"

lemma meas_t_gid_t [simp]: "meas t_gid_t = (4, 4)"
  by (simp add: t_gid_t_def layout_eval)

definition t_kgid_t :: cty where
  "t_kgid_t = Struct False
    [Mem ''val'' t_gid_t]"

lemma meas_t_kgid_t [simp]: "meas t_kgid_t = (4, 4)"
  by (simp add: t_kgid_t_def layout_eval)

definition t_kernel_cap_t :: cty where
  "t_kernel_cap_t = Struct False
    [Mem ''val'' t_u64]"

lemma meas_t_kernel_cap_t [simp]: "meas t_kernel_cap_t = (8, 8)"
  by (simp add: t_kernel_cap_t_def layout_eval)

definition struct_cred :: cty where
  "struct_cred = Struct False
    [Mem ''usage'' t_atomic_long_t,
     Mem ''uid'' t_kuid_t,
     Mem ''gid'' t_kgid_t,
     Mem ''suid'' t_kuid_t,
     Mem ''sgid'' t_kgid_t,
     Mem ''euid'' t_kuid_t,
     Mem ''egid'' t_kgid_t,
     Mem ''fsuid'' t_kuid_t,
     Mem ''fsgid'' t_kgid_t,
     Mem ''securebits'' (Prim Cuint),
     Mem ''cap_inheritable'' t_kernel_cap_t,
     Mem ''cap_permitted'' t_kernel_cap_t,
     Mem ''cap_effective'' t_kernel_cap_t,
     Mem ''cap_bset'' t_kernel_cap_t,
     Mem ''cap_ambient'' t_kernel_cap_t,
     Mem ''jit_keyring'' (Prim Cuchar),
     Mem ''session_keyring'' (Ptr ''struct key''),
     Mem ''process_keyring'' (Ptr ''struct key''),
     Mem ''thread_keyring'' (Ptr ''struct key''),
     Mem ''request_key_auth'' (Ptr ''struct key''),
     Mem ''security'' (Ptr ''void''),
     Mem ''user'' (Ptr ''struct user_struct''),
     Mem ''user_ns'' (Ptr ''struct user_namespace''),
     Mem ''ucounts'' (Ptr ''struct ucounts''),
     Mem ''group_info'' (Ptr ''struct group_info''),
     Mem '''' (Union False
       [Mem ''non_rcu'' (Prim Cint),
        Mem ''rcu'' struct_callback_head])]"

lemma meas_struct_cred [simp]: "meas struct_cred = (184, 8)"
  by (simp add: struct_cred_def layout_eval)

definition struct_nsproxy :: cty where
  "struct_nsproxy = Struct False
    [Mem ''count'' t_refcount_t,
     Mem ''uts_ns'' (Ptr ''struct uts_namespace''),
     Mem ''ipc_ns'' (Ptr ''struct ipc_namespace''),
     Mem ''mnt_ns'' (Ptr ''struct mnt_namespace''),
     Mem ''pid_ns_for_children'' (Ptr ''struct pid_namespace''),
     Mem ''net_ns'' (Ptr ''struct net''),
     Mem ''time_ns'' (Ptr ''struct time_namespace''),
     Mem ''time_ns_for_children'' (Ptr ''struct time_namespace''),
     Mem ''cgroup_ns'' (Ptr ''struct cgroup_namespace'')]"

lemma meas_struct_nsproxy [simp]: "meas struct_nsproxy = (72, 8)"
  by (simp add: struct_nsproxy_def layout_eval)

section \<open>Program images\<close>

definition t_lockdep_map_p :: cty where
  "t_lockdep_map_p = Struct False
    []"

lemma meas_t_lockdep_map_p [simp]: "meas t_lockdep_map_p = (0, 1)"
  by (simp add: t_lockdep_map_p_def layout_eval)

definition struct_maple_tree :: cty where
  "struct_maple_tree = Struct False
    [Mem '''' (Union False
       [Mem ''ma_lock'' t_spinlock_t,
        Mem ''ma_external_lock'' t_lockdep_map_p]),
     Mem ''ma_flags'' (Prim Cuint),
     Mem ''ma_root'' (Ptr ''void'')]"

lemma meas_struct_maple_tree [simp]: "meas struct_maple_tree = (16, 8)"
  by (simp add: struct_maple_tree_def layout_eval)

definition t_vm_flags_t :: cty where
  "t_vm_flags_t = Prim Culong"

lemma meas_t_vm_flags_t [simp]: "meas t_vm_flags_t = (8, 8)"
  by (simp add: t_vm_flags_t_def layout_eval)

definition t_s16 :: cty where
  "t_s16 = t___s16"

lemma meas_t_s16 [simp]: "meas t_s16 = (2, 2)"
  by (simp add: t_s16_def layout_eval)

definition t_mm_context_t :: cty where
  "t_mm_context_t = Struct False
    [Mem ''ctx_id'' t_u64,
     Mem ''tlb_gen'' t_atomic64_t,
     Mem ''next_trim_cpumask'' (Prim Culong),
     Mem ''ldt_usr_sem'' struct_rw_semaphore,
     Mem ''ldt'' (Ptr ''struct ldt_struct''),
     Mem ''flags'' (Prim Culong),
     Mem ''lock'' struct_mutex,
     Mem ''vdso'' (Ptr ''void''),
     Mem ''vdso_image'' (Ptr ''struct vdso_image''),
     Mem ''perf_rdpmc_allowed'' t_atomic_t,
     Mem ''pkey_allocation_map'' t_u16,
     Mem ''execute_only_pkey'' t_s16,
     Mem ''global_asid'' t_u16,
     Mem ''asid_transition'' t_bool]"

lemma meas_t_mm_context_t [simp]: "meas t_mm_context_t = (144, 8)"
  by (simp add: t_mm_context_t_def layout_eval)

definition struct_uprobes_state :: cty where
  "struct_uprobes_state = Struct False
    [Mem ''xol_area'' (Ptr ''struct xol_area'')]"

lemma meas_struct_uprobes_state [simp]: "meas struct_uprobes_state = (8, 8)"
  by (simp add: struct_uprobes_state_def layout_eval)

definition t_mm_id_t :: cty where
  "t_mm_id_t = Prim Cuint"

lemma meas_t_mm_id_t [simp]: "meas t_mm_id_t = (4, 4)"
  by (simp add: t_mm_id_t_def layout_eval)

definition struct_mm_struct :: cty where
  "struct_mm_struct = Struct False
    [Mem '''' (Struct False
       [Mem '''' (Struct False
          ([Mem ''mm_count'' t_atomic_t] @
          replicate 7 (Bit '''' (Prim Clong) 64))),
        Mem ''mm_mt'' struct_maple_tree,
        Mem ''mmap_base'' (Prim Culong),
        Mem ''mmap_legacy_base'' (Prim Culong),
        Mem ''mmap_compat_base'' (Prim Culong),
        Mem ''mmap_compat_legacy_base'' (Prim Culong),
        Mem ''task_size'' (Prim Culong),
        Mem ''pgd'' (Ptr ''pgd_t''),
        Mem ''membarrier_state'' t_atomic_t,
        Mem ''mm_users'' t_atomic_t,
        Mem ''pcpu_cid'' (Ptr ''struct mm_cid''),
        Mem ''mm_cid_next_scan'' (Prim Culong),
        Mem ''nr_cpus_allowed'' (Prim Cuint),
        Mem ''max_nr_cid'' t_atomic_t,
        Mem ''cpus_allowed_lock'' t_raw_spinlock_t,
        Mem ''pgtables_bytes'' t_atomic_long_t,
        Mem ''map_count'' (Prim Cint),
        Mem ''page_table_lock'' t_spinlock_t,
        Mem ''mmap_lock'' struct_rw_semaphore,
        Mem ''mmlist'' struct_list_head,
        Mem ''vma_writer_wait'' struct_rcuwait,
        Mem ''mm_lock_seq'' t_seqcount_t,
        Mem ''futex_hash_lock'' struct_mutex,
        Mem ''futex_phash'' (Ptr ''struct futex_private_hash''),
        Mem ''futex_phash_new'' (Ptr ''struct futex_private_hash''),
        Mem ''futex_batches'' (Prim Culong),
        Mem ''futex_rcu'' struct_callback_head,
        Mem ''futex_atomic'' t_atomic_long_t,
        Mem ''futex_ref'' (Ptr ''unsigned int''),
        Mem ''hiwater_rss'' (Prim Culong),
        Mem ''hiwater_vm'' (Prim Culong),
        Mem ''total_vm'' (Prim Culong),
        Mem ''locked_vm'' (Prim Culong),
        Mem ''pinned_vm'' t_atomic64_t,
        Mem ''data_vm'' (Prim Culong),
        Mem ''exec_vm'' (Prim Culong),
        Mem ''stack_vm'' (Prim Culong),
        Mem ''def_flags'' t_vm_flags_t,
        Mem ''write_protect_seq'' t_seqcount_t,
        Mem ''arg_lock'' t_spinlock_t,
        Mem ''start_code'' (Prim Culong),
        Mem ''end_code'' (Prim Culong),
        Mem ''start_data'' (Prim Culong),
        Mem ''end_data'' (Prim Culong),
        Mem ''start_brk'' (Prim Culong),
        Mem ''brk'' (Prim Culong),
        Mem ''start_stack'' (Prim Culong),
        Mem ''arg_start'' (Prim Culong),
        Mem ''arg_end'' (Prim Culong),
        Mem ''env_start'' (Prim Culong),
        Mem ''env_end'' (Prim Culong),
        Mem ''saved_auxv'' (Arr 52 (Prim Culong)),
        Mem ''rss_stat'' (Arr 4 struct_percpu_counter),
        Mem ''binfmt'' (Ptr ''struct linux_binfmt''),
        Mem ''context'' t_mm_context_t,
        Mem ''flags'' (Prim Culong),
        Mem ''ioctx_lock'' t_spinlock_t,
        Mem ''ioctx_table'' (Ptr ''struct kioctx_table''),
        Mem ''owner'' (Ptr ''struct task_struct''),
        Mem ''user_ns'' (Ptr ''struct user_namespace''),
        Mem ''exe_file'' (Ptr ''struct file''),
        Mem ''notifier_subscriptions'' (Ptr ''struct mmu_notifier_subscriptions''),
        Mem ''numa_next_scan'' (Prim Culong),
        Mem ''numa_scan_offset'' (Prim Culong),
        Mem ''numa_scan_seq'' (Prim Cint),
        Mem ''tlb_flush_pending'' t_atomic_t,
        Mem ''tlb_flush_batched'' t_atomic_t,
        Mem ''uprobes_state'' struct_uprobes_state,
        Mem ''hugetlb_usage'' t_atomic_long_t,
        Mem ''async_put_work'' struct_work_struct,
        Mem ''iommu_mm'' (Ptr ''struct iommu_mm_data''),
        Mem ''ksm_merging_pages'' (Prim Culong),
        Mem ''ksm_rmap_items'' (Prim Culong),
        Mem ''ksm_zero_pages'' t_atomic_long_t,
        Mem ''lru_gen'' (Struct False
          [Mem ''list'' struct_list_head,
           Mem ''bitmap'' (Prim Culong),
           Mem ''memcg'' (Ptr ''struct mem_cgroup'')]),
        Mem ''mm_id'' t_mm_id_t,
        Bit '''' (Prim Clong) 64,
        Bit '''' (Prim Clong) 64,
        Bit '''' (Prim Clong) 64]),
     Mem ''cpu_bitmap'' (Arr 0 (Prim Culong))]"

lemma meas_struct_mm_struct [simp]: "meas struct_mm_struct = (1472, 8)"
  by (simp add: struct_mm_struct_def layout_eval)

definition t_freeptr_t :: cty where
  "t_freeptr_t = Struct False
    [Mem ''v'' (Prim Culong)]"

lemma meas_t_freeptr_t [simp]: "meas t_freeptr_t = (8, 8)"
  by (simp add: t_freeptr_t_def layout_eval)

definition t_pgprotval_t :: cty where
  "t_pgprotval_t = Prim Culong"

lemma meas_t_pgprotval_t [simp]: "meas t_pgprotval_t = (8, 8)"
  by (simp add: t_pgprotval_t_def layout_eval)

definition struct_pgprot :: cty where
  "struct_pgprot = Struct False
    [Mem ''pgprot'' t_pgprotval_t]"

lemma meas_struct_pgprot [simp]: "meas struct_pgprot = (8, 8)"
  by (simp add: struct_pgprot_def layout_eval)

definition t_pgprot_t :: cty where
  "t_pgprot_t = struct_pgprot"

lemma meas_t_pgprot_t [simp]: "meas t_pgprot_t = (8, 8)"
  by (simp add: t_pgprot_t_def layout_eval)

definition struct_vm_userfaultfd_ctx :: cty where
  "struct_vm_userfaultfd_ctx = Struct False
    [Mem ''ctx'' (Ptr ''struct userfaultfd_ctx'')]"

lemma meas_struct_vm_userfaultfd_ctx [simp]: "meas struct_vm_userfaultfd_ctx = (8, 8)"
  by (simp add: struct_vm_userfaultfd_ctx_def layout_eval)

definition struct_vm_area_struct :: cty where
  "struct_vm_area_struct = Struct False
    [Mem '''' (Union False
       [Mem '''' (Struct False
          [Mem ''vm_start'' (Prim Culong),
           Mem ''vm_end'' (Prim Culong)]),
        Mem ''vm_freeptr'' t_freeptr_t]),
     Mem ''vm_mm'' (Ptr ''struct mm_struct''),
     Mem ''vm_page_prot'' t_pgprot_t,
     Mem '''' (Union False
       [Mem ''vm_flags'' t_vm_flags_t,
        Mem ''__vm_flags'' t_vm_flags_t]),
     Mem ''vm_lock_seq'' (Prim Cuint),
     Mem ''anon_vma_chain'' struct_list_head,
     Mem ''anon_vma'' (Ptr ''struct anon_vma''),
     Mem ''vm_ops'' (Ptr ''struct vm_operations_struct''),
     Mem ''vm_pgoff'' (Prim Culong),
     Mem ''vm_file'' (Ptr ''struct file''),
     Mem ''vm_private_data'' (Ptr ''void''),
     Mem ''swap_readahead_info'' t_atomic_long_t,
     Mem ''vm_policy'' (Ptr ''struct mempolicy''),
     Mem ''numab_state'' (Ptr ''struct vma_numab_state''),
     Mem ''vm_refcnt'' t_refcount_t,
     Mem ''shared'' (Struct False
       [Mem ''rb'' struct_rb_node,
        Mem ''rb_subtree_last'' (Prim Culong)]),
     Mem ''anon_name'' (Ptr ''struct anon_vma_name''),
     Mem ''vm_userfaultfd_ctx'' struct_vm_userfaultfd_ctx,
     Mem ''pfnmap_track_ctx'' (Ptr ''struct pfnmap_track_ctx'')]"

lemma meas_struct_vm_area_struct [simp]: "meas struct_vm_area_struct = (192, 8)"
  by (simp add: struct_vm_area_struct_def layout_eval)

definition struct_linux_binprm :: cty where
  "struct_linux_binprm = Struct False
    [Mem ''vma'' (Ptr ''struct vm_area_struct''),
     Mem ''vma_pages'' (Prim Culong),
     Mem ''argmin'' (Prim Culong),
     Mem ''mm'' (Ptr ''struct mm_struct''),
     Mem ''p'' (Prim Culong),
     Bit ''have_execfd'' (Prim Cuint) 1,
     Bit ''execfd_creds'' (Prim Cuint) 1,
     Bit ''secureexec'' (Prim Cuint) 1,
     Bit ''point_of_no_return'' (Prim Cuint) 1,
     Bit ''comm_from_dentry'' (Prim Cuint) 1,
     Bit ''is_check'' (Prim Cuint) 1,
     Mem ''executable'' (Ptr ''struct file''),
     Mem ''interpreter'' (Ptr ''struct file''),
     Mem ''file'' (Ptr ''struct file''),
     Mem ''cred'' (Ptr ''struct cred''),
     Mem ''unsafe'' (Prim Cint),
     Mem ''per_clear'' (Prim Cuint),
     Mem ''argc'' (Prim Cint),
     Mem ''envc'' (Prim Cint),
     Mem ''filename'' (Ptr ''char''),
     Mem ''interp'' (Ptr ''char''),
     Mem ''fdpath'' (Ptr ''char''),
     Mem ''interp_flags'' (Prim Cuint),
     Mem ''execfd'' (Prim Cint),
     Mem ''exec'' (Prim Culong),
     Mem ''rlim_stack'' struct_rlimit,
     Mem ''buf'' (Arr 256 (Prim Cchar))]"

lemma meas_struct_linux_binprm [simp]: "meas struct_linux_binprm = (408, 8)"
  by (simp add: struct_linux_binprm_def layout_eval)

end
