(* ===== verification/Kernel_Net.thy ===== *)
theory Kernel_Net
  imports Kernel_Task
begin

text \<open>
  The declarations of \<open>vmlinux.h\<close> for the sockets whose connections the network probe follows.
\<close>

section \<open>Sockets\<close>

definition t___addrpair :: cty where
  "t___addrpair = t___u64"

lemma meas_t___addrpair [simp]: "meas t___addrpair = (8, 8)"
  by (simp add: t___addrpair_def layout_eval)

definition t___portpair :: cty where
  "t___portpair = t___u32"

lemma meas_t___portpair [simp]: "meas t___portpair = (4, 4)"
  by (simp add: t___portpair_def layout_eval)

definition t_possible_net_t :: cty where
  "t_possible_net_t = Struct False
    [Mem ''net'' (Ptr ''struct net'')]"

lemma meas_t_possible_net_t [simp]: "meas t_possible_net_t = (8, 8)"
  by (simp add: t_possible_net_t_def layout_eval)

definition struct_hlist_nulls_node :: cty where
  "struct_hlist_nulls_node = Struct False
    [Mem ''next'' (Ptr ''struct hlist_nulls_node''),
     Mem ''pprev'' (Ptr ''struct hlist_nulls_node *'')]"

lemma meas_struct_hlist_nulls_node [simp]: "meas struct_hlist_nulls_node = (16, 8)"
  by (simp add: struct_hlist_nulls_node_def layout_eval)

definition struct_sock_common :: cty where
  "struct_sock_common = Struct False
    [Mem '''' (Union False
       [Mem ''skc_addrpair'' t___addrpair,
        Mem '''' (Struct False
          [Mem ''skc_daddr'' t___be32,
           Mem ''skc_rcv_saddr'' t___be32])]),
     Mem '''' (Union False
       [Mem ''skc_hash'' (Prim Cuint),
        Mem ''skc_u16hashes'' (Arr 2 t___u16)]),
     Mem '''' (Union False
       [Mem ''skc_portpair'' t___portpair,
        Mem '''' (Struct False
          [Mem ''skc_dport'' t___be16,
           Mem ''skc_num'' t___u16])]),
     Mem ''skc_family'' (Prim Cushort),
     Mem ''skc_state'' (Prim Cuchar),
     Bit ''skc_reuse'' (Prim Cuchar) 4,
     Bit ''skc_reuseport'' (Prim Cuchar) 1,
     Bit ''skc_ipv6only'' (Prim Cuchar) 1,
     Bit ''skc_net_refcnt'' (Prim Cuchar) 1,
     Mem ''skc_bound_dev_if'' (Prim Cint),
     Mem '''' (Union False
       [Mem ''skc_bind_node'' struct_hlist_node,
        Mem ''skc_portaddr_node'' struct_hlist_node]),
     Mem ''skc_prot'' (Ptr ''struct proto''),
     Mem ''skc_net'' t_possible_net_t,
     Mem ''skc_v6_daddr'' struct_in6_addr,
     Mem ''skc_v6_rcv_saddr'' struct_in6_addr,
     Mem ''skc_cookie'' t_atomic64_t,
     Mem '''' (Union False
       [Mem ''skc_flags'' (Prim Culong),
        Mem ''skc_listener'' (Ptr ''struct sock''),
        Mem ''skc_tw_dr'' (Ptr ''struct inet_timewait_death_row'')]),
     Mem ''skc_dontcopy_begin'' (Arr 0 (Prim Cint)),
     Mem '''' (Union False
       [Mem ''skc_node'' struct_hlist_node,
        Mem ''skc_nulls_node'' struct_hlist_nulls_node]),
     Mem ''skc_tx_queue_mapping'' (Prim Cushort),
     Mem ''skc_rx_queue_mapping'' (Prim Cushort),
     Mem '''' (Union False
       [Mem ''skc_incoming_cpu'' (Prim Cint),
        Mem ''skc_rcv_wnd'' t_u32,
        Mem ''skc_tw_rcv_nxt'' t_u32]),
     Mem ''skc_refcnt'' t_refcount_t,
     Mem ''skc_dontcopy_end'' (Arr 0 (Prim Cint)),
     Mem '''' (Union False
       [Mem ''skc_rxhash'' t_u32,
        Mem ''skc_window_clamp'' t_u32,
        Mem ''skc_tw_snd_nxt'' t_u32])]"

lemma meas_struct_sock_common [simp]: "meas struct_sock_common = (136, 8)"
  by (simp add: struct_sock_common_def layout_eval)

definition struct_sk_buff_list :: cty where
  "struct_sk_buff_list = Struct False
    [Mem ''next'' (Ptr ''struct sk_buff''),
     Mem ''prev'' (Ptr ''struct sk_buff'')]"

lemma meas_struct_sk_buff_list [simp]: "meas struct_sk_buff_list = (16, 8)"
  by (simp add: struct_sk_buff_list_def layout_eval)

definition struct_sk_buff_head :: cty where
  "struct_sk_buff_head = Struct False
    [Mem '''' (Union False
       [Mem '''' (Struct False
          [Mem ''next'' (Ptr ''struct sk_buff''),
           Mem ''prev'' (Ptr ''struct sk_buff'')]),
        Mem ''list'' struct_sk_buff_list]),
     Mem ''qlen'' t___u32,
     Mem ''lock'' t_spinlock_t]"

lemma meas_struct_sk_buff_head [simp]: "meas struct_sk_buff_head = (24, 8)"
  by (simp add: struct_sk_buff_head_def layout_eval)

definition t_socket_lock_t :: cty where
  "t_socket_lock_t = Struct False
    [Mem ''slock'' t_spinlock_t,
     Mem ''owned'' (Prim Cint),
     Mem ''wq'' t_wait_queue_head_t]"

lemma meas_t_socket_lock_t [simp]: "meas t_socket_lock_t = (32, 8)"
  by (simp add: t_socket_lock_t_def layout_eval)

definition t_netdev_features_t :: cty where
  "t_netdev_features_t = t_u64"

lemma meas_t_netdev_features_t [simp]: "meas t_netdev_features_t = (8, 8)"
  by (simp add: t_netdev_features_t_def layout_eval)

definition t_gfp_t :: cty where
  "t_gfp_t = Prim Cuint"

lemma meas_t_gfp_t [simp]: "meas t_gfp_t = (4, 4)"
  by (simp add: t_gfp_t_def layout_eval)

definition struct_qrwlock :: cty where
  "struct_qrwlock = Struct False
    [Mem '''' (Union False
       [Mem ''cnts'' t_atomic_t,
        Mem '''' (Struct False
          [Mem ''wlocked'' t_u8,
           Mem ''__lstate'' (Arr 3 t_u8)])]),
     Mem ''wait_lock'' t_arch_spinlock_t]"

lemma meas_struct_qrwlock [simp]: "meas struct_qrwlock = (8, 4)"
  by (simp add: struct_qrwlock_def layout_eval)

definition t_arch_rwlock_t :: cty where
  "t_arch_rwlock_t = struct_qrwlock"

lemma meas_t_arch_rwlock_t [simp]: "meas t_arch_rwlock_t = (8, 4)"
  by (simp add: t_arch_rwlock_t_def layout_eval)

definition t_rwlock_t :: cty where
  "t_rwlock_t = Struct False
    [Mem ''raw_lock'' t_arch_rwlock_t]"

lemma meas_t_rwlock_t [simp]: "meas t_rwlock_t = (8, 4)"
  by (simp add: t_rwlock_t_def layout_eval)

definition struct_sock_cgroup_data :: cty where
  "struct_sock_cgroup_data = Struct False
    [Mem ''cgroup'' (Ptr ''struct cgroup''),
     Mem ''classid'' t_u32,
     Mem ''prioidx'' t_u16]"

lemma meas_struct_sock_cgroup_data [simp]: "meas struct_sock_cgroup_data = (16, 8)"
  by (simp add: struct_sock_cgroup_data_def layout_eval)

definition t_netns_tracker :: cty where
  "t_netns_tracker = Struct False
    []"

lemma meas_t_netns_tracker [simp]: "meas t_netns_tracker = (0, 1)"
  by (simp add: t_netns_tracker_def layout_eval)

definition struct_xarray :: cty where
  "struct_xarray = Struct False
    [Mem ''xa_lock'' t_spinlock_t,
     Mem ''xa_flags'' t_gfp_t,
     Mem ''xa_head'' (Ptr ''void'')]"

lemma meas_struct_xarray [simp]: "meas struct_xarray = (16, 8)"
  by (simp add: struct_xarray_def layout_eval)

definition struct_sock :: cty where
  "struct_sock = Struct False
    [Mem ''__sk_common'' struct_sock_common,
     Mem ''__cacheline_group_begin__sock_write_rx'' (Arr 0 t___u8),
     Mem ''sk_drops'' t_atomic_t,
     Mem ''sk_peek_off'' t___s32,
     Mem ''sk_error_queue'' struct_sk_buff_head,
     Mem ''sk_receive_queue'' struct_sk_buff_head,
     Mem ''sk_backlog'' (Struct False
       [Mem ''rmem_alloc'' t_atomic_t,
        Mem ''len'' (Prim Cint),
        Mem ''head'' (Ptr ''struct sk_buff''),
        Mem ''tail'' (Ptr ''struct sk_buff'')]),
     Mem ''__cacheline_group_end__sock_write_rx'' (Arr 0 t___u8),
     Mem ''__cacheline_group_begin__sock_read_rx'' (Arr 0 t___u8),
     Mem ''sk_rx_dst'' (Ptr ''struct dst_entry''),
     Mem ''sk_rx_dst_ifindex'' (Prim Cint),
     Mem ''sk_rx_dst_cookie'' t_u32,
     Mem ''sk_ll_usec'' (Prim Cuint),
     Mem ''sk_napi_id'' (Prim Cuint),
     Mem ''sk_busy_poll_budget'' t_u16,
     Mem ''sk_prefer_busy_poll'' t_u8,
     Mem ''sk_userlocks'' t_u8,
     Mem ''sk_rcvbuf'' (Prim Cint),
     Mem ''sk_filter'' (Ptr ''struct sk_filter''),
     Mem '''' (Union False
       [Mem ''sk_wq'' (Ptr ''struct socket_wq''),
        Mem ''sk_wq_raw'' (Ptr ''struct socket_wq'')]),
     Mem ''sk_data_ready'' FunPtr,
     Mem ''sk_rcvtimeo'' (Prim Clong),
     Mem ''sk_rcvlowat'' (Prim Cint),
     Mem ''__cacheline_group_end__sock_read_rx'' (Arr 0 t___u8),
     Mem ''__cacheline_group_begin__sock_read_rxtx'' (Arr 0 t___u8),
     Mem ''sk_err'' (Prim Cint),
     Mem ''sk_socket'' (Ptr ''struct socket''),
     Mem ''sk_memcg'' (Ptr ''struct mem_cgroup''),
     Mem ''sk_policy'' (Arr 2 (Ptr ''struct xfrm_policy'')),
     Mem ''__cacheline_group_end__sock_read_rxtx'' (Arr 0 t___u8),
     Mem ''__cacheline_group_begin__sock_write_rxtx'' (Arr 0 t___u8),
     Mem ''sk_lock'' t_socket_lock_t,
     Mem ''sk_reserved_mem'' t_u32,
     Mem ''sk_forward_alloc'' (Prim Cint),
     Mem ''sk_tsflags'' t_u32,
     Mem ''__cacheline_group_end__sock_write_rxtx'' (Arr 0 t___u8),
     Mem ''__cacheline_group_begin__sock_write_tx'' (Arr 0 t___u8),
     Mem ''sk_write_pending'' (Prim Cint),
     Mem ''sk_omem_alloc'' t_atomic_t,
     Mem ''sk_sndbuf'' (Prim Cint),
     Mem ''sk_wmem_queued'' (Prim Cint),
     Mem ''sk_wmem_alloc'' t_refcount_t,
     Mem ''sk_tsq_flags'' (Prim Culong),
     Mem '''' (Union False
       [Mem ''sk_send_head'' (Ptr ''struct sk_buff''),
        Mem ''tcp_rtx_queue'' struct_rb_root]),
     Mem ''sk_write_queue'' struct_sk_buff_head,
     Mem ''sk_dst_pending_confirm'' t_u32,
     Mem ''sk_pacing_status'' t_u32,
     Mem ''sk_frag'' struct_page_frag,
     Mem ''sk_timer'' struct_timer_list,
     Mem ''sk_pacing_rate'' (Prim Culong),
     Mem ''sk_zckey'' t_atomic_t,
     Mem ''sk_tskey'' t_atomic_t,
     Mem ''__cacheline_group_end__sock_write_tx'' (Arr 0 t___u8),
     Mem ''__cacheline_group_begin__sock_read_tx'' (Arr 0 t___u8),
     Mem ''sk_max_pacing_rate'' (Prim Culong),
     Mem ''sk_sndtimeo'' (Prim Clong),
     Mem ''sk_priority'' t_u32,
     Mem ''sk_mark'' t_u32,
     Mem ''sk_dst_cache'' (Ptr ''struct dst_entry''),
     Mem ''sk_route_caps'' t_netdev_features_t,
     Mem ''sk_validate_xmit_skb'' FunPtr,
     Mem ''sk_gso_type'' t_u16,
     Mem ''sk_gso_max_segs'' t_u16,
     Mem ''sk_gso_max_size'' (Prim Cuint),
     Mem ''sk_allocation'' t_gfp_t,
     Mem ''sk_txhash'' t_u32,
     Mem ''sk_pacing_shift'' t_u8,
     Mem ''sk_use_task_frag'' t_bool,
     Mem ''__cacheline_group_end__sock_read_tx'' (Arr 0 t___u8),
     Bit ''sk_gso_disabled'' t_u8 1,
     Bit ''sk_kern_sock'' t_u8 1,
     Bit ''sk_no_check_tx'' t_u8 1,
     Bit ''sk_no_check_rx'' t_u8 1,
     Mem ''sk_shutdown'' t_u8,
     Mem ''sk_type'' t_u16,
     Mem ''sk_protocol'' t_u16,
     Mem ''sk_lingertime'' (Prim Culong),
     Mem ''sk_prot_creator'' (Ptr ''struct proto''),
     Mem ''sk_callback_lock'' t_rwlock_t,
     Mem ''sk_err_soft'' (Prim Cint),
     Mem ''sk_ack_backlog'' t_u32,
     Mem ''sk_max_ack_backlog'' t_u32,
     Mem ''sk_uid'' t_kuid_t,
     Mem ''sk_ino'' (Prim Culong),
     Mem ''sk_peer_lock'' t_spinlock_t,
     Mem ''sk_bind_phc'' (Prim Cint),
     Mem ''sk_peer_pid'' (Ptr ''struct pid''),
     Mem ''sk_peer_cred'' (Ptr ''struct cred''),
     Mem ''sk_stamp'' t_ktime_t,
     Mem ''sk_disconnects'' (Prim Cint),
     Mem '''' (Union False
       [Mem ''sk_txrehash'' t_u8,
        Mem ''sk_scm_recv_flags'' t_u8,
        Mem '''' (Struct False
          [Bit ''sk_scm_credentials'' t_u8 1,
           Bit ''sk_scm_security'' t_u8 1,
           Bit ''sk_scm_pidfd'' t_u8 1,
           Bit ''sk_scm_rights'' t_u8 1,
           Bit ''sk_scm_unused'' t_u8 4])]),
     Mem ''sk_clockid'' t_u8,
     Bit ''sk_txtime_deadline_mode'' t_u8 1,
     Bit ''sk_txtime_report_errors'' t_u8 1,
     Bit ''sk_txtime_unused'' t_u8 6,
     Mem ''sk_bpf_cb_flags'' t_u8,
     Mem ''sk_user_data'' (Ptr ''void''),
     Mem ''sk_security'' (Ptr ''void''),
     Mem ''sk_cgrp_data'' struct_sock_cgroup_data,
     Mem ''sk_state_change'' FunPtr,
     Mem ''sk_write_space'' FunPtr,
     Mem ''sk_error_report'' FunPtr,
     Mem ''sk_backlog_rcv'' FunPtr,
     Mem ''sk_destruct'' FunPtr,
     Mem ''sk_reuseport_cb'' (Ptr ''struct sock_reuseport''),
     Mem ''sk_bpf_storage'' (Ptr ''struct bpf_local_storage''),
     Mem ''sk_rcu'' struct_callback_head,
     Mem ''ns_tracker'' t_netns_tracker,
     Mem ''sk_user_frags'' struct_xarray]"

lemma meas_struct_sock [simp]: "meas struct_sock = (784, 8)"
  by (simp add: struct_sock_def layout_eval)

definition t_socket_state :: cty where
  "t_socket_state = Enum \<lparr>en_prim = Cuint, en_values = [(''SS_FREE'', 0),
     (''SS_UNCONNECTED'', 1),
     (''SS_CONNECTING'', 2),
     (''SS_CONNECTED'', 3),
     (''SS_DISCONNECTING'', 4)]\<rparr>"

lemma meas_t_socket_state [simp]: "meas t_socket_state = (4, 4)"
  by (simp add: t_socket_state_def layout_eval)

definition struct_socket_wq :: cty where
  "struct_socket_wq = Struct False
    [Mem ''wait'' t_wait_queue_head_t,
     Mem ''fasync_list'' (Ptr ''struct fasync_struct''),
     Mem ''flags'' (Prim Culong),
     Mem ''rcu'' struct_callback_head,
     Bit '''' (Prim Clong) 64]"

lemma meas_struct_socket_wq [simp]: "meas struct_socket_wq = (64, 8)"
  by (simp add: struct_socket_wq_def layout_eval)

definition struct_socket :: cty where
  "struct_socket = Struct False
    [Mem ''state'' t_socket_state,
     Mem ''type'' (Prim Cshort),
     Mem ''flags'' (Prim Culong),
     Mem ''file'' (Ptr ''struct file''),
     Mem ''sk'' (Ptr ''struct sock''),
     Mem ''ops'' (Ptr ''struct proto_ops''),
     Bit '''' (Prim Clong) 64,
     Bit '''' (Prim Clong) 64,
     Bit '''' (Prim Clong) 64,
     Mem ''wq'' struct_socket_wq]"

lemma meas_struct_socket [simp]: "meas struct_socket = (128, 8)"
  by (simp add: struct_socket_def layout_eval)

definition struct_iov_iter :: cty where
  "struct_iov_iter = Struct False
    [Mem ''iter_type'' t_u8,
     Mem ''nofault'' t_bool,
     Mem ''data_source'' t_bool,
     Mem ''iov_offset'' t_size_t,
     Mem '''' (Union False
       [Mem ''__ubuf_iovec'' struct_iovec,
        Mem '''' (Struct False
          [Mem '''' (Union False
             [Mem ''__iov'' (Ptr ''struct iovec''),
              Mem ''kvec'' (Ptr ''struct kvec''),
              Mem ''bvec'' (Ptr ''struct bio_vec''),
              Mem ''folioq'' (Ptr ''struct folio_queue''),
              Mem ''xarray'' (Ptr ''struct xarray''),
              Mem ''ubuf'' (Ptr ''void'')]),
           Mem ''count'' t_size_t])]),
     Mem '''' (Union False
       [Mem ''nr_segs'' (Prim Culong),
        Mem ''folioq_slot'' t_u8,
        Mem ''xarray_start'' t_loff_t])]"

lemma meas_struct_iov_iter [simp]: "meas struct_iov_iter = (40, 8)"
  by (simp add: struct_iov_iter_def layout_eval)

definition struct_msghdr :: cty where
  "struct_msghdr = Struct False
    [Mem ''msg_name'' (Ptr ''void''),
     Mem ''msg_namelen'' (Prim Cint),
     Mem ''msg_inq'' (Prim Cint),
     Mem ''msg_iter'' struct_iov_iter,
     Mem '''' (Union False
       [Mem ''msg_control'' (Ptr ''void''),
        Mem ''msg_control_user'' (Ptr ''void'')]),
     Bit ''msg_control_is_user'' t_bool 1,
     Bit ''msg_get_inq'' t_bool 1,
     Mem ''msg_flags'' (Prim Cuint),
     Mem ''msg_controllen'' t___kernel_size_t,
     Mem ''msg_iocb'' (Ptr ''struct kiocb''),
     Mem ''msg_ubuf'' (Ptr ''struct ubuf_info''),
     Mem ''sg_from_iter'' FunPtr]"

lemma meas_struct_msghdr [simp]: "meas struct_msghdr = (104, 8)"
  by (simp add: struct_msghdr_def layout_eval)

definition struct_proto_ops :: cty where
  "struct_proto_ops = Struct False
    [Mem ''family'' (Prim Cint),
     Mem ''owner'' (Ptr ''struct module''),
     Mem ''release'' FunPtr,
     Mem ''bind'' FunPtr,
     Mem ''connect'' FunPtr,
     Mem ''socketpair'' FunPtr,
     Mem ''accept'' FunPtr,
     Mem ''getname'' FunPtr,
     Mem ''poll'' FunPtr,
     Mem ''ioctl'' FunPtr,
     Mem ''compat_ioctl'' FunPtr,
     Mem ''gettstamp'' FunPtr,
     Mem ''listen'' FunPtr,
     Mem ''shutdown'' FunPtr,
     Mem ''setsockopt'' FunPtr,
     Mem ''getsockopt'' FunPtr,
     Mem ''show_fdinfo'' FunPtr,
     Mem ''sendmsg'' FunPtr,
     Mem ''recvmsg'' FunPtr,
     Mem ''mmap'' FunPtr,
     Mem ''splice_read'' FunPtr,
     Mem ''splice_eof'' FunPtr,
     Mem ''set_peek_off'' FunPtr,
     Mem ''peek_len'' FunPtr,
     Mem ''read_sock'' FunPtr,
     Mem ''read_skb'' FunPtr,
     Mem ''sendmsg_locked'' FunPtr,
     Mem ''set_rcvlowat'' FunPtr]"

lemma meas_struct_proto_ops [simp]: "meas struct_proto_ops = (224, 8)"
  by (simp add: struct_proto_ops_def layout_eval)

definition struct_inet_cork :: cty where
  "struct_inet_cork = Struct False
    [Mem ''flags'' (Prim Cuint),
     Mem ''addr'' t___be32,
     Mem ''opt'' (Ptr ''struct ip_options''),
     Mem ''fragsize'' (Prim Cuint),
     Mem ''length'' (Prim Cint),
     Mem ''dst'' (Ptr ''struct dst_entry''),
     Mem ''tx_flags'' t_u8,
     Mem ''ttl'' t___u8,
     Mem ''tos'' t___s16,
     Mem ''priority'' t_u32,
     Mem ''gso_size'' t___u16,
     Mem ''ts_opt_id'' t_u32,
     Mem ''transmit_time'' t_u64,
     Mem ''mark'' t_u32]"

lemma meas_struct_inet_cork [simp]: "meas struct_inet_cork = (64, 8)"
  by (simp add: struct_inet_cork_def layout_eval)

definition t___be64 :: cty where
  "t___be64 = t___u64"

lemma meas_t___be64 [simp]: "meas t___be64 = (8, 8)"
  by (simp add: t___be64_def layout_eval)

definition struct_flowi_tunnel :: cty where
  "struct_flowi_tunnel = Struct False
    [Mem ''tun_id'' t___be64]"

lemma meas_struct_flowi_tunnel [simp]: "meas struct_flowi_tunnel = (8, 8)"
  by (simp add: struct_flowi_tunnel_def layout_eval)

definition struct_flowi_common :: cty where
  "struct_flowi_common = Struct False
    [Mem ''flowic_oif'' (Prim Cint),
     Mem ''flowic_iif'' (Prim Cint),
     Mem ''flowic_l3mdev'' (Prim Cint),
     Mem ''flowic_mark'' t___u32,
     Mem ''flowic_tos'' t___u8,
     Mem ''flowic_scope'' t___u8,
     Mem ''flowic_proto'' t___u8,
     Mem ''flowic_flags'' t___u8,
     Mem ''flowic_secid'' t___u32,
     Mem ''flowic_uid'' t_kuid_t,
     Mem ''flowic_multipath_hash'' t___u32,
     Mem ''flowic_tun_key'' struct_flowi_tunnel]"

lemma meas_struct_flowi_common [simp]: "meas struct_flowi_common = (40, 8)"
  by (simp add: struct_flowi_common_def layout_eval)

definition union_flowi_uli :: cty where
  "union_flowi_uli = Union False
    [Mem ''ports'' (Struct False
       [Mem ''dport'' t___be16,
        Mem ''sport'' t___be16]),
     Mem ''icmpt'' (Struct False
       [Mem ''type'' t___u8,
        Mem ''code'' t___u8]),
     Mem ''gre_key'' t___be32,
     Mem ''mht'' (Struct False
       [Mem ''type'' t___u8])]"

lemma meas_union_flowi_uli [simp]: "meas union_flowi_uli = (4, 4)"
  by (simp add: union_flowi_uli_def layout_eval)

definition struct_flowi4 :: cty where
  "struct_flowi4 = Struct False
    [Mem ''__fl_common'' struct_flowi_common,
     Mem ''saddr'' t___be32,
     Mem ''daddr'' t___be32,
     Mem ''uli'' union_flowi_uli]"

lemma meas_struct_flowi4 [simp]: "meas struct_flowi4 = (56, 8)"
  by (simp add: struct_flowi4_def layout_eval)

definition struct_flowi6 :: cty where
  "struct_flowi6 = Struct False
    [Mem ''__fl_common'' struct_flowi_common,
     Mem ''daddr'' struct_in6_addr,
     Mem ''saddr'' struct_in6_addr,
     Mem ''flowlabel'' t___be32,
     Mem ''uli'' union_flowi_uli,
     Mem ''mp_hash'' t___u32]"

lemma meas_struct_flowi6 [simp]: "meas struct_flowi6 = (88, 8)"
  by (simp add: struct_flowi6_def layout_eval)

definition struct_flowi :: cty where
  "struct_flowi = Struct False
    [Mem ''u'' (Union False
       [Mem ''__fl_common'' struct_flowi_common,
        Mem ''ip4'' struct_flowi4,
        Mem ''ip6'' struct_flowi6])]"

lemma meas_struct_flowi [simp]: "meas struct_flowi = (88, 8)"
  by (simp add: struct_flowi_def layout_eval)

definition struct_inet_cork_full :: cty where
  "struct_inet_cork_full = Struct False
    [Mem ''base'' struct_inet_cork,
     Mem ''fl'' struct_flowi]"

lemma meas_struct_inet_cork_full [simp]: "meas struct_inet_cork_full = (152, 8)"
  by (simp add: struct_inet_cork_full_def layout_eval)

definition struct_inet_sock :: cty where
  "struct_inet_sock = Struct False
    [Mem ''sk'' struct_sock,
     Mem ''pinet6'' (Ptr ''struct ipv6_pinfo''),
     Mem ''inet_flags'' (Prim Culong),
     Mem ''inet_saddr'' t___be32,
     Mem ''uc_ttl'' t___s16,
     Mem ''inet_sport'' t___be16,
     Mem ''inet_opt'' (Ptr ''struct ip_options_rcu''),
     Mem ''inet_id'' t_atomic_t,
     Mem ''tos'' t___u8,
     Mem ''min_ttl'' t___u8,
     Mem ''mc_ttl'' t___u8,
     Mem ''pmtudisc'' t___u8,
     Mem ''rcv_tos'' t___u8,
     Mem ''convert_csum'' t___u8,
     Mem ''uc_index'' (Prim Cint),
     Mem ''mc_index'' (Prim Cint),
     Mem ''mc_addr'' t___be32,
     Mem ''local_port_range'' t_u32,
     Mem ''mc_list'' (Ptr ''struct ip_mc_socklist''),
     Mem ''cork'' struct_inet_cork_full]"

lemma meas_struct_inet_sock [simp]: "meas struct_inet_sock = (1008, 8)"
  by (simp add: struct_inet_sock_def layout_eval)

definition struct_fastopen_queue :: cty where
  "struct_fastopen_queue = Struct False
    [Mem ''rskq_rst_head'' (Ptr ''struct request_sock''),
     Mem ''rskq_rst_tail'' (Ptr ''struct request_sock''),
     Mem ''lock'' t_spinlock_t,
     Mem ''qlen'' (Prim Cint),
     Mem ''max_qlen'' (Prim Cint),
     Mem ''ctx'' (Ptr ''struct tcp_fastopen_context'')]"

lemma meas_struct_fastopen_queue [simp]: "meas struct_fastopen_queue = (40, 8)"
  by (simp add: struct_fastopen_queue_def layout_eval)

definition struct_request_sock_queue :: cty where
  "struct_request_sock_queue = Struct False
    [Mem ''rskq_lock'' t_spinlock_t,
     Mem ''rskq_defer_accept'' t_u8,
     Mem ''synflood_warned'' t_u32,
     Mem ''qlen'' t_atomic_t,
     Mem ''young'' t_atomic_t,
     Mem ''rskq_accept_head'' (Ptr ''struct request_sock''),
     Mem ''rskq_accept_tail'' (Ptr ''struct request_sock''),
     Mem ''fastopenq'' struct_fastopen_queue]"

lemma meas_struct_request_sock_queue [simp]: "meas struct_request_sock_queue = (80, 8)"
  by (simp add: struct_request_sock_queue_def layout_eval)

definition struct_inet_connection_sock :: cty where
  "struct_inet_connection_sock = Struct False
    [Mem ''icsk_inet'' struct_inet_sock,
     Mem ''icsk_accept_queue'' struct_request_sock_queue,
     Mem ''icsk_bind_hash'' (Ptr ''struct inet_bind_bucket''),
     Mem ''icsk_bind2_hash'' (Ptr ''struct inet_bind2_bucket''),
     Mem ''icsk_retransmit_timer'' struct_timer_list,
     Mem ''icsk_delack_timer'' struct_timer_list,
     Mem ''icsk_rto'' t___u32,
     Mem ''icsk_rto_min'' t___u32,
     Mem ''icsk_rto_max'' t_u32,
     Mem ''icsk_delack_max'' t___u32,
     Mem ''icsk_pmtu_cookie'' t___u32,
     Mem ''icsk_ca_ops'' (Ptr ''struct tcp_congestion_ops''),
     Mem ''icsk_af_ops'' (Ptr ''struct inet_connection_sock_af_ops''),
     Mem ''icsk_ulp_ops'' (Ptr ''struct tcp_ulp_ops''),
     Mem ''icsk_ulp_data'' (Ptr ''void''),
     Mem ''icsk_sync_mss'' FunPtr,
     Bit ''icsk_ca_state'' t___u8 5,
     Bit ''icsk_ca_initialized'' t___u8 1,
     Bit ''icsk_ca_setsockopt'' t___u8 1,
     Bit ''icsk_ca_dst_locked'' t___u8 1,
     Mem ''icsk_retransmits'' t___u8,
     Mem ''icsk_pending'' t___u8,
     Mem ''icsk_backoff'' t___u8,
     Mem ''icsk_syn_retries'' t___u8,
     Mem ''icsk_probes_out'' t___u8,
     Mem ''icsk_ext_hdr_len'' t___u16,
     Mem ''icsk_ack'' (Struct False
       [Mem ''pending'' t___u8,
        Mem ''quick'' t___u8,
        Mem ''pingpong'' t___u8,
        Mem ''retry'' t___u8,
        Bit ''ato'' t___u32 8,
        Bit ''lrcv_flowlabel'' t___u32 20,
        Bit ''dst_quick_ack'' t___u32 1,
        Bit ''unused'' t___u32 3,
        Mem ''lrcvtime'' t___u32,
        Mem ''last_seg_size'' t___u16,
        Mem ''rcv_mss'' t___u16]),
     Mem ''icsk_mtup'' (Struct False
       [Mem ''search_high'' (Prim Cint),
        Mem ''search_low'' (Prim Cint),
        Bit ''probe_size'' t_u32 31,
        Bit ''enabled'' t_u32 1,
        Mem ''probe_timestamp'' t_u32]),
     Mem ''icsk_probes_tstamp'' t_u32,
     Mem ''icsk_user_timeout'' t_u32,
     Mem ''icsk_ca_priv'' (Arr 13 t_u64)]"

lemma meas_struct_inet_connection_sock [simp]: "meas struct_inet_connection_sock = (1400, 8)"
  by (simp add: struct_inet_connection_sock_def layout_eval)

definition struct_minmax_sample :: cty where
  "struct_minmax_sample = Struct False
    [Mem ''t'' t_u32,
     Mem ''v'' t_u32]"

lemma meas_struct_minmax_sample [simp]: "meas struct_minmax_sample = (8, 4)"
  by (simp add: struct_minmax_sample_def layout_eval)

definition struct_minmax :: cty where
  "struct_minmax = Struct False
    [Mem ''s'' (Arr 3 struct_minmax_sample)]"

lemma meas_struct_minmax [simp]: "meas struct_minmax = (24, 4)"
  by (simp add: struct_minmax_def layout_eval)

definition struct_tcp_options_received :: cty where
  "struct_tcp_options_received = Struct False
    [Mem ''ts_recent_stamp'' (Prim Cint),
     Mem ''ts_recent'' t_u32,
     Mem ''rcv_tsval'' t_u32,
     Mem ''rcv_tsecr'' t_u32,
     Bit ''saw_tstamp'' t_u16 1,
     Bit ''tstamp_ok'' t_u16 1,
     Bit ''dsack'' t_u16 1,
     Bit ''wscale_ok'' t_u16 1,
     Bit ''sack_ok'' t_u16 3,
     Bit ''smc_ok'' t_u16 1,
     Bit ''snd_wscale'' t_u16 4,
     Bit ''rcv_wscale'' t_u16 4,
     Bit ''saw_unknown'' t_u8 1,
     Bit ''unused'' t_u8 7,
     Mem ''num_sacks'' t_u8,
     Mem ''user_mss'' t_u16,
     Mem ''mss_clamp'' t_u16]"

lemma meas_struct_tcp_options_received [simp]: "meas struct_tcp_options_received = (24, 4)"
  by (simp add: struct_tcp_options_received_def layout_eval)

definition struct_tcp_rack :: cty where
  "struct_tcp_rack = Struct False
    [Mem ''mstamp'' t_u64,
     Mem ''rtt_us'' t_u32,
     Mem ''end_seq'' t_u32,
     Mem ''last_delivered'' t_u32,
     Mem ''reo_wnd_steps'' t_u8,
     Bit ''reo_wnd_persist'' t_u8 5,
     Bit ''dsack_seen'' t_u8 1,
     Bit ''advanced'' t_u8 1]"

lemma meas_struct_tcp_rack [simp]: "meas struct_tcp_rack = (24, 8)"
  by (simp add: struct_tcp_rack_def layout_eval)

definition struct_tcp_sack_block :: cty where
  "struct_tcp_sack_block = Struct False
    [Mem ''start_seq'' t_u32,
     Mem ''end_seq'' t_u32]"

lemma meas_struct_tcp_sack_block [simp]: "meas struct_tcp_sack_block = (8, 4)"
  by (simp add: struct_tcp_sack_block_def layout_eval)

definition struct_tcp_sock :: cty where
  "struct_tcp_sock = Struct False
    ([Mem ''inet_conn'' struct_inet_connection_sock,
     Mem ''__cacheline_group_begin__tcp_sock_read_tx'' (Arr 0 t___u8),
     Mem ''max_window'' t_u32,
     Mem ''rcv_ssthresh'' t_u32,
     Mem ''reordering'' t_u32,
     Mem ''notsent_lowat'' t_u32,
     Mem ''gso_segs'' t_u16,
     Mem ''retransmit_skb_hint'' (Ptr ''struct sk_buff''),
     Mem ''__cacheline_group_end__tcp_sock_read_tx'' (Arr 0 t___u8),
     Mem ''__cacheline_group_begin__tcp_sock_read_txrx'' (Arr 0 t___u8),
     Mem ''tsoffset'' t_u32,
     Mem ''snd_wnd'' t_u32,
     Mem ''mss_cache'' t_u32,
     Mem ''snd_cwnd'' t_u32,
     Mem ''prr_out'' t_u32,
     Mem ''lost_out'' t_u32,
     Mem ''sacked_out'' t_u32,
     Mem ''tcp_header_len'' t_u16,
     Mem ''scaling_ratio'' t_u8,
     Bit ''chrono_type'' t_u8 2,
     Bit ''repair'' t_u8 1,
     Bit ''tcp_usec_ts'' t_u8 1,
     Bit ''is_sack_reneg'' t_u8 1,
     Bit ''is_cwnd_limited'' t_u8 1,
     Mem ''__cacheline_group_end__tcp_sock_read_txrx'' (Arr 0 t___u8),
     Mem ''__cacheline_group_begin__tcp_sock_read_rx'' (Arr 0 t___u8),
     Mem ''copied_seq'' t_u32,
     Mem ''rcv_tstamp'' t_u32,
     Mem ''snd_wl1'' t_u32,
     Mem ''tlp_high_seq'' t_u32,
     Mem ''rttvar_us'' t_u32,
     Mem ''retrans_out'' t_u32,
     Mem ''advmss'' t_u16,
     Mem ''urg_data'' t_u16,
     Mem ''lost'' t_u32,
     Mem ''rtt_min'' struct_minmax,
     Mem ''out_of_order_queue'' struct_rb_root,
     Mem ''tcp_clean_acked'' FunPtr,
     Mem ''snd_ssthresh'' t_u32,
     Bit ''recvmsg_inq'' t_u8 1,
     Mem ''__cacheline_group_end__tcp_sock_read_rx'' (Arr 0 t___u8)] @
    replicate 7 (Bit '''' (Prim Clong) 64) @
    [Mem ''__cacheline_group_begin__tcp_sock_write_tx'' (Arr 0 t___u8),
     Mem ''segs_out'' t_u32,
     Mem ''data_segs_out'' t_u32,
     Mem ''bytes_sent'' t_u64,
     Mem ''snd_sml'' t_u32,
     Mem ''chrono_start'' t_u32,
     Mem ''chrono_stat'' (Arr 3 t_u32),
     Mem ''write_seq'' t_u32,
     Mem ''pushed_seq'' t_u32,
     Mem ''lsndtime'' t_u32,
     Mem ''mdev_us'' t_u32,
     Mem ''rtt_seq'' t_u32,
     Mem ''tcp_wstamp_ns'' t_u64,
     Mem ''tsorted_sent_queue'' struct_list_head,
     Mem ''highest_sack'' (Ptr ''struct sk_buff''),
     Mem ''ecn_flags'' t_u8,
     Mem ''__cacheline_group_end__tcp_sock_write_tx'' (Arr 0 t___u8),
     Mem ''__cacheline_group_begin__tcp_sock_write_txrx'' (Arr 0 t___u8),
     Mem ''pred_flags'' t___be32,
     Mem ''tcp_clock_cache'' t_u64,
     Mem ''tcp_mstamp'' t_u64,
     Mem ''rcv_nxt'' t_u32,
     Mem ''snd_nxt'' t_u32,
     Mem ''snd_una'' t_u32,
     Mem ''window_clamp'' t_u32,
     Mem ''srtt_us'' t_u32,
     Mem ''packets_out'' t_u32,
     Mem ''snd_up'' t_u32,
     Mem ''delivered'' t_u32,
     Mem ''delivered_ce'' t_u32,
     Mem ''app_limited'' t_u32,
     Mem ''rcv_wnd'' t_u32,
     Mem ''rx_opt'' struct_tcp_options_received,
     Bit ''nonagle'' t_u8 4,
     Bit ''rate_app_limited'' t_u8 1,
     Mem ''__cacheline_group_end__tcp_sock_write_txrx'' (Arr 0 t___u8),
     Bit '''' (Prim Clong) 0,
     Mem ''__cacheline_group_begin__tcp_sock_write_rx'' (Arr 0 t___u8),
     Mem ''bytes_received'' t_u64,
     Mem ''segs_in'' t_u32,
     Mem ''data_segs_in'' t_u32,
     Mem ''rcv_wup'' t_u32,
     Mem ''max_packets_out'' t_u32,
     Mem ''cwnd_usage_seq'' t_u32,
     Mem ''rate_delivered'' t_u32,
     Mem ''rate_interval_us'' t_u32,
     Mem ''rcv_rtt_last_tsecr'' t_u32,
     Mem ''first_tx_mstamp'' t_u64,
     Mem ''delivered_mstamp'' t_u64,
     Mem ''bytes_acked'' t_u64,
     Mem ''rcv_rtt_est'' (Struct False
       [Mem ''rtt_us'' t_u32,
        Mem ''seq'' t_u32,
        Mem ''time'' t_u64]),
     Mem ''rcvq_space'' (Struct False
       [Mem ''space'' (Prim Cint),
        Mem ''seq'' t_u32,
        Mem ''time'' t_u64]),
     Mem ''__cacheline_group_end__tcp_sock_write_rx'' (Arr 0 t___u8),
     Mem ''dsack_dups'' t_u32,
     Mem ''compressed_ack_rcv_nxt'' t_u32,
     Mem ''tsq_node'' struct_list_head,
     Mem ''rack'' struct_tcp_rack,
     Mem ''compressed_ack'' t_u8,
     Bit ''dup_ack_counter'' t_u8 2,
     Bit ''tlp_retrans'' t_u8 1,
     Bit ''unused'' t_u8 5,
     Bit ''thin_lto'' t_u8 1,
     Bit ''fastopen_connect'' t_u8 1,
     Bit ''fastopen_no_cookie'' t_u8 1,
     Bit ''fastopen_client_fail'' t_u8 2,
     Bit ''frto'' t_u8 1,
     Mem ''repair_queue'' t_u8,
     Bit ''save_syn'' t_u8 2,
     Bit ''syn_data'' t_u8 1,
     Bit ''syn_fastopen'' t_u8 1,
     Bit ''syn_fastopen_exp'' t_u8 1,
     Bit ''syn_fastopen_ch'' t_u8 1,
     Bit ''syn_data_acked'' t_u8 1,
     Bit ''syn_fastopen_child'' t_u8 1,
     Mem ''keepalive_probes'' t_u8,
     Mem ''tcp_tx_delay'' t_u32,
     Mem ''mdev_max_us'' t_u32,
     Mem ''reord_seen'' t_u32,
     Mem ''snd_cwnd_cnt'' t_u32,
     Mem ''snd_cwnd_clamp'' t_u32,
     Mem ''snd_cwnd_used'' t_u32,
     Mem ''snd_cwnd_stamp'' t_u32,
     Mem ''prior_cwnd'' t_u32,
     Mem ''prr_delivered'' t_u32,
     Mem ''last_oow_ack_time'' t_u32,
     Mem ''pacing_timer'' struct_hrtimer,
     Mem ''compressed_ack_timer'' struct_hrtimer,
     Mem ''ooo_last_skb'' (Ptr ''struct sk_buff''),
     Mem ''duplicate_sack'' (Arr 1 struct_tcp_sack_block),
     Mem ''selective_acks'' (Arr 4 struct_tcp_sack_block),
     Mem ''recv_sack_cache'' (Arr 4 struct_tcp_sack_block),
     Mem ''prior_ssthresh'' t_u32,
     Mem ''high_seq'' t_u32,
     Mem ''retrans_stamp'' t_u32,
     Mem ''undo_marker'' t_u32,
     Mem ''undo_retrans'' (Prim Cint),
     Mem ''bytes_retrans'' t_u64,
     Mem ''total_retrans'' t_u32,
     Mem ''rto_stamp'' t_u32,
     Mem ''total_rto'' t_u16,
     Mem ''total_rto_recoveries'' t_u16,
     Mem ''total_rto_time'' t_u32,
     Mem ''urg_seq'' t_u32,
     Mem ''keepalive_time'' (Prim Cuint),
     Mem ''keepalive_intvl'' (Prim Cuint),
     Mem ''linger2'' (Prim Cint),
     Mem ''bpf_sock_ops_cb_flags'' t_u8,
     Bit ''bpf_chg_cc_inprogress'' t_u8 1,
     Mem ''timeout_rehash'' t_u16,
     Mem ''rcv_ooopack'' t_u32,
     Mem ''mtu_probe'' (Struct False
       [Mem ''probe_seq_start'' t_u32,
        Mem ''probe_seq_end'' t_u32]),
     Mem ''plb_rehash'' t_u32,
     Mem ''mtu_info'' t_u32,
     Mem ''is_mptcp'' t_bool,
     Mem ''syn_smc'' t_bool,
     Mem ''smc_hs_congested'' FunPtr,
     Mem ''af_specific'' (Ptr ''struct tcp_sock_af_ops''),
     Mem ''md5sig_info'' (Ptr ''struct tcp_md5sig_info''),
     Mem ''ao_info'' (Ptr ''struct tcp_ao_info''),
     Mem ''fastopen_req'' (Ptr ''struct tcp_fastopen_request''),
     Mem ''fastopen_rsk'' (Ptr ''struct request_sock''),
     Mem ''saved_syn'' (Ptr ''struct saved_syn''),
     Bit '''' (Prim Clong) 64,
     Bit '''' (Prim Clong) 64,
     Bit '''' (Prim Clong) 64,
     Bit '''' (Prim Clong) 64])"

lemma meas_struct_tcp_sock [simp]: "meas struct_tcp_sock = (2368, 8)"
  by (simp add: struct_tcp_sock_def layout_eval)

end
