(* ===== verification/Kernel_Fs.thy ===== *)
theory Kernel_Fs
  imports Kernel_Net
begin

text \<open>
  The declarations of \<open>vmlinux.h\<close> for open files and for the notifications the file system probe reads.
\<close>

section \<open>Files\<close>

definition t_fmode_t :: cty where
  "t_fmode_t = Prim Cuint"

lemma meas_t_fmode_t [simp]: "meas t_fmode_t = (4, 4)"
  by (simp add: t_fmode_t_def layout_eval)

definition t_errseq_t :: cty where
  "t_errseq_t = t_u32"

lemma meas_t_errseq_t [simp]: "meas t_errseq_t = (4, 4)"
  by (simp add: t_errseq_t_def layout_eval)

definition struct_file_ra_state :: cty where
  "struct_file_ra_state = Struct False
    [Mem ''start'' (Prim Culong),
     Mem ''size'' (Prim Cuint),
     Mem ''async_size'' (Prim Cuint),
     Mem ''ra_pages'' (Prim Cuint),
     Mem ''order'' (Prim Cushort),
     Mem ''mmap_miss'' (Prim Cushort),
     Mem ''prev_pos'' t_loff_t]"

lemma meas_struct_file_ra_state [simp]: "meas struct_file_ra_state = (32, 8)"
  by (simp add: struct_file_ra_state_def layout_eval)

definition t_file_ref_t :: cty where
  "t_file_ref_t = Struct False
    [Mem ''refcnt'' t_atomic64_t]"

lemma meas_t_file_ref_t [simp]: "meas t_file_ref_t = (8, 8)"
  by (simp add: t_file_ref_t_def layout_eval)

definition struct_file :: cty where
  "struct_file = Struct False
    [Mem ''f_lock'' t_spinlock_t,
     Mem ''f_mode'' t_fmode_t,
     Mem ''f_op'' (Ptr ''struct file_operations''),
     Mem ''f_mapping'' (Ptr ''struct address_space''),
     Mem ''private_data'' (Ptr ''void''),
     Mem ''f_inode'' (Ptr ''struct inode''),
     Mem ''f_flags'' (Prim Cuint),
     Mem ''f_iocb_flags'' (Prim Cuint),
     Mem ''f_cred'' (Ptr ''struct cred''),
     Mem ''f_owner'' (Ptr ''struct fown_struct''),
     Mem ''f_path'' struct_path,
     Mem '''' (Union False
       [Mem ''f_pos_lock'' struct_mutex,
        Mem ''f_pipe'' t_u64]),
     Mem ''f_pos'' t_loff_t,
     Mem ''f_security'' (Ptr ''void''),
     Mem ''f_wb_err'' t_errseq_t,
     Mem ''f_sb_err'' t_errseq_t,
     Mem ''f_ep'' (Ptr ''struct hlist_head''),
     Mem '''' (Union False
       [Mem ''f_task_work'' struct_callback_head,
        Mem ''f_llist'' struct_llist_node,
        Mem ''f_ra'' struct_file_ra_state,
        Mem ''f_freeptr'' t_freeptr_t]),
     Mem ''f_ref'' t_file_ref_t]"

lemma meas_struct_file [simp]: "meas struct_file = (184, 8)"
  by (simp add: struct_file_def layout_eval)

definition struct_fdtable :: cty where
  "struct_fdtable = Struct False
    [Mem ''max_fds'' (Prim Cuint),
     Mem ''fd'' (Ptr ''struct file *''),
     Mem ''close_on_exec'' (Ptr ''long unsigned int''),
     Mem ''open_fds'' (Ptr ''long unsigned int''),
     Mem ''full_fds_bits'' (Ptr ''long unsigned int''),
     Mem ''rcu'' struct_callback_head]"

lemma meas_struct_fdtable [simp]: "meas struct_fdtable = (56, 8)"
  by (simp add: struct_fdtable_def layout_eval)

definition struct_files_struct :: cty where
  "struct_files_struct = Struct False
    [Mem ''count'' t_atomic_t,
     Mem ''resize_in_progress'' t_bool,
     Mem ''resize_wait'' t_wait_queue_head_t,
     Mem ''fdt'' (Ptr ''struct fdtable''),
     Mem ''fdtab'' struct_fdtable,
     Bit '''' (Prim Clong) 64,
     Bit '''' (Prim Clong) 64,
     Bit '''' (Prim Clong) 64,
     Bit '''' (Prim Clong) 64,
     Mem ''file_lock'' t_spinlock_t,
     Mem ''next_fd'' (Prim Cuint),
     Mem ''close_on_exec_init'' (Arr 1 (Prim Culong)),
     Mem ''open_fds_init'' (Arr 1 (Prim Culong)),
     Mem ''full_fds_bits_init'' (Arr 1 (Prim Culong)),
     Mem ''fd_array'' (Arr 64 (Ptr ''struct file'')),
     Bit '''' (Prim Clong) 64,
     Bit '''' (Prim Clong) 64,
     Bit '''' (Prim Clong) 64,
     Bit '''' (Prim Clong) 64]"

lemma meas_struct_files_struct [simp]: "meas struct_files_struct = (704, 8)"
  by (simp add: struct_files_struct_def layout_eval)

definition t_umode_t :: cty where
  "t_umode_t = Prim Cushort"

lemma meas_t_umode_t [simp]: "meas t_umode_t = (2, 2)"
  by (simp add: t_umode_t_def layout_eval)

definition t___kernel_dev_t :: cty where
  "t___kernel_dev_t = t_u32"

lemma meas_t___kernel_dev_t [simp]: "meas t___kernel_dev_t = (4, 4)"
  by (simp add: t___kernel_dev_t_def layout_eval)

definition t_dev_t :: cty where
  "t_dev_t = t___kernel_dev_t"

lemma meas_t_dev_t [simp]: "meas t_dev_t = (4, 4)"
  by (simp add: t_dev_t_def layout_eval)

definition t_time64_t :: cty where
  "t_time64_t = t___s64"

lemma meas_t_time64_t [simp]: "meas t_time64_t = (8, 8)"
  by (simp add: t_time64_t_def layout_eval)

definition enum_rw_hint :: cenum where
  "enum_rw_hint =
    \<lparr>en_prim = Cuchar, en_values =
      [(''WRITE_LIFE_NOT_SET'', 0),
       (''WRITE_LIFE_NONE'', 1),
       (''WRITE_LIFE_SHORT'', 2),
       (''WRITE_LIFE_MEDIUM'', 3),
       (''WRITE_LIFE_LONG'', 4),
       (''WRITE_LIFE_EXTREME'', 5)]\<rparr>"

lemma en_prim_enum_rw_hint [simp]: "en_prim enum_rw_hint = Cuchar"
  by (simp add: enum_rw_hint_def)

definition t_blkcnt_t :: cty where
  "t_blkcnt_t = t_u64"

lemma meas_t_blkcnt_t [simp]: "meas t_blkcnt_t = (8, 8)"
  by (simp add: t_blkcnt_t_def layout_eval)

definition struct_address_space :: cty where
  "struct_address_space = Struct False
    [Mem ''host'' (Ptr ''struct inode''),
     Mem ''i_pages'' struct_xarray,
     Mem ''invalidate_lock'' struct_rw_semaphore,
     Mem ''gfp_mask'' t_gfp_t,
     Mem ''i_mmap_writable'' t_atomic_t,
     Mem ''i_mmap'' struct_rb_root_cached,
     Mem ''nrpages'' (Prim Culong),
     Mem ''writeback_index'' (Prim Culong),
     Mem ''a_ops'' (Ptr ''struct address_space_operations''),
     Mem ''flags'' (Prim Culong),
     Mem ''wb_err'' t_errseq_t,
     Mem ''i_private_lock'' t_spinlock_t,
     Mem ''i_private_list'' struct_list_head,
     Mem ''i_mmap_rwsem'' struct_rw_semaphore,
     Mem ''i_private_data'' (Ptr ''void'')]"

lemma meas_struct_address_space [simp]: "meas struct_address_space = (192, 8)"
  by (simp add: struct_address_space_def layout_eval)

definition struct_inode :: cty where
  "struct_inode = Struct False
    [Mem ''i_mode'' t_umode_t,
     Mem ''i_opflags'' (Prim Cushort),
     Mem ''i_uid'' t_kuid_t,
     Mem ''i_gid'' t_kgid_t,
     Mem ''i_flags'' (Prim Cuint),
     Mem ''i_acl'' (Ptr ''struct posix_acl''),
     Mem ''i_default_acl'' (Ptr ''struct posix_acl''),
     Mem ''i_op'' (Ptr ''struct inode_operations''),
     Mem ''i_sb'' (Ptr ''struct super_block''),
     Mem ''i_mapping'' (Ptr ''struct address_space''),
     Mem ''i_security'' (Ptr ''void''),
     Mem ''i_ino'' (Prim Culong),
     Mem '''' (Union False
       [Mem ''i_nlink'' (Prim Cuint),
        Mem ''__i_nlink'' (Prim Cuint)]),
     Mem ''i_rdev'' t_dev_t,
     Mem ''i_size'' t_loff_t,
     Mem ''i_atime_sec'' t_time64_t,
     Mem ''i_mtime_sec'' t_time64_t,
     Mem ''i_ctime_sec'' t_time64_t,
     Mem ''i_atime_nsec'' t_u32,
     Mem ''i_mtime_nsec'' t_u32,
     Mem ''i_ctime_nsec'' t_u32,
     Mem ''i_generation'' t_u32,
     Mem ''i_lock'' t_spinlock_t,
     Mem ''i_bytes'' (Prim Cushort),
     Mem ''i_blkbits'' t_u8,
     Mem ''i_write_hint'' (Enum enum_rw_hint),
     Mem ''i_blocks'' t_blkcnt_t,
     Mem ''i_state'' t_u32,
     Mem ''i_rwsem'' struct_rw_semaphore,
     Mem ''dirtied_when'' (Prim Culong),
     Mem ''dirtied_time_when'' (Prim Culong),
     Mem ''i_hash'' struct_hlist_node,
     Mem ''i_io_list'' struct_list_head,
     Mem ''i_wb'' (Ptr ''struct bdi_writeback''),
     Mem ''i_wb_frn_winner'' (Prim Cint),
     Mem ''i_wb_frn_avg_time'' t_u16,
     Mem ''i_wb_frn_history'' t_u16,
     Mem ''i_lru'' struct_list_head,
     Mem ''i_sb_list'' struct_list_head,
     Mem ''i_wb_list'' struct_list_head,
     Mem '''' (Union False
       [Mem ''i_dentry'' struct_hlist_head,
        Mem ''i_rcu'' struct_callback_head]),
     Mem ''i_version'' t_atomic64_t,
     Mem ''i_sequence'' t_atomic64_t,
     Mem ''i_count'' t_atomic_t,
     Mem ''i_dio_count'' t_atomic_t,
     Mem ''i_writecount'' t_atomic_t,
     Mem ''i_readcount'' t_atomic_t,
     Mem '''' (Union False
       [Mem ''i_fop'' (Ptr ''struct file_operations''),
        Mem ''free_inode'' FunPtr]),
     Mem ''i_flctx'' (Ptr ''struct file_lock_context''),
     Mem ''i_data'' struct_address_space,
     Mem '''' (Union False
       [Mem ''i_devices'' struct_list_head,
        Mem ''i_linklen'' (Prim Cint)]),
     Mem '''' (Union False
       [Mem ''i_pipe'' (Ptr ''struct pipe_inode_info''),
        Mem ''i_cdev'' (Ptr ''struct cdev''),
        Mem ''i_link'' (Ptr ''char''),
        Mem ''i_dir_seq'' (Prim Cuint)]),
     Mem ''i_fsnotify_mask'' t___u32,
     Mem ''i_fsnotify_marks'' (Ptr ''struct fsnotify_mark_connector''),
     Mem ''i_crypt_info'' (Ptr ''struct fscrypt_inode_info''),
     Mem ''i_verity_info'' (Ptr ''struct fsverity_info''),
     Mem ''i_private'' (Ptr ''void'')]"

lemma meas_struct_inode [simp]: "meas struct_inode = (624, 8)"
  by (simp add: struct_inode_def layout_eval)

definition struct_hlist_bl_node :: cty where
  "struct_hlist_bl_node = Struct False
    [Mem ''next'' (Ptr ''struct hlist_bl_node''),
     Mem ''pprev'' (Ptr ''struct hlist_bl_node *'')]"

lemma meas_struct_hlist_bl_node [simp]: "meas struct_hlist_bl_node = (16, 8)"
  by (simp add: struct_hlist_bl_node_def layout_eval)

definition struct_qstr :: cty where
  "struct_qstr = Struct False
    [Mem '''' (Union False
       [Mem '''' (Struct False
          [Mem ''hash'' t_u32,
           Mem ''len'' t_u32]),
        Mem ''hash_len'' t_u64]),
     Mem ''name'' (Ptr ''unsigned char'')]"

lemma meas_struct_qstr [simp]: "meas struct_qstr = (16, 8)"
  by (simp add: struct_qstr_def layout_eval)

definition union_shortname_store :: cty where
  "union_shortname_store = Union False
    [Mem ''string'' (Arr 40 (Prim Cuchar)),
     Mem ''words'' (Arr 5 (Prim Culong))]"

lemma meas_union_shortname_store [simp]: "meas union_shortname_store = (40, 8)"
  by (simp add: union_shortname_store_def layout_eval)

definition struct_lockref :: cty where
  "struct_lockref = Struct False
    [Mem '''' (Union False
       [Mem ''lock_count'' t___u64,
        Mem '''' (Struct False
          [Mem ''lock'' t_spinlock_t,
           Mem ''count'' (Prim Cint)])])]"

lemma meas_struct_lockref [simp]: "meas struct_lockref = (8, 8)"
  by (simp add: struct_lockref_def layout_eval)

definition struct_dentry :: cty where
  "struct_dentry = Struct False
    [Mem ''d_flags'' (Prim Cuint),
     Mem ''d_seq'' t_seqcount_spinlock_t,
     Mem ''d_hash'' struct_hlist_bl_node,
     Mem ''d_parent'' (Ptr ''struct dentry''),
     Mem ''d_name'' struct_qstr,
     Mem ''d_inode'' (Ptr ''struct inode''),
     Mem ''d_shortname'' union_shortname_store,
     Mem ''d_op'' (Ptr ''struct dentry_operations''),
     Mem ''d_sb'' (Ptr ''struct super_block''),
     Mem ''d_time'' (Prim Culong),
     Mem ''d_fsdata'' (Ptr ''void''),
     Mem ''d_lockref'' struct_lockref,
     Mem '''' (Union False
       [Mem ''d_lru'' struct_list_head,
        Mem ''d_wait'' (Ptr ''wait_queue_head_t'')]),
     Mem ''d_sib'' struct_hlist_node,
     Mem ''d_children'' struct_hlist_head,
     Mem ''d_u'' (Union False
       [Mem ''d_alias'' struct_hlist_node,
        Mem ''d_in_lookup_hash'' struct_hlist_bl_node,
        Mem ''d_rcu'' struct_callback_head])]"

lemma meas_struct_dentry [simp]: "meas struct_dentry = (192, 8)"
  by (simp add: struct_dentry_def layout_eval)

section \<open>File system notification\<close>

definition struct_fsnotify_event :: cty where
  "struct_fsnotify_event = Struct False
    [Mem ''list'' struct_list_head]"

lemma meas_struct_fsnotify_event [simp]: "meas struct_fsnotify_event = (16, 8)"
  by (simp add: struct_fsnotify_event_def layout_eval)

definition struct_fsnotify_mark :: cty where
  "struct_fsnotify_mark = Struct False
    [Mem ''mask'' t___u32,
     Mem ''refcnt'' t_refcount_t,
     Mem ''group'' (Ptr ''struct fsnotify_group''),
     Mem ''g_list'' struct_list_head,
     Mem ''lock'' t_spinlock_t,
     Mem ''obj_list'' struct_hlist_node,
     Mem ''connector'' (Ptr ''struct fsnotify_mark_connector''),
     Mem ''ignore_mask'' t___u32,
     Mem ''flags'' (Prim Cuint)]"

lemma meas_struct_fsnotify_mark [simp]: "meas struct_fsnotify_mark = (72, 8)"
  by (simp add: struct_fsnotify_mark_def layout_eval)

definition enum_fsnotify_group_prio :: cenum where
  "enum_fsnotify_group_prio =
    \<lparr>en_prim = Cuint, en_values =
      [(''FSNOTIFY_PRIO_NORMAL'', 0),
       (''FSNOTIFY_PRIO_CONTENT'', 1),
       (''FSNOTIFY_PRIO_PRE_CONTENT'', 2),
       (''__FSNOTIFY_PRIO_NUM'', 3)]\<rparr>"

lemma en_prim_enum_fsnotify_group_prio [simp]: "en_prim enum_fsnotify_group_prio = Cuint"
  by (simp add: enum_fsnotify_group_prio_def)

definition struct_idr :: cty where
  "struct_idr = Struct False
    [Mem ''idr_rt'' struct_xarray,
     Mem ''idr_base'' (Prim Cuint),
     Mem ''idr_next'' (Prim Cuint)]"

lemma meas_struct_idr [simp]: "meas struct_idr = (24, 8)"
  by (simp add: struct_idr_def layout_eval)

definition struct_inotify_group_private_data :: cty where
  "struct_inotify_group_private_data = Struct False
    [Mem ''idr_lock'' t_spinlock_t,
     Mem ''idr'' struct_idr,
     Mem ''ucounts'' (Ptr ''struct ucounts'')]"

lemma meas_struct_inotify_group_private_data [simp]: "meas struct_inotify_group_private_data = (40, 8)"
  by (simp add: struct_inotify_group_private_data_def layout_eval)

definition struct_mempool_s :: cty where
  "struct_mempool_s = Struct False
    [Mem ''lock'' t_spinlock_t,
     Mem ''min_nr'' (Prim Cint),
     Mem ''curr_nr'' (Prim Cint),
     Mem ''elements'' (Ptr ''void *''),
     Mem ''pool_data'' (Ptr ''void''),
     Mem ''alloc'' (Ptr ''mempool_alloc_t''),
     Mem ''free'' (Ptr ''mempool_free_t''),
     Mem ''wait'' t_wait_queue_head_t]"

lemma meas_struct_mempool_s [simp]: "meas struct_mempool_s = (72, 8)"
  by (simp add: struct_mempool_s_def layout_eval)

definition t_mempool_t :: cty where
  "t_mempool_t = struct_mempool_s"

lemma meas_t_mempool_t [simp]: "meas t_mempool_t = (72, 8)"
  by (simp add: t_mempool_t_def layout_eval)

definition struct_fanotify_group_private_data :: cty where
  "struct_fanotify_group_private_data = Struct False
    [Mem ''merge_hash'' (Ptr ''struct hlist_head''),
     Mem ''access_list'' struct_list_head,
     Mem ''access_waitq'' t_wait_queue_head_t,
     Mem ''flags'' (Prim Cint),
     Mem ''f_flags'' (Prim Cint),
     Mem ''ucounts'' (Ptr ''struct ucounts''),
     Mem ''error_events_pool'' t_mempool_t]"

lemma meas_struct_fanotify_group_private_data [simp]: "meas struct_fanotify_group_private_data = (136, 8)"
  by (simp add: struct_fanotify_group_private_data_def layout_eval)

definition struct_fsnotify_group :: cty where
  "struct_fsnotify_group = Struct False
    [Mem ''ops'' (Ptr ''struct fsnotify_ops''),
     Mem ''refcnt'' t_refcount_t,
     Mem ''notification_lock'' t_spinlock_t,
     Mem ''notification_list'' struct_list_head,
     Mem ''notification_waitq'' t_wait_queue_head_t,
     Mem ''q_len'' (Prim Cuint),
     Mem ''max_events'' (Prim Cuint),
     Mem ''priority'' (Enum enum_fsnotify_group_prio),
     Mem ''shutdown'' t_bool,
     Mem ''flags'' (Prim Cint),
     Mem ''owner_flags'' (Prim Cuint),
     Mem ''mark_mutex'' struct_mutex,
     Mem ''user_waits'' t_atomic_t,
     Mem ''marks_list'' struct_list_head,
     Mem ''fsn_fa'' (Ptr ''struct fasync_struct''),
     Mem ''overflow_event'' (Ptr ''struct fsnotify_event''),
     Mem ''memcg'' (Ptr ''struct mem_cgroup''),
     Mem ''user_ns'' (Ptr ''struct user_namespace''),
     Mem '''' (Union False
       [Mem ''private'' (Ptr ''void''),
        Mem ''inotify_data'' struct_inotify_group_private_data,
        Mem ''fanotify_data'' struct_fanotify_group_private_data])]"

lemma meas_struct_fsnotify_group [simp]: "meas struct_fsnotify_group = (304, 8)"
  by (simp add: struct_fsnotify_group_def layout_eval)

definition struct_fanotify_event :: cty where
  "struct_fanotify_event = Struct False
    [Mem ''fse'' struct_fsnotify_event,
     Mem ''merge_list'' struct_hlist_node,
     Mem ''mask'' t_u32,
     Mem '''' (Struct False
       [Bit ''type'' (Prim Cuint) 3,
        Bit ''hash'' (Prim Cuint) 29]),
     Mem ''pid'' (Ptr ''struct pid'')]"

lemma meas_struct_fanotify_event [simp]: "meas struct_fanotify_event = (48, 8)"
  by (simp add: struct_fanotify_event_def layout_eval)

definition struct_fanotify_event_metadata :: cty where
  "struct_fanotify_event_metadata = Struct False
    [Mem ''event_len'' t___u32,
     Mem ''vers'' t___u8,
     Mem ''reserved'' t___u8,
     Mem ''metadata_len'' t___u16,
     Mem ''mask'' t___u64,
     Mem ''fd'' t___s32,
     Mem ''pid'' t___s32]"

lemma meas_struct_fanotify_event_metadata [simp]: "meas struct_fanotify_event_metadata = (24, 8)"
  by (simp add: struct_fanotify_event_metadata_def layout_eval)

end
