(* ===== verification/Kernel_Table.thy ===== *)
theory Kernel_Table
  imports Kernel_Fs
begin

text \<open>
  The structures and unions of the kernel theories together, and what their layouts promise.
\<close>

definition kernel_types :: "cty list" where
  "kernel_types =
    [struct_trace_entry, struct_trace_event_raw_sys_enter, struct_syscall_tp_t___2,
     struct_syscall_trace_enter, struct_trace_event_raw_task_newtask,
     struct_trace_event_raw_sched_process_exit, struct_fred_cs, struct_fred_ss, struct_pt_regs,
     struct_in_addr, struct_sockaddr_in, struct_in6_addr, struct_sockaddr_in6,
     struct___kernel_sockaddr_storage, struct_iovec, struct_user_msghdr, union_bpf_attr,
     struct_bpf_map_info, struct_bpf_prog_info, struct_bpf_link_info, struct_bpf_insn,
     struct_qspinlock, struct_raw_spinlock, struct_optimistic_spin_queue, struct_list_head,
     struct_mutex, struct_work_struct, struct_callback_head, struct_spinlock, struct_bpf_map,
     struct_bpf_mem_alloc, struct_pcpu_freelist, struct_bpf_lru_list, struct_bpf_common_lru,
     struct_bpf_lru, struct_percpu_counter, struct_bpf_htab, struct_bpf_array,
     struct_wait_queue_head, struct_llist_node, struct___call_single_node, struct_rcuwait,
     struct_irq_work, struct_bpf_ringbuf, struct_bpf_ringbuf_map, struct_sock_filter,
     struct_bpf_prog, struct_rb_node, struct_latch_tree_node, struct_bpf_ksym, struct_llist_head,
     struct_bpf_stream, struct_bpf_prog_aux, struct_bpf_link, struct_bpf_raw_tp_link,
     struct_refcount_struct, struct_rw_semaphore, struct_arch_uprobe, struct_uprobe, struct_path,
     struct_bpf_uprobe_multi_link, struct_hlist_node, struct_trace_event,
     struct_trace_event_call, struct_trace_event_class, struct_thread_info, struct_load_weight,
     struct_sched_avg, struct_sched_entity, struct_sched_rt_entity, struct_timerqueue_node,
     struct_hrtimer, struct_sched_dl_entity, struct_scx_dsq_list_node, struct_sched_ext_entity,
     struct_uclamp_se, struct_sched_statistics, struct_hlist_head, struct_cpumask,
     union_rcu_special, struct_sched_info, struct_plist_node, struct_restart_block,
     struct_prev_cputime, struct_seqcount, struct_vtime, struct_rb_root, struct_rb_root_cached,
     struct_timerqueue_head, struct_posix_cputimer_base, struct_posix_cputimers,
     struct_posix_cputimers_work, struct_sysv_sem, struct_sysv_shm, struct_sigpending,
     struct_seccomp, struct_syscall_user_dispatch, struct_wake_q_node, struct_task_io_accounting,
     struct_seqcount_spinlock, struct_arch_tlbflush_unmap_batch, struct_tlbflush_unmap_batch,
     struct_page_frag, struct_latency_record, struct_kmap_ctrl, struct_timer_list,
     struct_da_monitor, struct_ltl_monitor, union_rv_task_monitor, struct_desc_struct,
     struct_thread_shstk, struct_thread_struct, struct_task_struct, struct_upid, struct_pid,
     struct_cpu_itimer, struct_task_cputime_atomic, struct_thread_group_cputimer, struct_rlimit,
     struct_pacct_struct, struct_signal_struct, struct_sigaction, struct_k_sigaction,
     struct_sighand_struct, struct_cred, struct_nsproxy, struct_maple_tree, struct_uprobes_state,
     struct_mm_struct, struct_pgprot, struct_vm_userfaultfd_ctx, struct_vm_area_struct,
     struct_linux_binprm, struct_hlist_nulls_node, struct_sock_common, struct_sk_buff_list,
     struct_sk_buff_head, struct_qrwlock, struct_sock_cgroup_data, struct_xarray, struct_sock,
     struct_socket_wq, struct_socket, struct_iov_iter, struct_msghdr, struct_proto_ops,
     struct_inet_cork, struct_flowi_tunnel, struct_flowi_common, union_flowi_uli, struct_flowi4,
     struct_flowi6, struct_flowi, struct_inet_cork_full, struct_inet_sock, struct_fastopen_queue,
     struct_request_sock_queue, struct_inet_connection_sock, struct_minmax_sample, struct_minmax,
     struct_tcp_options_received, struct_tcp_rack, struct_tcp_sack_block, struct_tcp_sock,
     struct_file_ra_state, struct_file, struct_fdtable, struct_files_struct,
     struct_address_space, struct_inode, struct_hlist_bl_node, struct_qstr,
     union_shortname_store, struct_lockref, struct_dentry, struct_fsnotify_event,
     struct_fsnotify_mark, struct_idr, struct_inotify_group_private_data, struct_mempool_s,
     struct_fanotify_group_private_data, struct_fsnotify_group, struct_fanotify_event,
     struct_fanotify_event_metadata]"

lemma members_struct_bpf_ringbuf:
  "member_at struct_bpf_ringbuf ''consumer_pos'' = Some (4096, 8)"
  "member_at struct_bpf_ringbuf ''producer_pos'' = Some (8192, 8)"
  "member_at struct_bpf_ringbuf ''data'' = Some (12288, 0)"
  by (simp_all add: struct_bpf_ringbuf_def member_at_def shift_def layout_eval)


end
