(* ===== verification/Probe_Layout.thy ===== *)
theory Probe_Layout
  imports Kernel_Bpf Proc_Observer Net_Observer Tls_Bpf
begin

text \<open>
  The layouts the programs and the user-space readers rely on, checked against the declarations of
  \<open>vmlinux.h\<close>: the contexts and user structures the eBPF programs declare by hand, the records they
  send, and the Go types \<open>bpf2go\<close> generates for these records.
\<close>

named_theorems member_simps \<open>sizes and members of the structures below\<close>

section \<open>Structures the programs declare\<close>

definition c_sys_enter_execve_ctx :: cty where
  "c_sys_enter_execve_ctx = Struct False
    [Mem ''pad'' t___u64, Mem ''syscall_nr'' t___s32, Mem ''pad2'' t___u32,
     Mem ''filename'' (Ptr ''char''), Mem ''argv'' (Ptr ''char *''), Mem ''envp'' (Ptr ''char *'')]"

definition c_sched_process_exit_ctx :: cty where
  "c_sched_process_exit_ctx = Struct False
    [Mem ''pad'' t___u64, Mem ''comm'' (Arr 16 (Prim Cchar)), Mem ''pid'' t___s32, Mem ''prio'' t___s32]"

definition c_sys_enter_exit_group_ctx :: cty where
  "c_sys_enter_exit_group_ctx = Struct False
    [Mem ''pad'' t___u64, Mem ''syscall_nr'' t___s32, Mem ''pad2'' t___u32, Mem ''error_code'' t___u64]"

definition c_task_newtask_ctx :: cty where
  "c_task_newtask_ctx = Struct False
    [Mem ''pad'' t___u64, Mem ''pid'' t___s32, Mem ''comm'' (Arr 16 (Prim Cchar)),
     Mem ''clone_flags'' t___u64, Mem ''oom_score_adj'' t___s16]"

definition c_sys_enter_connect_ctx :: cty where
  "c_sys_enter_connect_ctx = Struct False
    [Mem ''pad'' t___u64, Mem ''syscall_nr'' t___s32, Mem ''pad2'' t___u32,
     Mem ''fd'' t___u64, Mem ''uservaddr'' t___u64, Mem ''addrlen'' t___u64]"

definition c_sys_enter_write_ctx :: cty where
  "c_sys_enter_write_ctx = Struct False
    [Mem ''pad'' t___u64, Mem ''syscall_nr'' t___s32, Mem ''pad2'' t___u32,
     Mem ''fd'' t___u64, Mem ''buf'' t___u64, Mem ''count'' t___u64]"

definition c_sys_enter_sendto_ctx :: cty where
  "c_sys_enter_sendto_ctx = Struct False
    [Mem ''pad'' t___u64, Mem ''syscall_nr'' t___s32, Mem ''pad2'' t___u32,
     Mem ''fd'' t___u64, Mem ''buff'' t___u64, Mem ''len'' t___u64,
     Mem ''flags'' t___u64, Mem ''addr'' t___u64, Mem ''addr_len'' t___u64]"

definition c_sys_enter_sendmsg_ctx :: cty where
  "c_sys_enter_sendmsg_ctx = Struct False
    [Mem ''pad'' t___u64, Mem ''syscall_nr'' t___s32, Mem ''pad2'' t___u32,
     Mem ''fd'' t___u64, Mem ''msg'' t___u64, Mem ''flags'' t___u64]"

definition c_sys_enter_close_ctx :: cty where
  "c_sys_enter_close_ctx = Struct False
    [Mem ''pad'' t___u64, Mem ''syscall_nr'' t___s32, Mem ''pad2'' t___u32, Mem ''fd'' t___u64]"

definition c_msghdr_bpf :: cty where
  "c_msghdr_bpf = Struct False
    [Mem ''msg_name'' t___u64, Mem ''msg_namelen'' t___u32, Mem ''__pad1'' t___u32,
     Mem ''msg_iov'' t___u64, Mem ''msg_iovlen'' t___u64, Mem ''msg_control'' t___u64,
     Mem ''msg_controllen'' t___u64, Mem ''msg_flags'' t___u32, Mem ''__pad2'' t___u32]"

definition c_iovec_bpf :: cty where
  "c_iovec_bpf = Struct False [Mem ''iov_base'' t___u64, Mem ''iov_len'' t___u64]"

definition c_event_hdr :: cty where
  "c_event_hdr = Struct False
    [Mem ''pid'' t___u32, Mem ''kind'' t___u32, Mem ''nargs'' t___u32, Mem ''ts_ns'' t___s64,
     Mem ''exit_code'' t___s32, Mem ''has_exit_code'' t___u8, Mem ''is_toplevel'' t___u8,
     Mem ''filename_len'' t___u32, Mem ''args_size'' t___u32]"

definition c_exec_scratch :: cty where
  "c_exec_scratch = Struct False
    [Mem ''hdr'' c_event_hdr, Mem ''filename'' (Arr FILENAME_LEN (Prim Cchar)),
     Mem ''args'' (Arr (MAX_ARGS_BYTES * 2) (Prim Cchar))]"

definition c_proc_info :: cty where
  "c_proc_info = Struct False [Mem ''is_shell'' t___u8, Mem ''is_toplevel'' t___u8]"

definition c_net_event_hdr :: cty where
  "c_net_event_hdr = Struct False
    [Mem ''type'' t___u8, Mem ''family'' t___u8, Mem ''port'' t___u16, Mem ''tgid'' t___u32,
     Mem ''tid'' t___u32, Mem ''fd'' t___u32, Mem ''ts_ns'' t___u64, Mem ''addr'' (Arr 16 t___u8),
     Mem ''seq'' t___u64, Mem ''payload_len'' t___u32]"

definition c_net_event :: cty where
  "c_net_event = Struct False
    [Mem ''hdr'' c_net_event_hdr, Mem ''payload'' (Arr HELLO_CAP_LEN t___u8)]"

definition c_conn_key :: cty where
  "c_conn_key = Struct False [Mem ''tgid'' t___u32, Mem ''fd'' t___u32]"

definition c_conn_state :: cty where
  "c_conn_state = Struct False
    [Mem ''family'' t___u8, Mem ''addr'' (Arr 16 t___u8), Mem ''port'' t___u16,
     Mem ''hello_captured'' t___u8, Mem ''open_ts_ns'' t___u64]"

definition c_ssl_frame_hdr :: cty where
  "c_ssl_frame_hdr = Struct False
    [Mem ''tgid'' t___u32, Mem ''tid'' t___u32, Mem ''ts_ns'' t___u64, Mem ''len'' t___u32]"

definition c_ssl_frame :: cty where
  "c_ssl_frame = Struct False
    [Mem ''hdr'' c_ssl_frame_hdr, Mem ''payload'' (Arr SSL_CAP_LEN t___u8)]"

section \<open>The Go types of the records\<close>

text \<open>\<open>binary.Read\<close> fills the fields of a Go structure from consecutive bytes, blank fields included
  and without alignment: a packed structure. A blank field is an unnamed member.\<close>

definition go_bpfEventHdr :: cty where
  "go_bpfEventHdr = Struct True
    [Mem ''Pid'' (Prim Cuint), Mem ''Kind'' (Prim Cuint), Mem ''Nargs'' (Prim Cuint),
     Mem '''' (Arr 4 (Prim Cuchar)), Mem ''TsNs'' (Prim Clong), Mem ''ExitCode'' (Prim Cint),
     Mem ''HasExitCode'' (Prim Cuchar), Mem ''IsToplevel'' (Prim Cuchar),
     Mem '''' (Arr 2 (Prim Cuchar)), Mem ''FilenameLen'' (Prim Cuint), Mem ''ArgsSize'' (Prim Cuint)]"

definition go_bpfProcInfo :: cty where
  "go_bpfProcInfo = Struct True [Mem ''IsShell'' (Prim Cuchar), Mem ''IsToplevel'' (Prim Cuchar)]"

definition go_bpfNetEventHdr :: cty where
  "go_bpfNetEventHdr = Struct True
    [Mem ''Type'' (Prim Cuchar), Mem ''Family'' (Prim Cuchar), Mem ''Port'' (Prim Cushort),
     Mem ''Tgid'' (Prim Cuint), Mem ''Tid'' (Prim Cuint), Mem ''Fd'' (Prim Cuint),
     Mem ''TsNs'' (Prim Culong), Mem ''Addr'' (Arr 16 (Prim Cuchar)), Mem ''Seq'' (Prim Culong),
     Mem ''PayloadLen'' (Prim Cuint), Mem '''' (Arr 4 (Prim Cuchar))]"

definition go_bpfConnKey :: cty where
  "go_bpfConnKey = Struct True [Mem ''Tgid'' (Prim Cuint), Mem ''Fd'' (Prim Cuint)]"

definition go_bpfConnState :: cty where
  "go_bpfConnState = Struct True
    [Mem ''Family'' (Prim Cuchar), Mem ''Addr'' (Arr 16 (Prim Cuchar)), Mem '''' (Arr 1 (Prim Cuchar)),
     Mem ''Port'' (Prim Cushort), Mem ''HelloCaptured'' (Prim Cuchar), Mem '''' (Arr 3 (Prim Cuchar)),
     Mem ''OpenTsNs'' (Prim Culong)]"

definition go_tlsbpfSslFrameHdr :: cty where
  "go_tlsbpfSslFrameHdr = Struct True
    [Mem ''Tgid'' (Prim Cuint), Mem ''Tid'' (Prim Cuint), Mem ''TsNs'' (Prim Culong),
     Mem ''Len'' (Prim Cuint), Mem '''' (Arr 4 (Prim Cuchar))]"

section \<open>Computed layouts\<close>

lemma layout_c_sys_enter_execve_ctx [member_simps]:
  "meas c_sys_enter_execve_ctx = (40, 8)"
  "members c_sys_enter_execve_ctx =
    [(''pad'', 0, 64), (''syscall_nr'', 64, 32), (''pad2'', 96, 32), (''filename'', 128, 64),
     (''argv'', 192, 64), (''envp'', 256, 64)]"
  by (simp_all add: c_sys_enter_execve_ctx_def shift_def layout_eval)

lemma layout_c_sched_process_exit_ctx [member_simps]:
  "meas c_sched_process_exit_ctx = (32, 8)"
  "members c_sched_process_exit_ctx =
    [(''pad'', 0, 64), (''comm'', 64, 128), (''pid'', 192, 32), (''prio'', 224, 32)]"
  by (simp_all add: c_sched_process_exit_ctx_def shift_def layout_eval)

lemma layout_c_sys_enter_exit_group_ctx [member_simps]:
  "meas c_sys_enter_exit_group_ctx = (24, 8)"
  "members c_sys_enter_exit_group_ctx =
    [(''pad'', 0, 64), (''syscall_nr'', 64, 32), (''pad2'', 96, 32), (''error_code'', 128, 64)]"
  by (simp_all add: c_sys_enter_exit_group_ctx_def shift_def layout_eval)

lemma layout_c_task_newtask_ctx [member_simps]:
  "meas c_task_newtask_ctx = (48, 8)"
  "members c_task_newtask_ctx =
    [(''pad'', 0, 64), (''pid'', 64, 32), (''comm'', 96, 128), (''clone_flags'', 256, 64),
     (''oom_score_adj'', 320, 16)]"
  by (simp_all add: c_task_newtask_ctx_def shift_def layout_eval)

lemma layout_c_sys_enter_connect_ctx [member_simps]:
  "meas c_sys_enter_connect_ctx = (40, 8)"
  "members c_sys_enter_connect_ctx =
    [(''pad'', 0, 64), (''syscall_nr'', 64, 32), (''pad2'', 96, 32), (''fd'', 128, 64),
     (''uservaddr'', 192, 64), (''addrlen'', 256, 64)]"
  by (simp_all add: c_sys_enter_connect_ctx_def shift_def layout_eval)

lemma layout_c_sys_enter_write_ctx [member_simps]:
  "meas c_sys_enter_write_ctx = (40, 8)"
  "members c_sys_enter_write_ctx =
    [(''pad'', 0, 64), (''syscall_nr'', 64, 32), (''pad2'', 96, 32), (''fd'', 128, 64),
     (''buf'', 192, 64), (''count'', 256, 64)]"
  by (simp_all add: c_sys_enter_write_ctx_def shift_def layout_eval)

lemma layout_c_sys_enter_sendto_ctx [member_simps]:
  "meas c_sys_enter_sendto_ctx = (64, 8)"
  "members c_sys_enter_sendto_ctx =
    [(''pad'', 0, 64), (''syscall_nr'', 64, 32), (''pad2'', 96, 32), (''fd'', 128, 64),
     (''buff'', 192, 64), (''len'', 256, 64), (''flags'', 320, 64), (''addr'', 384, 64),
     (''addr_len'', 448, 64)]"
  by (simp_all add: c_sys_enter_sendto_ctx_def shift_def layout_eval)

lemma layout_c_sys_enter_sendmsg_ctx [member_simps]:
  "meas c_sys_enter_sendmsg_ctx = (40, 8)"
  "members c_sys_enter_sendmsg_ctx =
    [(''pad'', 0, 64), (''syscall_nr'', 64, 32), (''pad2'', 96, 32), (''fd'', 128, 64),
     (''msg'', 192, 64), (''flags'', 256, 64)]"
  by (simp_all add: c_sys_enter_sendmsg_ctx_def shift_def layout_eval)

lemma layout_c_sys_enter_close_ctx [member_simps]:
  "meas c_sys_enter_close_ctx = (24, 8)"
  "members c_sys_enter_close_ctx =
    [(''pad'', 0, 64), (''syscall_nr'', 64, 32), (''pad2'', 96, 32), (''fd'', 128, 64)]"
  by (simp_all add: c_sys_enter_close_ctx_def shift_def layout_eval)

lemma layout_c_msghdr_bpf [member_simps]:
  "meas c_msghdr_bpf = (56, 8)"
  "members c_msghdr_bpf =
    [(''msg_name'', 0, 64), (''msg_namelen'', 64, 32), (''__pad1'', 96, 32),
     (''msg_iov'', 128, 64), (''msg_iovlen'', 192, 64), (''msg_control'', 256, 64),
     (''msg_controllen'', 320, 64), (''msg_flags'', 384, 32), (''__pad2'', 416, 32)]"
  by (simp_all add: c_msghdr_bpf_def shift_def layout_eval)

lemma layout_c_iovec_bpf [member_simps]:
  "meas c_iovec_bpf = (16, 8)"
  "members c_iovec_bpf =
    [(''iov_base'', 0, 64), (''iov_len'', 64, 64)]"
  by (simp_all add: c_iovec_bpf_def shift_def layout_eval)

lemma layout_c_event_hdr [member_simps]:
  "meas c_event_hdr = (40, 8)"
  "members c_event_hdr =
    [(''pid'', 0, 32), (''kind'', 32, 32), (''nargs'', 64, 32), (''ts_ns'', 128, 64),
     (''exit_code'', 192, 32), (''has_exit_code'', 224, 8), (''is_toplevel'', 232, 8),
     (''filename_len'', 256, 32), (''args_size'', 288, 32)]"
  by (simp_all add: c_event_hdr_def shift_def layout_eval)

lemma layout_c_exec_scratch [member_simps]:
  "meas c_exec_scratch = (16680, 8)"
  "members c_exec_scratch =
    [(''hdr'', 0, 320), (''filename'', 320, 2048), (''args'', 2368, 131072)]"
  by (simp_all add: c_exec_scratch_def FILENAME_LEN_def MAX_ARGS_BYTES_def layout_c_event_hdr shift_def layout_eval)

lemma layout_c_proc_info [member_simps]:
  "meas c_proc_info = (2, 1)"
  "members c_proc_info =
    [(''is_shell'', 0, 8), (''is_toplevel'', 8, 8)]"
  by (simp_all add: c_proc_info_def shift_def layout_eval)

lemma layout_c_net_event_hdr [member_simps]:
  "meas c_net_event_hdr = (56, 8)"
  "members c_net_event_hdr =
    [(''type'', 0, 8), (''family'', 8, 8), (''port'', 16, 16), (''tgid'', 32, 32),
     (''tid'', 64, 32), (''fd'', 96, 32), (''ts_ns'', 128, 64), (''addr'', 192, 128),
     (''seq'', 320, 64), (''payload_len'', 384, 32)]"
  by (simp_all add: c_net_event_hdr_def shift_def layout_eval)

lemma layout_c_net_event [member_simps]:
  "meas c_net_event = (1080, 8)"
  "members c_net_event =
    [(''hdr'', 0, 448), (''payload'', 448, 8192)]"
  by (simp_all add: c_net_event_def HELLO_CAP_LEN_def layout_c_net_event_hdr shift_def layout_eval)

lemma layout_c_conn_key [member_simps]:
  "meas c_conn_key = (8, 4)"
  "members c_conn_key =
    [(''tgid'', 0, 32), (''fd'', 32, 32)]"
  by (simp_all add: c_conn_key_def shift_def layout_eval)

lemma layout_c_conn_state [member_simps]:
  "meas c_conn_state = (32, 8)"
  "members c_conn_state =
    [(''family'', 0, 8), (''addr'', 8, 128), (''port'', 144, 16), (''hello_captured'', 160, 8),
     (''open_ts_ns'', 192, 64)]"
  by (simp_all add: c_conn_state_def shift_def layout_eval)

lemma layout_c_ssl_frame_hdr [member_simps]:
  "meas c_ssl_frame_hdr = (24, 8)"
  "members c_ssl_frame_hdr =
    [(''tgid'', 0, 32), (''tid'', 32, 32), (''ts_ns'', 64, 64), (''len'', 128, 32)]"
  by (simp_all add: c_ssl_frame_hdr_def shift_def layout_eval)

lemma layout_c_ssl_frame [member_simps]:
  "meas c_ssl_frame = (16408, 8)"
  "members c_ssl_frame =
    [(''hdr'', 0, 192), (''payload'', 192, 131072)]"
  by (simp_all add: c_ssl_frame_def SSL_CAP_LEN_def layout_c_ssl_frame_hdr shift_def layout_eval)

lemma layout_go_bpfEventHdr [member_simps]:
  "meas go_bpfEventHdr = (40, 1)"
  "members go_bpfEventHdr =
    [(''Pid'', 0, 32), (''Kind'', 32, 32), (''Nargs'', 64, 32), (''TsNs'', 128, 64),
     (''ExitCode'', 192, 32), (''HasExitCode'', 224, 8), (''IsToplevel'', 232, 8),
     (''FilenameLen'', 256, 32), (''ArgsSize'', 288, 32)]"
  by (simp_all add: go_bpfEventHdr_def shift_def layout_eval)

lemma layout_go_bpfProcInfo [member_simps]:
  "meas go_bpfProcInfo = (2, 1)"
  "members go_bpfProcInfo =
    [(''IsShell'', 0, 8), (''IsToplevel'', 8, 8)]"
  by (simp_all add: go_bpfProcInfo_def shift_def layout_eval)

lemma layout_go_bpfNetEventHdr [member_simps]:
  "meas go_bpfNetEventHdr = (56, 1)"
  "members go_bpfNetEventHdr =
    [(''Type'', 0, 8), (''Family'', 8, 8), (''Port'', 16, 16), (''Tgid'', 32, 32),
     (''Tid'', 64, 32), (''Fd'', 96, 32), (''TsNs'', 128, 64), (''Addr'', 192, 128),
     (''Seq'', 320, 64), (''PayloadLen'', 384, 32)]"
  by (simp_all add: go_bpfNetEventHdr_def shift_def layout_eval)

lemma layout_go_bpfConnKey [member_simps]:
  "meas go_bpfConnKey = (8, 1)"
  "members go_bpfConnKey =
    [(''Tgid'', 0, 32), (''Fd'', 32, 32)]"
  by (simp_all add: go_bpfConnKey_def shift_def layout_eval)

lemma layout_go_bpfConnState [member_simps]:
  "meas go_bpfConnState = (32, 1)"
  "members go_bpfConnState =
    [(''Family'', 0, 8), (''Addr'', 8, 128), (''Port'', 144, 16), (''HelloCaptured'', 160, 8),
     (''OpenTsNs'', 192, 64)]"
  by (simp_all add: go_bpfConnState_def shift_def layout_eval)

lemma layout_go_tlsbpfSslFrameHdr [member_simps]:
  "meas go_tlsbpfSslFrameHdr = (24, 1)"
  "members go_tlsbpfSslFrameHdr =
    [(''Tgid'', 0, 32), (''Tid'', 32, 32), (''TsNs'', 64, 64), (''Len'', 128, 32)]"
  by (simp_all add: go_tlsbpfSslFrameHdr_def shift_def layout_eval)

lemma members_struct_syscall_tp_t___2 [member_simps]:
  "members struct_syscall_tp_t___2 =
    [(''ent'', 0, 64), (''syscall_nr'', 64, 32), (''args'', 128, 384)]"
  by (simp add: struct_syscall_tp_t___2_def shift_def layout_eval)

lemma members_struct_trace_event_raw_task_newtask [member_simps]:
  "members struct_trace_event_raw_task_newtask =
    [(''ent'', 0, 64), (''pid'', 64, 32), (''comm'', 96, 128), (''clone_flags'', 256, 64),
     (''oom_score_adj'', 320, 16), (''__data'', 336, 0)]"
  by (simp add: struct_trace_event_raw_task_newtask_def shift_def layout_eval)

lemma members_struct_trace_event_raw_sched_process_exit [member_simps]:
  "members struct_trace_event_raw_sched_process_exit =
    [(''ent'', 0, 64), (''comm'', 64, 128), (''pid'', 192, 32), (''prio'', 224, 32),
     (''group_dead'', 256, 8), (''__data'', 264, 0)]"
  by (simp add: struct_trace_event_raw_sched_process_exit_def shift_def layout_eval)

lemma members_struct_user_msghdr [member_simps]:
  "members struct_user_msghdr =
    [(''msg_name'', 0, 64), (''msg_namelen'', 64, 32), (''msg_iov'', 128, 64),
     (''msg_iovlen'', 192, 64), (''msg_control'', 256, 64), (''msg_controllen'', 320, 64),
     (''msg_flags'', 384, 32)]"
  by (simp add: struct_user_msghdr_def shift_def layout_eval)

lemma members_struct_iovec [member_simps]:
  "members struct_iovec =
    [(''iov_base'', 0, 64), (''iov_len'', 64, 64)]"
  by (simp add: struct_iovec_def shift_def layout_eval)

lemma members_struct_sockaddr_in [member_simps]:
  "members struct_sockaddr_in =
    [(''sin_family'', 0, 16), (''sin_port'', 16, 16), (''sin_addr'', 32, 32), (''__pad'', 64, 64)]"
  by (simp add: struct_sockaddr_in_def shift_def layout_eval)

lemma members_struct_sockaddr_in6 [member_simps]:
  "members struct_sockaddr_in6 =
    [(''sin6_family'', 0, 16), (''sin6_port'', 16, 16), (''sin6_flowinfo'', 32, 32),
     (''sin6_addr'', 64, 128), (''sin6_scope_id'', 192, 32)]"
  by (simp add: struct_sockaddr_in6_def shift_def layout_eval)

lemma members_struct_pt_regs [member_simps]:
  "members struct_pt_regs =
    [(''r15'', 0, 64), (''r14'', 64, 64), (''r13'', 128, 64), (''r12'', 192, 64),
     (''bp'', 256, 64), (''bx'', 320, 64), (''r11'', 384, 64), (''r10'', 448, 64),
     (''r9'', 512, 64), (''r8'', 576, 64), (''ax'', 640, 64), (''cx'', 704, 64),
     (''dx'', 768, 64), (''si'', 832, 64), (''di'', 896, 64), (''orig_ax'', 960, 64),
     (''ip'', 1024, 64), (''cs'', 1088, 16), (''csx'', 1088, 64), (''fred_cs'', 1088, 64),
     (''flags'', 1152, 64), (''sp'', 1216, 64), (''ss'', 1280, 16), (''ssx'', 1280, 64),
     (''fred_ss'', 1280, 64)]"
  by (simp add: struct_pt_regs_def shift_def layout_eval)

section \<open>Comparing layouts\<close>

text \<open>Where an argument of a system call lies in the record of its tracepoint.\<close>

definition syscall_arg :: "nat \<Rightarrow> (nat \<times> nat) option" where
  "syscall_arg i = map_option (\<lambda>(p, n). (p + 8 * i, 8)) (member_at struct_syscall_tp_t___2 ''args'')"

text \<open>The named members of one structure lie where those of another do.\<close>

definition same_members :: "cty \<Rightarrow> string list \<Rightarrow> cty \<Rightarrow> string list \<Rightarrow> bool" where
  "same_members c ns k ms \<longleftrightarrow>
     map (member_at c) ns = map (member_at k) ms \<and> None \<notin> set (map (member_at c) ns)"

definition all_named :: "cty \<Rightarrow> string list" where
  "all_named t = map fst (members t)"

lemma syscall_arg_eval: "syscall_arg i = Some (16 + 8 * i, 8)"
  by (simp add: syscall_arg_def member_at_def member_simps)

text \<open>
  C29. The contexts and user structures the eBPF programs declare by hand agree with the kernel's
  declarations in \<open>vmlinux.h\<close>: the fields of the system call contexts are the arguments of the
  tracepoint record in order, the fields of the fork and exit contexts have the offsets and widths
  of their event records, the message header and vector have those of \<open>user_msghdr\<close> and
  \<open>iovec\<close>, and the second and third parameter of an x86-64 call are \<open>si\<close> and \<open>dx\<close>.
\<close>

theorem kernel_structs_agree:
  "map (member_at c_sys_enter_execve_ctx) [''filename'', ''argv'', ''envp''] = map syscall_arg [0, 1, 2] \<and>
   member_at c_sys_enter_exit_group_ctx ''error_code'' = syscall_arg 0 \<and>
   map (member_at c_sys_enter_connect_ctx) [''fd'', ''uservaddr'', ''addrlen''] = map syscall_arg [0, 1, 2] \<and>
   map (member_at c_sys_enter_write_ctx) [''fd'', ''buf'', ''count''] = map syscall_arg [0, 1, 2] \<and>
   map (member_at c_sys_enter_sendto_ctx) [''fd'', ''buff'', ''len'', ''flags'', ''addr'', ''addr_len'']
     = map syscall_arg [0, 1, 2, 3, 4, 5] \<and>
   map (member_at c_sys_enter_sendmsg_ctx) [''fd'', ''msg'', ''flags''] = map syscall_arg [0, 1, 2] \<and>
   member_at c_sys_enter_close_ctx ''fd'' = syscall_arg 0 \<and>
   same_members c_task_newtask_ctx [''pid'', ''comm'', ''clone_flags'', ''oom_score_adj'']
     struct_trace_event_raw_task_newtask [''pid'', ''comm'', ''clone_flags'', ''oom_score_adj''] \<and>
   same_members c_sched_process_exit_ctx [''comm'', ''pid'', ''prio'']
     struct_trace_event_raw_sched_process_exit [''comm'', ''pid'', ''prio''] \<and>
   same_members c_msghdr_bpf
     [''msg_name'', ''msg_namelen'', ''msg_iov'', ''msg_iovlen'', ''msg_control'', ''msg_controllen'', ''msg_flags'']
     struct_user_msghdr
     [''msg_name'', ''msg_namelen'', ''msg_iov'', ''msg_iovlen'', ''msg_control'', ''msg_controllen'', ''msg_flags''] \<and>
   same_members c_iovec_bpf [''iov_base'', ''iov_len''] struct_iovec [''iov_base'', ''iov_len''] \<and>
   sizeof c_msghdr_bpf = sizeof struct_user_msghdr \<and> sizeof c_iovec_bpf = sizeof struct_iovec"
  unfolding syscall_arg_eval same_members_def sizeof_def
  by (simp add: member_at_def member_simps)

section \<open>Addresses\<close>

text \<open>The bytes of a member of an object.\<close>

definition field_of :: "cty \<Rightarrow> string \<Rightarrow> bytes \<Rightarrow> bytes" where
  "field_of t n b = (case member_at t n of Some (p, w) \<Rightarrow> seg p w b | None \<Rightarrow> [])"

text \<open>The kernel's type for a family, with the names of the members for family, port and address.\<close>

definition sockaddr_of :: "u16 \<Rightarrow> (cty \<times> string \<times> string \<times> string) option" where
  "sockaddr_of family =
     (if family = AF_INET then Some (struct_sockaddr_in, ''sin_family'', ''sin_port'', ''sin_addr'')
      else if family = AF_INET6 then Some (struct_sockaddr_in6, ''sin6_family'', ''sin6_port'', ''sin6_addr'')
      else None)"

lemma sockaddr_fields:
  "field_of struct_sockaddr_in ''sin_family'' b = seg 0 2 b"
  "field_of struct_sockaddr_in ''sin_port'' b = seg 2 2 b"
  "field_of struct_sockaddr_in ''sin_addr'' b = seg 4 4 b"
  "field_of struct_sockaddr_in6 ''sin6_family'' b = seg 0 2 b"
  "field_of struct_sockaddr_in6 ''sin6_port'' b = seg 2 2 b"
  "field_of struct_sockaddr_in6 ''sin6_addr'' b = seg 8 16 b"
  by (simp_all add: field_of_def member_at_def member_simps)

lemma two_bytes: "length xs = 2 \<Longrightarrow> xs = [xs ! 0, xs ! 1]"
  by (cases xs; cases "tl xs") auto

lemma seg_put_at_0: "p + w \<le> length xs \<Longrightarrow> seg p w (put_at 0 xs ys) = seg p w xs"
  by (simp add: seg_def put_at_def)

lemma read_conn_state_fields:
  assumes "read_user_ok env um" "um a 2 = Some fb" "get_u16 0 fb = family"
    and "family = AF_INET \<or> family = AF_INET6" "length sa = (if family = AF_INET then 16 else 28)"
    and "um a (length sa) = Some sa"
  shows "read_conn_state env a = Some \<lparr>cs_family = ucast family,
    cs_addr = (if family = AF_INET then put_at 0 (seg 4 4 sa) (replicate 16 0)
               else put_at 0 (seg 8 16 sa) (replicate 16 0)),
    cs_port = be_u16 (seg 2 2 sa ! 0) (seg 2 2 sa ! 1), cs_hello_captured = 0,
    cs_open_ts_ns = ktime env\<rparr>"
proof -
  have f: "read_user env a (replicate 2 0) = (0, fb)"
    using read_user_Some [OF assms(1), of a "replicate 2 0"] assms(2) by simp
  let ?n = "if family = AF_INET then 16 else 28 :: nat"
  have r: "read_user env a (replicate ?n 0) = (0, sa)"
    using read_user_Some [OF assms(1), of a "replicate ?n 0"] assms(5,6) by simp
  have tk: "take ?n (replicate 28 0 :: bytes) = replicate ?n 0" by simp
  let ?sa = "put_at 0 sa (replicate 28 0 :: bytes)"
  have l: "16 \<le> length sa" using assms(5) by simp
  have s2: "seg 2 2 ?sa = seg 2 2 sa" "seg 4 4 ?sa = seg 4 4 sa"
    using l by (simp_all add: seg_put_at_0)
  have s8: "family \<noteq> AF_INET \<Longrightarrow> seg 8 16 ?sa = seg 8 16 sa"
    using assms(5) by (simp add: seg_put_at_0)
  have "length (seg 2 2 sa) = 2" using l by simp
  then have p: "get_u16 2 ?sa = be_u16 (seg 2 2 sa ! 1) (seg 2 2 sa ! 0)"
    using ucast_be_u16_le [of "seg 2 2 sa ! 0" "seg 2 2 sa ! 1"] two_bytes [of "seg 2 2 sa"]
    unfolding get_u16_def s2 by metis
  show ?thesis
    unfolding read_conn_state_def Let_def f fst_conv snd_conv assms(3) tk r p swap_port s2
    using assms(4) s8 by auto
qed

text \<open>
  The address \<open>trace_connect\<close> reads through constant offsets is the one the kernel's declarations
  put there: for a \<open>sockaddr_in\<close> or \<open>sockaddr_in6\<close> in user memory, the connection is recorded with
  exactly its family, its address member and its port member in network order, read with a size that is
  the size of the structure.
\<close>

lemma connect_reads_kernel_sockaddr:
  assumes "read_user_ok env um" "sockaddr_of family = Some (t, fam, port, addr)"
    and "length sa = sizeof t" "um a (sizeof t) = Some sa" "um a 2 = Some (field_of t fam sa)"
    and "get_u16 0 (field_of t fam sa) = family"
  shows "read_conn_state env a = Some \<lparr>cs_family = ucast family,
    cs_addr = field_of t addr sa @ replicate (16 - length (field_of t addr sa)) 0,
    cs_port = be_u16 (field_of t port sa ! 0) (field_of t port sa ! 1),
    cs_hello_captured = 0, cs_open_ts_ns = ktime env\<rparr>"
proof (cases "family = AF_INET")
  case True
  with assms(2) have t: "t = struct_sockaddr_in" "fam = ''sin_family''" "port = ''sin_port''" "addr = ''sin_addr''"
    by (simp_all add: sockaddr_of_def)
  have l: "length sa = 16" using assms(3) t by (simp add: sizeof_def)
  show ?thesis
    using read_conn_state_fields [OF assms(1,5,6), of sa] True l assms(3,4)
    by (simp add: t sockaddr_fields put_at_def)
next
  case False
  with assms(2) have t: "t = struct_sockaddr_in6" "fam = ''sin6_family''" "port = ''sin6_port''"
    "addr = ''sin6_addr''" "family = AF_INET6"
    by (simp_all add: sockaddr_of_def split: if_splits)
  have l: "length sa = 28" using assms(3) t by (simp add: sizeof_def)
  show ?thesis
    using read_conn_state_fields [OF assms(1,5,6), of sa] False l assms(3,4)
    by (simp add: t sockaddr_fields put_at_def)
qed

definition ex_sa6 :: bytes where
  "ex_sa6 = [10, 0, 1, 187, 0, 0, 0, 0] @ [0x20, 1, 0xd, 0xb8] @ replicate 11 0 @ [1] @ replicate 4 0"

lemma connect_reads_kernel_sockaddr_witness:
  "read_conn_state (region_env 5 7 [(64, ex_sa6)]) 64 = Some \<lparr>cs_family = 10,
     cs_addr = [0x20, 1, 0xd, 0xb8] @ replicate 11 0 @ [1], cs_port = be_u16 1 187,
     cs_hello_captured = 0, cs_open_ts_ns = 7\<rparr>"
proof -
  have 1: "sockaddr_of 10 = Some (struct_sockaddr_in6, ''sin6_family'', ''sin6_port'', ''sin6_addr'')"
    by (simp add: sockaddr_of_def AF_INET_def AF_INET6_def)
  have 2: "length ex_sa6 = sizeof struct_sockaddr_in6" by (simp add: ex_sa6_def sizeof_def)
  have 3: "region_read [(64, ex_sa6)] 64 (sizeof struct_sockaddr_in6) = Some ex_sa6"
    "region_read [(64, ex_sa6)] 64 2 = Some (field_of struct_sockaddr_in6 ''sin6_family'' ex_sa6)"
    "get_u16 0 (field_of struct_sockaddr_in6 ''sin6_family'' ex_sa6) = 10"
    by (simp_all add: region_read_def 2 [symmetric] sockaddr_fields)
      (simp_all add: ex_sa6_def seg_def get_u16_def)
  show ?thesis
    using connect_reads_kernel_sockaddr [OF region_read_ok 1 2 3, of 5 7]
    by (simp add: sockaddr_fields) (simp add: ex_sa6_def seg_def)
qed

section \<open>Records\<close>

text \<open>An object in memory: zero bytes into which the members are copied.\<close>

definition object_bytes :: "cty \<Rightarrow> (string \<times> bytes) list \<Rightarrow> bytes" where
  "object_bytes t fs =
     fold (\<lambda>(n, v) b. case member_at t n of Some (p, w) \<Rightarrow> put_at p v b | None \<Rightarrow> b) fs
       (replicate (sizeof t) 0)"

text \<open>An integer field of a Go structure, as \<open>binary.Read\<close> takes it from the bytes.\<close>

definition go_u16 :: "cty \<Rightarrow> string \<Rightarrow> bytes \<Rightarrow> u16" where
  "go_u16 t n raw = of_nat (le_dec (field_of t n raw))"
definition go_u32 :: "cty \<Rightarrow> string \<Rightarrow> bytes \<Rightarrow> u32" where
  "go_u32 t n raw = of_nat (le_dec (field_of t n raw))"
definition go_u64 :: "cty \<Rightarrow> string \<Rightarrow> bytes \<Rightarrow> u64" where
  "go_u64 t n raw = of_nat (le_dec (field_of t n raw))"
definition go_u8 :: "cty \<Rightarrow> string \<Rightarrow> bytes \<Rightarrow> u8" where
  "go_u8 t n raw = field_of t n raw ! 0"

text \<open>The fields of a Go type lie where the members of a C structure do, in this order.\<close>

definition same_layout :: "cty \<Rightarrow> cty \<Rightarrow> bool" where
  "same_layout g c \<longleftrightarrow> map snd (members g) = map snd (members c) \<and> sizeof g = sizeof c"

lemma put_at_replicate:
  "p + length v \<le> n \<Longrightarrow> put_at p v (replicate n (0 :: u8)) = replicate p 0 @ v @ replicate (n - p - length v) 0"
  by (simp add: put_at_def)

lemma put_at_append: "length xs \<le> p \<Longrightarrow> put_at p v (xs @ ys) = xs @ put_at (p - length xs) v ys"
  by (simp add: put_at_def)

lemma put_at_Cons:
  "put_at (Suc p) v (x # xs) = x # put_at p v xs"
  "put_at (numeral k) v (x # xs) = x # put_at (numeral k - 1) v xs"
  by (simp_all add: put_at_def numeral_eq_Suc)

definition event_hdr_members :: "event_hdr \<Rightarrow> (string \<times> bytes) list" where
  "event_hdr_members h =
     [(''pid'', le_enc 4 (unat (eh_pid h))), (''kind'', le_enc 4 (unat (eh_kind h))),
      (''nargs'', le_enc 4 (unat (eh_nargs h))), (''ts_ns'', le_enc 8 (unat (eh_ts_ns h))),
      (''exit_code'', le_enc 4 (unat (eh_exit_code h))), (''has_exit_code'', [eh_has_exit_code h]),
      (''is_toplevel'', [eh_is_toplevel h]), (''filename_len'', le_enc 4 (unat (eh_filename_len h))),
      (''args_size'', le_enc 4 (unat (eh_args_size h)))]"

definition net_event_hdr_members :: "net_event_hdr \<Rightarrow> (string \<times> bytes) list" where
  "net_event_hdr_members h =
     [(''type'', [nh_type h]), (''family'', [nh_family h]), (''port'', le_enc 2 (unat (nh_port h))),
      (''tgid'', le_enc 4 (unat (nh_tgid h))), (''tid'', le_enc 4 (unat (nh_tid h))),
      (''fd'', le_enc 4 (unat (nh_fd h))), (''ts_ns'', le_enc 8 (unat (nh_ts_ns h))), (''addr'', nh_addr h),
      (''seq'', le_enc 8 (unat (nh_seq h))), (''payload_len'', le_enc 4 (unat (nh_payload_len h)))]"

definition ssl_frame_hdr_members :: "ssl_frame_hdr \<Rightarrow> (string \<times> bytes) list" where
  "ssl_frame_hdr_members h =
     [(''tgid'', le_enc 4 (unat (sh_tgid h))), (''tid'', le_enc 4 (unat (sh_tid h))),
      (''ts_ns'', le_enc 8 (unat (sh_ts_ns h))), (''len'', le_enc 4 (unat (sh_len h)))]"

lemmas object_eval = object_bytes_def sizeof_def member_at_def member_simps put_at_replicate
  put_at_append put_at_Cons

lemma event_hdr_object: "event_hdr_bytes h = object_bytes c_event_hdr (event_hdr_members h)"
  by (simp add: object_eval event_hdr_bytes_def event_hdr_members_def del: le_enc.simps)

lemma net_event_hdr_object:
  "hdr_ok h \<Longrightarrow> net_event_hdr_bytes h = object_bytes c_net_event_hdr (net_event_hdr_members h)"
  by (simp add: object_eval net_event_hdr_bytes_def net_event_hdr_members_def hdr_ok_def del: le_enc.simps)

lemma ssl_frame_hdr_object: "ssl_frame_hdr_bytes h = object_bytes c_ssl_frame_hdr (ssl_frame_hdr_members h)"
  by (simp add: object_eval ssl_frame_hdr_bytes_def ssl_frame_hdr_members_def del: le_enc.simps)

lemma go_layouts: "list_all (\<lambda>(g, c). same_layout g c)
    [(go_bpfEventHdr, c_event_hdr), (go_bpfProcInfo, c_proc_info), (go_bpfNetEventHdr, c_net_event_hdr),
     (go_bpfConnKey, c_conn_key), (go_bpfConnState, c_conn_state), (go_tlsbpfSslFrameHdr, c_ssl_frame_hdr)]"
  by (simp add: same_layout_def sizeof_def member_simps)

text \<open>The decoders of the model, with the offsets of the Go types.\<close>

definition go_event_hdr :: "bytes \<Rightarrow> event_hdr" where
  "go_event_hdr raw =
     (let g = go_bpfEventHdr in
      \<lparr>eh_pid = go_u32 g ''Pid'' raw, eh_kind = go_u32 g ''Kind'' raw, eh_nargs = go_u32 g ''Nargs'' raw,
       eh_ts_ns = go_u64 g ''TsNs'' raw, eh_exit_code = go_u32 g ''ExitCode'' raw,
       eh_has_exit_code = go_u8 g ''HasExitCode'' raw, eh_is_toplevel = go_u8 g ''IsToplevel'' raw,
       eh_filename_len = go_u32 g ''FilenameLen'' raw, eh_args_size = go_u32 g ''ArgsSize'' raw\<rparr>)"

definition go_net_event_hdr :: "bytes \<Rightarrow> net_event_hdr" where
  "go_net_event_hdr raw =
     (let g = go_bpfNetEventHdr in
      \<lparr>nh_type = go_u8 g ''Type'' raw, nh_family = go_u8 g ''Family'' raw, nh_port = go_u16 g ''Port'' raw,
       nh_tgid = go_u32 g ''Tgid'' raw, nh_tid = go_u32 g ''Tid'' raw, nh_fd = go_u32 g ''Fd'' raw,
       nh_ts_ns = go_u64 g ''TsNs'' raw, nh_addr = field_of g ''Addr'' raw, nh_seq = go_u64 g ''Seq'' raw,
       nh_payload_len = go_u32 g ''PayloadLen'' raw\<rparr>)"

lemmas go_eval = go_u8_def go_u16_def go_u32_def go_u64_def field_of_def member_at_def member_simps

lemma seg_byte:
  "i < length raw \<Longrightarrow> seg i (Suc 0) raw ! 0 = raw ! i"
  "raw \<noteq> [] \<Longrightarrow> seg 0 (Suc 0) raw ! 0 = raw ! 0"
  by (simp_all add: seg_def)

lemma go_event_hdr_eq: "40 \<le> length raw \<Longrightarrow> binary_Read_hdr raw = go_event_hdr raw"
  by (simp add: go_event_hdr_def binary_Read_hdr_def read_u32_def read_u64_def Let_def go_eval seg_byte)

lemma go_net_event_hdr_eq: "56 \<le> length raw \<Longrightarrow> net_hdr_of_bytes raw = go_net_event_hdr raw"
  by (cases "raw = []") (simp_all add: go_net_event_hdr_def net_hdr_of_bytes_def get_u16_def get_u32_def get_u64_def Let_def go_eval
      seg_byte)

text \<open>
  C30. The kernel programs and their Go readers agree on every record: the bytes a program sends are
  the C object with its members at the offsets of the ABI and zero padding; the types \<open>bpf2go\<close>
  generated put every field, read without alignment, at the offset and width of the C member; and
  the decoders of the model read the fields at the offsets of the Go types.
\<close>

theorem wire_layouts_agree:
  assumes "length (nh_addr n) = 16" "sizeof go_bpfEventHdr \<le> length raw1" "sizeof go_bpfNetEventHdr \<le> length raw2"
  shows "event_hdr_bytes h = object_bytes c_event_hdr (event_hdr_members h) \<and>
    net_event_hdr_bytes n = object_bytes c_net_event_hdr (net_event_hdr_members n) \<and>
    ssl_frame_hdr_bytes f = object_bytes c_ssl_frame_hdr (ssl_frame_hdr_members f) \<and>
    list_all (\<lambda>(g, c). same_layout g c)
      [(go_bpfEventHdr, c_event_hdr), (go_bpfProcInfo, c_proc_info), (go_bpfNetEventHdr, c_net_event_hdr),
       (go_bpfConnKey, c_conn_key), (go_bpfConnState, c_conn_state), (go_tlsbpfSslFrameHdr, c_ssl_frame_hdr)] \<and>
    binary_Read_hdr raw1 = go_event_hdr raw1 \<and> net_hdr_of_bytes raw2 = go_net_event_hdr raw2"
proof -
  have "40 \<le> length raw1" "56 \<le> length raw2" using assms(2,3) by (simp_all add: sizeof_def member_simps)
  moreover have "hdr_ok n" using assms(1) by (simp add: hdr_ok_def)
  ultimately show ?thesis
    using event_hdr_object net_event_hdr_object ssl_frame_hdr_object go_layouts go_event_hdr_eq
      go_net_event_hdr_eq by blast
qed

theorem wire_layouts_agree_witness:
  "eh_kind (go_event_hdr (replicate 4 0 @ [1, 0, 0, 0] @ replicate 48 0)) = 1 \<and>
   length (object_bytes c_net_event_hdr (net_event_hdr_members (ne_hdr zero_net_event))) = 56"
proof -
  let ?raw = "replicate 4 0 @ [1, 0, 0, 0] @ replicate 48 0 :: bytes"
  have 1: "length (nh_addr (ne_hdr zero_net_event)) = 16" by (simp add: zero_net_event_def)
  have 2: "sizeof go_bpfEventHdr \<le> length ?raw" "sizeof go_bpfNetEventHdr \<le> length ?raw"
    by (simp_all add: sizeof_def member_simps)
  note w = wire_layouts_agree [OF 1 2]
  have "binary_Read_hdr ?raw = go_event_hdr ?raw"
    "net_event_hdr_bytes (ne_hdr zero_net_event) = object_bytes c_net_event_hdr (net_event_hdr_members (ne_hdr zero_net_event))"
    using w by blast+
  moreover have "eh_kind (binary_Read_hdr ?raw) = 1" by (simp add: binary_Read_hdr_def read_u32_def seg_def)
  moreover have "length (net_event_hdr_bytes (ne_hdr zero_net_event)) = 56"
    by (simp add: net_event_hdr_bytes_def zero_net_event_def)
  ultimately show ?thesis by metis
qed

end
