(* ===== verification/Spec2Isabelle.thy ===== *)
theory Spec2Isabelle
  imports Prelude Models Matching Verification Bpf Proc_Bpf Proc_Safety Proc_Observer Net_Bpf Net_Safety Tls_Bpf Client_Hello
    Http_Correlator Tls_Offset Fanotify Fs_Observer Probe_Interface Probe_Life Proc_Life Fs_Life Net_Life
    Cmd_Verify Cmd_Simagent Cmd_Watch Kernel_Table Probe_Layout
begin

text \<open>
  A verification library for agent-trace.

  \<^bold>\<open>The program.\<close> agent-trace watches an agent from outside and compares what the agent says it
  did (a trajectory) with what probes saw (the ground truth). Probes in the kernel (eBPF programs in
  \<open>src/pkg/probe/proc/proc.bpf.c\<close>, \<open>src/pkg/probe/net/net.bpf.c\<close> and \<open>tls.bpf.c\<close>) send records through
  ring buffers; an observer per probe (\<open>observer.go\<close> beside each) decodes them and turns them into
  events of \<open>src/pkg/models\<close>; \<open>src/pkg/verification\<close> pairs events with trajectory entries and gives
  a verdict, using \<open>src/pkg/matching\<close> to decide which may be paired. A third probe, \<open>src/pkg/probe/fs\<close>, reads
  file events from fanotify. Three commands tie this together: \<open>src/cmd/watch\<close> runs the probes around an
  agent and writes the ground truth, \<open>src/cmd/verify\<close> compares it with a trajectory, and
  \<open>src/cmd/simagent\<close> is an agent that can be told to lie.

  \<^bold>\<open>Theories and sources.\<close>

  \<^item> \<open>Prelude\<close>: machine integers (\<open>u8\<close> to \<open>s64\<close> are words of their width), bytes, little-endian
    encodings, buffers, hint collections.
  \<^item> \<open>Models\<close>: \<open>models.go\<close>, \<open>action.go\<close>, \<open>nettarget.go\<close>: entries and events as records, validation,
    parsing (decoding JSON is an argument), time with the saturation of \<open>Time.Sub\<close> and the wrap-around
    of its negation.
  \<^item> \<open>Matching\<close>, \<open>Verification\<close>: \<open>matching.go\<close> and \<open>verification.go\<close>. The greedy assignment of \<open>Verify\<close>
    is an interpretation of the locale \<open>one_to_one\<close>, a contract for assigning entries to events.
  \<^item> \<open>Bpf\<close>: the eBPF platform. The state of a program is the record of its maps; what helpers
    return (time, task, user memory, room in the ring buffer) is a record \<open>bpf_env\<close> per call, with the
    documented contracts \<open>read_user_ok\<close> and \<open>read_user_str_ok\<close>. The locale \<open>bpf_hash\<close> is the contract of a
    hash map, interpreted by the map of the model.
  \<^item> \<open>Proc_Bpf\<close>, \<open>Proc_Safety\<close>: the four programs of \<open>proc.bpf.c\<close>, one definition per program, and what
    holds of every run over them. \<open>Proc_Observer\<close>: \<open>probe/proc/observer.go\<close>.
  \<^item> \<open>Net_Bpf\<close>, \<open>Net_Safety\<close>: the programs of \<open>net.bpf.c\<close>; \<open>Tls_Bpf\<close>: those of \<open>tls.bpf.c\<close>, as a
    refinement of an abstract probe that has a table of processes, a list of frames and a count of faults.
  \<^item> \<open>Client_Hello\<close>: \<open>tlsparse/clienthello.go\<close>. \<open>Http1\<close>: \<open>tlsparse/http1.go\<close> and \<open>stream.go\<close>, with the
    header reader of \<open>net/textproto\<close>. \<open>Http_Wire\<close>: the wire format of requests and the round trip.
  \<^item> \<open>Net_Observer\<close>: the connection side of \<open>probe/net/observer.go\<close>; \<open>Http_Correlator\<close>: \<open>correlator.go\<close>,
    the feed of frames and the validation of candidates. \<open>Content\<close>: \<open>content/hash.go\<close> over SHA-256.
  \<^item> \<open>Tls_Offset\<close>: \<open>tlsoffset/scan.go\<close> and \<open>cache.go\<close>.
  \<^item> \<open>Fanotify\<close>: \<open>probe/fs/fanotify.go\<close>, the records of a fanotify buffer. \<open>Fs_Observer\<close>: \<open>probe/fs/observer.go\<close>;
    a raw event comes with what the kernel answers when it is handled (descriptors, inode), a settle check
    with the time, the digest read and what is queued when the read ends. Events are
    made in one goroutine, so its lock has no counterpart.
  \<^item> \<open>Probe_Interface\<close>: the interface of \<open>probe/probe.go\<close> as the locale \<open>ground_truth_probe\<close>: what a probe delivers
    passes the validation of the ground truth. Each observer interprets it in its theory, and \<open>Cmd_Watch\<close> interprets
    \<open>probe_pair\<close> on the probes it runs side by side.
  \<^item> \<open>Probe_Life\<close>, \<open>Proc_Life\<close>, \<open>Fs_Life\<close>, \<open>Net_Life\<close>: the life of the observers. \<open>New\<close> is a sequence of calls that
    may fail, with the trace of what it opened and closed. The goroutines, their channels, the consumer and the calls of \<open>Start\<close>
    and \<open>Stop\<close> are step relations (\<open>po_step\<close>, \<open>fs_step\<close>, \<open>life_step\<close> for what the observer does itself, \<open>po_call_step\<close>,
    \<open>fs_call_step\<close>, \<open>net_call_step\<close> for what comes from outside); every interleaving is a path. The locale \<open>shutdown\<close>,
    interpreted by all three, is the contract under which stopping ends.
  \<^item> \<open>Cmd_Verify\<close>, \<open>Cmd_Simagent\<close>, \<open>Cmd_Watch\<close>: the \<open>main.go\<close> of the commands after flag parsing. The
    recorder is a trace of its calls on the probes, whose components are the theories above.
  \<^item> \<open>C_Layout\<close>: object layout under the System V ABI. \<open>Kernel_Events\<close>, \<open>Kernel_Bpf\<close>, \<open>Kernel_Task\<close>,
    \<open>Kernel_Net\<close>, \<open>Kernel_Fs\<close>, \<open>Kernel_Table\<close>: declarations of \<open>vmlinux.h\<close> (the two copies in the
    repository are the same): those behind the contexts, system call arguments and user structures of the
    programs, behind eBPF maps and ring buffers, tasks, sockets and files, and whatever these
    contain by value. \<open>Probe_Layout\<close>: the structures the programs and the Go readers declare by hand,
    compared with them.

  \<^bold>\<open>What is shown.\<close> Verdicts: every entry and every top-level event ends in exactly one class, no event is
  used twice, Faithful means a one-to-one correspondence in which all details agree, honest
  trajectories are Faithful, fabrication and omission are detected. Probes: over any sequence of calls the
  records are well formed, in scope, and in the order of the protocol the observers expect; what a
  process does reaches the consumer as exactly the event that describes it (an exec, an exit, a
  connection, a request, a written file), through the bytes on the ring buffer or of the fanotify read; a
  close is reported once, and with a digest only if nothing wrote the file meanwhile. Observers: under every
  interleaving the consumer receives what the sequential reading of the same records gives, in order,
  nothing is sent on a closed channel, and \<open>Stop\<close> ends with every event passed on and everything closed; a failing
  \<open>New\<close> closes what it opened but for the links the theorems name. Commands: probes are started and stopped
  exactly once, the agent is in scope from its launch, a recording without error, of what observers built by
  their constructors delivered, followed by an honest report makes \<open>verify\<close> exit with 0, and the simulated
  attacks do not. Parsers: round trips, cut at any point. Layouts: hand-written and
  generated declarations agree with the kernel's. Where the code does not do what it means to, the theorem states what it does.

  \<^bold>\<open>Bounds and fuel.\<close> The argument loop of \<open>handle_execve\<close> is bounded by \<open>MAX_ARGS\<close> as in the source;
  the extension loops of the ClientHello parser recurse on a cursor that each step advances; the loops of
  the HTTP parser, of the frame loop and of the scan terminate because each step shortens the
  stream or lowers the position; the loops over a fanotify buffer because each record has at least its
  header. No loop has an artificial bound.

  \<^bold>\<open>Parameters.\<close> The bodies of \<open>json.Unmarshal\<close> and \<open>MarshalIndent\<close>, user memory, room in ring buffers and
  channels, file contents, what \<open>debug/elf\<close> reads of an executable, the readings of the two clocks, and
  which of the calls into libraries and the kernel fail. Where Go leaves the order of a map iteration open,
  the model either takes the order of a list, where only ties depend on it, or any order, as an argument
  (the settle checks of the filesystem observer). Strings are lists of bytes; \<open>strings.ToLower\<close> is modelled on ASCII.

  \<^bold>\<open>Not modelled.\<close> What happens inside the calls of the eBPF library and of the kernel (loading, attaching,
  ring buffers, fanotify, poll): to the observers they succeed, fail or give the next record; flag parsing and
  progress messages of the commands, and the actions of the simulated agent in the world (its reports are
  modelled); the declarations of \<open>vmlinux.h\<close> that none of the programs concerns, about 160000 lines generated
  from a kernel.
\<close>

end
